(* ===== verification/Prelude.thy ===== *)
theory Prelude
  imports Main "HOL-Library.Option_ord"
begin

text \<open>
  Shared vocabulary of the development: the relational operations that the
  services issue through the ORM (first matching row, conditional update with
  its row count, delete), an optional value with a default, transition systems
  with their reachable states, and the interface of optimistic concurrency
  (a revision that a conditional update checks and advances).
\<close>

named_theorems sql_simps \<open>row-level facts of the table operations\<close>
named_theorems step_defs \<open>definitions that unfold one step of a machine\<close>

type_synonym 'r table = "'r list"
type_synonym instant = int \<comment> \<open>a UTC datetime, in microseconds\<close>

subsection \<open>Values with a default\<close>

fun or_else :: "'a option \<Rightarrow> 'a \<Rightarrow> 'a" where
  "or_else None d = d"
| "or_else (Some x) d = x"

lemma or_else_cases: "or_else m d = d \<or> m = Some (or_else m d)"
  by (cases m) auto

subsection \<open>Table operations\<close>

definition select_first :: "('r \<Rightarrow> bool) \<Rightarrow> 'r table \<Rightarrow> 'r option" where
  "select_first p rows = find p rows"

definition row_count :: "('r \<Rightarrow> bool) \<Rightarrow> 'r table \<Rightarrow> nat" where
  "row_count p rows = length (filter p rows)"

definition update_rows :: "('r \<Rightarrow> bool) \<Rightarrow> ('r \<Rightarrow> 'r) \<Rightarrow> 'r table \<Rightarrow> 'r table" where
  "update_rows p f rows = map (\<lambda>r. if p r then f r else r) rows"

definition delete_rows :: "('r \<Rightarrow> bool) \<Rightarrow> 'r table \<Rightarrow> 'r table" where
  "delete_rows p rows = filter (\<lambda>r. \<not> p r) rows"

text \<open>The ids of a table are a primary key: no two rows carry the same one.\<close>

definition unique_by :: "('r \<Rightarrow> 'k) \<Rightarrow> 'r table \<Rightarrow> bool" where
  "unique_by key rows \<longleftrightarrow> distinct (map key rows)"

lemma select_first_Some:
  "select_first p rows = Some r \<Longrightarrow> r \<in> set rows \<and> p r"
  by (auto simp: select_first_def find_Some_iff)

lemma select_first_None: "select_first p rows = None \<longleftrightarrow> (\<forall>r \<in> set rows. \<not> p r)"
  by (auto simp: select_first_def find_None_iff)

lemma select_first_Nil [simp]: "select_first p [] = None"
  by (simp add: select_first_def)

lemma select_first_Cons [simp]:
  "select_first p (r # rows) = (if p r then Some r else select_first p rows)"
  by (simp add: select_first_def)

lemma select_first_appended:
  "\<forall>x \<in> set rows. \<not> p x \<Longrightarrow> p r \<Longrightarrow> select_first p (rows @ [r]) = Some r"
  by (induction rows) auto

lemma row_count_0: "row_count p rows = 0 \<longleftrightarrow> (\<forall>r \<in> set rows. \<not> p r)"
  by (auto simp: row_count_def filter_empty_conv)

lemma row_count_simps [simp]:
  "row_count p [] = 0"
  "row_count p (r # rows) = (if p r then Suc (row_count p rows) else row_count p rows)"
  by (simp_all add: row_count_def)

lemma row_count_append [simp]: "row_count p (xs @ ys) = row_count p xs + row_count p ys"
  by (simp add: row_count_def)

lemma row_count_pos_exists: "row_count p rows = Suc n \<Longrightarrow> \<exists>r \<in> set rows. p r"
  by (metis nat.distinct(1) row_count_0)

lemma update_rows_simps [simp]:
  "update_rows p f [] = []"
  "update_rows p f (r # rows) = (if p r then f r else r) # update_rows p f rows"
  by (simp_all add: update_rows_def)

lemma length_update_rows [simp]: "length (update_rows p f rows) = length rows"
  by (simp add: update_rows_def)

lemma set_update_rows:
  "set (update_rows p f rows) = f ` {r \<in> set rows. p r} \<union> {r \<in> set rows. \<not> p r}"
  by (auto simp: update_rows_def)

lemma update_rows_member: "r \<in> set rows \<Longrightarrow> (if p r then f r else r) \<in> set (update_rows p f rows)"
  by (auto simp: update_rows_def)

lemma update_rows_cases [consumes 1, case_names updated kept]:
  assumes "s \<in> set (update_rows p f rows)"
  obtains r where "r \<in> set rows" "p r" "s = f r" | "s \<in> set rows" "\<not> p s"
  using assms by (auto simp: set_update_rows)

lemma update_rows_all:
  assumes "\<forall>r \<in> set rows. P r" and "\<And>r. p r \<Longrightarrow> P r \<Longrightarrow> P (f r)"
  shows "\<forall>r \<in> set (update_rows p f rows). P r"
  using assms by (induction rows) auto

lemma update_rows_none: "\<forall>r \<in> set rows. \<not> p r \<Longrightarrow> update_rows p f rows = rows"
  by (induction rows) auto

lemma map_update_rows:
  assumes "\<And>r. p r \<Longrightarrow> key (f r) = key r"
  shows "map key (update_rows p f rows) = map key rows"
  using assms by (induction rows) auto

lemma unique_by_update:
  assumes "\<And>r. p r \<Longrightarrow> key (f r) = key r" and "unique_by key rows"
  shows "unique_by key (update_rows p f rows)"
  using assms by (simp add: unique_by_def map_update_rows)

lemma unique_byD:
  assumes "unique_by key rows" and "r \<in> set rows" and "r' \<in> set rows" and "key r = key r'"
  shows "r = r'"
  using assms by (auto simp: unique_by_def distinct_map inj_on_def)

lemma unique_by_append1:
  "unique_by key (rows @ [r]) \<longleftrightarrow> unique_by key rows \<and> key r \<notin> key ` set rows"
  by (auto simp: unique_by_def)

lemma unique_by_delete: "unique_by key rows \<Longrightarrow> unique_by key (delete_rows p rows)"
  by (auto simp: unique_by_def delete_rows_def distinct_map_filter)

lemma unique_row_count:
  assumes "unique_by key rows"
  shows "row_count (\<lambda>r. key r = k \<and> p r) rows \<le> 1"
  using assms
proof (induction rows)
  case Nil
  then show ?case by simp
next
  case (Cons r rows)
  have "row_count (\<lambda>r. key r = k \<and> p r) rows = 0" if "key r = k"
    using Cons.prems that by (auto simp: row_count_0 unique_by_def image_iff)
  with Cons show ?case by (auto simp: unique_by_def)
qed

lemma select_first_unique:
  assumes "unique_by key rows" and "r \<in> set rows" and "key r = k"
  shows "select_first (\<lambda>r. key r = k) rows = Some r"
  using assms
proof (induction rows)
  case Nil
  then show ?case by simp
next
  case (Cons r' rows)
  then show ?case by (auto simp: unique_by_def)
qed

lemma select_first_update:
  assumes "\<And>r. p r \<Longrightarrow> q (f r) \<longleftrightarrow> q r"
  shows "select_first q (update_rows p f rows)
    = map_option (\<lambda>r. if p r then f r else r) (select_first q rows)"
  using assms by (induction rows) auto

lemma set_delete_rows [simp]: "set (delete_rows p rows) = {r \<in> set rows. \<not> p r}"
  by (auto simp: delete_rows_def)

lemma delete_rows_simps [simp]:
  "delete_rows p [] = []"
  "delete_rows p (r # rows) = (if p r then delete_rows p rows else r # delete_rows p rows)"
  by (simp_all add: delete_rows_def)

lemma row_count_delete_same [simp]: "row_count p (delete_rows p rows) = 0"
  by (simp add: row_count_0)

lemma row_count_mono: "(\<And>r. r \<in> set rows \<Longrightarrow> p r \<Longrightarrow> q r) \<Longrightarrow> row_count p rows \<le> row_count q rows"
  by (induction rows) (auto simp: le_Suc_eq)

lemma row_count_delete_le: "row_count q (delete_rows p rows) \<le> row_count q rows"
  by (induction rows) auto

lemmas table_defs = select_first_def row_count_def update_rows_def delete_rows_def

subsection \<open>Transition systems\<close>

text \<open>
  The states that a machine reaches when its environment picks the events: a
  step function that returns \<open>None\<close> where the event is not enabled.
\<close>

inductive reach :: "('s \<Rightarrow> bool) \<Rightarrow> ('s \<Rightarrow> 'e \<Rightarrow> 's option) \<Rightarrow> 's \<Rightarrow> bool"
  for init :: "'s \<Rightarrow> bool" and step :: "'s \<Rightarrow> 'e \<Rightarrow> 's option" where
  reach_init: "init s \<Longrightarrow> reach init step s"
| reach_step: "reach init step s \<Longrightarrow> step s e = Some t \<Longrightarrow> reach init step t"

fun run_events :: "('s \<Rightarrow> 'e \<Rightarrow> 's option) \<Rightarrow> 's \<Rightarrow> 'e list \<Rightarrow> 's option" where
  "run_events step s [] = Some s"
| "run_events step s (e # es) = Option.bind (step s e) (\<lambda>t. run_events step t es)"

lemma run_events_reach:
  "reach init step s \<Longrightarrow> run_events step s es = Some t \<Longrightarrow> reach init step t"
proof (induction es arbitrary: s)
  case Nil
  then show ?case by simp
next
  case (Cons e es)
  then obtain u where "step s e = Some u" "run_events step u es = Some t"
    by (auto simp: bind_eq_Some_conv)
  with Cons show ?case by (blast intro: reach_step)
qed

text \<open>The interface of an inductive invariant: it holds at the start and every step keeps it.\<close>

locale invariant_of =
  fixes init :: "'s \<Rightarrow> bool" and step :: "'s \<Rightarrow> 'e \<Rightarrow> 's option" and inv :: "'s \<Rightarrow> bool"
  assumes init_inv: "init s \<Longrightarrow> inv s"
    and step_inv: "inv s \<Longrightarrow> step s e = Some t \<Longrightarrow> inv t"
begin

lemma reach_inv: "reach init step s \<Longrightarrow> inv s"
  by (induction rule: reach.induct) (auto intro: init_inv step_inv)

lemma run_inv: "inv s \<Longrightarrow> run_events step s es = Some t \<Longrightarrow> inv t"
  by (induction es arbitrary: s) (auto simp: bind_eq_Some_conv intro: step_inv)

end

text \<open>
  The interface of a fact that, once it holds of a record, no admissible
  operation undoes: a spent credential, a revoked grant, a closed request.
\<close>

locale lasting_fact =
  fixes good :: "'db \<Rightarrow> bool" and holds :: "'c \<Rightarrow> 'db \<Rightarrow> bool"
    and step :: "'e \<Rightarrow> 'db \<Rightarrow> 'db" and harmless :: "'c \<Rightarrow> 'e \<Rightarrow> bool"
  assumes keeps_good: "good db \<Longrightarrow> good (step e db)"
    and keeps_fact: "good db \<Longrightarrow> holds c db \<Longrightarrow> harmless c e \<Longrightarrow> holds c (step e db)"
begin

lemma good_run: "good db \<Longrightarrow> good (fold step es db)"
  by (induction es arbitrary: db) (auto intro: keeps_good)

lemma lasts:
  "good db \<Longrightarrow> holds c db \<Longrightarrow> \<forall>e \<in> set es. harmless c e \<Longrightarrow> holds c (fold step es db)"
  by (induction es arbitrary: db) (auto intro: keeps_good keeps_fact)

end

subsection \<open>Optimistic concurrency\<close>

text \<open>
  Several services guard a row by a revision: the caller names the revision it
  has read, one conditional update checks it and advances it by one, and a
  refused update changes nothing. The locale states that contract once. Its
  lemmas are what the callers rely on: the revision of a record never goes
  back, and of all the writers that read the same revision at most one wins.
\<close>

locale revision_cas =
  fixes rev_of :: "'db \<Rightarrow> 'k \<Rightarrow> int option"
    and cas :: "'db \<Rightarrow> 'k \<Rightarrow> int \<Rightarrow> 'v \<Rightarrow> 'db option"
    and good :: "'db \<Rightarrow> bool"
  assumes cas_expected: "good db \<Longrightarrow> cas db k e v = Some db' \<Longrightarrow> rev_of db k = Some e"
    and cas_advances: "good db \<Longrightarrow> cas db k e v = Some db' \<Longrightarrow> rev_of db' k = Some (e + 1)"
    and cas_frame: "good db \<Longrightarrow> cas db k e v = Some db' \<Longrightarrow> k' \<noteq> k \<Longrightarrow> rev_of db' k' = rev_of db k'"
    and cas_good: "good db \<Longrightarrow> cas db k e v = Some db' \<Longrightarrow> good db'"
begin

fun replay :: "'db \<Rightarrow> ('k \<times> int \<times> 'v) list \<Rightarrow> 'db" where
  "replay db [] = db"
| "replay db ((k, e, v) # ws) =
     (case cas db k e v of None \<Rightarrow> replay db ws | Some db' \<Rightarrow> replay db' ws)"

fun wins :: "'db \<Rightarrow> ('k \<times> int \<times> 'v) list \<Rightarrow> ('k \<times> int) list" where
  "wins db [] = []"
| "wins db ((k, e, v) # ws) =
     (case cas db k e v of None \<Rightarrow> wins db ws | Some db' \<Rightarrow> (k, e) # wins db' ws)"

lemma cas_mono:
  assumes "good db" and "cas db k e v = Some db'" and "rev_of db j = Some r"
  shows "\<exists>r'. rev_of db' j = Some r' \<and> r \<le> r'"
  using assms cas_expected [of db k e v db'] cas_advances [of db k e v db']
    cas_frame [of db k e v db' j]
  by (cases "j = k") auto

lemma replay_mono:
  "good db \<Longrightarrow> rev_of db j = Some r \<Longrightarrow> \<exists>r'. rev_of (replay db ws) j = Some r' \<and> r \<le> r'"
proof (induction db ws arbitrary: r rule: replay.induct)
  case (1 db)
  then show ?case by auto
next
  case (2 db k e v ws)
  show ?case
  proof (cases "cas db k e v")
    case None
    with 2 show ?thesis by auto
  next
    case (Some db')
    from cas_mono [OF \<open>good db\<close> Some 2(4)] obtain r1
      where r1: "rev_of db' j = Some r1" "r \<le> r1" by auto
    from cas_good [OF \<open>good db\<close> Some] have "good db'" .
    from "2.IH"(2) [OF Some this r1(1)] r1(2) Some show ?thesis by force
  qed
qed

lemma wins_not_below:
  "good db \<Longrightarrow> rev_of db k = Some r \<Longrightarrow> (k, e) \<in> set (wins db ws) \<Longrightarrow> r \<le> e"
proof (induction db ws arbitrary: r rule: wins.induct)
  case (1 db)
  then show ?case by simp
next
  case (2 db j d v ws)
  show ?case
  proof (cases "cas db j d v")
    case None
    with 2 show ?thesis by auto
  next
    case (Some db')
    note good' = cas_good [OF \<open>good db\<close> Some]
    from cas_mono [OF \<open>good db\<close> Some 2(4)] obtain r1
      where r1: "rev_of db' k = Some r1" "r \<le> r1" by auto
    show ?thesis
    proof (cases "(k, e) = (j, d)")
      case True
      with cas_expected [OF \<open>good db\<close> Some] 2(4) show ?thesis by simp
    next
      case False
      with 2(5) Some have "(k, e) \<in> set (wins db' ws)" by auto
      with "2.IH"(2) [OF Some good' r1(1)] r1(2) show ?thesis by simp
    qed
  qed
qed

theorem at_most_one_winner: "good db \<Longrightarrow> distinct (wins db ws)"
proof (induction db ws rule: wins.induct)
  case (1 db)
  then show ?case by simp
next
  case (2 db k e v ws)
  show ?case
  proof (cases "cas db k e v")
    case None
    with 2 show ?thesis by simp
  next
    case (Some db')
    note good' = cas_good [OF \<open>good db\<close> Some]
    have "(k, e) \<notin> set (wins db' ws)"
      using wins_not_below [OF good' cas_advances [OF \<open>good db\<close> Some], of e] by force
    with 2 Some good' show ?thesis by simp
  qed
qed

lemma second_writer_loses:
  assumes "good db" and "cas db k e v = Some db'"
  shows "cas db' k e v' = None"
proof (cases "cas db' k e v'")
  case (Some db'')
  from cas_expected [OF cas_good [OF assms] Some] cas_advances [OF assms] show ?thesis by simp
qed

end

end
