(* ===== verification/CircuitBreaker.thy ===== *)
theory CircuitBreaker
  imports Prelude Complex_Main
begin

text \<open>
  The circuit breaker of \<open>backend/providers/circuit_breaker.py\<close>: its three
  states, the admission of a call under the lock, the two completions, the
  manual reset and the registry of breakers by service name.

  The lock is held only around the bookkeeping, never while the guarded
  operation runs, so the calls that are in flight interleave freely with new
  admissions. The machine below keeps, beside the breaker, the
  \<open>was_half_open\<close> flag of every call in flight. Clock readings are rationals
  (seconds of \<open>time.monotonic\<close>); the two readings of one admission are kept
  apart, since the code reads the clock twice.
\<close>

subsection \<open>The breaker\<close>

datatype circuit_state = CLOSED | OPEN | HALF_OPEN

record breaker =
  cb_service :: string
  failure_threshold :: int
  recovery_seconds :: rat
  cb_state :: circuit_state
  failure_count :: int
  last_failure_time :: rat

definition new_breaker :: "string \<Rightarrow> int \<Rightarrow> rat \<Rightarrow> breaker" where
  "new_breaker service threshold recovery =
     \<lparr>cb_service = service, failure_threshold = threshold, recovery_seconds = recovery,
      cb_state = CLOSED, failure_count = 0, last_failure_time = 0\<rparr>"

record circuit_open_error =
  err_service :: string
  retry_after :: rat

definition maybe_transition_to_half_open :: "rat \<Rightarrow> breaker \<Rightarrow> breaker" where
  "maybe_transition_to_half_open now b =
     (if cb_state b = OPEN \<and> now - last_failure_time b \<ge> recovery_seconds b
      then b\<lparr>cb_state := HALF_OPEN\<rparr> else b)"

text \<open>The first critical section of \<open>call\<close>: an error, or the flag \<open>was_half_open\<close>.\<close>

definition admit_call ::
  "rat \<Rightarrow> rat \<Rightarrow> breaker \<Rightarrow> breaker \<times> (circuit_open_error + bool)" where
  "admit_call now1 now2 b =
     (let b1 = maybe_transition_to_half_open now1 b in
      if cb_state b1 = OPEN
      then (b1, Inl \<lparr>err_service = cb_service b1,
                     retry_after = max 0 (recovery_seconds b1 - (now2 - last_failure_time b1))\<rparr>)
      else (b1, Inr (cb_state b1 = HALF_OPEN)))"

definition on_failure :: "rat \<Rightarrow> bool \<Rightarrow> breaker \<Rightarrow> breaker" where
  "on_failure now was_half_open b =
     (let b1 = b\<lparr>failure_count := failure_count b + 1, last_failure_time := now\<rparr> in
      if was_half_open \<or> failure_count b1 \<ge> failure_threshold b1
      then b1\<lparr>cb_state := OPEN\<rparr> else b1)"

definition on_success :: "breaker \<Rightarrow> breaker" where
  "on_success b = b\<lparr>cb_state := CLOSED, failure_count := 0\<rparr>"

definition reset_breaker :: "breaker \<Rightarrow> breaker" where
  "reset_breaker b = b\<lparr>cb_state := CLOSED, failure_count := 0, last_failure_time := 0\<rparr>"

text \<open>
  What the guarded operation may do: return, raise an \<open>Exception\<close>, or be
  cancelled. \<open>CancelledError\<close> is no \<open>Exception\<close>, so a cancelled call runs
  neither completion.
\<close>

datatype 'a operation_outcome = Returns 'a | Raises string | Cancelled

datatype 'a call_result = Refused circuit_open_error | Result 'a | Propagated string | Aborted

fun complete_call ::
  "rat \<Rightarrow> bool \<Rightarrow> 'a operation_outcome \<Rightarrow> breaker \<Rightarrow> breaker \<times> 'a call_result" where
  "complete_call now flag (Returns v) b = (on_success b, Result v)"
| "complete_call now flag (Raises e) b = (on_failure now flag b, Propagated e)"
| "complete_call now flag Cancelled b = (b, Aborted)"

text \<open>A whole call that no other call interleaves with.\<close>

definition breaker_call ::
  "rat \<Rightarrow> rat \<Rightarrow> rat \<Rightarrow> 'a operation_outcome \<Rightarrow> breaker \<Rightarrow> breaker \<times> 'a call_result" where
  "breaker_call now1 now2 now3 outcome b =
     (case admit_call now1 now2 b of
        (b1, Inl e) \<Rightarrow> (b1, Refused e)
      | (b1, Inr flag) \<Rightarrow> complete_call now3 flag outcome b1)"

lemmas breaker_defs [step_defs] =
  maybe_transition_to_half_open_def admit_call_def on_failure_def on_success_def
  reset_breaker_def breaker_call_def Let_def

subsection \<open>Calls in flight\<close>

record breaker_system =
  sys_breaker :: breaker
  in_flight :: "bool list"

datatype breaker_event =
    Admit rat rat
  | CallReturned nat
  | CallRaised nat rat
  | CallCancelled nat
  | ManualReset

definition drop_nth :: "nat \<Rightarrow> 'a list \<Rightarrow> 'a list" where
  "drop_nth k xs = take k xs @ drop (Suc k) xs"

fun breaker_step :: "breaker_system \<Rightarrow> breaker_event \<Rightarrow> breaker_system option" where
  "breaker_step s (Admit t1 t2) =
     (case admit_call t1 t2 (sys_breaker s) of
        (b, Inl _) \<Rightarrow> Some (s\<lparr>sys_breaker := b\<rparr>)
      | (b, Inr flag) \<Rightarrow> Some (s\<lparr>sys_breaker := b, in_flight := in_flight s @ [flag]\<rparr>))"
| "breaker_step s (CallReturned k) =
     (if k < length (in_flight s)
      then Some (s\<lparr>sys_breaker := on_success (sys_breaker s), in_flight := drop_nth k (in_flight s)\<rparr>)
      else None)"
| "breaker_step s (CallRaised k t) =
     (if k < length (in_flight s)
      then Some (s\<lparr>sys_breaker := on_failure t (in_flight s ! k) (sys_breaker s),
                   in_flight := drop_nth k (in_flight s)\<rparr>)
      else None)"
| "breaker_step s (CallCancelled k) =
     (if k < length (in_flight s)
      then Some (s\<lparr>in_flight := drop_nth k (in_flight s)\<rparr>) else None)"
| "breaker_step s ManualReset = Some (s\<lparr>sys_breaker := reset_breaker (sys_breaker s)\<rparr>)"

definition breaker_init :: "breaker_system \<Rightarrow> bool" where
  "breaker_init s \<longleftrightarrow>
     (\<exists>service threshold recovery. sys_breaker s = new_breaker service threshold recovery)
     \<and> in_flight s = []"

text \<open>
  A closed breaker is below its threshold (or has just been cleared), and a
  breaker that is not closed has counted a failure.
\<close>

definition breaker_inv :: "breaker \<Rightarrow> bool" where
  "breaker_inv b \<longleftrightarrow>
     0 \<le> failure_count b
     \<and> (cb_state b = CLOSED \<longrightarrow> failure_count b = 0 \<or> failure_count b < failure_threshold b)
     \<and> (cb_state b \<noteq> CLOSED \<longrightarrow> 1 \<le> failure_count b)"

lemma breaker_inv_ops:
  "breaker_inv (new_breaker s n r)"
  "breaker_inv (on_success b)"
  "breaker_inv (reset_breaker b)"
  "breaker_inv b \<Longrightarrow> breaker_inv (on_failure t flag b)"
  "breaker_inv b \<Longrightarrow> breaker_inv (fst (admit_call t1 t2 b))"
  by (auto simp: breaker_inv_def new_breaker_def step_defs)

interpretation breaker_machine:
  invariant_of breaker_init breaker_step "\<lambda>s. breaker_inv (sys_breaker s)"
proof unfold_locales
  fix s
  assume "breaker_init s"
  then show "breaker_inv (sys_breaker s)"
    by (auto simp: breaker_init_def breaker_inv_ops)
next
  fix s e t
  assume inv: "breaker_inv (sys_breaker s)" and step: "breaker_step s e = Some t"
  show "breaker_inv (sys_breaker t)"
  proof (cases e)
    case (Admit t1 t2)
    with step breaker_inv_ops(5) [OF inv, of t1 t2] show ?thesis
      by (auto split: prod.splits sum.splits)
  qed (use inv step in \<open>auto simp: breaker_inv_ops split: if_splits\<close>)
qed

subsection \<open>Sequential trips\<close>

text \<open>A run of calls that all raise, at the given clock readings.\<close>

fun failing_calls :: "(rat \<times> rat \<times> rat) list \<Rightarrow> breaker \<Rightarrow> breaker" where
  "failing_calls [] b = b"
| "failing_calls ((t1, t2, t3) # ts) b =
     failing_calls ts (fst (breaker_call t1 t2 t3 (Raises '''' :: unit operation_outcome) b))"

lemma failing_calls_append: "failing_calls (xs @ ys) b = failing_calls ys (failing_calls xs b)"
  by (induction xs b rule: failing_calls.induct) auto

lemma failing_calls_below:
  assumes "cb_state b = CLOSED" and "failure_count b + int (length ts) < failure_threshold b"
  shows "cb_state (failing_calls ts b) = CLOSED
    \<and> failure_count (failing_calls ts b) = failure_count b + int (length ts)
    \<and> failure_threshold (failing_calls ts b) = failure_threshold b"
  using assms
proof (induction ts b rule: failing_calls.induct)
  case (1 b)
  then show ?case by simp
next
  case (2 t1 t2 t3 ts b)
  let ?b' = "fst (breaker_call t1 t2 t3 (Raises '''' :: unit operation_outcome) b)"
  have "cb_state ?b' = CLOSED" "failure_count ?b' = failure_count b + 1"
    "failure_threshold ?b' = failure_threshold b"
    using "2.prems" by (auto simp: step_defs)
  with 2 show ?case by simp
qed

subsection \<open>The registry\<close>

type_synonym breaker_registry = "(string \<times> breaker) list"

definition registry_get ::
  "string \<Rightarrow> int \<Rightarrow> rat \<Rightarrow> breaker_registry \<Rightarrow> breaker \<times> breaker_registry" where
  "registry_get service threshold recovery reg =
     (case map_of reg service of
        Some b \<Rightarrow> (b, reg)
      | None \<Rightarrow> (let b = new_breaker service threshold recovery in (b, reg @ [(service, b)])))"

fun state_value :: "circuit_state \<Rightarrow> string" where
  "state_value CLOSED = ''closed''"
| "state_value OPEN = ''open''"
| "state_value HALF_OPEN = ''half_open''"

definition all_states :: "breaker_registry \<Rightarrow> (string \<times> string) list" where
  "all_states reg = map (\<lambda>(name, b). (name, state_value (cb_state b))) reg"

definition reset_all :: "breaker_registry \<Rightarrow> breaker_registry" where
  "reset_all reg = map (\<lambda>(name, b). (name, reset_breaker b)) reg"

lemma registry_get_stable:
  "registry_get s n r reg = (b, reg') \<Longrightarrow> registry_get s n' r' reg' = (b, reg')"
  by (auto simp: registry_get_def Let_def map_add_def split: option.splits)

subsection \<open>Properties\<close>

text \<open>In every interleaving of admissions, completions, cancellations and resets, a closed
  breaker has counted fewer failures than its threshold (or none), and an open or half-open one
  has counted at least one.\<close>

lemma breaker_reachable_inv:
  assumes "reach breaker_init breaker_step s"
  shows "breaker_inv (sys_breaker s)"
  using assms by (rule breaker_machine.reach_inv)

theorem breaker_reachable_inv_witness:
  "breaker_inv (sys_breaker \<lparr>sys_breaker = new_breaker ''llm'' 5 60, in_flight = []\<rparr>)"
  by (rule breaker_reachable_inv, rule reach_init) (auto simp: breaker_init_def)

text \<open>From a fresh breaker with a positive threshold, that many failing calls in a row open it
  and no smaller number does.\<close>

lemma breaker_trips_at_threshold:
  assumes "0 < n" and "length ts \<le> n"
  shows "cb_state (failing_calls ts (new_breaker s (int n) r)) =
    (if length ts = n then OPEN else CLOSED)"
proof (cases "length ts = n")
  case False
  with assms show ?thesis
    using failing_calls_below [of "new_breaker s (int n) r" ts] by (simp add: new_breaker_def)
next
  case True
  with assms obtain us t1 t2 t3 where ts: "ts = us @ [(t1, t2, t3)]" "length us = n - 1"
    by (metis append_butlast_last_id diff_Suc_1 length_append_singleton less_numeral_extra(3)
        list.size(3) prod_cases3)
  let ?b = "failing_calls us (new_breaker s (int n) r)"
  have "cb_state ?b = CLOSED" "failure_count ?b = int (n - 1)" "failure_threshold ?b = int n"
    using failing_calls_below [of "new_breaker s (int n) r" us] ts assms
    by (auto simp: new_breaker_def)
  with True assms ts show ?thesis
    by (simp add: failing_calls_append step_defs)
qed

theorem breaker_trips_at_threshold_witness:
  "cb_state (failing_calls [(0, 0, 1), (2, 2, 3)] (new_breaker ''llm'' (int 2) 60)) = OPEN"
  using breaker_trips_at_threshold [of 2 "[(0, 0, 1), (2, 2, 3)]" "''llm''" 60] by simp

text \<open>While the recovery window of an open breaker has not elapsed, a call is refused without
  any change of the breaker, and the error asks to wait for a positive time of at most the window.\<close>

lemma open_breaker_fails_fast:
  assumes "cb_state b = OPEN" and "last_failure_time b \<le> now"
    and "now - last_failure_time b < recovery_seconds b"
  shows "\<exists>e. breaker_call now now t3 outcome b = (b, Refused e)
    \<and> err_service e = cb_service b \<and> 0 < retry_after e \<and> retry_after e \<le> recovery_seconds b"
  using assms by (auto simp: step_defs)

theorem open_breaker_fails_fast_witness:
  "\<exists>e. breaker_call 5 5 6 (Returns ())
      \<lparr>cb_service = ''llm'', failure_threshold = 1, recovery_seconds = 60,
       cb_state = OPEN, failure_count = 1, last_failure_time = 0\<rparr> =
    (\<lparr>cb_service = ''llm'', failure_threshold = 1, recovery_seconds = 60,
      cb_state = OPEN, failure_count = 1, last_failure_time = 0\<rparr>, Refused e)
    \<and> err_service e = ''llm'' \<and> 0 < retry_after e \<and> retry_after e \<le> 60"
  using open_breaker_fails_fast
    [of "\<lparr>cb_service = ''llm'', failure_threshold = 1, recovery_seconds = 60,
          cb_state = OPEN, failure_count = 1, last_failure_time = 0\<rparr>" 5 6 "Returns ()"]
  by simp

fun admissions :: "nat \<Rightarrow> rat \<Rightarrow> breaker \<Rightarrow> (circuit_open_error + bool) list" where
  "admissions 0 t b = []"
| "admissions (Suc n) t b = (case admit_call t t b of (b', r) \<Rightarrow> r # admissions n t b')"

lemma admissions_half_open: "cb_state b = HALF_OPEN \<Longrightarrow> admissions n t b = replicate n (Inr True)"
  by (induction n arbitrary: b) (auto simp: step_defs)

text \<open>Once the window has elapsed the breaker admits every call that arrives before the first
  probe completes, however many they are: the half-open state does not limit itself to one probe.\<close>

theorem half_open_admits_every_probe:
  assumes "cb_state b = OPEN" and "recovery_seconds b \<le> now - last_failure_time b"
  shows "admissions n now b = replicate n (Inr True)"
  using assms by (cases n) (auto simp: step_defs admissions_half_open)

theorem half_open_admits_every_probe_witness:
  "admissions 2 60 \<lparr>cb_service = ''llm'', failure_threshold = 1, recovery_seconds = 60,
      cb_state = OPEN, failure_count = 1, last_failure_time = 0\<rparr> = [Inr True, Inr True]"
  using half_open_admits_every_probe
    [of "\<lparr>cb_service = ''llm'', failure_threshold = 1, recovery_seconds = 60,
          cb_state = OPEN, failure_count = 1, last_failure_time = 0\<rparr>" 60 2]
  by (simp add: numeral_2_eq_2)

end
