(* ===== verification/ActivityGate.thy ===== *)
theory ActivityGate
  imports Prelude
begin

text \<open>
  The writer-priority reader/writer gate of \<open>backend/career/activity.py\<close>.

  The coroutines that use the gate are numbered, and \<open>pcs\<close> holds the point
  each has reached. Every critical section of the code runs under the
  condition's lock without another await, so it is one step; the only place
  that gives up the lock is \<open>wait_for\<close>. A waiting coroutine carries a flag
  that says whether it has been notified since it last evaluated its
  predicate: it can only re-evaluate after a notification, which is what makes
  a lost wake-up possible in principle. The maintenance lock is a plain
  \<open>asyncio.Lock\<close>; the probe and \<open>try_reader\<close> only look at whether it is held.
\<close>

subsection \<open>The gate\<close>

datatype gate_pc =
    Idle
  | ReadWait bool
  | Reading
  | WriteWait bool
  | Writing

record gate =
  readers :: nat
  writer_held :: bool
  waiting_writers :: nat
  maintenance_locked :: bool
  pcs :: "gate_pc list"

datatype gate_event =
    ReaderEnter nat
  | ReaderWake nat
  | ReaderCancel nat
  | ReaderExit nat
  | TryReader nat
  | WriterEnter nat
  | WriterWake nat
  | WriterCancel nat
  | WriterExit nat
  | MaintenanceAcquire
  | MaintenanceRelease

definition maintenance_active :: "gate \<Rightarrow> bool" where
  "maintenance_active g \<longleftrightarrow> maintenance_locked g \<or> writer_held g \<or> 0 < waiting_writers g"

definition reader_pred :: "gate \<Rightarrow> bool" where
  "reader_pred g \<longleftrightarrow> \<not> writer_held g \<and> waiting_writers g = 0"

definition writer_pred :: "gate \<Rightarrow> bool" where
  "writer_pred g \<longleftrightarrow> \<not> writer_held g \<and> readers g = 0"

definition at :: "gate \<Rightarrow> nat \<Rightarrow> gate_pc \<Rightarrow> bool" where
  "at g i p \<longleftrightarrow> i < length (pcs g) \<and> pcs g ! i = p"

definition move :: "nat \<Rightarrow> gate_pc \<Rightarrow> gate \<Rightarrow> gate" where
  "move i p g = g\<lparr>pcs := (pcs g)[i := p]\<rparr>"

fun notify_pc :: "gate_pc \<Rightarrow> gate_pc" where
  "notify_pc (ReadWait _) = ReadWait True"
| "notify_pc (WriteWait _) = WriteWait True"
| "notify_pc p = p"

definition notify_all :: "gate \<Rightarrow> gate" where
  "notify_all g = g\<lparr>pcs := map notify_pc (pcs g)\<rparr>"

text \<open>Taking and giving back the read permit.\<close>

definition enter_reading :: "nat \<Rightarrow> gate \<Rightarrow> gate" where
  "enter_reading i g = move i Reading (g\<lparr>readers := readers g + 1\<rparr>)"

definition leave_reading :: "nat \<Rightarrow> gate \<Rightarrow> gate" where
  "leave_reading i g = notify_all (move i Idle (g\<lparr>readers := readers g - 1\<rparr>))"

text \<open>The \<open>finally\<close> of the writer's wait gives up the place in the queue and notifies.\<close>

definition enter_writing :: "nat \<Rightarrow> gate \<Rightarrow> gate" where
  "enter_writing i g = notify_all (move i Writing
     (g\<lparr>writer_held := True, waiting_writers := waiting_writers g - 1\<rparr>))"

definition abandon_writing :: "nat \<Rightarrow> gate \<Rightarrow> gate" where
  "abandon_writing i g = notify_all (move i Idle (g\<lparr>waiting_writers := waiting_writers g - 1\<rparr>))"

definition leave_writing :: "nat \<Rightarrow> gate \<Rightarrow> gate" where
  "leave_writing i g = notify_all (move i Idle (g\<lparr>writer_held := False\<rparr>))"

definition queue_writer :: "nat \<Rightarrow> gate \<Rightarrow> gate" where
  "queue_writer i g =
     (let g1 = g\<lparr>waiting_writers := waiting_writers g + 1\<rparr> in
      if writer_pred g1 then enter_writing i g1 else move i (WriteWait False) g1)"

fun gate_step :: "gate \<Rightarrow> gate_event \<Rightarrow> gate option" where
  "gate_step g (ReaderEnter i) =
     (if at g i Idle
      then Some (if reader_pred g then enter_reading i g else move i (ReadWait False) g)
      else None)"
| "gate_step g (ReaderWake i) =
     (if at g i (ReadWait True)
      then Some (if reader_pred g then enter_reading i g else move i (ReadWait False) g)
      else None)"
| "gate_step g (ReaderCancel i) =
     (if at g i (ReadWait True) \<or> at g i (ReadWait False) then Some (move i Idle g) else None)"
| "gate_step g (ReaderExit i) =
     (if at g i Reading then Some (leave_reading i g) else None)"
| "gate_step g (TryReader i) =
     (if at g i Idle
      then Some (if reader_pred g \<and> \<not> maintenance_locked g then enter_reading i g else g)
      else None)"
| "gate_step g (WriterEnter i) =
     (if at g i Idle then Some (queue_writer i g) else None)"
| "gate_step g (WriterWake i) =
     (if at g i (WriteWait True)
      then Some (if writer_pred g then enter_writing i g else move i (WriteWait False) g)
      else None)"
| "gate_step g (WriterCancel i) =
     (if at g i (WriteWait True) \<or> at g i (WriteWait False)
      then Some (abandon_writing i g) else None)"
| "gate_step g (WriterExit i) =
     (if at g i Writing then Some (leave_writing i g) else None)"
| "gate_step g MaintenanceAcquire =
     (if maintenance_locked g then None else Some (g\<lparr>maintenance_locked := True\<rparr>))"
| "gate_step g MaintenanceRelease =
     (if maintenance_locked g then Some (g\<lparr>maintenance_locked := False\<rparr>) else None)"

definition new_gate :: "nat \<Rightarrow> gate" where
  "new_gate n = \<lparr>readers = 0, writer_held = False, waiting_writers = 0,
                 maintenance_locked = False, pcs = replicate n Idle\<rparr>"

definition gate_init :: "gate \<Rightarrow> bool" where
  "gate_init g \<longleftrightarrow> (\<exists>n. g = new_gate n)"

lemmas gate_defs = reader_pred_def writer_pred_def move_def enter_reading_def leave_reading_def
  enter_writing_def abandon_writing_def leave_writing_def queue_writer_def notify_all_def Let_def

subsection \<open>Counting coroutines\<close>

definition n_at :: "(gate_pc \<Rightarrow> bool) \<Rightarrow> gate_pc list \<Rightarrow> nat" where
  "n_at p xs = length (filter p xs)"

fun is_write_wait :: "gate_pc \<Rightarrow> bool" where
  "is_write_wait (WriteWait _) = True"
| "is_write_wait _ = False"

lemma n_at_update:
  assumes "i < length xs"
  shows "n_at p (xs[i := x]) + (if p (xs ! i) then 1 else 0) = n_at p xs + (if p x then 1 else 0)"
  using assms
proof (induction xs arbitrary: i)
  case Nil
  then show ?case by simp
next
  case (Cons y ys)
  then show ?case by (cases i) (auto simp: n_at_def)
qed

lemma n_at_notify:
  "n_at (\<lambda>p. p = Reading) (map notify_pc xs) = n_at (\<lambda>p. p = Reading) xs"
  "n_at (\<lambda>p. p = Writing) (map notify_pc xs) = n_at (\<lambda>p. p = Writing) xs"
  "n_at is_write_wait (map notify_pc xs) = n_at is_write_wait xs"
proof (induction xs)
  case (Cons x xs)
  { case 1 show ?case using Cons by (cases x) (auto simp: n_at_def) }
  { case 2 show ?case using Cons by (cases x) (auto simp: n_at_def) }
  { case 3 show ?case using Cons by (cases x) (auto simp: n_at_def) }
qed (auto simp: n_at_def)

lemma n_at_pos: "i < length xs \<Longrightarrow> p (xs ! i) \<Longrightarrow> 0 < n_at p xs"
  by (auto simp: n_at_def filter_empty_conv)

subsection \<open>The invariant\<close>

text \<open>The counters agree with the coroutines, and the writer excludes every reader.\<close>

definition gate_counts :: "gate \<Rightarrow> bool" where
  "gate_counts g \<longleftrightarrow>
     readers g = n_at (\<lambda>p. p = Reading) (pcs g)
     \<and> waiting_writers g = n_at is_write_wait (pcs g)
     \<and> n_at (\<lambda>p. p = Writing) (pcs g) = (if writer_held g then 1 else 0)
     \<and> (writer_held g \<longrightarrow> readers g = 0)"

text \<open>A waiter whose predicate holds has been notified.\<close>

definition no_lost_wakeup :: "gate \<Rightarrow> bool" where
  "no_lost_wakeup g \<longleftrightarrow>
     (ReadWait False \<in> set (pcs g) \<longrightarrow> \<not> reader_pred g)
     \<and> (WriteWait False \<in> set (pcs g) \<longrightarrow> \<not> writer_pred g)"

definition gate_inv :: "gate \<Rightarrow> bool" where
  "gate_inv g \<longleftrightarrow> gate_counts g \<and> no_lost_wakeup g"

lemma notify_pc_neq [simp]:
  "notify_pc p \<noteq> ReadWait False" "notify_pc p \<noteq> WriteWait False"
  by (cases p; simp)+

lemma notify_all_flags [simp]:
  "ReadWait False \<notin> set (pcs (notify_all g))" "WriteWait False \<notin> set (pcs (notify_all g))"
  by (auto simp: notify_all_def image_iff) (metis notify_pc_neq)+

lemma counts_move:
  assumes "i < length (pcs g)"
  shows "n_at p ((pcs g)[i := q]) =
    n_at p (pcs g) + (if p q then 1 else 0) - (if p (pcs g ! i) then 1 else 0)"
  using n_at_update [OF assms, of p q] by (auto split: if_splits)

lemma set_update_cases:
  "x \<in> set (xs[i := y]) \<Longrightarrow> x = y \<or> x \<in> set xs"
  using set_update_subset_insert by fastforce

lemma gate_counts_step:
  assumes "gate_counts g" and "gate_step g e = Some h"
  shows "gate_counts h"
proof -
  have pos: "i < length (pcs g) \<Longrightarrow> p (pcs g ! i) \<Longrightarrow> 0 < n_at p (pcs g)" for i p
    by (rule n_at_pos)
  show ?thesis
    using assms
    by (cases e)
       (auto simp: gate_counts_def gate_defs at_def counts_move n_at_notify
             dest: pos [where p = "\<lambda>p. p = Reading"] pos [where p = "\<lambda>p. p = Writing"]
               pos [where p = is_write_wait]
             split: if_splits)
qed

lemmas gate_moves = reader_pred_def writer_pred_def move_def enter_reading_def leave_reading_def
  enter_writing_def abandon_writing_def leave_writing_def queue_writer_def Let_def

lemma no_lost_wakeup_step:
  assumes "no_lost_wakeup g" and "gate_step g e = Some h"
  shows "no_lost_wakeup h"
  using assms
  by (cases e)
     (auto simp: gate_moves no_lost_wakeup_def at_def dest!: set_update_cases split: if_splits)

lemma gate_inv_init: "gate_init g \<Longrightarrow> gate_inv g"
  by (auto simp: gate_init_def new_gate_def gate_inv_def gate_counts_def no_lost_wakeup_def n_at_def)

interpretation gate_machine: invariant_of gate_init gate_step gate_inv
proof unfold_locales
  fix g e h
  assume "gate_inv g" and "gate_step g e = Some h"
  then show "gate_inv h"
    by (auto simp: gate_inv_def intro: gate_counts_step no_lost_wakeup_step)
qed (rule gate_inv_init)

lemma counts_exclusive:
  assumes "gate_counts g" and "at g i Writing"
  shows "readers g = 0" "writer_held g" "\<not> at g j Reading" "at g j Writing \<Longrightarrow> j = i"
proof -
  have "0 < n_at (\<lambda>p. p = Writing) (pcs g)"
    using assms(2) n_at_pos [of i "pcs g" "\<lambda>p. p = Writing"] by (simp add: at_def)
  then show w: "writer_held g" "readers g = 0"
    using assms(1) by (auto simp: gate_counts_def split: if_splits)
  show "\<not> at g j Reading"
    using w assms(1) n_at_pos [of j "pcs g" "\<lambda>p. p = Reading"] by (auto simp: gate_counts_def at_def)
  show "j = i" if "at g j Writing"
  proof (rule ccontr)
    assume "j \<noteq> i"
    have "n_at (\<lambda>p. p = Writing) ((pcs g)[i := Idle]) = 0"
      using assms w by (auto simp: gate_counts_def at_def counts_move)
    moreover have "0 < n_at (\<lambda>p. p = Writing) ((pcs g)[i := Idle])"
      using that \<open>j \<noteq> i\<close> n_at_pos [of j "(pcs g)[i := Idle]" "\<lambda>p. p = Writing"]
      by (simp add: at_def)
    ultimately show False by simp
  qed
qed

lemma waiting_writer_exists:
  assumes "gate_counts g" and "0 < waiting_writers g"
  shows "\<exists>i b. at g i (WriteWait b)"
proof -
  from assms have "filter is_write_wait (pcs g) \<noteq> []"
    by (auto simp: gate_counts_def n_at_def)
  then obtain p where "p \<in> set (pcs g)" "is_write_wait p" by (auto simp: filter_empty_conv)
  then obtain i where "i < length (pcs g)" "is_write_wait (pcs g ! i)"
    by (auto simp: in_set_conv_nth)
  then show ?thesis by (cases "pcs g ! i") (auto simp: at_def)
qed

subsection \<open>Properties\<close>

text \<open>C37: In every reachable state of the gate, a coroutine that holds the writer permit excludes
  every reader and every other writer.\<close>

theorem gate_mutual_exclusion:
  assumes "reach gate_init gate_step g" and "at g i Writing"
  shows "\<not> at g j Reading \<and> (at g j Writing \<longrightarrow> j = i) \<and> readers g = 0 \<and> writer_held g"
proof -
  have "gate_counts g"
    using gate_machine.reach_inv [OF assms(1)] by (simp add: gate_inv_def)
  from counts_exclusive [OF this assms(2)] show ?thesis by blast
qed

text \<open>A reader is in, a writer queues, the reader leaves, the writer wakes up.\<close>

definition demo_gate :: gate where
  "demo_gate = \<lparr>readers = 0, writer_held = True, waiting_writers = 0,
     maintenance_locked = False, pcs = [Idle, Writing]\<rparr>"

lemma demo_gate_reachable: "reach gate_init gate_step demo_gate"
proof (rule run_events_reach [where s = "new_gate 2"
    and es = "[ReaderEnter 0, WriterEnter 1, ReaderExit 0, WriterWake 1]"])
  show "reach gate_init gate_step (new_gate 2)"
    by (rule reach_init) (auto simp: gate_init_def)
  show "run_events gate_step (new_gate 2)
      [ReaderEnter 0, WriterEnter 1, ReaderExit 0, WriterWake 1] = Some demo_gate"
    by (simp add: new_gate_def demo_gate_def gate_defs at_def numeral_2_eq_2)
qed

theorem gate_mutual_exclusion_witness:
  "\<not> at demo_gate 0 Reading \<and> \<not> at demo_gate 0 Writing
    \<and> readers demo_gate = 0 \<and> writer_held demo_gate"
proof -
  have "at demo_gate 1 Writing" by (simp add: demo_gate_def at_def)
  from gate_mutual_exclusion [OF demo_gate_reachable this, of 0] show ?thesis by simp
qed

text \<open>No wake-up is lost and the gate does not deadlock: whenever some coroutine waits and no
  permit is held, one of the waiters has been notified and its next step takes its permit.\<close>

lemma gate_no_deadlock:
  assumes reachable: "reach gate_init gate_step g"
    and idle: "\<not> writer_held g" "readers g = 0"
    and waiting: "at g i (ReadWait b) \<or> at g i (WriteWait b)"
  shows "\<exists>j h. (gate_step g (ReaderWake j) = Some h \<and> at h j Reading)
    \<or> (gate_step g (WriterWake j) = Some h \<and> at h j Writing)"
proof -
  from gate_machine.reach_inv [OF reachable]
  have counts: "gate_counts g" and lost: "no_lost_wakeup g" by (auto simp: gate_inv_def)
  show ?thesis
  proof (cases "waiting_writers g = 0")
    case True
    have "\<not> at g i (WriteWait b)"
      using True counts n_at_pos [of i "pcs g" is_write_wait]
      by (auto simp: gate_counts_def at_def)
    with waiting have r: "at g i (ReadWait b)" by simp
    with lost True idle have "b"
      by (cases b) (auto simp: no_lost_wakeup_def reader_pred_def at_def dest: nth_mem)
    with r True idle show ?thesis
      by (intro exI [of _ i]) (auto simp: gate_defs at_def)
  next
    case False
    then obtain j c where w: "at g j (WriteWait c)"
      using waiting_writer_exists [OF counts] by auto
    with lost idle have "c"
      by (cases c) (auto simp: no_lost_wakeup_def writer_pred_def at_def dest: nth_mem)
    with w idle show ?thesis
      by (intro exI [of _ j]) (auto simp: gate_defs at_def)
  qed
qed

definition queued_gate :: gate where
  "queued_gate = \<lparr>readers = 0, writer_held = False, waiting_writers = 1,
     maintenance_locked = False, pcs = [Idle, WriteWait True]\<rparr>"

lemma queued_gate_reachable: "reach gate_init gate_step queued_gate"
proof (rule run_events_reach [where s = "new_gate 2"
    and es = "[ReaderEnter 0, WriterEnter 1, ReaderExit 0]"])
  show "reach gate_init gate_step (new_gate 2)"
    by (rule reach_init) (auto simp: gate_init_def)
  show "run_events gate_step (new_gate 2) [ReaderEnter 0, WriterEnter 1, ReaderExit 0]
      = Some queued_gate"
    by (simp add: new_gate_def queued_gate_def gate_defs at_def numeral_2_eq_2)
qed

theorem gate_no_deadlock_witness:
  "\<exists>j h. (gate_step queued_gate (ReaderWake j) = Some h \<and> at h j Reading)
    \<or> (gate_step queued_gate (WriterWake j) = Some h \<and> at h j Writing)"
  by (rule gate_no_deadlock [OF queued_gate_reachable, of 1 True])
     (simp_all add: queued_gate_def at_def)

text \<open>A queued writer has priority: while one waits, no step but the departure of a writer from
  the queue lets a reader in, and the probe reports maintenance.\<close>

lemma gate_writer_priority:
  assumes "0 < waiting_writers g" and "gate_step g e = Some h"
  shows "readers h \<le> readers g \<and> maintenance_active g"
  using assms by (cases e) (auto simp: gate_defs maintenance_active_def split: if_splits)

theorem gate_writer_priority_witness:
  "readers (queued_gate\<lparr>pcs := [ReadWait False, WriteWait True]\<rparr>) \<le> readers queued_gate
    \<and> maintenance_active queued_gate"
  by (rule gate_writer_priority [where e = "ReaderEnter 0"])
     (simp_all add: queued_gate_def at_def gate_defs)

end
