(* ===== verification/AppModel.thy ===== *)
theory AppModel
  imports Prelude Complex_Main "HOL-Library.Char_ord" "HOL-Library.List_Lexorder"
    "HOL-Library.Product_Lexorder"
begin

text \<open>
  The data of the application pipeline: stages and their transitions, tasks,
  timeline events, job snapshots and the tables that
  \<open>backend/applications/service.py\<close> reads and writes, with the declarations of
  \<open>backend/applications/models.py\<close>, \<open>schemas.py\<close> and \<open>snapshots.py\<close>.

  Datetimes are instants in microseconds (every stored value is aware UTC).
  A string is the list of its code points, those below 256; \<open>length\<close> is then
  Python's \<open>len\<close> and the order on strings is the order of code points.
\<close>

subsection \<open>Python strings\<close>

definition py_isspace :: "char \<Rightarrow> bool" where
  "py_isspace c \<longleftrightarrow> (let n = of_char c :: nat in
     (9 \<le> n \<and> n \<le> 13) \<or> (28 \<le> n \<and> n \<le> 32) \<or> n = 133 \<or> n = 160)"

definition py_strip :: "string \<Rightarrow> string" where
  "py_strip s = rev (dropWhile py_isspace (rev (dropWhile py_isspace s)))"

lemma hd_py_strip: "py_strip s \<noteq> [] \<Longrightarrow> \<not> py_isspace (last (py_strip s))"
  unfolding py_strip_def
  by (metis last_rev hd_dropWhile rev_is_Nil_conv)

text \<open>Lower case for ASCII letters.\<close>

definition ascii_lower :: "string \<Rightarrow> string" where
  "ascii_lower = map (\<lambda>c. if CHR ''A'' \<le> c \<and> c \<le> CHR ''Z'' then char_of (of_char c + (32 :: nat)) else c)"

fun text_or :: "string option \<Rightarrow> string \<Rightarrow> string" where
  "text_or None d = d"
| "text_or (Some s) d = (if s = [] then d else s)"

subsection \<open>Stages\<close>

datatype stage =
    Saved | Preparing | Applied | Screening | Interview | Offer | Accepted | Rejected
  | Withdrawn | Archived

fun transitions :: "stage \<Rightarrow> stage list" where
  "transitions Saved = [Preparing, Applied, Withdrawn, Archived]"
| "transitions Preparing = [Saved, Applied, Withdrawn, Archived]"
| "transitions Applied = [Screening, Interview, Rejected, Withdrawn, Archived]"
| "transitions Screening = [Interview, Offer, Rejected, Withdrawn, Archived]"
| "transitions Interview = [Interview, Offer, Rejected, Withdrawn, Archived]"
| "transitions Offer = [Accepted, Rejected, Withdrawn, Archived]"
| "transitions Accepted = [Archived]"
| "transitions Rejected = [Archived]"
| "transitions Withdrawn = [Archived]"
| "transitions Archived = []"

definition milestone_stages :: "stage list" where
  "milestone_stages = [Applied, Screening, Interview, Offer, Accepted, Rejected]"

definition terminal_stages :: "stage list" where
  "terminal_stages = [Withdrawn, Archived]"

lemma stage_cases_milestone:
  "s \<in> set milestone_stages \<or> s \<in> set terminal_stages \<or> s = Saved \<or> s = Preparing"
  by (cases s) (simp_all add: milestone_stages_def terminal_stages_def)

lemma no_return_before_milestone:
  "s \<notin> {Saved, Preparing} \<Longrightarrow> t \<in> set (transitions s) \<Longrightarrow> t \<notin> {Saved, Preparing}"
  by (cases s) auto

subsection \<open>Tasks\<close>

datatype priority = Low | Normal | High | Urgent

datatype task_status = Pending | Completed | Cancelled

record task =
  t_id :: string
  t_title :: string
  t_status :: task_status
  t_priority :: priority
  t_due_at :: "instant option"
  t_reminder_at :: "instant option"
  t_completed_at :: "instant option"
  t_revision :: int
  t_created_at :: instant
  t_updated_at :: instant

definition is_hex_lower :: "char \<Rightarrow> bool" where
  "is_hex_lower c \<longleftrightarrow> (CHR ''0'' \<le> c \<and> c \<le> CHR ''9'') \<or> (CHR ''a'' \<le> c \<and> c \<le> CHR ''f'')"

text \<open>\<open>str(UUID(value)) == value\<close>: the canonical lower-case form.\<close>

definition canonical_uuid :: "string \<Rightarrow> bool" where
  "canonical_uuid s \<longleftrightarrow> length s = 36 \<and>
     (\<forall>i < 36. if i \<in> {8, 13, 18, 23} then s ! i = CHR ''-'' else is_hex_lower (s ! i))"

definition valid_task :: "task \<Rightarrow> bool" where
  "valid_task t \<longleftrightarrow> 1 \<le> t_revision t \<and> canonical_uuid (t_id t)"

fun priority_rank :: "priority \<Rightarrow> nat" where
  "priority_rank Urgent = 0"
| "priority_rank High = 1"
| "priority_rank Normal = 2"
| "priority_rank Low = 3"

text \<open>\<open>datetime.max\<close>, the key of a task without a due date.\<close>

definition far_future :: instant where
  "far_future = 253402300799999999"

type_synonym task_key = "bool \<times> instant \<times> nat \<times> instant \<times> string"

definition task_sort_key :: "task \<Rightarrow> task_key" where
  "task_sort_key t =
     (t_status t \<noteq> Pending, or_else (t_due_at t) far_future, priority_rank (t_priority t),
      t_created_at t, t_id t)"

subsection \<open>Snapshots\<close>

record match_projection =
  mp_score :: "rat option"
  mp_analysis :: "string option"
  mp_worth_applying :: "bool option"
  mp_receipt_verified :: bool
  mp_quarantine_reason :: "string option"
  mp_execution_id :: "string option"
  mp_row_fingerprint :: "string option"

record snapshot =
  sn_fields :: "string \<Rightarrow> string option option" \<comment> \<open>absent, null or text\<close>
  sn_schema_version :: int
  sn_match :: "match_projection option"

record scraped_row =
  sc_id :: int
  sc_fields :: "string \<Rightarrow> string option" \<comment> \<open>the columns a snapshot copies, as text\<close>

record job_row =
  jb_id :: int
  jb_user :: int
  jb_scraped_job_id :: int
  jb_applied :: "bool option"
  jb_affinity_score :: "rat option"
  jb_affinity_analysis :: "string option"
  jb_worth_applying :: "bool option"
  jb_execution_id :: "string option"
  jb_row_fingerprint :: "string option"

definition snapshot_safe_fields :: "string list" where
  "snapshot_safe_fields =
     [''title'', ''company'', ''description'', ''location'', ''external_url'', ''application_url'',
      ''application_email'', ''workload'', ''publication_date'', ''platform'', ''platform_job_id'']"

definition neutral_match :: "string \<Rightarrow> match_projection" where
  "neutral_match reason =
     \<lparr>mp_score = None, mp_analysis = None, mp_worth_applying = None, mp_receipt_verified = False,
      mp_quarantine_reason = Some reason, mp_execution_id = None, mp_row_fingerprint = None\<rparr>"

definition verified_match :: "job_row \<Rightarrow> match_projection" where
  "verified_match j =
     \<lparr>mp_score = jb_affinity_score j, mp_analysis = jb_affinity_analysis j,
      mp_worth_applying = jb_worth_applying j, mp_receipt_verified = True,
      mp_quarantine_reason = None, mp_execution_id = jb_execution_id j,
      mp_row_fingerprint = jb_row_fingerprint j\<rparr>"

text \<open>\<open>attested\<close> is the outcome of the receipt check that the caller has just run on the row.\<close>

definition snapshot_match_is_current :: "snapshot \<Rightarrow> bool \<Rightarrow> job_row \<Rightarrow> bool" where
  "snapshot_match_is_current s attested j \<longleftrightarrow> attested \<and>
     (case sn_match s of None \<Rightarrow> False
      | Some m \<Rightarrow> mp_score m = jb_affinity_score j \<and> mp_analysis m = jb_affinity_analysis j
          \<and> mp_worth_applying m = jb_worth_applying j)"

definition sanitize_application_snapshot ::
  "snapshot \<Rightarrow> (bool \<times> job_row) option \<Rightarrow> string \<Rightarrow> snapshot" where
  "sanitize_application_snapshot s verified_job reason =
     \<lparr>sn_fields = (\<lambda>f. if f \<in> set snapshot_safe_fields then sn_fields s f else None),
      sn_schema_version = 2,
      sn_match = Some (case verified_job of
         None \<Rightarrow> neutral_match reason
       | Some (attested, j) \<Rightarrow>
           if snapshot_match_is_current s attested j then verified_match j
           else neutral_match reason)\<rparr>"

definition snapshot_from_job :: "bool \<Rightarrow> job_row \<Rightarrow> scraped_row \<Rightarrow> snapshot" where
  "snapshot_from_job attested j sc =
     sanitize_application_snapshot
       \<lparr>sn_fields = (\<lambda>f. if f \<in> set snapshot_safe_fields then Some (sc_fields sc f) else None),
        sn_schema_version = 2,
        sn_match = Some ((neutral_match '''')\<lparr>mp_score := jb_affinity_score j,
          mp_analysis := jb_affinity_analysis j, mp_worth_applying := jb_worth_applying j\<rparr>)\<rparr>
       (Some (attested, j)) ''analysis_not_receipt_verified''"

definition snap_get :: "snapshot \<Rightarrow> string \<Rightarrow> string option" where
  "snap_get s f = (case sn_fields s f of None \<Rightarrow> None | Some v \<Rightarrow> v)"

definition snap_set :: "string \<Rightarrow> string option \<Rightarrow> snapshot \<Rightarrow> snapshot" where
  "snap_set f v s = s\<lparr>sn_fields := (sn_fields s)(f := Some v)\<rparr>"

text \<open>The columns the service projects from a snapshot.\<close>

definition title_projection :: "snapshot \<Rightarrow> string" where
  "title_projection s = take 240 (text_or (snap_get s ''title'') ''Untitled role'')"

definition company_projection :: "snapshot \<Rightarrow> string" where
  "company_projection s = take 240 (text_or (snap_get s ''company'') ''Unknown company'')"

definition location_projection :: "snapshot \<Rightarrow> string option" where
  "location_projection s = map_option (take 500) (snap_get s ''location'')"

subsection \<open>Events and tables\<close>

datatype event_type =
    StageEvent | NoteEvent | TaskEvent | ContactEvent | InterviewEvent | PreparationEvent
  | TaskCreated | TaskUpdated | TaskCompleted | TaskReopened | TaskCancelled | DossierPublished

text \<open>
  The payload of an event, by what the readers of the timeline distinguish: the
  marker of the first event, the sorted names of changed fields, a task that
  the response schema accepts, a \<open>task\<close> object that it rejects, and any other
  JSON (among it whatever a caller attached to an ordinary event).
\<close>

datatype payload =
    InitialMarker
  | ChangedFields "string list"
  | TaskSnapshot task
  | MalformedTask
  | OtherJson string

record event_row =
  ev_application_id :: string
  ev_type :: event_type
  ev_stage :: "stage option"
  ev_occurred_at :: instant
  ev_note :: "string option"
  ev_payload :: payload
  ev_created_at :: instant

record app_row =
  ap_id :: string
  ap_user :: int
  ap_job_id :: "int option"
  ap_scraped_job_id :: "int option"
  ap_resume_version_id :: "string option"
  ap_revision :: int
  ap_current_stage :: stage
  ap_job_snapshot :: snapshot
  ap_job_title :: string
  ap_job_company :: string
  ap_job_location :: "string option"
  ap_latest_event_at :: instant
  ap_updated_at :: instant
  ap_next_action_task_id :: "string option"
  ap_next_action_title :: "string option"
  ap_next_action_at :: "instant option"
  ap_next_action_priority :: "priority option"

record resume_version_row =
  rv_id :: string
  rv_draft_profile :: "string option" \<comment> \<open>\<open>version.draft.profile_id\<close>\<close>

record profile_row =
  cp_id :: string
  cp_user :: int

record app_db =
  db_applications :: "app_row table"
  db_events :: "event_row table"
  db_jobs :: "job_row table"
  db_scraped :: "scraped_row table"
  db_versions :: "resume_version_row table"
  db_profiles :: "profile_row table"

text \<open>
  \<open>Application.events\<close> is ordered by \<open>occurred_at\<close>, then \<open>created_at\<close>.
\<close>

definition events_of :: "app_db \<Rightarrow> string \<Rightarrow> event_row list" where
  "events_of db aid =
     sort_key (\<lambda>e. (ev_occurred_at e, ev_created_at e))
       (filter (\<lambda>e. ev_application_id e = aid) (db_events db))"

lemma set_events_of [simp]:
  "set (events_of db aid) = {e \<in> set (db_events db). ev_application_id e = aid}"
  by (simp add: events_of_def)

subsection \<open>Errors\<close>

datatype app_error =
    NotFoundError string
  | ConflictError string
  | RevisionConflict int int \<comment> \<open>expected and current revision\<close>
  | TransitionConflict stage stage \<comment> \<open>current and requested stage\<close>
  | ValidationError string
  | UnhandledError string \<comment> \<open>an exception of the store that the service re-raises\<close>

type_synonym 'a outcome = "app_error + 'a"

fun and_then :: "'e + 'a \<Rightarrow> ('a \<Rightarrow> 'e + 'b) \<Rightarrow> 'e + 'b" where
  "and_then (Inl e) f = Inl e"
| "and_then (Inr x) f = f x"

lemma and_then_Inr: "and_then m f = Inr y \<longleftrightarrow> (\<exists>x. m = Inr x \<and> f x = Inr y)"
  by (cases m) auto

lemma and_then_Inl: "and_then m f = Inl e \<longleftrightarrow> m = Inl e \<or> (\<exists>x. m = Inr x \<and> f x = Inl e)"
  by (cases m) auto

definition ensure :: "bool \<Rightarrow> 'e \<Rightarrow> 'e + unit" where
  "ensure b e = (if b then Inr () else Inl e)"

lemma ensure_Inr [simp]: "ensure b e = Inr u \<longleftrightarrow> b"
  by (simp add: ensure_def)

lemma ensure_Inl [simp]: "ensure b e = Inl e' \<longleftrightarrow> \<not> b \<and> e' = e"
  by (auto simp: ensure_def)

subsection \<open>Snapshot lemmas\<close>

lemma sanitize_allowlist:
  "sn_fields (sanitize_application_snapshot s v r) f \<noteq> None \<Longrightarrow> f \<in> set snapshot_safe_fields"
  by (simp add: sanitize_application_snapshot_def split: if_splits)

lemma sanitize_match:
  "sn_match (sanitize_application_snapshot s v r) = Some (neutral_match r)
   \<or> (\<exists>j. v = Some (True, j) \<and> snapshot_match_is_current s True j
        \<and> sn_match (sanitize_application_snapshot s v r) = Some (verified_match j))"
  by (auto simp: sanitize_application_snapshot_def snapshot_match_is_current_def
      split: option.splits prod.splits)

lemma snap_get_set [simp]:
  "snap_get (snap_set f v s) g = (if g = f then v else snap_get s g)"
  by (simp add: snap_get_def snap_set_def)

end
