(* ===== verification/AppTasks.thy ===== *)
theory AppTasks
  imports AppModel
begin

text \<open>
  The event-sourced task list of an application: \<open>_task_snapshots\<close>,
  \<open>_task_sort_key\<close>, \<open>_next_action\<close> and \<open>_projection\<close> of
  \<open>backend/applications/service.py\<close>.

  The code replays the task events of the timeline, rejects inconsistent
  histories and returns the latest revision of every task in board order. The
  abstract specification \<open>log_ok\<close> / \<open>current_tasks\<close> speaks only of the set of
  task snapshots in the timeline; \<open>task_snapshots_spec\<close> shows that the replay
  implements it, whatever the order of the events.
\<close>

subsection \<open>The replay\<close>

definition task_event_types :: "event_type list" where
  "task_event_types = [TaskCreated, TaskUpdated, TaskCompleted, TaskReopened, TaskCancelled]"

fun expected_status :: "event_type \<Rightarrow> task_status option" where
  "expected_status TaskCompleted = Some Completed"
| "expected_status TaskReopened = Some Pending"
| "expected_status TaskCancelled = Some Cancelled"
| "expected_status _ = None"

text \<open>The task an event carries, if the replay looks at it, or why it is refused.\<close>

definition decode_event :: "event_row \<Rightarrow> app_error + task option" where
  "decode_event ev =
     (if ev_type ev \<notin> set task_event_types then Inr None
      else case ev_payload ev of
        TaskSnapshot t \<Rightarrow>
          if \<not> valid_task t then Inl (ValidationError ''Invalid task event payload'')
          else if ev_type ev = TaskCreated
          then if t_revision t \<noteq> 1 \<or> t_status t \<noteq> Pending
               then Inl (ValidationError ''Invalid task creation event'')
               else Inr (Some t)
          else if t_revision t \<le> 1 then Inl (ValidationError ''Task revision regressed'')
          else (case expected_status (ev_type ev) of
                  None \<Rightarrow> Inr (Some t)
                | Some st \<Rightarrow>
                    if t_status t \<noteq> st
                    then Inl (ValidationError ''Task event status is inconsistent'')
                    else Inr (Some t))
      | MalformedTask \<Rightarrow> Inl (ValidationError ''Invalid task event payload'')
      | _ \<Rightarrow> Inr None)"

definition same_revision :: "task \<Rightarrow> task \<Rightarrow> bool" where
  "same_revision t t' \<longleftrightarrow> t_id t' = t_id t \<and> t_revision t' = t_revision t"

definition record_task :: "task list \<Rightarrow> task \<Rightarrow> app_error + task list" where
  "record_task hist t =
     (case find (same_revision t) hist of
        None \<Rightarrow> Inr (hist @ [t])
      | Some t' \<Rightarrow>
          if t' \<noteq> t then Inl (ValidationError ''Conflicting duplicate task revision'')
          else Inr hist)"

fun scan_events :: "task list \<Rightarrow> event_row list \<Rightarrow> app_error + task list" where
  "scan_events hist [] = Inr hist"
| "scan_events hist (ev # evs) =
     (case decode_event ev of
        Inl e \<Rightarrow> Inl e
      | Inr None \<Rightarrow> scan_events hist evs
      | Inr (Some t) \<Rightarrow>
          (case record_task hist t of
             Inl e \<Rightarrow> Inl e
           | Inr hist' \<Rightarrow> scan_events hist' evs))"

definition revisions_of :: "string \<Rightarrow> task list \<Rightarrow> task list" where
  "revisions_of tid hist = filter (\<lambda>t. t_id t = tid) hist"

fun history_monotone :: "instant \<Rightarrow> instant \<Rightarrow> task list \<Rightarrow> bool" where
  "history_monotone created prev [] = True"
| "history_monotone created prev (t # ts) =
     (t_created_at t = created \<and> prev \<le> t_updated_at t
      \<and> history_monotone created (t_updated_at t) ts)"

definition ordered_revisions :: "task list \<Rightarrow> int \<Rightarrow> task list" where
  "ordered_revisions revs highest =
     map (\<lambda>r. the (find (\<lambda>t. t_revision t = r) revs)) [1..highest]"

definition current_of :: "task list \<Rightarrow> app_error + task" where
  "current_of revs =
     (let highest = Max (set (map t_revision revs)) in
      if set (map t_revision revs) \<noteq> {1..highest}
      then Inl (ValidationError ''Task revision history is incomplete'')
      else let ordered = ordered_revisions revs highest in
        if history_monotone (t_created_at (hd ordered)) (t_updated_at (hd ordered)) (tl ordered)
        then Inr (last ordered)
        else Inl (ValidationError ''Task revision history regressed''))"

fun map_outcome :: "('a \<Rightarrow> 'e + 'b) \<Rightarrow> 'a list \<Rightarrow> 'e + 'b list" where
  "map_outcome f [] = Inr []"
| "map_outcome f (x # xs) =
     (case f x of Inl e \<Rightarrow> Inl e
      | Inr y \<Rightarrow> (case map_outcome f xs of Inl e \<Rightarrow> Inl e | Inr ys \<Rightarrow> Inr (y # ys)))"

definition current_by_id :: "task list \<Rightarrow> app_error + task list" where
  "current_by_id hist =
     map_outcome (\<lambda>tid. current_of (revisions_of tid hist)) (remdups (map t_id hist))"

definition task_snapshots :: "event_row list \<Rightarrow> app_error + task list" where
  "task_snapshots evs =
     (case scan_events [] evs of
        Inl e \<Rightarrow> Inl e
      | Inr hist \<Rightarrow> (case current_by_id hist of
           Inl e \<Rightarrow> Inl e
         | Inr ts \<Rightarrow> Inr (sort_key task_sort_key ts)))"

definition next_action :: "task list \<Rightarrow> task option" where
  "next_action ts = find (\<lambda>t. t_status t = Pending) ts"

text \<open>The four columns that mirror the next action on the application row.\<close>

definition project_next_action :: "task option \<Rightarrow> app_row \<Rightarrow> app_row" where
  "project_next_action t a =
     a\<lparr>ap_next_action_task_id := map_option t_id t,
       ap_next_action_title := map_option t_title t,
       ap_next_action_at := (case t of None \<Rightarrow> None | Some t \<Rightarrow> t_due_at t),
       ap_next_action_priority := map_option t_priority t\<rparr>"

subsection \<open>The abstract log\<close>

definition tasks_in :: "event_row list \<Rightarrow> task set" where
  "tasks_in evs = {t. \<exists>ev \<in> set evs. decode_event ev = Inr (Some t)}"

definition events_valid :: "event_row list \<Rightarrow> bool" where
  "events_valid evs \<longleftrightarrow> (\<forall>ev \<in> set evs. \<exists>m. decode_event ev = Inr m)"

definition consistent :: "task set \<Rightarrow> bool" where
  "consistent S \<longleftrightarrow> (\<forall>t \<in> S. \<forall>t' \<in> S. same_revision t t' \<longrightarrow> t' = t)"

definition log_ok :: "task set \<Rightarrow> bool" where
  "log_ok S \<longleftrightarrow> consistent S
     \<and> (\<forall>t \<in> S. 1 \<le> t_revision t)
     \<and> (\<forall>t \<in> S. \<forall>r. 1 \<le> r \<and> r \<le> t_revision t \<longrightarrow>
          (\<exists>t' \<in> S. t_id t' = t_id t \<and> t_revision t' = r))
     \<and> (\<forall>t \<in> S. \<forall>t' \<in> S. t_id t' = t_id t \<longrightarrow> t_created_at t' = t_created_at t
          \<and> (t_revision t \<le> t_revision t' \<longrightarrow> t_updated_at t \<le> t_updated_at t'))"

definition current_tasks :: "task set \<Rightarrow> task set" where
  "current_tasks S =
     {t \<in> S. \<forall>t' \<in> S. t_id t' = t_id t \<longrightarrow> t_revision t' \<le> t_revision t}"

lemma decode_event_revision:
  "decode_event ev = Inr (Some t) \<Longrightarrow> 1 \<le> t_revision t"
  by (auto simp: decode_event_def valid_task_def split: if_splits payload.splits option.splits)

lemma consistentD:
  "consistent S \<Longrightarrow> t \<in> S \<Longrightarrow> t' \<in> S \<Longrightarrow> t_id t = t_id t' \<Longrightarrow> t_revision t = t_revision t' \<Longrightarrow> t = t'"
  by (auto simp: consistent_def same_revision_def)

lemma consistent_mono: "consistent S \<Longrightarrow> T \<subseteq> S \<Longrightarrow> consistent T"
  by (auto simp: consistent_def)

lemma tasks_in_Cons:
  "tasks_in (ev # evs) = (case decode_event ev of Inr (Some t) \<Rightarrow> {t} | _ \<Rightarrow> {}) \<union> tasks_in evs"
  by (auto simp: tasks_in_def split: sum.splits option.splits)

lemma record_task_Inr:
  assumes "consistent (set hist)"
  shows "record_task hist t = Inr h \<longleftrightarrow>
    consistent (insert t (set hist)) \<and> h = (if t \<in> set hist then hist else hist @ [t])"
proof (cases "find (same_revision t) hist")
  case None
  then have "\<forall>t' \<in> set hist. \<not> same_revision t t'" by (simp add: find_None_iff)
  with assms None show ?thesis
    by (auto simp: record_task_def consistent_def same_revision_def)
next
  case (Some t')
  then have t': "t' \<in> set hist" "same_revision t t'"
    by (auto simp: find_Some_iff)
  show ?thesis
  proof (cases "t' = t")
    case True
    with t' assms Some show ?thesis
      by (auto simp: record_task_def insert_absorb)
  next
    case False
    with t' have "\<not> consistent (insert t (set hist))"
      by (auto simp: consistent_def)
    with False Some show ?thesis by (simp add: record_task_def)
  qed
qed

lemma scan_events_Inr:
  assumes "consistent (set hist)" and "distinct hist"
  shows "(\<exists>h. scan_events hist evs = Inr h \<and> set h = set hist \<union> tasks_in evs \<and> distinct h)
    \<longleftrightarrow> events_valid evs \<and> consistent (set hist \<union> tasks_in evs)"
    and "scan_events hist evs = Inr h \<Longrightarrow> set h = set hist \<union> tasks_in evs \<and> distinct h
      \<and> events_valid evs \<and> consistent (set h)"
proof -
  have "(scan_events hist evs = Inr h \<longrightarrow> set h = set hist \<union> tasks_in evs \<and> distinct h
      \<and> events_valid evs \<and> consistent (set hist \<union> tasks_in evs))
    \<and> (events_valid evs \<and> consistent (set hist \<union> tasks_in evs)
       \<longrightarrow> (\<exists>h. scan_events hist evs = Inr h))" for h
    using assms
  proof (induction evs arbitrary: hist)
    case Nil
    then show ?case by (auto simp: tasks_in_def events_valid_def)
  next
    case (Cons ev evs)
    show ?case
    proof (cases "decode_event ev")
      case (Inl e)
      then show ?thesis by (auto simp: events_valid_def)
    next
      case (Inr m)
      show ?thesis
      proof (cases m)
        case None
        with Cons.IH [OF Cons.prems] Inr show ?thesis
          by (auto simp: tasks_in_Cons events_valid_def)
      next
        case (Some t)
        let ?hist = "if t \<in> set hist then hist else hist @ [t]"
        have tasks: "set hist \<union> tasks_in (ev # evs) = set ?hist \<union> tasks_in evs"
          using Inr Some by (auto simp: tasks_in_Cons)
        have valid: "events_valid (ev # evs) = events_valid evs"
          using Inr Some by (auto simp: events_valid_def)
        show ?thesis
        proof (cases "consistent (insert t (set hist))")
          case True
          then have rec: "record_task hist t = Inr ?hist"
            using record_task_Inr [OF Cons.prems(1)] by simp
          have "consistent (set ?hist)" "distinct ?hist"
            using True Cons.prems by (auto simp: insert_absorb)
          from Cons.IH [OF this] show ?thesis
            unfolding tasks valid using rec Inr Some by simp
        next
          case False
          then have "\<nexists>h. record_task hist t = Inr h"
            using record_task_Inr [OF Cons.prems(1)] by blast
          then obtain e where rec: "record_task hist t = Inl e"
            by (cases "record_task hist t") auto
          have "\<not> consistent (set hist \<union> tasks_in (ev # evs))"
            using False Inr Some
            by (auto simp: tasks_in_Cons dest: consistent_mono)
          with rec Inr Some show ?thesis by simp
        qed
      qed
    qed
  qed
  note aux = this
  show "scan_events hist evs = Inr h \<Longrightarrow> set h = set hist \<union> tasks_in evs \<and> distinct h
      \<and> events_valid evs \<and> consistent (set h)"
    using aux [of h] by simp
  show "(\<exists>h. scan_events hist evs = Inr h \<and> set h = set hist \<union> tasks_in evs \<and> distinct h)
    \<longleftrightarrow> events_valid evs \<and> consistent (set hist \<union> tasks_in evs)"
    using aux by blast
qed

subsection \<open>The latest revision of one task\<close>

lemma history_monotone_sorted:
  "history_monotone c p ts \<longleftrightarrow>
    (\<forall>t \<in> set ts. t_created_at t = c) \<and> sorted (p # map t_updated_at ts)"
  by (induction ts arbitrary: p) auto

lemma sorted_map_upto:
  "sorted (map g [a..b]) \<longleftrightarrow> (\<forall>i j. a \<le> i \<and> i \<le> j \<and> j \<le> b \<longrightarrow> g i \<le> (g j :: 'a :: linorder))"
proof
  assume L: "sorted (map g [a..b])"
  show "\<forall>i j. a \<le> i \<and> i \<le> j \<and> j \<le> b \<longrightarrow> g i \<le> g j"
  proof (intro allI impI)
    fix i j assume ij: "a \<le> i \<and> i \<le> j \<and> j \<le> b"
    from L have "nat (i - a) \<le> nat (j - a) \<Longrightarrow> nat (j - a) < length (map g [a..b])
        \<Longrightarrow> map g [a..b] ! nat (i - a) \<le> map g [a..b] ! nat (j - a)"
      by (rule sorted_nth_mono)
    with ij show "g i \<le> g j" by (simp add: nth_upto nat_mono)
  qed
next
  assume "\<forall>i j. a \<le> i \<and> i \<le> j \<and> j \<le> b \<longrightarrow> g i \<le> g j"
  then show "sorted (map g [a..b])"
    by (auto simp: sorted_iff_nth_mono nth_upto)
qed

lemma Max_mem:
  assumes "revs \<noteq> []"
  shows "\<exists>t \<in> set revs. t_revision t = Max (set (map t_revision revs))"
proof -
  have "Max (set (map t_revision revs)) \<in> set (map t_revision revs)"
    using assms by (intro Max_in) auto
  then show ?thesis by auto
qed

lemma le_Max: "t \<in> set revs \<Longrightarrow> t_revision t \<le> Max (set (map t_revision revs))"
  by simp

definition one_history :: "task list \<Rightarrow> bool" where
  "one_history revs \<longleftrightarrow> revs \<noteq> [] \<and> (\<forall>t \<in> set revs. 1 \<le> t_revision t)
     \<and> (\<forall>t \<in> set revs. \<forall>t' \<in> set revs. t_revision t = t_revision t' \<longrightarrow> t = t')"

lemma ordered_revision_at:
  assumes "one_history revs" and "t \<in> set revs"
  shows "the (find (\<lambda>t'. t_revision t' = t_revision t) revs) = t"
proof -
  obtain t' where t': "find (\<lambda>t'. t_revision t' = t_revision t) revs = Some t'"
    using assms(2) by (cases "find (\<lambda>t'. t_revision t' = t_revision t) revs")
      (auto simp: find_None_iff)
  then have "t' \<in> set revs" "t_revision t' = t_revision t"
    by (auto simp: find_Some_iff)
  with assms t' show ?thesis by (auto simp: one_history_def)
qed

lemma current_of_Inr:
  assumes one: "one_history revs"
  shows "current_of revs = Inr t \<longleftrightarrow>
    (t \<in> set revs \<and> (\<forall>t' \<in> set revs. t_revision t' \<le> t_revision t))
    \<and> (\<forall>t \<in> set revs. \<forall>r. 1 \<le> r \<and> r \<le> t_revision t \<longrightarrow> (\<exists>t' \<in> set revs. t_revision t' = r))
    \<and> (\<forall>t \<in> set revs. \<forall>t' \<in> set revs. t_created_at t' = t_created_at t
        \<and> (t_revision t \<le> t_revision t' \<longrightarrow> t_updated_at t \<le> t_updated_at t'))"
    (is "_ \<longleftrightarrow> ?top t \<and> ?complete \<and> ?mono")
proof -
  define n where "n = Max (set (map t_revision revs))"
  have le_n: "t_revision t \<le> n" if "t \<in> set revs" for t
    using le_Max [OF that] by (simp only: n_def)
  let ?f = "\<lambda>r. the (find (\<lambda>t. t_revision t = r) revs)"
  have unf: "current_of revs =
     (if set (map t_revision revs) \<noteq> {1..n}
      then Inl (ValidationError ''Task revision history is incomplete'')
      else let ordered = ordered_revisions revs n in
        if history_monotone (t_created_at (hd ordered)) (t_updated_at (hd ordered)) (tl ordered)
        then Inr (last ordered)
        else Inl (ValidationError ''Task revision history regressed''))"
    by (simp only: current_of_def Let_def n_def)
  obtain m where m: "m \<in> set revs" "t_revision m = n"
    using Max_mem [of revs] one unfolding n_def one_history_def by blast
  have n1: "1 \<le> n" using m one by (metis one_history_def)
  have complete: "set (map t_revision revs) = {1..n} \<longleftrightarrow> ?complete"
  proof
    assume eq: "set (map t_revision revs) = {1..n}"
    show ?complete
    proof (intro ballI allI impI)
      fix t r assume "t \<in> set revs" "1 \<le> r \<and> r \<le> t_revision t"
      then have "r \<in> {1..n}" using le_n [of t] by auto
      then show "\<exists>t' \<in> set revs. t_revision t' = r" unfolding eq [symmetric] by auto
    qed
  next
    assume C: ?complete
    show "set (map t_revision revs) = {1..n}"
    proof
      show "set (map t_revision revs) \<subseteq> {1..n}"
        using one le_n by (auto simp: one_history_def)
      show "{1..n} \<subseteq> set (map t_revision revs)"
        using C m by force
    qed
  qed
  show ?thesis
  proof (cases "set (map t_revision revs) = {1..n}")
    case False
    then show ?thesis using complete unfolding unf by simp
  next
    case True
    let ?o = "ordered_revisions revs n"
    have at: "?f (t_revision t) = t" if "t \<in> set revs" for t
      using ordered_revision_at [OF one that] .
    have ex: "\<exists>t \<in> set revs. t_revision t = r \<and> ?f r = t" if "1 \<le> r" "r \<le> n" for r
    proof -
      from that have "r \<in> set (map t_revision revs)" using True by auto
      then show ?thesis using at by auto
    qed
    have set_o: "set ?o = set revs"
    proof
      show "set ?o \<subseteq> set revs" using ex by (force simp: ordered_revisions_def)
      show "set revs \<subseteq> set ?o"
      proof
        fix t assume t: "t \<in> set revs"
        then have "t_revision t \<in> {1..n}" using True by auto
        with at [OF t] show "t \<in> set ?o"
          unfolding ordered_revisions_def by (auto intro!: image_eqI [of _ _ "t_revision t"])
      qed
    qed
    have o_ne: "?o \<noteq> []" using n1 by (simp add: ordered_revisions_def)
    have last: "last ?o = m"
      using n1 at [OF m(1)] m(2) by (simp add: ordered_revisions_def last_map upto_rec2)
    have split: "?o = hd ?o # tl ?o" using o_ne by simp
    have mono: "history_monotone (t_created_at (hd ?o)) (t_updated_at (hd ?o)) (tl ?o) \<longleftrightarrow> ?mono"
    proof -
      have "history_monotone (t_created_at (hd ?o)) (t_updated_at (hd ?o)) (tl ?o) \<longleftrightarrow>
          (\<forall>t \<in> set ?o. t_created_at t = t_created_at (hd ?o)) \<and> sorted (map t_updated_at ?o)"
        by (subst (3 5) split) (auto simp: history_monotone_sorted)
      also have "(\<forall>t \<in> set ?o. t_created_at t = t_created_at (hd ?o))
          \<longleftrightarrow> (\<forall>t \<in> set revs. \<forall>t' \<in> set revs. t_created_at t' = t_created_at t)"
        using hd_in_set [OF o_ne] set_o by (metis (no_types, lifting))
      also have "sorted (map t_updated_at ?o) \<longleftrightarrow>
          (\<forall>i j. 1 \<le> i \<and> i \<le> j \<and> j \<le> n \<longrightarrow> t_updated_at (?f i) \<le> t_updated_at (?f j))"
        by (simp add: ordered_revisions_def sorted_map_upto comp_def)
      also have "\<dots> \<longleftrightarrow> (\<forall>t \<in> set revs. \<forall>t' \<in> set revs.
          t_revision t \<le> t_revision t' \<longrightarrow> t_updated_at t \<le> t_updated_at t')"
      proof (intro iffI ballI impI allI)
        fix t t' assume "\<forall>i j. 1 \<le> i \<and> i \<le> j \<and> j \<le> n \<longrightarrow> t_updated_at (?f i) \<le> t_updated_at (?f j)"
          "t \<in> set revs" "t' \<in> set revs" "t_revision t \<le> t_revision t'"
        then show "t_updated_at t \<le> t_updated_at t'"
          using at le_n [of t'] one by (metis one_history_def)
      next
        fix i j assume "\<forall>t \<in> set revs. \<forall>t' \<in> set revs.
          t_revision t \<le> t_revision t' \<longrightarrow> t_updated_at t \<le> t_updated_at t'" "1 \<le> i \<and> i \<le> j \<and> j \<le> n"
        then show "t_updated_at (?f i) \<le> t_updated_at (?f j)"
          using ex [of i] ex [of j] by force
      qed
      finally show ?thesis by blast
    qed
    have top: "?top t \<longleftrightarrow> t = m"
    proof
      assume t: "?top t"
      then have "t_revision t = t_revision m" using m le_n [of t] by (auto intro: order.antisym)
      with t m one show "t = m" unfolding one_history_def by blast
    next
      assume "t = m"
      then show "?top t" using m le_n by simp
    qed
    have "current_of revs = Inr t \<longleftrightarrow>
        history_monotone (t_created_at (hd ?o)) (t_updated_at (hd ?o)) (tl ?o) \<and> t = last ?o"
      using True unfolding unf by (auto simp: Let_def)
    then show ?thesis using True complete mono last top by blast
  qed
qed

subsection \<open>The replay implements the abstract log\<close>

lemma map_outcome_Cons_Inr:
  "map_outcome f (x # xs) = Inr ys \<longleftrightarrow>
    (\<exists>z zs. f x = Inr z \<and> map_outcome f xs = Inr zs \<and> ys = z # zs)"
  by (auto split: sum.splits)

lemma map_outcome_total: "(\<exists>ys. map_outcome f xs = Inr ys) \<longleftrightarrow> (\<forall>x \<in> set xs. \<exists>y. f x = Inr y)"
  by (induction xs) (auto split: sum.splits)

lemma map_outcome_elems:
  assumes "map_outcome f xs = Inr ys"
  shows "y \<in> set ys \<Longrightarrow> \<exists>x \<in> set xs. f x = Inr y"
    and "x \<in> set xs \<Longrightarrow> \<exists>y \<in> set ys. f x = Inr y"
proof -
  have "(\<forall>y \<in> set ys. \<exists>x \<in> set xs. f x = Inr y) \<and> (\<forall>x \<in> set xs. \<exists>y \<in> set ys. f x = Inr y)"
    using assms
  proof (induction xs arbitrary: ys)
    case (Cons x xs)
    then show ?case unfolding map_outcome_Cons_Inr by fastforce
  qed simp
  then show "y \<in> set ys \<Longrightarrow> \<exists>x \<in> set xs. f x = Inr y"
    and "x \<in> set xs \<Longrightarrow> \<exists>y \<in> set ys. f x = Inr y" by blast+
qed

lemma map_outcome_keys:
  assumes "map_outcome f xs = Inr ys" and "\<forall>x \<in> set xs. \<forall>y. f x = Inr y \<longrightarrow> key y = x"
  shows "map key ys = xs"
  using assms
proof (induction xs arbitrary: ys)
  case (Cons x xs)
  from Cons.prems(1) obtain z zs where z: "f x = Inr z" "map_outcome f xs = Inr zs" "ys = z # zs"
    unfolding map_outcome_Cons_Inr by blast
  with Cons.IH [OF z(2)] Cons.prems(2) show ?case by simp
qed simp

lemma one_history_revisions:
  assumes "consistent (set hist)" and "\<forall>t \<in> set hist. 1 \<le> t_revision t" and "tid \<in> t_id ` set hist"
  shows "one_history (revisions_of tid hist)"
  using assms
  by (auto simp: one_history_def revisions_of_def filter_empty_conv dest: consistentD)

lemma current_of_revisions:
  assumes "consistent (set hist)" and "\<forall>t \<in> set hist. 1 \<le> t_revision t" and "tid \<in> t_id ` set hist"
  shows "current_of (revisions_of tid hist) = Inr t \<longleftrightarrow>
    t \<in> current_tasks (set hist) \<and> t_id t = tid
    \<and> (\<forall>t \<in> set hist. t_id t = tid \<longrightarrow> (\<forall>r. 1 \<le> r \<and> r \<le> t_revision t \<longrightarrow>
          (\<exists>t' \<in> set hist. t_id t' = tid \<and> t_revision t' = r)))
    \<and> (\<forall>t \<in> set hist. \<forall>t' \<in> set hist. t_id t = tid \<longrightarrow> t_id t' = tid \<longrightarrow>
          t_created_at t' = t_created_at t
          \<and> (t_revision t \<le> t_revision t' \<longrightarrow> t_updated_at t \<le> t_updated_at t'))"
proof -
  have eq: "set (revisions_of tid hist) = {t \<in> set hist. t_id t = tid}"
    by (simp add: revisions_of_def)
  have top: "t \<in> {t \<in> set hist. t_id t = tid}
        \<and> (\<forall>t' \<in> {t \<in> set hist. t_id t = tid}. t_revision t' \<le> t_revision t)
      \<longleftrightarrow> t \<in> current_tasks (set hist) \<and> t_id t = tid"
    by (auto simp: current_tasks_def)
  show ?thesis
    unfolding current_of_Inr [OF one_history_revisions [OF assms]] eq top by blast
qed

lemma current_tasks_ids:
  assumes "consistent S"
  shows "inj_on t_id (current_tasks S)" "inj_on task_sort_key (current_tasks S)"
proof -
  show "inj_on t_id (current_tasks S)"
  proof (rule inj_onI)
    fix t t' assume "t \<in> current_tasks S" "t' \<in> current_tasks S" "t_id t = t_id t'"
    then show "t = t'"
      using consistentD [OF assms, of t t'] by (auto simp: current_tasks_def intro: order.antisym)
  qed
  then show "inj_on task_sort_key (current_tasks S)"
    by (auto simp: inj_on_def task_sort_key_def)
qed

lemma current_exists:
  assumes "finite S" and "t \<in> S"
  shows "\<exists>c \<in> current_tasks S. t_id c = t_id t"
proof -
  let ?R = "{t' \<in> S. t_id t' = t_id t}"
  have "Max (t_revision ` ?R) \<in> t_revision ` ?R"
    using assms by (intro Max_in) auto
  then obtain c where c: "c \<in> ?R" "t_revision c = Max (t_revision ` ?R)" by auto
  have "t_revision t' \<le> t_revision c" if "t' \<in> ?R" for t'
    unfolding c(2) using assms that by (intro Max_ge) auto
  with c show ?thesis by (auto simp: current_tasks_def)
qed

lemma current_by_id_Inr:
  assumes cons: "consistent (set hist)" and pos: "\<forall>t \<in> set hist. 1 \<le> t_revision t"
    and ok: "current_by_id hist = Inr cs"
  shows "log_ok (set hist)" "set cs = current_tasks (set hist)" "distinct cs"
proof -
  note cur = current_of_revisions [OF cons pos]
  note ok' = ok [unfolded current_by_id_def]
  note elems = map_outcome_elems [OF ok']
  show "set cs = current_tasks (set hist)"
  proof
    show "set cs \<subseteq> current_tasks (set hist)"
      using elems(1) cur by fastforce
    show "current_tasks (set hist) \<subseteq> set cs"
    proof
      fix c assume c: "c \<in> current_tasks (set hist)"
      then have cid: "t_id c \<in> t_id ` set hist" by (auto simp: current_tasks_def)
      with elems(2) [of "t_id c"] obtain y
        where y: "y \<in> set cs" "current_of (revisions_of (t_id c) hist) = Inr y" by auto
      with cur [OF cid] have "y \<in> current_tasks (set hist)" "t_id y = t_id c" by auto
      with c current_tasks_ids(1) [OF cons] have "y = c" by (auto dest: inj_onD)
      with y show "c \<in> set cs" by simp
    qed
  qed
  have "map t_id cs = remdups (map t_id hist)"
    using ok'
  proof (rule map_outcome_keys)
    show "\<forall>tid \<in> set (remdups (map t_id hist)). \<forall>t.
        current_of (revisions_of tid hist) = Inr t \<longrightarrow> t_id t = tid"
    proof (intro ballI allI impI)
      fix tid t assume "tid \<in> set (remdups (map t_id hist))"
        and t: "current_of (revisions_of tid hist) = Inr t"
      then have "tid \<in> t_id ` set hist" by simp
      from cur [OF this, of t] t show "t_id t = tid" by blast
    qed
  qed
  then show "distinct cs" by (metis distinct_map distinct_remdups)
  show "log_ok (set hist)"
  proof -
    have hist_ok: "(\<forall>r. 1 \<le> r \<and> r \<le> t_revision t \<longrightarrow> (\<exists>t' \<in> set hist. t_id t' = t_id t \<and> t_revision t' = r))
        \<and> (\<forall>t' \<in> set hist. t_id t' = t_id t \<longrightarrow> t_created_at t' = t_created_at t
            \<and> (t_revision t \<le> t_revision t' \<longrightarrow> t_updated_at t \<le> t_updated_at t'))"
      if t: "t \<in> set hist" for t
    proof -
      have tid: "t_id t \<in> t_id ` set hist" using t by simp
      with elems(2) [of "t_id t"] obtain y
        where "current_of (revisions_of (t_id t) hist) = Inr y" by auto
      with cur [OF tid, of y] t show ?thesis by blast
    qed
    with cons pos show ?thesis unfolding log_ok_def by blast
  qed
qed

lemma current_by_id_total:
  assumes ok: "log_ok (set hist)"
  shows "\<exists>cs. current_by_id hist = Inr cs"
  unfolding current_by_id_def map_outcome_total
proof
  fix tid assume "tid \<in> set (remdups (map t_id hist))"
  then obtain t where t: "t \<in> set hist" "t_id t = tid" by auto
  with current_exists [of "set hist" t] obtain c
    where c: "c \<in> current_tasks (set hist)" "t_id c = tid" by auto
  have cons: "consistent (set hist)" "\<forall>t \<in> set hist. 1 \<le> t_revision t"
    using ok by (auto simp: log_ok_def)
  have "tid \<in> t_id ` set hist" using t by auto
  note cur = current_of_revisions [OF cons this, of c]
  have "current_of (revisions_of tid hist) = Inr c"
    unfolding cur
  proof (intro conjI ballI allI impI)
    fix t r assume "t \<in> set hist" "t_id t = tid" "1 \<le> r \<and> r \<le> t_revision t"
    with ok show "\<exists>t' \<in> set hist. t_id t' = tid \<and> t_revision t' = r"
      unfolding log_ok_def by blast
  next
    fix t t' assume t: "t \<in> set hist" "t' \<in> set hist" "t_id t = tid" "t_id t' = tid"
    with ok show "t_created_at t' = t_created_at t" unfolding log_ok_def by metis
    assume "t_revision t \<le> t_revision t'"
    with ok t show "t_updated_at t \<le> t_updated_at t'" unfolding log_ok_def by metis
  qed (use c in auto)
  then show "\<exists>y. current_of (revisions_of tid hist) = Inr y" by blast
qed

lemma consistent_empty: "consistent (set [])"
  by (simp add: consistent_def)

lemma tasks_in_pos: "t \<in> tasks_in evs \<Longrightarrow> 1 \<le> t_revision t"
  by (auto simp: tasks_in_def dest: decode_event_revision)

lemma task_snapshots_Inr:
  assumes "task_snapshots evs = Inr ts"
  shows "events_valid evs" "log_ok (tasks_in evs)" "set ts = current_tasks (tasks_in evs)"
    "sorted (map task_sort_key ts)" "distinct ts"
proof -
  from assms obtain hist cs where scan: "scan_events [] evs = Inr hist"
    and cs: "current_by_id hist = Inr cs" and ts: "ts = sort_key task_sort_key cs"
    by (auto simp: task_snapshots_def split: sum.splits)
  have h: "set hist = tasks_in evs" "events_valid evs" "consistent (set hist)"
    using scan_events_Inr(2) [OF consistent_empty distinct.simps(1) [THEN iffD2, OF TrueI] scan]
    by auto
  moreover have "\<forall>t \<in> set hist. 1 \<le> t_revision t"
    using h(1) tasks_in_pos by auto
  note current_by_id_Inr [OF h(3) this cs]
  ultimately show "events_valid evs" "log_ok (tasks_in evs)" "set ts = current_tasks (tasks_in evs)"
    "sorted (map task_sort_key ts)" "distinct ts"
    using ts by auto
qed

lemma task_snapshots_total:
  assumes "events_valid evs" and "log_ok (tasks_in evs)"
  shows "\<exists>ts. task_snapshots evs = Inr ts"
proof -
  have "consistent (set [] \<union> tasks_in evs)" using assms(2) by (simp add: log_ok_def)
  with assms(1) obtain hist where hist: "scan_events [] evs = Inr hist" "set hist = tasks_in evs"
    using scan_events_Inr(1) [OF consistent_empty, of evs] by auto
  with current_by_id_total [of hist] assms(2) obtain cs where "current_by_id hist = Inr cs" by auto
  with hist show ?thesis by (simp add: task_snapshots_def)
qed

theorem task_snapshots_spec:
  "task_snapshots evs = Inr ts \<longleftrightarrow>
    events_valid evs \<and> log_ok (tasks_in evs) \<and> set ts = current_tasks (tasks_in evs)
    \<and> sorted (map task_sort_key ts) \<and> distinct ts"
    (is "?L \<longleftrightarrow> ?R")
proof
  assume ?L
  then show ?R using task_snapshots_Inr by blast
next
  assume R: ?R
  then obtain us where us: "task_snapshots evs = Inr us"
    using task_snapshots_total by blast
  have inj: "inj_on task_sort_key (current_tasks (tasks_in evs))"
    using R by (auto simp: log_ok_def intro: current_tasks_ids)
  have "ts = us"
    using map_sorted_distinct_set_unique [of task_sort_key ts us] inj R task_snapshots_Inr [OF us]
    by (auto simp: distinct_map)
  with us show ?L by simp
qed

lemma task_snapshots_set_eq:
  assumes "set evs = set evs'"
  shows "task_snapshots evs = Inr ts \<longleftrightarrow> task_snapshots evs' = Inr ts"
proof -
  have "tasks_in evs = tasks_in evs'" "events_valid evs = events_valid evs'"
    using assms by (auto simp: tasks_in_def events_valid_def)
  then show ?thesis by (simp add: task_snapshots_spec)
qed

subsection \<open>Extending a log\<close>

lemma log_extend_new:
  assumes ok: "log_ok S" and new: "t_id t \<notin> t_id ` S" and r1: "t_revision t = 1"
  shows "log_ok (insert t S)" "current_tasks (insert t S) = insert t (current_tasks S)"
proof -
  have other: "t_id t' \<noteq> t_id t" if "t' \<in> S" for t'
    using new that by (metis imageI)
  show "log_ok (insert t S)"
    unfolding log_ok_def
  proof (intro conjI)
    have "\<not> same_revision t y \<and> \<not> same_revision y t" if "y \<in> S" for y
      using other [OF that] by (auto simp: same_revision_def)
    with ok show "consistent (insert t S)"
      by (auto simp: log_ok_def consistent_def)
    show "\<forall>x \<in> insert t S. 1 \<le> t_revision x"
      using ok r1 by (auto simp: log_ok_def)
    show "\<forall>x \<in> insert t S. \<forall>r. 1 \<le> r \<and> r \<le> t_revision x \<longrightarrow>
        (\<exists>t' \<in> insert t S. t_id t' = t_id x \<and> t_revision t' = r)"
      using ok r1 by (auto simp: log_ok_def)
    show "\<forall>x \<in> insert t S. \<forall>t' \<in> insert t S. t_id t' = t_id x \<longrightarrow>
        t_created_at t' = t_created_at x
        \<and> (t_revision x \<le> t_revision t' \<longrightarrow> t_updated_at x \<le> t_updated_at t')"
      using ok other unfolding log_ok_def by (metis insert_iff order_refl)
  qed
  show "current_tasks (insert t S) = insert t (current_tasks S)"
    using other other [symmetric] by (auto simp: current_tasks_def)
qed

lemma log_extend_next:
  assumes ok: "log_ok S" and c: "c \<in> current_tasks S"
    and tid: "t_id t = t_id c" and rev: "t_revision t = t_revision c + 1"
    and created: "t_created_at t = t_created_at c" and upd: "t_updated_at c \<le> t_updated_at t"
  shows "log_ok (insert t S)" "current_tasks (insert t S) = insert t (current_tasks S - {c})"
proof -
  have cS: "c \<in> S" and top: "\<And>t'. t' \<in> S \<Longrightarrow> t_id t' = t_id c \<Longrightarrow> t_revision t' \<le> t_revision c"
    using c by (auto simp: current_tasks_def)
  have latest: "t_created_at t' = t_created_at c \<and> t_updated_at t' \<le> t_updated_at c"
    if "t' \<in> S" "t_id t' = t_id c" for t'
    using ok cS that top [OF that] unfolding log_ok_def by metis
  show "log_ok (insert t S)"
    unfolding log_ok_def
  proof (intro conjI)
    show "consistent (insert t S)"
    proof -
      have "\<not> same_revision t y \<and> \<not> same_revision y t" if "y \<in> S" for y
        using top [OF that] tid rev by (auto simp: same_revision_def)
      with ok show ?thesis by (auto simp: log_ok_def consistent_def)
    qed
    show "\<forall>x \<in> insert t S. 1 \<le> t_revision x"
      using ok rev cS by (force simp: log_ok_def)
    show "\<forall>x \<in> insert t S. \<forall>r. 1 \<le> r \<and> r \<le> t_revision x \<longrightarrow>
        (\<exists>t' \<in> insert t S. t_id t' = t_id x \<and> t_revision t' = r)"
    proof (intro ballI allI impI)
      fix x r assume x: "x \<in> insert t S" and r: "1 \<le> r \<and> r \<le> t_revision x"
      show "\<exists>t' \<in> insert t S. t_id t' = t_id x \<and> t_revision t' = r"
      proof (cases "x = t \<and> r = t_revision t")
        case True
        then show ?thesis by auto
      next
        case False
        define y where "y = (if x = t then c else x)"
        have "y \<in> S" "t_id y = t_id x" "1 \<le> r \<and> r \<le> t_revision y"
          using x r False cS tid rev by (auto simp: y_def)
        with ok show ?thesis unfolding log_ok_def by (metis insertCI)
      qed
    qed
    show "\<forall>x \<in> insert t S. \<forall>t' \<in> insert t S. t_id t' = t_id x \<longrightarrow>
        t_created_at t' = t_created_at x
        \<and> (t_revision x \<le> t_revision t' \<longrightarrow> t_updated_at x \<le> t_updated_at t')"
    proof (intro ballI impI)
      fix x t' assume x: "x \<in> insert t S" and t': "t' \<in> insert t S" and same: "t_id t' = t_id x"
      have below: "\<not> t_revision t \<le> t_revision y" if "y \<in> S" "t_id y = t_id c" for y
        using top [OF that] rev by simp
      consider "x = t" "t' = t" | "x = t" "t' \<in> S" | "x \<in> S" "t' = t" | "x \<in> S" "t' \<in> S"
        using x t' by auto
      then show "t_created_at t' = t_created_at x
        \<and> (t_revision x \<le> t_revision t' \<longrightarrow> t_updated_at x \<le> t_updated_at t')"
      proof cases
        case 2
        with same tid have "t_id t' = t_id c" by simp
        with 2 latest [of t'] below [of t'] created show ?thesis by simp
      next
        case 3
        with same tid have "t_id x = t_id c" by simp
        with 3 latest [of x] created upd show ?thesis by simp
      next
        case 4
        with ok same show ?thesis unfolding log_ok_def by blast
      qed simp
    qed
  qed
  have "x = c" if "x \<in> current_tasks S" "t_id x = t_id c" for x
    using current_tasks_ids(1) [of S] ok c that by (auto simp: log_ok_def inj_on_def)
  note unique = this
  have "x \<in> current_tasks (insert t S) \<longleftrightarrow> x \<in> insert t (current_tasks S - {c})" for x
  proof (cases "x = t")
    case True
    with tid rev top show ?thesis by (fastforce simp: current_tasks_def)
  next
    case False
    show ?thesis
    proof (cases "t_id x = t_id c")
      case True
      have "x \<notin> current_tasks (insert t S)"
        using False True top [of x] tid rev by (force simp: current_tasks_def)
      with False True unique show ?thesis by auto
    next
      case False
      with \<open>x \<noteq> t\<close> tid show ?thesis by (auto simp: current_tasks_def)
    qed
  qed
  then show "current_tasks (insert t S) = insert t (current_tasks S - {c})" by blast
qed

lemma log_regress:
  assumes "c \<in> S" and "t_id t = t_id c" and "t_revision c \<le> t_revision t"
    and "t_updated_at t < t_updated_at c"
  shows "\<not> log_ok (insert t S)"
  using assms unfolding log_ok_def by (metis insertCI linorder_not_le)

lemma tasks_in_set:
  "set evs' = insert ev (set evs) \<Longrightarrow> decode_event ev = Inr (Some t) \<Longrightarrow>
    tasks_in evs' = insert t (tasks_in evs) \<and> events_valid evs' = events_valid evs"
  by (auto simp: tasks_in_def events_valid_def)

lemma tasks_in_set_other:
  "set evs' = insert ev (set evs) \<Longrightarrow> decode_event ev = Inr None \<Longrightarrow>
    tasks_in evs' = tasks_in evs \<and> events_valid evs' = events_valid evs"
  by (auto simp: tasks_in_def events_valid_def)

text \<open>The board order is total, so a list of current tasks is determined by its set.\<close>

lemma board_order_unique:
  assumes "inj_on task_sort_key A" and "set ts = A" and "distinct ts" and "sorted (map task_sort_key ts)"
    and "set us = A" and "distinct us" and "sorted (map task_sort_key us)"
  shows "ts = us"
  using map_sorted_distinct_set_unique [of task_sort_key ts us] assms by (auto simp: distinct_map)

lemma next_action_first:
  assumes "sorted (map task_sort_key ts)"
  shows "next_action ts = None \<longleftrightarrow> (\<forall>t \<in> set ts. t_status t \<noteq> Pending)"
    and "next_action ts = Some t \<Longrightarrow>
      t \<in> set ts \<and> t_status t = Pending \<and> (\<forall>t' \<in> set ts. task_sort_key t \<le> task_sort_key t')"
proof -
  show "next_action ts = None \<longleftrightarrow> (\<forall>t \<in> set ts. t_status t \<noteq> Pending)"
    by (auto simp: next_action_def find_None_iff)
  have "next_action ts = Some t \<longrightarrow>
      t \<in> set ts \<and> t_status t = Pending \<and> (\<forall>t' \<in> set ts. task_sort_key t \<le> task_sort_key t')"
    using assms
  proof (induction ts)
    case Nil
    then show ?case by (simp add: next_action_def)
  next
    case (Cons u ts)
    show ?case
    proof (cases "t_status u = Pending")
      case True
      with Cons.prems show ?thesis by (auto simp: next_action_def)
    next
      case False
      have "\<not> task_sort_key u \<le> task_sort_key t" if "t_status t = Pending"
        using False that by (simp add: task_sort_key_def less_eq_prod_def)
      with False Cons show ?thesis by (auto simp: next_action_def)
    qed
  qed
  then show "next_action ts = Some t \<Longrightarrow>
      t \<in> set ts \<and> t_status t = Pending \<and> (\<forall>t' \<in> set ts. task_sort_key t \<le> task_sort_key t')"
    by blast
qed

end
