(* ===== verification/Applications.thy ===== *)
theory Applications
  imports AppTasks
begin

text \<open>
  The operations of \<open>ApplicationService\<close> in \<open>backend/applications/service.py\<close>:
  creation, timeline events, preparation updates, tasks, the legacy markers
  and the response.

  Every mutation reads the tables first and later issues one conditional
  update. Other sessions may commit in between, so an operation takes two
  databases: the one it read (\<open>db\<close>) and the one its writes meet (\<open>dbw\<close>); a
  run without interference uses the same one twice. An operation that commits
  returns the new tables together with the response it then builds, which can
  still fail. \<open>attest\<close> stands for the receipt check of \<open>JobService\<close>; \<open>now\<close> and
  \<open>new_id\<close> are the clock reading and the generated identifier.
\<close>

subsection \<open>Reading\<close>

definition get_application :: "app_db \<Rightarrow> int \<Rightarrow> string \<Rightarrow> app_row outcome" where
  "get_application db uid aid =
     (case select_first (\<lambda>a. ap_id a = aid \<and> ap_user a = uid) (db_applications db) of
        None \<Rightarrow> Inl (NotFoundError ''Application not found'')
      | Some a \<Rightarrow> Inr a)"

definition check_resume_version :: "app_db \<Rightarrow> int \<Rightarrow> string option \<Rightarrow> unit outcome" where
  "check_resume_version db uid version_id =
     (case version_id of
        None \<Rightarrow> Inr ()
      | Some v \<Rightarrow>
          (case select_first (\<lambda>r. rv_id r = v) (db_versions db) of
             None \<Rightarrow> Inl (ValidationError ''Resume version not found'')
           | Some r \<Rightarrow>
               (case rv_draft_profile r of
                  None \<Rightarrow> Inl (ValidationError ''Resume version not found'')
                | Some p \<Rightarrow>
                    ensure (\<exists>c \<in> set (db_profiles db). cp_id c = p \<and> cp_user c = uid)
                      (ValidationError ''Resume version not found''))))"

definition safe_snapshot :: "(job_row \<Rightarrow> bool) \<Rightarrow> app_db \<Rightarrow> app_row \<Rightarrow> snapshot" where
  "safe_snapshot attest db a =
     (let job = (case ap_job_id a of
                   None \<Rightarrow> None
                 | Some j \<Rightarrow> select_first (\<lambda>r. jb_id r = j) (db_jobs db));
          verified = (case job of
                        None \<Rightarrow> None
                      | Some r \<Rightarrow> if jb_user r = ap_user a then Some (attest r, r) else None)
      in sanitize_application_snapshot (ap_job_snapshot a) verified ''analysis_not_receipt_verified'')"

record response =
  rs_application :: app_row
  rs_tasks :: "task list"

definition respond :: "(job_row \<Rightarrow> bool) \<Rightarrow> app_db \<Rightarrow> int \<Rightarrow> string \<Rightarrow> response outcome" where
  "respond attest db uid aid =
     and_then (get_application db uid aid) (\<lambda>a.
     and_then (task_snapshots (events_of db aid)) (\<lambda>ts.
       Inr \<lparr>rs_application = a\<lparr>ap_job_snapshot := safe_snapshot attest db a\<rparr>, rs_tasks = ts\<rparr>))"

datatype op_result = Refused app_error | Committed app_db "response outcome"

definition finish :: "(job_row \<Rightarrow> bool) \<Rightarrow> int \<Rightarrow> string \<Rightarrow> app_db outcome \<Rightarrow> op_result" where
  "finish attest uid aid written =
     (case written of
        Inl e \<Rightarrow> Refused e
      | Inr db \<Rightarrow> Committed db (respond attest db uid aid))"

subsection \<open>The guarded update\<close>

text \<open>
  \<open>_advance_revision\<close>: the conditional update on id, owner and expected
  revision; \<open>values\<close> are the columns it sets beside the bookkeeping ones.
\<close>

definition write_application ::
  "string \<Rightarrow> int \<Rightarrow> int \<Rightarrow> (app_row \<Rightarrow> app_row) \<Rightarrow> string \<Rightarrow> app_db \<Rightarrow> app_db outcome" where
  "write_application aid uid expected f message dbw =
     (let p = (\<lambda>r. ap_id r = aid \<and> ap_user r = uid \<and> ap_revision r = expected) in
      if row_count p (db_applications dbw) \<noteq> 1 then Inl (ConflictError message)
      else Inr (dbw\<lparr>db_applications := update_rows p f (db_applications dbw)\<rparr>))"

definition advance_revision ::
  "app_row \<Rightarrow> int \<Rightarrow> instant \<Rightarrow> (app_row \<Rightarrow> app_row) \<Rightarrow> app_db \<Rightarrow> app_db outcome" where
  "advance_revision a expected now values dbw =
     (if ap_revision a \<noteq> expected then Inl (RevisionConflict expected (ap_revision a))
      else write_application (ap_id a) (ap_user a) expected
        (\<lambda>r. values (r\<lparr>ap_revision := expected + 1, ap_updated_at := now,
                        ap_latest_event_at := max now (ap_latest_event_at a)\<rparr>))
        ''Application changed in another session'' dbw)"

definition append_row :: "event_row \<Rightarrow> app_db \<Rightarrow> app_db" where
  "append_row ev db = db\<lparr>db_events := db_events db @ [ev]\<rparr>"

subsection \<open>Legacy markers\<close>

definition application_reached_applied :: "app_db \<Rightarrow> string \<Rightarrow> stage \<Rightarrow> bool" where
  "application_reached_applied db aid s =
     (if s \<in> set milestone_stages then True
      else if s \<notin> set terminal_stages then False
      else (\<exists>ev \<in> set (db_events db). ev_application_id ev = aid
              \<and> (\<exists>st \<in> set milestone_stages. ev_stage ev = Some st)))"

definition sync_legacy_applied_markers ::
  "int \<Rightarrow> app_row \<Rightarrow> stage \<Rightarrow> job_row option \<Rightarrow> app_db \<Rightarrow> app_db" where
  "sync_legacy_applied_markers uid a s job db =
     (if \<not> application_reached_applied db (ap_id a) s then db
      else
        let scraped =
          (case ap_scraped_job_id a of
             Some sid \<Rightarrow> Some sid
           | None \<Rightarrow>
               (case job of
                  Some j \<Rightarrow> Some (jb_scraped_job_id j)
                | None \<Rightarrow>
                    (case ap_job_id a of
                       None \<Rightarrow> None
                     | Some jid \<Rightarrow> map_option jb_scraped_job_id
                         (select_first (\<lambda>r. jb_id r = jid \<and> jb_user r = uid) (db_jobs db)))))
        in case scraped of
             None \<Rightarrow> db
           | Some sid \<Rightarrow>
               db\<lparr>db_jobs := update_rows
                 (\<lambda>r. jb_user r = uid \<and> jb_scraped_job_id r = sid \<and> jb_applied r \<noteq> Some True)
                 (\<lambda>r. r\<lparr>jb_applied := Some True\<rparr>) (db_jobs db)\<rparr>)"

subsection \<open>Creation\<close>

record manual_job =
  mj_title :: string
  mj_company :: string
  mj_description :: "string option"
  mj_location :: "string option"
  mj_external_url :: "string option"
  mj_application_url :: "string option"
  mj_application_email :: "string option"
  mj_workload :: "string option"

record application_create =
  ac_job_id :: "int option"
  ac_manual_job :: "manual_job option"
  ac_resume_version_id :: "string option"
  ac_initial_stage :: stage
  ac_note :: "string option"

definition valid_create :: "application_create \<Rightarrow> bool" where
  "valid_create d \<longleftrightarrow>
     (ac_job_id d = None) \<noteq> (ac_manual_job d = None)
     \<and> 0 < or_else (ac_job_id d) 1
     \<and> ac_initial_stage d \<in> {Saved, Preparing, Applied}
     \<and> length (or_else (ac_note d) []) \<le> 10000"

definition manual_snapshot :: "manual_job \<Rightarrow> snapshot" where
  "manual_snapshot m = sanitize_application_snapshot
     \<lparr>sn_fields = (map_of
        [(''title'', Some (mj_title m)), (''company'', Some (mj_company m)),
         (''description'', mj_description m), (''location'', mj_location m),
         (''external_url'', mj_external_url m), (''application_url'', mj_application_url m),
         (''application_email'', mj_application_email m), (''workload'', mj_workload m),
         (''publication_date'', None), (''platform'', Some ''manual''),
         (''platform_job_id'', None)]),
      sn_schema_version = 2, sn_match = None\<rparr>
     None ''manual_snapshot_has_no_model_analysis''"

definition existing_logical_application :: "app_db \<Rightarrow> int \<Rightarrow> int \<Rightarrow> bool" where
  "existing_logical_application db uid sid \<longleftrightarrow>
     (\<exists>a \<in> set (db_applications db). ap_user a = uid \<and>
        (ap_scraped_job_id a = Some sid
         \<or> (\<exists>j \<in> set (db_jobs db). ap_job_id a = Some (jb_id j) \<and> jb_scraped_job_id j = sid)))"

text \<open>The primary key and the two unique constraints of the table.\<close>

definition violates_unique :: "app_row \<Rightarrow> app_db \<Rightarrow> bool" where
  "violates_unique a db \<longleftrightarrow>
     (\<exists>b \<in> set (db_applications db). ap_id b = ap_id a
        \<or> (ap_user b = ap_user a \<and> ap_job_id a \<noteq> None \<and> ap_job_id b = ap_job_id a)
        \<or> (ap_user b = ap_user a \<and> ap_scraped_job_id a \<noteq> None
           \<and> ap_scraped_job_id b = ap_scraped_job_id a))"

definition source_job :: "app_db \<Rightarrow> int \<Rightarrow> application_create \<Rightarrow> job_row option outcome" where
  "source_job db uid d =
     (case ac_job_id d of
        None \<Rightarrow> Inr None
      | Some jid \<Rightarrow>
          (case select_first (\<lambda>r. jb_id r = jid \<and> jb_user r = uid) (db_jobs db) of
             None \<Rightarrow> Inl (ValidationError ''Job not found'')
           | Some j \<Rightarrow> Inr (Some j)))"

definition source_snapshot ::
  "(job_row \<Rightarrow> bool) \<Rightarrow> app_db \<Rightarrow> int \<Rightarrow> application_create \<Rightarrow> job_row option \<Rightarrow> snapshot outcome" where
  "source_snapshot attest db uid d job =
     (case job of
        Some j \<Rightarrow>
          and_then (ensure (\<not> existing_logical_application db uid (jb_scraped_job_id j))
            (ConflictError ''An application already exists for this opportunity'')) (\<lambda>_.
          case select_first (\<lambda>r. sc_id r = jb_scraped_job_id j) (db_scraped db) of
            None \<Rightarrow> Inl (UnhandledError ''AttributeError'')
          | Some sc \<Rightarrow> Inr (snapshot_from_job (attest j) j sc))
      | None \<Rightarrow>
          (case ac_manual_job d of
             None \<Rightarrow> Inl (ValidationError ''Manual job snapshot is required'')
           | Some m \<Rightarrow> Inr (manual_snapshot m)))"

definition new_application ::
  "instant \<Rightarrow> string \<Rightarrow> int \<Rightarrow> application_create \<Rightarrow> job_row option \<Rightarrow> snapshot \<Rightarrow> app_row" where
  "new_application now new_id uid d job snap =
     \<lparr>ap_id = new_id, ap_user = uid, ap_job_id = map_option jb_id job,
      ap_scraped_job_id = map_option jb_scraped_job_id job,
      ap_resume_version_id = ac_resume_version_id d, ap_revision = 1,
      ap_current_stage = ac_initial_stage d, ap_job_snapshot = snap,
      ap_job_title = title_projection snap, ap_job_company = company_projection snap,
      ap_job_location = location_projection snap, ap_latest_event_at = now, ap_updated_at = now,
      ap_next_action_task_id = None, ap_next_action_title = None, ap_next_action_at = None,
      ap_next_action_priority = None\<rparr>"

definition insert_application ::
  "instant \<Rightarrow> int \<Rightarrow> application_create \<Rightarrow> job_row option \<Rightarrow> app_row \<Rightarrow> app_db \<Rightarrow> app_db outcome" where
  "insert_application now uid d job a dbw =
     (if violates_unique a dbw
      then (case ap_scraped_job_id a of
              Some sid \<Rightarrow>
                if existing_logical_application dbw uid sid
                then Inl (ConflictError ''An application already exists for this opportunity'')
                else Inl (UnhandledError ''IntegrityError'')
            | None \<Rightarrow> Inl (UnhandledError ''IntegrityError''))
      else
        let db1 = dbw\<lparr>db_applications := db_applications dbw @ [a]\<rparr>;
            db2 = sync_legacy_applied_markers uid a (ac_initial_stage d) job db1
        in Inr (append_row
             \<lparr>ev_application_id = ap_id a, ev_type = StageEvent,
              ev_stage = Some (ac_initial_stage d), ev_occurred_at = now, ev_note = ac_note d,
              ev_payload = InitialMarker, ev_created_at = now\<rparr> db2))"

definition create_write ::
  "(job_row \<Rightarrow> bool) \<Rightarrow> instant \<Rightarrow> string \<Rightarrow> app_db \<Rightarrow> app_db \<Rightarrow> int \<Rightarrow> application_create
     \<Rightarrow> app_db outcome" where
  "create_write attest now new_id db dbw uid d =
     and_then (source_job db uid d) (\<lambda>job.
     and_then (check_resume_version db uid (ac_resume_version_id d)) (\<lambda>_.
     and_then (source_snapshot attest db uid d job) (\<lambda>snap.
       insert_application now uid d job (new_application now new_id uid d job snap) dbw)))"

definition create where
  "create attest now new_id db dbw uid d =
     finish attest uid new_id (create_write attest now new_id db dbw uid d)"

subsection \<open>Timeline events\<close>

record event_create =
  ec_expected_revision :: int
  ec_type :: event_type
  ec_stage :: "stage option"
  ec_occurred_at :: "instant option"
  ec_note :: "string option"
  ec_payload :: payload

text \<open>The validators of \<open>ApplicationEventCreate\<close>; the size bounds of the payload are not modelled.\<close>

definition valid_event :: "event_create \<Rightarrow> bool" where
  "valid_event d \<longleftrightarrow>
     1 \<le> ec_expected_revision d
     \<and> ec_type d \<in> {StageEvent, NoteEvent, TaskEvent, ContactEvent, InterviewEvent}
     \<and> (ec_type d = StageEvent \<longrightarrow> ec_stage d \<noteq> None)
     \<and> (ec_type d \<noteq> StageEvent \<longrightarrow> ec_stage d = None)
     \<and> (ec_type d \<in> {NoteEvent, ContactEvent, InterviewEvent} \<longrightarrow> or_else (ec_note d) [] \<noteq> [])
     \<and> length (or_else (ec_note d) []) \<le> 10000"

text \<open>The stage after an event; the service only sees validated events.\<close>

definition next_stage :: "app_row \<Rightarrow> event_create \<Rightarrow> stage outcome" where
  "next_stage a d =
     (case ec_stage d of
        Some st \<Rightarrow>
          if ec_type d = StageEvent \<and> st \<noteq> ap_current_stage a
          then and_then (ensure (st \<in> set (transitions (ap_current_stage a)))
                 (TransitionConflict (ap_current_stage a) st)) (\<lambda>_. Inr st)
          else Inr (ap_current_stage a)
      | None \<Rightarrow> Inr (ap_current_stage a))"

definition event_row_of :: "string \<Rightarrow> instant \<Rightarrow> event_create \<Rightarrow> event_row" where
  "event_row_of aid now d =
     \<lparr>ev_application_id = aid, ev_type = ec_type d, ev_stage = ec_stage d,
      ev_occurred_at = or_else (ec_occurred_at d) now, ev_note = ec_note d,
      ev_payload = ec_payload d, ev_created_at = now\<rparr>"

definition append_event_write ::
  "instant \<Rightarrow> app_db \<Rightarrow> app_db \<Rightarrow> int \<Rightarrow> string \<Rightarrow> event_create \<Rightarrow> app_db outcome" where
  "append_event_write now db dbw uid aid d =
     and_then (get_application db uid aid) (\<lambda>a.
     and_then (ensure (ap_revision a = ec_expected_revision d)
       (RevisionConflict (ec_expected_revision d) (ap_revision a))) (\<lambda>_.
     and_then (next_stage a d) (\<lambda>st.
     and_then (advance_revision a (ec_expected_revision d) now
       (\<lambda>r. r\<lparr>ap_current_stage := st,
               ap_latest_event_at := max (ap_latest_event_at a) (or_else (ec_occurred_at d) now)\<rparr>)
       dbw) (\<lambda>db1.
       Inr (append_row (event_row_of aid now d)
              (sync_legacy_applied_markers uid a st None db1))))))"

definition append_event where
  "append_event attest now db dbw uid aid d =
     finish attest uid aid (append_event_write now db dbw uid aid d)"

subsection \<open>Preparation updates\<close>

definition preparation_fields :: "string list" where
  "preparation_fields =
     [''title'', ''company'', ''description'', ''application_url'', ''application_email'']"

record preparation_update =
  pu_expected_revision :: int
  pu_fields :: "string \<Rightarrow> string option option" \<comment> \<open>the fields that the request sets\<close>
  pu_resume_version_id :: "string option option"

fun apply_preparation ::
  "(string \<Rightarrow> string option option) \<Rightarrow> string list \<Rightarrow> snapshot \<times> string list
     \<Rightarrow> snapshot \<times> string list" where
  "apply_preparation given [] acc = acc"
| "apply_preparation given (f # fs) (s, changed) =
     apply_preparation given fs
       (case given f of
          None \<Rightarrow> (s, changed)
        | Some v \<Rightarrow> if snap_get s f \<noteq> v then (snap_set f v s, changed @ [f]) else (s, changed))"

definition prepared :: "snapshot \<Rightarrow> string option \<Rightarrow> preparation_update
    \<Rightarrow> snapshot \<times> string option \<times> string list" where
  "prepared snap resume d =
     (case apply_preparation (pu_fields d) preparation_fields (snap, []) of
        (s, changed) \<Rightarrow>
          (case pu_resume_version_id d of
             None \<Rightarrow> (s, resume, changed)
           | Some v \<Rightarrow>
               if resume \<noteq> v then (s, v, changed @ [''resume_version_id''])
               else (s, resume, changed)))"

definition update_preparation_write ::
  "(job_row \<Rightarrow> bool) \<Rightarrow> instant \<Rightarrow> app_db \<Rightarrow> app_db \<Rightarrow> int \<Rightarrow> string \<Rightarrow> preparation_update
     \<Rightarrow> app_db outcome" where
  "update_preparation_write attest now db dbw uid aid d =
     and_then (get_application db uid aid) (\<lambda>a.
     and_then (ensure (ap_revision a = pu_expected_revision d)
       (RevisionConflict (pu_expected_revision d) (ap_revision a))) (\<lambda>_.
     and_then (case pu_resume_version_id d of
         Some (Some v) \<Rightarrow> check_resume_version db uid (Some v) | _ \<Rightarrow> Inr ()) (\<lambda>_.
     case prepared (safe_snapshot attest db a) (ap_resume_version_id a) d of
       (snap, resume, changed) \<Rightarrow>
         and_then (ensure (changed \<noteq> [])
           (ValidationError ''Application preparation is unchanged'')) (\<lambda>_.
         and_then (write_application aid uid (pu_expected_revision d)
           (\<lambda>r. r\<lparr>ap_job_snapshot := snap, ap_job_title := title_projection snap,
                  ap_job_company := company_projection snap,
                  ap_job_location := location_projection snap,
                  ap_resume_version_id := resume,
                  ap_revision := pu_expected_revision d + 1, ap_updated_at := now,
                  ap_latest_event_at := max (ap_latest_event_at a) now\<rparr>)
           ''Application changed during preparation update'' dbw) (\<lambda>db1.
           Inr (append_row
             \<lparr>ev_application_id = aid, ev_type = PreparationEvent, ev_stage = None,
              ev_occurred_at = now, ev_note = None, ev_payload = ChangedFields (sort changed),
              ev_created_at = now\<rparr> db1))))))"

definition update_preparation where
  "update_preparation attest now db dbw uid aid d =
     finish attest uid aid (update_preparation_write attest now db dbw uid aid d)"

subsection \<open>Tasks\<close>

record task_create =
  tc_expected_revision :: int
  tc_title :: string
  tc_due_at :: "instant option"
  tc_priority :: priority
  tc_reminder_at :: "instant option"

text \<open>The reminder of a task needs a due date that it does not exceed.\<close>

definition schedule_ok :: "instant option \<Rightarrow> instant option \<Rightarrow> bool" where
  "schedule_ok reminder due \<longleftrightarrow>
     (case reminder of None \<Rightarrow> True
      | Some r \<Rightarrow> (case due of None \<Rightarrow> False | Some d \<Rightarrow> r \<le> d))"

definition valid_task_create :: "task_create \<Rightarrow> bool" where
  "valid_task_create d \<longleftrightarrow>
     1 \<le> tc_expected_revision d \<and> tc_title d \<noteq> [] \<and> length (tc_title d) \<le> 500
     \<and> schedule_ok (tc_reminder_at d) (tc_due_at d)"

definition new_task :: "instant \<Rightarrow> string \<Rightarrow> task_create \<Rightarrow> task" where
  "new_task now new_id d =
     \<lparr>t_id = new_id, t_title = tc_title d, t_status = Pending, t_priority = tc_priority d,
      t_due_at = tc_due_at d, t_reminder_at = tc_reminder_at d, t_completed_at = None,
      t_revision = 1, t_created_at = now, t_updated_at = now\<rparr>"

definition task_event :: "string \<Rightarrow> instant \<Rightarrow> event_type \<Rightarrow> task \<Rightarrow> event_row" where
  "task_event aid now ty t =
     \<lparr>ev_application_id = aid, ev_type = ty, ev_stage = None, ev_occurred_at = now,
      ev_note = Some (t_title t), ev_payload = TaskSnapshot t, ev_created_at = now\<rparr>"

definition create_task_write ::
  "instant \<Rightarrow> string \<Rightarrow> app_db \<Rightarrow> app_db \<Rightarrow> int \<Rightarrow> string \<Rightarrow> task_create \<Rightarrow> app_db outcome" where
  "create_task_write now new_id db dbw uid aid d =
     and_then (get_application db uid aid) (\<lambda>a.
     let task = new_task now new_id d in
     and_then (task_snapshots (events_of db aid)) (\<lambda>ts.
     and_then (advance_revision a (tc_expected_revision d) now
       (project_next_action (next_action (sort_key task_sort_key (ts @ [task])))) dbw) (\<lambda>db1.
       Inr (append_row (task_event aid now TaskCreated task) db1))))"

definition create_task where
  "create_task attest now new_id db dbw uid aid d =
     finish attest uid aid (create_task_write now new_id db dbw uid aid d)"

record task_update =
  tu_expected_revision :: int
  tu_title :: "string option"
  tu_due_at :: "instant option option"
  tu_priority :: "priority option"
  tu_reminder_at :: "instant option option"
  tu_status :: "task_status option"

definition valid_task_update :: "task_update \<Rightarrow> bool" where
  "valid_task_update d \<longleftrightarrow>
     1 \<le> tu_expected_revision d
     \<and> (tu_title d \<noteq> None \<or> tu_due_at d \<noteq> None \<or> tu_priority d \<noteq> None
        \<or> tu_reminder_at d \<noteq> None \<or> tu_status d \<noteq> None)
     \<and> or_else (tu_title d) ''-'' \<noteq> [] \<and> length (or_else (tu_title d) ''-'') \<le> 500"

text \<open>
  The updated fields of \<open>current\<close>: a cleared due date clears the reminder, and
  the completion time follows the status.
\<close>

definition apply_task_update :: "instant \<Rightarrow> task_update \<Rightarrow> task \<Rightarrow> task outcome" where
  "apply_task_update now d current =
     (let due = or_else (tu_due_at d) (t_due_at current);
          reminder = (if due = None then None else or_else (tu_reminder_at d) (t_reminder_at current));
          status = or_else (tu_status d) (t_status current);
          completed_at =
            (if status = Completed \<and> t_status current \<noteq> Completed then Some now
             else if status \<noteq> Completed \<and> t_status current = Completed then None
             else t_completed_at current);
          updated = current\<lparr>t_title := or_else (tu_title d) (t_title current), t_due_at := due,
            t_priority := or_else (tu_priority d) (t_priority current),
            t_reminder_at := reminder, t_status := status, t_completed_at := completed_at\<rparr>
      in case reminder of
           Some r \<Rightarrow>
             (case due of
                None \<Rightarrow> Inl (ValidationError ''due_at is required when reminder_at is set'')
              | Some du \<Rightarrow>
                  if r > du then Inl (ValidationError ''reminder_at cannot be after due_at'')
                  else if updated = current
                  then Inl (ValidationError ''Application task is unchanged'')
                  else Inr (updated\<lparr>t_revision := t_revision current + 1, t_updated_at := now\<rparr>))
         | None \<Rightarrow>
             if updated = current then Inl (ValidationError ''Application task is unchanged'')
             else Inr (updated\<lparr>t_revision := t_revision current + 1, t_updated_at := now\<rparr>))"

definition task_event_type :: "task \<Rightarrow> task \<Rightarrow> event_type" where
  "task_event_type current updated =
     (if t_status current = t_status updated then TaskUpdated
      else case t_status updated of
        Completed \<Rightarrow> TaskCompleted | Cancelled \<Rightarrow> TaskCancelled | Pending \<Rightarrow> TaskReopened)"

definition replace_task :: "string \<Rightarrow> task \<Rightarrow> task list \<Rightarrow> task list" where
  "replace_task tid t ts = map (\<lambda>u. if t_id u = tid then t else u) ts"

definition update_task_write ::
  "instant \<Rightarrow> app_db \<Rightarrow> app_db \<Rightarrow> int \<Rightarrow> string \<Rightarrow> string \<Rightarrow> task_update \<Rightarrow> app_db outcome" where
  "update_task_write now db dbw uid aid tid d =
     and_then (get_application db uid aid) (\<lambda>a.
     and_then (task_snapshots (events_of db aid)) (\<lambda>ts.
     and_then (case find (\<lambda>t. t_id t = tid) ts of
         None \<Rightarrow> Inl (NotFoundError ''Application task not found'')
       | Some current \<Rightarrow> Inr current) (\<lambda>current.
     and_then (apply_task_update now d current) (\<lambda>updated.
     and_then (advance_revision a (tu_expected_revision d) now
       (project_next_action
          (next_action (sort_key task_sort_key (replace_task tid updated ts)))) dbw) (\<lambda>db1.
       Inr (append_row (task_event aid now (task_event_type current updated) updated) db1))))))"

definition update_task where
  "update_task attest now db dbw uid aid tid d =
     finish attest uid aid (update_task_write now db dbw uid aid tid d)"

subsection \<open>Dossiers\<close>

text \<open>
  What the publication of a dossier commits to the application: the linked resume
  version, the next revision and an immutable timeline event. The guards that
  come before it are those of \<open>Dossiers\<close>.
\<close>

definition dossier_event :: "string \<Rightarrow> instant \<Rightarrow> string \<Rightarrow> event_row" where
  "dossier_event aid now payload =
     \<lparr>ev_application_id = aid, ev_type = DossierPublished, ev_stage = None, ev_occurred_at = now,
      ev_note = None, ev_payload = OtherJson payload, ev_created_at = now\<rparr>"

definition publish_dossier_write ::
  "instant \<Rightarrow> app_db \<Rightarrow> app_db \<Rightarrow> int \<Rightarrow> string \<Rightarrow> int \<Rightarrow> string \<Rightarrow> string \<Rightarrow> app_db outcome" where
  "publish_dossier_write now db dbw uid aid expected version payload =
     and_then (get_application db uid aid) (\<lambda>a.
     and_then (advance_revision a expected now (\<lambda>r. r\<lparr>ap_resume_version_id := Some version\<rparr>) dbw) (\<lambda>db1.
       Inr (append_row (dossier_event aid now payload) db1)))"

end
