(* ===== verification/AppTimeline.thy ===== *)
theory AppTimeline
  imports Applications
begin

text \<open>
  What the application service keeps true over any history of commits. A
  history is the list of database states, latest first, with a clock that does
  not go back; a command may have read any earlier state before its write
  meets the latest one, so every interleaving of sessions is covered. Jobs,
  listings, resume versions and profiles may change freely in between.
\<close>

subsection \<open>Commands\<close>

datatype app_command =
    CreateApplication string int application_create
  | AppendEvent int string event_create
  | UpdatePreparation int string preparation_update
  | CreateTask string int string task_create
  | UpdateTask int string string task_update
  | PublishDossier int string int string string

fun write_command ::
  "(job_row \<Rightarrow> bool) \<Rightarrow> instant \<Rightarrow> app_db \<Rightarrow> app_db \<Rightarrow> app_command \<Rightarrow> app_db outcome" where
  "write_command attest now db dbw (CreateApplication new_id uid d) =
     create_write attest now new_id db dbw uid d"
| "write_command attest now db dbw (AppendEvent uid aid d) =
     append_event_write now db dbw uid aid d"
| "write_command attest now db dbw (UpdatePreparation uid aid d) =
     update_preparation_write attest now db dbw uid aid d"
| "write_command attest now db dbw (CreateTask new_id uid aid d) =
     create_task_write now new_id db dbw uid aid d"
| "write_command attest now db dbw (UpdateTask uid aid tid d) =
     update_task_write now db dbw uid aid tid d"
| "write_command attest now db dbw (PublishDossier uid aid expected version content) =
     publish_dossier_write now db dbw uid aid expected version content"

fun valid_command :: "app_command \<Rightarrow> bool" where
  "valid_command (CreateApplication new_id uid d) = valid_create d"
| "valid_command (AppendEvent uid aid d) = valid_event d"
| "valid_command (UpdatePreparation uid aid d) = (1 \<le> pu_expected_revision d)"
| "valid_command (CreateTask new_id uid aid d) = valid_task_create d"
| "valid_command (UpdateTask uid aid tid d) = valid_task_update d"
| "valid_command (PublishDossier uid aid expected version content) = (1 \<le> expected)"

definition app_events :: "app_db \<Rightarrow> string \<Rightarrow> event_row list" where
  "app_events db aid = filter (\<lambda>e. ev_application_id e = aid) (db_events db)"

lemma task_snapshots_events_of:
  "task_snapshots (events_of db aid) = Inr ts \<longleftrightarrow> task_snapshots (app_events db aid) = Inr ts"
  by (rule task_snapshots_set_eq) (auto simp: app_events_def)

text \<open>A generated id is canonical, and a task id is new for its application.\<close>

fun fresh_command :: "app_db \<Rightarrow> app_command \<Rightarrow> bool" where
  "fresh_command db (CreateTask new_id uid aid d) =
     (canonical_uuid new_id \<and> (\<forall>ev \<in> set (app_events db aid).
        case decode_event ev of Inr (Some t) \<Rightarrow> t_id t \<noteq> new_id | _ \<Rightarrow> True))"
| "fresh_command db (CreateApplication new_id uid d) = canonical_uuid new_id"
| "fresh_command db _ = True"

lemma fresh_command_task:
  "fresh_command db (CreateTask new_id uid aid d) \<Longrightarrow>
    canonical_uuid new_id \<and> (\<forall>t \<in> tasks_in (app_events db aid). t_id t \<noteq> new_id)"
  by (fastforce simp: tasks_in_def)

subsection \<open>What holds of one application\<close>

definition stage_ok :: "event_row list \<Rightarrow> app_row \<Rightarrow> bool" where
  "stage_ok E a \<longleftrightarrow>
     (ap_current_stage a \<in> {Saved, Preparing} \<longrightarrow>
        (\<forall>e \<in> set E. \<forall>st. ev_stage e = Some st \<longrightarrow> st \<notin> set milestone_stages))
     \<and> (\<exists>e \<in> set E. ev_stage e = Some (ap_current_stage a))"

definition task_wf :: "task \<Rightarrow> bool" where
  "task_wf t \<longleftrightarrow> schedule_ok (t_reminder_at t) (t_due_at t)
     \<and> (t_status t = Completed \<longleftrightarrow> t_completed_at t \<noteq> None)
     \<and> t_title t \<noteq> [] \<and> length (t_title t) \<le> 500"

definition row_texts :: "app_row \<Rightarrow> bool" where
  "row_texts a \<longleftrightarrow> canonical_uuid (ap_id a)
     \<and> ap_job_title a \<noteq> [] \<and> length (ap_job_title a) \<le> 240
     \<and> ap_job_company a \<noteq> [] \<and> length (ap_job_company a) \<le> 240"

definition row_ok :: "instant \<Rightarrow> event_row list \<Rightarrow> app_row \<Rightarrow> bool" where
  "row_ok clock E a \<longleftrightarrow>
     1 \<le> ap_revision a \<and> row_texts a
     \<and> (\<exists>ts. task_snapshots E = Inr ts \<and> project_next_action (next_action ts) a = a)
     \<and> (\<forall>t \<in> tasks_in E. t_updated_at t \<le> clock \<and> task_wf t)
     \<and> stage_ok E a"

definition app_ok :: "instant \<Rightarrow> app_db \<Rightarrow> bool" where
  "app_ok clock db \<longleftrightarrow>
     unique_by ap_id (db_applications db)
     \<and> (\<forall>ev \<in> set (db_events db). ev_application_id ev \<in> ap_id ` set (db_applications db))
     \<and> (\<forall>a \<in> set (db_applications db). row_ok clock (app_events db (ap_id a)) a)
     \<and> (\<forall>a \<in> set (db_applications db). \<forall>b \<in> set (db_applications db).
          ap_user a = ap_user b \<longrightarrow> ap_scraped_job_id a \<noteq> None \<longrightarrow>
          ap_scraped_job_id a = ap_scraped_job_id b \<longrightarrow> a = b)"

text \<open>Stages that a sequence of permitted transitions connects.\<close>

definition stage_reach :: "stage \<Rightarrow> stage \<Rightarrow> bool" where
  "stage_reach = (\<lambda>s t. t \<in> set (transitions s))\<^sup>*\<^sup>*"

lemma stage_reach_refl [simp]: "stage_reach s s"
  by (simp add: stage_reach_def)

lemma stage_reach_step: "t \<in> set (transitions s) \<Longrightarrow> stage_reach s t"
  by (simp add: stage_reach_def r_into_rtranclp)

lemma stage_reach_trans: "stage_reach s t \<Longrightarrow> stage_reach t u \<Longrightarrow> stage_reach s u"
  unfolding stage_reach_def by (rule rtranclp_trans)

text \<open>
  A later state has moved on from an earlier one. The links of an application
  are foreign keys with ON DELETE SET NULL, so they may be cleared without a
  new revision; everything else of a row is fixed by its revision.
\<close>

definition core :: "app_row \<Rightarrow> app_row" where
  "core a = a\<lparr>ap_job_id := None, ap_scraped_job_id := None, ap_resume_version_id := None\<rparr>"

definition link_kept :: "'a option \<Rightarrow> 'a option \<Rightarrow> bool" where
  "link_kept x y \<longleftrightarrow> y = x \<or> y = None"

definition moved_on :: "app_db \<Rightarrow> app_db \<Rightarrow> app_row \<Rightarrow> app_row \<Rightarrow> bool" where
  "moved_on db db' a a' \<longleftrightarrow>
     ap_id a' = ap_id a \<and> ap_user a' = ap_user a
     \<and> link_kept (ap_scraped_job_id a) (ap_scraped_job_id a')
     \<and> link_kept (ap_job_id a) (ap_job_id a')
     \<and> stage_reach (ap_current_stage a) (ap_current_stage a')
     \<and> ap_revision a \<le> ap_revision a'
     \<and> (ap_revision a' = ap_revision a \<longrightarrow>
          core a' = core a \<and> app_events db' (ap_id a) = app_events db (ap_id a))"

definition evolved :: "app_db \<Rightarrow> app_db \<Rightarrow> bool" where
  "evolved db db' \<longleftrightarrow>
     (\<forall>a \<in> set (db_applications db). \<exists>a' \<in> set (db_applications db'). moved_on db db' a a')"

lemma link_kept_trans: "link_kept x y \<Longrightarrow> link_kept y z \<Longrightarrow> link_kept x z"
  by (auto simp: link_kept_def)

lemma link_kept_simps [simp]: "link_kept x x" "link_kept x None"
  by (simp_all add: link_kept_def)

lemma moved_on_trans:
  assumes "moved_on db1 db2 a b" and "moved_on db2 db3 b c"
  shows "moved_on db1 db3 a c"
proof -
  from assms have "ap_id b = ap_id a" "ap_revision a \<le> ap_revision b" "ap_revision b \<le> ap_revision c"
    by (auto simp: moved_on_def)
  with assms show ?thesis
    unfolding moved_on_def by (auto intro: link_kept_trans stage_reach_trans)
qed

lemma evolved_refl: "evolved db db"
  by (auto simp: evolved_def moved_on_def)

lemma evolved_trans: "evolved db1 db2 \<Longrightarrow> evolved db2 db3 \<Longrightarrow> evolved db1 db3"
  unfolding evolved_def by (meson moved_on_trans)

subsection \<open>One guarded write\<close>

lemma get_application_Inr:
  "get_application db uid aid = Inr a \<Longrightarrow>
    a \<in> set (db_applications db) \<and> ap_id a = aid \<and> ap_user a = uid"
  by (auto simp: get_application_def dest: select_first_Some split: option.splits)

lemma write_application_Inr:
  assumes "write_application aid uid e f msg dbw = Inr db1"
    and uniq: "unique_by ap_id (db_applications dbw)"
  obtains r where "r \<in> set (db_applications dbw)" "ap_id r = aid" "ap_user r = uid"
    "ap_revision r = e"
    "db1 = dbw\<lparr>db_applications := update_rows (\<lambda>x. ap_id x = aid) f (db_applications dbw)\<rparr>"
proof -
  let ?p = "\<lambda>r. ap_id r = aid \<and> ap_user r = uid \<and> ap_revision r = e"
  from assms(1) have count: "row_count ?p (db_applications dbw) = Suc 0"
    and db1: "db1 = dbw\<lparr>db_applications := update_rows ?p f (db_applications dbw)\<rparr>"
    by (auto simp: write_application_def Let_def split: if_splits)
  from row_count_pos_exists [OF count] obtain r
    where r: "r \<in> set (db_applications dbw)" "?p r" by blast
  have "update_rows ?p f (db_applications dbw) =
      update_rows (\<lambda>x. ap_id x = aid) f (db_applications dbw)"
    unfolding update_rows_def
  proof (rule map_cong [OF refl])
    fix x assume "x \<in> set (db_applications dbw)"
    with r unique_byD [OF uniq, of x r]
    show "(if ?p x then f x else x) = (if ap_id x = aid then f x else x)" by auto
  qed
  with r db1 show thesis by (intro that [of r]) simp_all
qed

text \<open>
  The row that a command has read is still the row that its write meets,
  because the revision it expects is the one it saw.
\<close>

lemma read_is_current:
  assumes ev: "evolved db dbw" and uniq: "unique_by ap_id (db_applications dbw)"
    and a: "a \<in> set (db_applications db)" and r: "r \<in> set (db_applications dbw)"
    and same: "ap_id r = ap_id a" "ap_revision r = ap_revision a"
  shows "core r = core a \<and> app_events dbw (ap_id a) = app_events db (ap_id a)"
proof -
  from ev a obtain a' where a': "a' \<in> set (db_applications dbw)" "moved_on db dbw a a'"
    unfolding evolved_def by blast
  with unique_byD [OF uniq a'(1) r] same have "a' = r" by (simp add: moved_on_def)
  with a' same show ?thesis by (simp add: moved_on_def)
qed

definition commits_row :: "app_db \<Rightarrow> app_db \<Rightarrow> app_row \<Rightarrow> app_row \<Rightarrow> event_row \<Rightarrow> bool" where
  "commits_row dbw db' a a' ev \<longleftrightarrow>
     a \<in> set (db_applications dbw)
     \<and> db_applications db' = update_rows (\<lambda>x. ap_id x = ap_id a) (\<lambda>_. a') (db_applications dbw)
     \<and> db_events db' = db_events dbw @ [ev]
     \<and> ap_id a' = ap_id a \<and> ap_user a' = ap_user a \<and> ap_job_id a' = ap_job_id a
     \<and> ap_scraped_job_id a' = ap_scraped_job_id a
     \<and> stage_reach (ap_current_stage a) (ap_current_stage a')
     \<and> ap_revision a' = ap_revision a + 1 \<and> ev_application_id ev = ap_id a"

lemma app_events_append:
  "db_events db' = db_events db @ [ev] \<Longrightarrow>
    app_events db' aid = app_events db aid @ (if ev_application_id ev = aid then [ev] else [])"
  by (simp add: app_events_def)

lemma row_ok_mono: "row_ok c E a \<Longrightarrow> c \<le> c' \<Longrightarrow> row_ok c' E a"
  unfolding row_ok_def by (meson order.trans)

lemma commits_row_ok:
  assumes ok: "app_ok clock dbw" and "clock \<le> now" and c: "commits_row dbw db' a a' ev"
    and row: "row_ok clock (app_events dbw (ap_id a)) a \<Longrightarrow>
      row_ok now (app_events dbw (ap_id a) @ [ev]) a'"
  shows "app_ok now db'" and "evolved dbw db'"
proof -
  let ?A = "db_applications dbw" and ?B = "db_applications db'"
  have aA: "a \<in> set ?A" and B: "?B = update_rows (\<lambda>x. ap_id x = ap_id a) (\<lambda>_. a') ?A"
    and E: "db_events db' = db_events dbw @ [ev]" and same: "ap_id a' = ap_id a"
    "ap_user a' = ap_user a" "ap_scraped_job_id a' = ap_scraped_job_id a"
    "ap_job_id a' = ap_job_id a" "ap_revision a' = ap_revision a + 1"
    "stage_reach (ap_current_stage a) (ap_current_stage a')" "ev_application_id ev = ap_id a"
    using c by (auto simp: commits_row_def)
  have uniq: "unique_by ap_id ?A" using ok by (simp add: app_ok_def)
  have only_a: "x = a" if "x \<in> set ?A" "ap_id x = ap_id a" for x
    using unique_byD [OF uniq that(1) aA that(2)] .
  have setB: "set ?B = insert a' {x \<in> set ?A. ap_id x \<noteq> ap_id a}"
    unfolding B set_update_rows using aA by auto
  have keys: "map ap_id ?B = map ap_id ?A"
    unfolding B by (rule map_update_rows) (simp add: same)
  have ids: "ap_id ` set ?B = ap_id ` set ?A"
    using arg_cong [OF keys, of set] by simp
  show "app_ok now db'"
    unfolding app_ok_def
  proof (intro conjI ballI impI)
    show "unique_by ap_id ?B" using uniq keys by (simp add: unique_by_def)
    show "ev_application_id e \<in> ap_id ` set ?B" if "e \<in> set (db_events db')" for e
      using that ok aA same unfolding E ids app_ok_def by auto
    show "row_ok now (app_events db' (ap_id x)) x" if x: "x \<in> set ?B" for x
    proof (cases "x = a'")
      case True
      have "row_ok clock (app_events dbw (ap_id a)) a" using ok aA by (simp add: app_ok_def)
      with row True same show ?thesis by (simp add: app_events_append [OF E])
    next
      case False
      with x have "x \<in> set ?A" "ap_id x \<noteq> ap_id a" unfolding setB by auto
      with ok same \<open>clock \<le> now\<close> show ?thesis
        by (auto simp: app_ok_def app_events_append [OF E] intro: row_ok_mono)
    qed
    show "x = y" if x: "x \<in> set ?B" and y: "y \<in> set ?B" and u: "ap_user x = ap_user y"
      and s: "ap_scraped_job_id x \<noteq> None" "ap_scraped_job_id x = ap_scraped_job_id y" for x y
    proof -
      have pre: "\<exists>z0 \<in> set ?A. ap_id z0 = ap_id z \<and> ap_user z0 = ap_user z
          \<and> ap_scraped_job_id z0 = ap_scraped_job_id z \<and> (z = z0 \<or> z = a' \<and> z0 = a)"
        if "z \<in> set ?B" for z
        using that aA same unfolding setB by auto
      from pre [OF x] pre [OF y] obtain x0 y0 where z: "x0 \<in> set ?A" "y0 \<in> set ?A"
        "ap_id x0 = ap_id x" "ap_id y0 = ap_id y" "ap_user x0 = ap_user x" "ap_user y0 = ap_user y"
        "ap_scraped_job_id x0 = ap_scraped_job_id x" "ap_scraped_job_id y0 = ap_scraped_job_id y"
        "x = x0 \<or> x = a' \<and> x0 = a" "y = y0 \<or> y = a' \<and> y0 = a" by auto
      with ok u s have "x0 = y0" unfolding app_ok_def by metis
      moreover have "z \<noteq> a" if "z \<in> set ?B" "z = z0" "z0 \<in> set ?A" for z z0
        using that same unfolding setB by force
      ultimately show ?thesis using z x y by metis
    qed
  qed
  show "evolved dbw db'"
    unfolding evolved_def
  proof
    fix x assume x: "x \<in> set ?A"
    show "\<exists>x' \<in> set ?B. moved_on dbw db' x x'"
    proof (cases "ap_id x = ap_id a")
      case True
      with only_a [OF x] have "x = a" by simp
      with same show ?thesis unfolding setB by (intro bexI [of _ a']) (auto simp: moved_on_def)
    next
      case False
      with x same show ?thesis
        unfolding setB
        by (intro bexI [of _ x]) (auto simp: moved_on_def app_events_append [OF E])
    qed
  qed
qed

subsection \<open>The guarded commands\<close>

lemma core_fields:
  assumes "core r = core a"
  shows "ap_id r = ap_id a" "ap_user r = ap_user a" "ap_revision r = ap_revision a"
    "ap_current_stage r = ap_current_stage a" "ap_latest_event_at r = ap_latest_event_at a"
    "ap_updated_at r = ap_updated_at a" "ap_job_snapshot r = ap_job_snapshot a"
  using assms by (cases r, cases a, simp add: core_def)+

lemma project_next_action_fix:
  "project_next_action t a = a \<longleftrightarrow>
    ap_next_action_task_id a = map_option t_id t \<and> ap_next_action_title a = map_option t_title t
    \<and> ap_next_action_at a = (case t of None \<Rightarrow> None | Some t \<Rightarrow> t_due_at t)
    \<and> ap_next_action_priority a = map_option t_priority t"
  by (cases a) (auto simp: project_next_action_def)

lemma project_next_action_fields [simp]:
  "ap_id (project_next_action t a) = ap_id a" "ap_user (project_next_action t a) = ap_user a"
  "ap_job_id (project_next_action t a) = ap_job_id a"
  "ap_scraped_job_id (project_next_action t a) = ap_scraped_job_id a"
  "ap_revision (project_next_action t a) = ap_revision a"
  "ap_current_stage (project_next_action t a) = ap_current_stage a"
  "ap_updated_at (project_next_action t a) = ap_updated_at a"
  "project_next_action t (project_next_action u a) = project_next_action t a"
  by (simp_all add: project_next_action_def)

definition keeps_keys :: "(app_row \<Rightarrow> app_row) \<Rightarrow> int \<Rightarrow> bool" where
  "keeps_keys f e \<longleftrightarrow> (\<forall>r. ap_id (f r) = ap_id r \<and> ap_user (f r) = ap_user r
     \<and> ap_job_id (f r) = ap_job_id r \<and> ap_scraped_job_id (f r) = ap_scraped_job_id r
     \<and> ap_revision (f r) = e + 1)"

lemma guarded_commit:
  assumes ev: "evolved db dbw" and ok: "app_ok clock dbw"
    and a: "get_application db uid aid = Inr a"
    and w: "write_application aid uid (ap_revision a) f msg dbw = Inr db1"
    and f: "keeps_keys f (ap_revision a)"
    and st: "\<And>r. core r = core a \<Longrightarrow> stage_reach (ap_current_stage r) (ap_current_stage (f r))"
    and db': "db_applications db' = db_applications db1" "db_events db' = db_events dbw @ [e]"
    and e: "ev_application_id e = aid"
  obtains r where "commits_row dbw db' r (f r) e" "core r = core a" "ap_id r = aid"
    "app_events dbw aid = app_events db aid" "r \<in> set (db_applications dbw)"
proof -
  have uniq: "unique_by ap_id (db_applications dbw)" using ok by (simp add: app_ok_def)
  from write_application_Inr [OF w uniq] obtain r where r: "r \<in> set (db_applications dbw)"
    "ap_id r = aid" "ap_user r = uid" "ap_revision r = ap_revision a"
    "db1 = dbw\<lparr>db_applications := update_rows (\<lambda>x. ap_id x = aid) f (db_applications dbw)\<rparr>" .
  from get_application_Inr [OF a] have a': "a \<in> set (db_applications db)" "ap_id a = aid" by auto
  have cur: "core r = core a" "app_events dbw aid = app_events db aid"
    using read_is_current [OF ev uniq a'(1) r(1)] r a' by auto
  have "update_rows (\<lambda>x. ap_id x = aid) f (db_applications dbw) =
      update_rows (\<lambda>x. ap_id x = aid) (\<lambda>_. f r) (db_applications dbw)"
    unfolding update_rows_def
  proof (rule map_cong [OF refl])
    fix x assume "x \<in> set (db_applications dbw)"
    with unique_byD [OF uniq _ r(1), of x] r(2)
    show "(if ap_id x = aid then f x else x) = (if ap_id x = aid then f r else x)" by auto
  qed
  with r f db' e st [OF cur(1)] have "commits_row dbw db' r (f r) e"
    by (simp add: commits_row_def keeps_keys_def)
  with cur r show thesis by (intro that [of r]) simp_all
qed

end
