(* ===== verification/AppHistory.thy ===== *)
theory AppHistory
  imports AppTimeline
begin

text \<open>
  Every command of the application service keeps the invariant \<open>app_ok\<close> and
  only moves applications forward, whatever earlier state it has read. The
  theory defines the histories that interleaved sessions produce and derives
  the properties of the service that hold in all of them.
\<close>

subsection \<open>The replay after one more task event\<close>

lemma task_snapshots_facts:
  assumes "task_snapshots evs = Inr ts"
  shows "inj_on t_id (set ts)" "distinct ts" "set ts \<subseteq> tasks_in evs" "log_ok (tasks_in evs)"
    "set ts = current_tasks (tasks_in evs)" "events_valid evs"
proof -
  note facts = task_snapshots_Inr [OF assms]
  then show "distinct ts" "log_ok (tasks_in evs)" "set ts = current_tasks (tasks_in evs)"
    "events_valid evs" by simp_all
  show "set ts \<subseteq> tasks_in evs" unfolding facts(3) by (auto simp: current_tasks_def)
  show "inj_on t_id (set ts)"
    unfolding facts(3) using facts(2) by (auto simp: log_ok_def intro: current_tasks_ids)
qed

lemma task_snapshots_other:
  assumes "task_snapshots E = Inr ts" and "decode_event e = Inr None"
  shows "task_snapshots (E @ [e]) = Inr ts"
  using assms tasks_in_set_other [of "E @ [e]" e E] by (simp add: task_snapshots_spec)

lemma task_snapshots_add:
  assumes ts: "task_snapshots E = Inr ts" and e: "decode_event e = Inr (Some t)"
    and new: "\<forall>u \<in> tasks_in E. t_id u \<noteq> t_id t" and r: "t_revision t = 1"
  shows "task_snapshots (E @ [e]) = Inr (sort_key task_sort_key (ts @ [t]))"
proof -
  note facts = task_snapshots_facts [OF ts]
  from new have "t_id t \<notin> t_id ` tasks_in E" by auto
  note ext = log_extend_new [OF facts(4) this r]
  have "t \<notin> set ts" using facts(3) new by auto
  with tasks_in_set [of "E @ [e]" e E t] e facts ext show ?thesis
    by (simp add: task_snapshots_spec)
qed

lemma replace_task_set:
  assumes "inj_on t_id (set ts)" and "distinct ts" and "c \<in> set ts" and "t_id t = t_id c"
  shows "set (replace_task (t_id c) t ts) = insert t (set ts - {c})"
    and "distinct (replace_task (t_id c) t ts)"
proof -
  have only: "u = c" if "u \<in> set ts" "t_id u = t_id c" for u
    using assms that by (auto dest: inj_onD)
  with assms(3) show "set (replace_task (t_id c) t ts) = insert t (set ts - {c})"
    by (auto simp: replace_task_def image_iff)
  have "map t_id (replace_task (t_id c) t ts) = map t_id ts"
    using assms(4) by (simp add: replace_task_def)
  with assms(1,2) show "distinct (replace_task (t_id c) t ts)"
    by (metis distinct_map)
qed

lemma task_snapshots_replace:
  assumes ts: "task_snapshots E = Inr ts" and e: "decode_event e = Inr (Some t)"
    and c: "c \<in> set ts" and t: "t_id t = t_id c" "t_revision t = t_revision c + 1"
    "t_created_at t = t_created_at c"
  shows "t_updated_at c \<le> t_updated_at t \<Longrightarrow>
      task_snapshots (E @ [e]) = Inr (sort_key task_sort_key (replace_task (t_id c) t ts))"
    and "t_updated_at t < t_updated_at c \<Longrightarrow> \<nexists>us. task_snapshots (E @ [e]) = Inr us"
proof -
  note facts = task_snapshots_facts [OF ts]
  have cur: "c \<in> current_tasks (tasks_in E)" using c facts(5) by simp
  have tasks: "tasks_in (E @ [e]) = insert t (tasks_in E)" "events_valid (E @ [e]) = events_valid E"
    using tasks_in_set [of "E @ [e]" e E t] e by auto
  show "task_snapshots (E @ [e]) = Inr (sort_key task_sort_key (replace_task (t_id c) t ts))"
    if upd: "t_updated_at c \<le> t_updated_at t"
  proof -
    note ext = log_extend_next [OF facts(4) cur t upd]
    note rep = replace_task_set [OF facts(1,2) c t(1)]
    show ?thesis using tasks facts ext rep by (simp add: task_snapshots_spec)
  qed
  show "\<nexists>us. task_snapshots (E @ [e]) = Inr us" if upd: "t_updated_at t < t_updated_at c"
  proof -
    have "c \<in> tasks_in E" using c facts(3) by auto
    from log_regress [OF this t(1) _ upd] t(2) tasks show ?thesis
      by (simp add: task_snapshots_spec)
  qed
qed

lemma row_okI:
  assumes row: "row_ok c E r" and "c \<le> now" and rev: "1 \<le> ap_revision a'"
    and ts: "task_snapshots (E @ [e]) = Inr ts" "project_next_action (next_action ts) a' = a'"
    and st: "stage_ok (E @ [e]) a'" and texts: "row_texts a'"
    and new: "\<And>t. decode_event e = Inr (Some t) \<Longrightarrow> t_updated_at t \<le> now \<and> task_wf t"
  shows "row_ok now (E @ [e]) a'"
proof -
  have "t \<in> tasks_in E \<or> decode_event e = Inr (Some t)" if "t \<in> tasks_in (E @ [e])" for t
    using that by (auto simp: tasks_in_def)
  with row \<open>c \<le> now\<close> new have "\<forall>t \<in> tasks_in (E @ [e]). t_updated_at t \<le> now \<and> task_wf t"
    unfolding row_ok_def by (meson order.trans)
  with rev ts st texts show ?thesis unfolding row_ok_def by blast
qed

lemma stage_ok_same:
  assumes "stage_ok E r" and "ap_current_stage a' = ap_current_stage r" and "ev_stage e = None"
  shows "stage_ok (E @ [e]) a'"
  using assms unfolding stage_ok_def by auto

subsection \<open>What a task update writes\<close>

lemma checked_update:
  "(case rem of
      Some r \<Rightarrow> (case due of None \<Rightarrow> Inl e1
        | Some du \<Rightarrow> if r > du then Inl e2 else if u = c then Inl e3 else Inr v)
    | None \<Rightarrow> if u = c then Inl e3 else Inr v) = Inr t \<Longrightarrow> t = v \<and> schedule_ok rem due"
  by (auto simp: schedule_ok_def split: option.splits if_splits)

lemma apply_task_update_fields:
  assumes "apply_task_update now d c = Inr t"
  shows "t_id t = t_id c" "t_revision t = t_revision c + 1" "t_created_at t = t_created_at c"
    "t_updated_at t = now" "schedule_ok (t_reminder_at t) (t_due_at t)"
    "valid_task_update d \<Longrightarrow> task_wf c \<Longrightarrow> task_wf t"
proof -
  note eq = assms [unfolded apply_task_update_def Let_def, THEN checked_update]
  show "t_id t = t_id c" "t_revision t = t_revision c + 1" "t_created_at t = t_created_at c"
    "t_updated_at t = now" "schedule_ok (t_reminder_at t) (t_due_at t)"
    by (simp_all add: eq [THEN conjunct1] eq [THEN conjunct2])
  then show "task_wf t" if "valid_task_update d" "task_wf c"
    using that by (cases "tu_title d")
      (simp_all add: task_wf_def valid_task_update_def eq [THEN conjunct1])
qed

lemma decode_task_event:
  assumes "valid_task t"
  shows "t_revision t = 1 \<Longrightarrow> t_status t = Pending \<Longrightarrow>
      decode_event (task_event aid now TaskCreated t) = Inr (Some t)"
    and "1 < t_revision t \<Longrightarrow>
      decode_event (task_event aid now (task_event_type c t) t) = Inr (Some t)"
  using assms
  by (auto simp: decode_event_def task_event_def task_event_type_def task_event_types_def
      split: task_status.splits)

lemma decode_event_valid: "decode_event ev = Inr (Some t) \<Longrightarrow> valid_task t"
  by (auto simp: decode_event_def split: if_splits payload.splits option.splits)

lemma tasks_in_valid: "t \<in> tasks_in E \<Longrightarrow> valid_task t"
  by (auto simp: tasks_in_def dest: decode_event_valid)

subsection \<open>Each command keeps the invariant\<close>

lemma sync_tables [simp]:
  "db_applications (sync_legacy_applied_markers uid a s job db) = db_applications db"
  "db_events (sync_legacy_applied_markers uid a s job db) = db_events db"
  by (simp_all add: sync_legacy_applied_markers_def Let_def split: option.splits)

lemma append_row_tables [simp]:
  "db_applications (append_row e db) = db_applications db"
  "db_events (append_row e db) = db_events db @ [e]"
  "db_jobs (append_row e db) = db_jobs db"
  by (simp_all add: append_row_def)

lemma write_application_tables:
  "write_application aid uid e f msg dbw = Inr db1 \<Longrightarrow>
    db_events db1 = db_events dbw \<and> db_jobs db1 = db_jobs dbw"
  by (auto simp: write_application_def Let_def split: if_splits)

definition step_ok :: "instant \<Rightarrow> app_db \<Rightarrow> app_db \<Rightarrow> bool" where
  "step_ok now dbw db' \<longleftrightarrow> app_ok now db' \<and> evolved dbw db'"

lemma append_event_decodes:
  assumes "valid_event d"
  shows "decode_event (event_row_of aid now d) = Inr None"
proof -
  have "ec_type d \<in> {StageEvent, NoteEvent, TaskEvent, ContactEvent, InterviewEvent}"
    using assms by (simp only: valid_event_def)
  then have "ec_type d \<notin> set task_event_types"
    unfolding task_event_types_def by (elim insertE emptyE) simp_all
  then show ?thesis by (simp add: decode_event_def event_row_of_def)
qed

lemma append_event_stage_ok:
  assumes old: "stage_ok E r" and d: "valid_event d" and st: "next_stage r d = Inr st"
    and a': "ap_current_stage a' = st"
  shows "stage_ok (E @ [event_row_of aid now d]) a'"
proof (cases "ec_stage d")
  case None
  with st a' have "ap_current_stage a' = ap_current_stage r"
    by (simp add: next_stage_def)
  with None old show ?thesis
    by (intro stage_ok_same) (auto simp: event_row_of_def)
next
  case (Some s)
  with d have "ec_type d = StageEvent" by (auto simp: valid_event_def)
  with Some st have s: "st = s" "s = ap_current_stage r \<or> s \<in> set (transitions (ap_current_stage r))"
    by (auto simp: next_stage_def and_then_Inr split: if_splits)
  have "ap_current_stage r \<in> {Saved, Preparing}" if "s \<in> {Saved, Preparing}"
    using s(2) no_return_before_milestone that by blast
  moreover have "s \<notin> set milestone_stages" if "s \<in> {Saved, Preparing}"
    using that by (auto simp: milestone_stages_def)
  moreover have "ev_stage (event_row_of aid now d) = Some s"
    using Some by (simp add: event_row_of_def)
  ultimately show ?thesis
    using old s(1) a' unfolding stage_ok_def by auto
qed

lemma next_stage_core: "core r = core a \<Longrightarrow> next_stage r d = next_stage a d"
  unfolding next_stage_def by (simp only: core_fields(4) [of r a])

lemma row_ok_frame:
  assumes row: "row_ok clock E r" and le: "clock \<le> now" and e: "decode_event e = Inr None"
    and same: "ap_next_action_task_id a' = ap_next_action_task_id r"
      "ap_next_action_title a' = ap_next_action_title r"
      "ap_next_action_at a' = ap_next_action_at r"
      "ap_next_action_priority a' = ap_next_action_priority r"
    and rev: "ap_revision a' = ap_revision r + 1" and st: "stage_ok (E @ [e]) a'"
    and texts: "row_texts r \<Longrightarrow> row_texts a'"
  shows "row_ok now (E @ [e]) a'"
proof -
  from row obtain ts where ts: "task_snapshots E = Inr ts" "project_next_action (next_action ts) r = r"
    and r1: "1 \<le> ap_revision r" by (auto simp: row_ok_def)
  from ts(2) same have "project_next_action (next_action ts) a' = a'"
    by (simp add: project_next_action_fix)
  moreover have "row_texts a'" using row texts by (simp add: row_ok_def)
  ultimately show ?thesis using task_snapshots_other [OF ts(1) e] st e rev r1
    by (intro row_okI [OF row le]) auto
qed

lemma next_stage_reach: "next_stage a d = Inr st \<Longrightarrow> stage_reach (ap_current_stage a) st"
  by (auto simp: next_stage_def and_then_Inr intro: stage_reach_step split: option.splits if_splits)

lemma projection_texts:
  "title_projection s \<noteq> []" "length (title_projection s) \<le> 240"
  "company_projection s \<noteq> []" "length (company_projection s) \<le> 240"
proof -
  have "text_or x d \<noteq> []" if "d \<noteq> []" for x d
    using that by (cases x) auto
  then show "title_projection s \<noteq> []" "company_projection s \<noteq> []"
    by (simp_all add: title_projection_def company_projection_def)
qed (simp_all add: title_projection_def company_projection_def)

lemma row_ok_core:
  assumes "core r = core a"
  shows "row_ok clock E r \<longleftrightarrow> row_ok clock E a"
proof -
  have "ap_next_action_task_id r = ap_next_action_task_id a"
    "ap_next_action_title r = ap_next_action_title a" "ap_next_action_at r = ap_next_action_at a"
    "ap_next_action_priority r = ap_next_action_priority a" "ap_job_title r = ap_job_title a"
    "ap_job_company r = ap_job_company a"
    using assms by (cases r, cases a, simp add: core_def)+
  with core_fields [OF assms] show ?thesis
    by (simp add: row_ok_def stage_ok_def row_texts_def project_next_action_fix)
qed

lemma append_event_step:
  assumes w: "append_event_write now db dbw uid aid d = Inr db'"
    and ev: "evolved db dbw" and ok: "app_ok clock dbw" and le: "clock \<le> now" and d: "valid_event d"
  shows "step_ok now dbw db'"
proof -
  define e where "e = event_row_of aid now d"
  from w obtain a st db1 where a: "get_application db uid aid = Inr a"
    and rev: "ap_revision a = ec_expected_revision d" and st: "next_stage a d = Inr st"
    and adv: "advance_revision a (ec_expected_revision d) now
       (\<lambda>r. r\<lparr>ap_current_stage := st,
               ap_latest_event_at := max (ap_latest_event_at a) (or_else (ec_occurred_at d) now)\<rparr>)
       dbw = Inr db1"
    and db': "db' = append_row e (sync_legacy_applied_markers uid a st None db1)"
    by (auto simp: append_event_write_def and_then_Inr e_def)
  from get_application_Inr [OF a] have id: "ap_id a = aid" "ap_user a = uid" by auto
  define f :: "app_row \<Rightarrow> app_row" where "f = (\<lambda>r. r\<lparr>ap_revision := ap_revision a + 1, ap_updated_at := now,
      ap_current_stage := st,
      ap_latest_event_at := max (ap_latest_event_at a) (or_else (ec_occurred_at d) now)\<rparr>)"
  from adv rev id have wr: "write_application aid uid (ap_revision a) f
      ''Application changed in another session'' dbw = Inr db1"
    by (simp add: advance_revision_def f_def)
  have keep: "keeps_keys f (ap_revision a)" by (simp add: keeps_keys_def f_def)
  have tables: "db_applications db' = db_applications db1" "db_events db' = db_events dbw @ [e]"
    using db' write_application_tables [OF wr] by simp_all
  have reach: "stage_reach (ap_current_stage r) (ap_current_stage (f r))" if "core r = core a" for r
    using next_stage_reach [OF st] core_fields(4) [OF that] by (simp add: f_def)
  have "ev_application_id e = aid" by (simp add: e_def event_row_of_def)
  from guarded_commit [OF ev ok a wr keep reach tables this]
  obtain r where c: "commits_row dbw db' r (f r) e" and r: "core r = core a" "ap_id r = aid"
    by metis
  have "row_ok now (app_events dbw (ap_id r) @ [e]) (f r)"
    if row: "row_ok clock (app_events dbw (ap_id r)) r"
  proof (rule row_ok_frame [OF row le])
    show "decode_event e = Inr None" unfolding e_def by (rule append_event_decodes [OF d])
    have "stage_ok (app_events dbw (ap_id r)) r" using row by (simp add: row_ok_def)
    moreover have "next_stage r d = Inr st" using st next_stage_core [OF r(1), of d] by simp
    moreover have "ap_current_stage (f r) = st" by (simp add: f_def)
    ultimately show "stage_ok (app_events dbw (ap_id r) @ [e]) (f r)"
      unfolding e_def using d by (blast intro: append_event_stage_ok)
  qed (use core_fields(3) [OF r(1)] in \<open>auto simp: f_def row_texts_def projection_texts\<close>)
  from commits_row_ok [OF ok le c this] show ?thesis by (simp add: step_ok_def)
qed

lemma publish_dossier_step:
  assumes w: "publish_dossier_write now db dbw uid aid expected version content = Inr db'"
    and ev: "evolved db dbw" and ok: "app_ok clock dbw" and le: "clock \<le> now"
  shows "step_ok now dbw db'"
proof -
  define e where "e = dossier_event aid now content"
  from w obtain a db1 where a: "get_application db uid aid = Inr a"
    and adv: "advance_revision a expected now (\<lambda>r. r\<lparr>ap_resume_version_id := Some version\<rparr>) dbw = Inr db1"
    and db': "db' = append_row e db1"
    by (auto simp: publish_dossier_write_def and_then_Inr e_def)
  from get_application_Inr [OF a] have id: "ap_id a = aid" "ap_user a = uid" by auto
  define f :: "app_row \<Rightarrow> app_row" where "f = (\<lambda>r. r\<lparr>ap_revision := ap_revision a + 1, ap_updated_at := now,
      ap_latest_event_at := max now (ap_latest_event_at a), ap_resume_version_id := Some version\<rparr>)"
  from adv id have wr: "write_application aid uid (ap_revision a) f
      ''Application changed in another session'' dbw = Inr db1"
    by (simp add: advance_revision_def f_def split: if_splits)
  have keep: "keeps_keys f (ap_revision a)" by (simp add: keeps_keys_def f_def)
  have tables: "db_applications db' = db_applications db1" "db_events db' = db_events dbw @ [e]"
    using db' write_application_tables [OF wr] by (simp_all add: append_row_def)
  have reach: "stage_reach (ap_current_stage r) (ap_current_stage (f r))" for r
    by (simp add: f_def)
  have "ev_application_id e = aid" by (simp add: e_def dossier_event_def)
  from guarded_commit [OF ev ok a wr keep reach tables this]
  obtain r where c: "commits_row dbw db' r (f r) e" and r: "core r = core a" "ap_id r = aid"
    by metis
  have "row_ok now (app_events dbw (ap_id r) @ [e]) (f r)"
    if row: "row_ok clock (app_events dbw (ap_id r)) r"
  proof (rule row_ok_frame [OF row le])
    show "decode_event e = Inr None"
      by (simp add: decode_event_def e_def dossier_event_def task_event_types_def)
    show "stage_ok (app_events dbw (ap_id r) @ [e]) (f r)"
      using row by (intro stage_ok_same [of _ r]) (simp_all add: row_ok_def f_def e_def dossier_event_def)
  qed (use core_fields(3) [OF r(1)] in \<open>auto simp: f_def row_texts_def\<close>)
  from commits_row_ok [OF ok le c this] show ?thesis by (simp add: step_ok_def)
qed

lemma update_preparation_step:
  assumes w: "update_preparation_write attest now db dbw uid aid d = Inr db'"
    and ev: "evolved db dbw" and ok: "app_ok clock dbw" and le: "clock \<le> now"
  shows "step_ok now dbw db'"
proof -
  from w obtain a where a: "get_application db uid aid = Inr a"
    by (auto simp: update_preparation_write_def and_then_Inr)
  obtain snap resume changed
    where p: "prepared (safe_snapshot attest db a) (ap_resume_version_id a) d = (snap, resume, changed)"
    by (rule prod_cases3)
  have rev: "ap_revision a = pu_expected_revision d"
    using w a by (simp add: update_preparation_write_def and_then_Inr)
  define e where "e = \<lparr>ev_application_id = aid, ev_type = PreparationEvent, ev_stage = None,
      ev_occurred_at = now, ev_note = None, ev_payload = ChangedFields (sort changed),
      ev_created_at = now\<rparr>"
  define f :: "app_row \<Rightarrow> app_row" where
    "f = (\<lambda>r. r\<lparr>ap_job_snapshot := snap, ap_job_title := title_projection snap,
        ap_job_company := company_projection snap, ap_job_location := location_projection snap,
        ap_resume_version_id := resume, ap_revision := ap_revision a + 1, ap_updated_at := now,
        ap_latest_event_at := max (ap_latest_event_at a) now\<rparr>)"
  from w a rev p obtain db1 where wr: "write_application aid uid (ap_revision a) f
      ''Application changed during preparation update'' dbw = Inr db1" and db': "db' = append_row e db1"
    by (auto simp: update_preparation_write_def and_then_Inr e_def f_def)
  have keep: "keeps_keys f (ap_revision a)" by (simp add: keeps_keys_def f_def)
  have tables: "db_applications db' = db_applications db1" "db_events db' = db_events dbw @ [e]"
    using db' write_application_tables [OF wr] by simp_all
  have st: "stage_reach (ap_current_stage r) (ap_current_stage (f r))" for r by (simp add: f_def)
  have "ev_application_id e = aid" by (simp add: e_def)
  from guarded_commit [OF ev ok a wr keep st tables this]
  obtain r where c: "commits_row dbw db' r (f r) e" and r: "core r = core a" "ap_id r = aid"
    by metis
  have "row_ok now (app_events dbw (ap_id r) @ [e]) (f r)"
    if row: "row_ok clock (app_events dbw (ap_id r)) r"
  proof (rule row_ok_frame [OF row le])
    show "decode_event e = Inr None" by (simp add: e_def decode_event_def task_event_types_def)
    have "stage_ok (app_events dbw (ap_id r)) r" using row by (simp add: row_ok_def)
    then show "stage_ok (app_events dbw (ap_id r) @ [e]) (f r)"
      by (rule stage_ok_same) (simp_all add: f_def e_def)
  qed (use core_fields(3) [OF r(1)] in \<open>auto simp: f_def row_texts_def projection_texts\<close>)
  from commits_row_ok [OF ok le c this] show ?thesis by (simp add: step_ok_def)
qed

text \<open>The two task commands append one task event and mirror the next action of the new replay.\<close>

lemma task_commit_step:
  assumes ev: "evolved db dbw" and ok: "app_ok clock dbw" and le: "clock \<le> now"
    and a: "get_application db uid aid = Inr a"
    and adv: "advance_revision a x now (project_next_action (next_action us)) dbw = Inr db1"
    and db': "db' = append_row e db1"
    and e: "ev_application_id e = aid" "ev_stage e = None"
      "\<And>t. decode_event e = Inr (Some t) \<Longrightarrow> app_events dbw aid = app_events db aid \<Longrightarrow>
        row_ok clock (app_events dbw aid) a \<Longrightarrow> t_updated_at t \<le> now \<and> task_wf t"
    and replay: "app_events dbw aid = app_events db aid \<Longrightarrow>
      row_ok clock (app_events dbw aid) a \<Longrightarrow> task_snapshots (app_events dbw aid @ [e]) = Inr us"
  shows "step_ok now dbw db'"
proof -
  from get_application_Inr [OF a] have id: "ap_id a = aid" "ap_user a = uid" by auto
  define f :: "app_row \<Rightarrow> app_row" where
    "f = (\<lambda>r. project_next_action (next_action us) (r\<lparr>ap_revision := ap_revision a + 1,
        ap_updated_at := now, ap_latest_event_at := max now (ap_latest_event_at a)\<rparr>))"
  from adv id have wr: "write_application aid uid (ap_revision a) f
      ''Application changed in another session'' dbw = Inr db1"
    by (auto simp: advance_revision_def f_def split: if_splits)
  have keep: "keeps_keys f (ap_revision a)" by (simp add: keeps_keys_def f_def)
  have tables: "db_applications db' = db_applications db1" "db_events db' = db_events dbw @ [e]"
    using db' write_application_tables [OF wr] by simp_all
  have st: "stage_reach (ap_current_stage r) (ap_current_stage (f r))" for r by (simp add: f_def)
  from guarded_commit [OF ev ok a wr keep st tables e(1)]
  obtain r where c: "commits_row dbw db' r (f r) e" and r: "core r = core a" "ap_id r = aid"
    "app_events dbw aid = app_events db aid" by metis
  have "row_ok now (app_events dbw (ap_id r) @ [e]) (f r)"
    if row: "row_ok clock (app_events dbw (ap_id r)) r"
  proof -
    have row_a: "row_ok clock (app_events dbw aid) a"
      using row row_ok_core [OF r(1)] r(2) by simp
    show ?thesis
    proof (rule row_okI [OF row le])
      show "1 \<le> ap_revision (f r)" using row_a by (simp add: row_ok_def f_def)
      show "task_snapshots (app_events dbw (ap_id r) @ [e]) = Inr us"
        using replay [OF r(3) row_a] r(2) by simp
      show "project_next_action (next_action us) (f r) = f r" by (simp add: f_def)
      have "stage_ok (app_events dbw (ap_id r)) r" using row by (simp add: row_ok_def)
      then show "stage_ok (app_events dbw (ap_id r) @ [e]) (f r)"
        by (rule stage_ok_same) (simp_all add: f_def e)
      show "row_texts (f r)"
        using row by (simp add: row_ok_def row_texts_def f_def project_next_action_def)
      show "t_updated_at t \<le> now \<and> task_wf t" if "decode_event e = Inr (Some t)" for t
        using e(3) [OF that r(3) row_a] .
    qed
  qed
  from commits_row_ok [OF ok le c this] show ?thesis by (simp add: step_ok_def)
qed

lemma create_task_step:
  assumes w: "create_task_write now new_id db dbw uid aid d = Inr db'"
    and ev: "evolved db dbw" and ok: "app_ok clock dbw" and le: "clock \<le> now"
    and d: "valid_task_create d" and uuid: "canonical_uuid new_id"
    and fresh: "\<forall>t \<in> tasks_in (app_events dbw aid). t_id t \<noteq> new_id"
  shows "step_ok now dbw db'"
proof -
  define t where "t = new_task now new_id d"
  define e where "e = task_event aid now TaskCreated t"
  from w obtain a ts db1 where a: "get_application db uid aid = Inr a"
    and ts: "task_snapshots (events_of db aid) = Inr ts"
    and adv: "advance_revision a (tc_expected_revision d) now
       (project_next_action (next_action (sort_key task_sort_key (ts @ [t])))) dbw = Inr db1"
    and db': "db' = append_row e db1"
    by (auto simp: create_task_write_def and_then_Inr Let_def t_def e_def)
  have t: "t_id t = new_id" "t_revision t = 1" "t_updated_at t = now" "task_wf t"
    "decode_event e = Inr (Some t)"
    using d uuid decode_task_event(1) [of t aid now]
    by (simp_all add: t_def e_def new_task_def task_wf_def valid_task_create_def valid_task_def)
  show ?thesis
  proof (rule task_commit_step [OF ev ok le a adv db'])
    show "ev_application_id e = aid" "ev_stage e = None" by (simp_all add: e_def task_event_def)
    show "t_updated_at u \<le> now \<and> task_wf u" if "decode_event e = Inr (Some u)" for u
      using t that by auto
    show "task_snapshots (app_events dbw aid @ [e]) = Inr (sort_key task_sort_key (ts @ [t]))"
      if "app_events dbw aid = app_events db aid"
    proof (rule task_snapshots_add [OF _ t(5) _ t(2)])
      show "task_snapshots (app_events dbw aid) = Inr ts"
        using ts that by (simp add: task_snapshots_events_of)
      show "\<forall>u \<in> tasks_in (app_events dbw aid). t_id u \<noteq> t_id t"
        using fresh t(1) by simp
    qed
  qed
qed

lemma update_task_step:
  assumes w: "update_task_write now db dbw uid aid tid d = Inr db'" and d: "valid_task_update d"
    and ev: "evolved db dbw" and ok: "app_ok clock dbw" and le: "clock \<le> now"
  shows "step_ok now dbw db'"
proof -
  from w obtain a ts c t db1 where a: "get_application db uid aid = Inr a"
    and ts: "task_snapshots (events_of db aid) = Inr ts"
    and find: "find (\<lambda>t. t_id t = tid) ts = Some c" and t: "apply_task_update now d c = Inr t"
    and adv: "advance_revision a (tu_expected_revision d) now
       (project_next_action (next_action (sort_key task_sort_key (replace_task tid t ts)))) dbw = Inr db1"
    and db': "db' = append_row (task_event aid now (task_event_type c t) t) db1"
    by (auto simp: update_task_write_def and_then_Inr split: option.splits)
  define e where "e = task_event aid now (task_event_type c t) t"
  from find have c: "c \<in> set ts" "t_id c = tid" by (auto simp: find_Some_iff)
  note fields = apply_task_update_fields [OF t]
  from ts have ts': "task_snapshots (app_events db aid) = Inr ts"
    by (simp add: task_snapshots_events_of)
  note facts = task_snapshots_facts [OF ts']
  have cE: "c \<in> tasks_in (app_events db aid)" using c facts(3) by auto
  have "valid_task c" by (rule tasks_in_valid [OF cE])
  then have "valid_task t" "1 < t_revision t" using fields by (simp_all add: valid_task_def)
  with decode_task_event(2) [of t aid now c] have dec: "decode_event e = Inr (Some t)"
    by (simp add: e_def)
  show ?thesis
  proof (rule task_commit_step [OF ev ok le a adv db'])
    fix u assume u: "decode_event (task_event aid now (task_event_type c t) t) = Inr (Some u)"
      and same: "app_events dbw aid = app_events db aid"
      and row: "row_ok clock (app_events dbw aid) a"
    from u dec have "u = t" by (simp add: e_def)
    moreover have "task_wf c" using row cE same by (simp add: row_ok_def)
    ultimately show "t_updated_at u \<le> now \<and> task_wf u" using fields d by simp
  next
    assume same: "app_events dbw aid = app_events db aid" and row: "row_ok clock (app_events dbw aid) a"
    have "t_updated_at c \<le> t_updated_at t"
      using row cE le fields(4) same by (force simp: row_ok_def)
    from task_snapshots_replace(1) [OF ts' dec c(1) fields(1-3) this] same c(2)
    show "task_snapshots (app_events dbw aid @ [task_event aid now (task_event_type c t) t])
        = Inr (sort_key task_sort_key (replace_task tid t ts))"
      by (simp add: e_def)
  qed (simp_all add: task_event_def)
qed

subsection \<open>Creation\<close>

lemma insert_application_step:
  assumes w: "insert_application now uid d job a dbw = Inr db'"
    and ok: "app_ok clock dbw" and le: "clock \<le> now" and d: "valid_create d"
    and a: "a = new_application now new_id uid d job snap" and uuid: "canonical_uuid new_id"
  shows "step_ok now dbw db'"
proof -
  define e where "e = \<lparr>ev_application_id = ap_id a, ev_type = StageEvent,
      ev_stage = Some (ac_initial_stage d), ev_occurred_at = now, ev_note = ac_note d,
      ev_payload = InitialMarker, ev_created_at = now\<rparr>"
  let ?A = "db_applications dbw"
  from w have free: "\<not> violates_unique a dbw"
    by (auto simp: insert_application_def split: if_splits option.splits)
  with w have A: "db_applications db' = ?A @ [a]" and E: "db_events db' = db_events dbw @ [e]"
    by (auto simp: insert_application_def Let_def e_def)
  have new: "ap_id b \<noteq> ap_id a" if "b \<in> set ?A" for b
    using free that by (auto simp: violates_unique_def)
  then have noev: "app_events dbw (ap_id a) = []"
    using ok by (force simp: app_ok_def app_events_def filter_empty_conv)
  have stage: "ac_initial_stage d \<in> {Saved, Preparing, Applied}"
    using d by (simp only: valid_create_def)
  have row: "row_ok now [e] a"
    unfolding row_ok_def
  proof (intro conjI)
    show "1 \<le> ap_revision a" by (simp add: a new_application_def)
    show "row_texts a"
      using uuid by (simp add: a new_application_def row_texts_def projection_texts)
    have "task_snapshots [e] = Inr []"
      by (simp add: task_snapshots_def current_by_id_def decode_event_def e_def task_event_types_def)
    then show "\<exists>ts. task_snapshots [e] = Inr ts \<and> project_next_action (next_action ts) a = a"
      by (simp add: project_next_action_fix next_action_def a new_application_def)
    show "\<forall>t \<in> tasks_in [e]. t_updated_at t \<le> now \<and> task_wf t"
      by (simp add: tasks_in_def decode_event_def e_def task_event_types_def)
    show "stage_ok [e] a"
      using stage by (auto simp: stage_ok_def e_def a new_application_def milestone_stages_def)
  qed
  have "app_ok now db'"
    unfolding app_ok_def
  proof (intro conjI ballI impI)
    show "unique_by ap_id (db_applications db')"
      using ok new unfolding A app_ok_def unique_by_append1 by (metis imageE)
    show "ev_application_id x \<in> ap_id ` set (db_applications db')" if "x \<in> set (db_events db')" for x
      using that ok unfolding A E app_ok_def by (auto simp: e_def)
    show "row_ok now (app_events db' (ap_id x)) x" if x: "x \<in> set (db_applications db')" for x
    proof (cases "x = a")
      case True
      with row noev show ?thesis by (simp add: e_def app_events_append [OF E])
    next
      case False
      with x A have "x \<in> set ?A" by simp
      with new [OF this] ok le show ?thesis
        by (auto simp: app_ok_def app_events_append [OF E] e_def intro: row_ok_mono)
    qed
    show "x = y" if "x \<in> set (db_applications db')" "y \<in> set (db_applications db')"
      "ap_user x = ap_user y" "ap_scraped_job_id x \<noteq> None"
      "ap_scraped_job_id x = ap_scraped_job_id y" for x y
    proof -
      have no: "\<not> (ap_user b = ap_user a \<and> ap_scraped_job_id a \<noteq> None
          \<and> ap_scraped_job_id b = ap_scraped_job_id a)" if "b \<in> set ?A" for b
        using free that by (auto simp: violates_unique_def)
      from that A consider "x \<in> set ?A" "y \<in> set ?A" | "x = a" "y = a"
        | "x \<in> set ?A" "y = a" | "x = a" "y \<in> set ?A" by auto
      then show ?thesis
      proof cases
        case 1
        with ok that(3-5) show ?thesis unfolding app_ok_def by blast
      next
        case 3
        with no [of x] that(3-5) show ?thesis by simp
      next
        case 4
        with no [of y] that(3-5) show ?thesis by simp
      qed simp
    qed
  qed
  moreover have "evolved dbw db'"
    unfolding evolved_def
  proof
    fix x assume x: "x \<in> set ?A"
    with new [OF x] A show "\<exists>x' \<in> set (db_applications db'). moved_on dbw db' x x'"
      by (intro bexI [of _ x]) (auto simp: moved_on_def e_def app_events_append [OF E])
  qed
  ultimately show ?thesis by (simp add: step_ok_def)
qed

lemma create_step:
  assumes w: "create_write attest now new_id db dbw uid d = Inr db'"
    and ok: "app_ok clock dbw" and le: "clock \<le> now" and d: "valid_create d"
    and uuid: "canonical_uuid new_id"
  shows "step_ok now dbw db'"
proof -
  from w obtain job snap where "insert_application now uid d job
      (new_application now new_id uid d job snap) dbw = Inr db'"
    by (auto simp: create_write_def and_then_Inr)
  from insert_application_step [OF this ok le d refl uuid] show ?thesis .
qed

lemma command_step:
  assumes "write_command attest now db dbw cmd = Inr db'" and "evolved db dbw" and "app_ok clock dbw"
    and "clock \<le> now" and "valid_command cmd" and "fresh_command dbw cmd"
  shows "step_ok now dbw db'"
proof (cases cmd)
  case (CreateApplication new_id uid d)
  with assms show ?thesis by (auto intro: create_step)
next
  case (AppendEvent uid aid d)
  with assms show ?thesis by (auto intro: append_event_step)
next
  case (UpdatePreparation uid aid d)
  with assms show ?thesis by (auto intro: update_preparation_step)
next
  case (CreateTask new_id uid aid d)
  with assms fresh_command_task [of dbw new_id uid aid d] show ?thesis
    by (auto simp del: fresh_command.simps intro: create_task_step)
next
  case (UpdateTask uid aid tid d)
  with assms show ?thesis by (auto intro: update_task_step)
next
  case (PublishDossier uid aid expected version content)
  with assms show ?thesis by (auto intro: publish_dossier_step)
qed

subsection \<open>Histories\<close>

text \<open>What other parts of the program and the foreign keys may do between two commits.\<close>

definition relinked :: "app_row \<Rightarrow> app_row \<Rightarrow> bool" where
  "relinked a a' \<longleftrightarrow> core a' = core a \<and> link_kept (ap_job_id a) (ap_job_id a')
     \<and> link_kept (ap_scraped_job_id a) (ap_scraped_job_id a')
     \<and> link_kept (ap_resume_version_id a) (ap_resume_version_id a')"

definition elsewhere :: "app_db \<Rightarrow> app_db \<Rightarrow> bool" where
  "elsewhere db db' \<longleftrightarrow> db_events db' = db_events db
     \<and> list_all2 relinked (db_applications db) (db_applications db')"

inductive timeline :: "(instant \<times> app_db) list \<Rightarrow> bool" where
  timeline_start:
    "db_applications db = [] \<Longrightarrow> db_events db = [] \<Longrightarrow> timeline [(clock, db)]"
| timeline_commit:
    "timeline ((clock, dbw) # h) \<Longrightarrow> (c, db) \<in> set ((clock, dbw) # h) \<Longrightarrow>
     valid_command cmd \<Longrightarrow> fresh_command dbw cmd \<Longrightarrow>
     write_command attest now db dbw cmd = Inr db' \<Longrightarrow>
     timeline ((now, db') # (clock, dbw) # h)"
| timeline_elsewhere:
    "timeline ((clock, dbw) # h) \<Longrightarrow> elsewhere dbw db' \<Longrightarrow>
     timeline ((now, db') # (clock, dbw) # h)"

inductive_cases timeline_ConsE: "timeline ((now, db) # h)"

text \<open>
  The service reads the wall clock once per request and does not compare it
  with the commits before: that a commit never carries an earlier reading
  than the commits before it is a condition on the clock and on the order of
  the requests, and the properties that need it name it.
\<close>

fun clock_monotone :: "(instant \<times> app_db) list \<Rightarrow> bool" where
  "clock_monotone ((now, db') # (clock, db) # h) \<longleftrightarrow> clock \<le> now \<and> clock_monotone ((clock, db) # h)"
| "clock_monotone h \<longleftrightarrow> True"

lemma relinked_facts:
  assumes "relinked a a'"
  shows "ap_id a' = ap_id a" "ap_user a' = ap_user a"
    "ap_scraped_job_id a' = ap_scraped_job_id a \<or> ap_scraped_job_id a' = None"
    "row_ok c E a' = row_ok c E a"
  using assms core_fields [of a' a] row_ok_core [of a' a]
  by (auto simp: relinked_def link_kept_def)

lemma elsewhere_step:
  assumes ok: "app_ok clock dbw" and le: "clock \<le> now" and el: "elsewhere dbw db'"
  shows "step_ok now dbw db'"
proof -
  let ?A = "db_applications dbw" and ?B = "db_applications db'"
  have rel: "list_all2 relinked ?A ?B" and E: "app_events db' = app_events dbw"
    using el by (auto simp: elsewhere_def app_events_def fun_eq_iff)
  have ids: "map ap_id ?B = map ap_id ?A"
    using rel by (induction rule: list_all2_induct) (simp_all add: relinked_facts(1))
  have fwd: "\<exists>a' \<in> set ?B. relinked a a'" if "a \<in> set ?A" for a
    using rel that by (induction rule: list_all2_induct) auto
  have bwd: "\<exists>a \<in> set ?A. relinked a a'" if "a' \<in> set ?B" for a'
    using rel that by (induction rule: list_all2_induct) auto
  have uniq: "unique_by ap_id ?B" using ok ids by (simp add: app_ok_def unique_by_def)
  have "app_ok now db'"
    unfolding app_ok_def
  proof (intro conjI ballI impI)
    show "unique_by ap_id ?B" by (rule uniq)
    show "ev_application_id x \<in> ap_id ` set ?B" if "x \<in> set (db_events db')" for x
      using that el ok arg_cong [OF ids, of set] by (auto simp: elsewhere_def app_ok_def)
    show "row_ok now (app_events db' (ap_id x)) x" if x: "x \<in> set ?B" for x
    proof -
      from bwd [OF x] obtain a where a: "a \<in> set ?A" "relinked a x" by blast
      with ok have "row_ok clock (app_events dbw (ap_id a)) a" by (simp add: app_ok_def)
      from row_ok_mono [OF this le] show ?thesis
        using relinked_facts [OF a(2)] E by simp
    qed
    show "x = y" if x: "x \<in> set ?B" and y: "y \<in> set ?B" and u: "ap_user x = ap_user y"
      and s: "ap_scraped_job_id x \<noteq> None" "ap_scraped_job_id x = ap_scraped_job_id y" for x y
    proof -
      from bwd [OF x] obtain a where a: "a \<in> set ?A" "relinked a x" by blast
      from bwd [OF y] obtain b where b: "b \<in> set ?A" "relinked b y" by blast
      note fa = relinked_facts [OF a(2)] and fb = relinked_facts [OF b(2)]
      have "ap_user a = ap_user b" "ap_scraped_job_id a \<noteq> None"
        "ap_scraped_job_id a = ap_scraped_job_id b" using fa fb u s by auto
      with ok a b have "a = b" unfolding app_ok_def by blast
      then have "ap_id x = ap_id y" using fa fb by simp
      from unique_byD [OF uniq x y this] show ?thesis .
    qed
  qed
  moreover have "evolved dbw db'"
    unfolding evolved_def
  proof
    fix a assume "a \<in> set ?A"
    from fwd [OF this] obtain a' where a': "a' \<in> set ?B" "relinked a a'" by blast
    then have "moved_on dbw db' a a'"
      using core_fields [of a' a] by (auto simp: moved_on_def relinked_def E)
    with a' show "\<exists>a' \<in> set ?B. moved_on dbw db' a a'" by blast
  qed
  ultimately show ?thesis by (simp add: step_ok_def)
qed

lemma history_evolved:
  assumes "\<forall>(c, db) \<in> set h. evolved db dbw" and "evolved dbw db'"
  shows "\<forall>(c, db) \<in> set h. evolved db db'"
  using assms evolved_trans [OF _ assms(2)] by auto

lemma timeline_inv:
  "timeline h \<Longrightarrow> clock_monotone h \<Longrightarrow> h \<noteq> [] \<and> app_ok (fst (hd h)) (snd (hd h))
     \<and> (\<forall>(c, db) \<in> set h. evolved db (snd (hd h)))"
proof (induction rule: timeline.induct)
  case (timeline_start db clock)
  then show ?case by (simp add: app_ok_def unique_by_def evolved_refl)
next
  case (timeline_commit clock dbw h c db cmd attest now db')
  from timeline_commit.prems have le: "clock \<le> now" and mono: "clock_monotone ((clock, dbw) # h)"
    by simp_all
  have all: "\<forall>(c, db) \<in> set ((clock, dbw) # h). evolved db dbw" and ok: "app_ok clock dbw"
    using timeline_commit.IH [OF mono] unfolding list.sel fst_conv snd_conv by blast+
  have "evolved db dbw" using all timeline_commit.hyps(2) by blast
  from command_step [OF timeline_commit.hyps(5) this ok le timeline_commit.hyps(3,4)]
  have st: "app_ok now db'" "evolved dbw db'" by (simp_all add: step_ok_def)
  have "\<forall>(c, db) \<in> set ((clock, dbw) # h). evolved db db'"
    by (rule history_evolved [OF all st(2)])
  with st show ?case by (simp add: evolved_refl)
next
  case (timeline_elsewhere clock dbw h db' now)
  from timeline_elsewhere.prems have le: "clock \<le> now" and mono: "clock_monotone ((clock, dbw) # h)"
    by simp_all
  have all: "\<forall>(c, db) \<in> set ((clock, dbw) # h). evolved db dbw" and ok: "app_ok clock dbw"
    using timeline_elsewhere.IH [OF mono] unfolding list.sel fst_conv snd_conv by blast+
  from elsewhere_step [OF ok le timeline_elsewhere.hyps(2)]
  have st: "app_ok now db'" "evolved dbw db'" by (simp_all add: step_ok_def)
  have "\<forall>(c, db) \<in> set ((clock, dbw) # h). evolved db db'"
    by (rule history_evolved [OF all st(2)])
  with st show ?case by (simp add: evolved_refl)
qed

lemma timeline_ok:
  "timeline ((clock, db) # h) \<Longrightarrow> clock_monotone ((clock, db) # h) \<Longrightarrow> app_ok clock db"
  using timeline_inv by fastforce

lemma timeline_evolved:
  "timeline ((clock, db) # h) \<Longrightarrow> clock_monotone ((clock, db) # h) \<Longrightarrow> (c, db0) \<in> set h \<Longrightarrow> evolved db0 db"
  using timeline_inv by fastforce

subsection \<open>One commit per revision\<close>

fun command_target :: "app_command \<Rightarrow> ((string \<times> int) \<times> int) option" where
  "command_target (CreateApplication new_id uid d) = None"
| "command_target (AppendEvent uid aid d) = Some ((aid, uid), ec_expected_revision d)"
| "command_target (UpdatePreparation uid aid d) = Some ((aid, uid), pu_expected_revision d)"
| "command_target (CreateTask new_id uid aid d) = Some ((aid, uid), tc_expected_revision d)"
| "command_target (UpdateTask uid aid tid d) = Some ((aid, uid), tu_expected_revision d)"
| "command_target (PublishDossier uid aid expected version content) = Some ((aid, uid), expected)"

definition app_revision :: "app_db \<Rightarrow> string \<times> int \<Rightarrow> int option" where
  "app_revision db k = map_option ap_revision
     (select_first (\<lambda>a. ap_id a = fst k \<and> ap_user a = snd k) (db_applications db))"

type_synonym session_write = "(job_row \<Rightarrow> bool) \<times> instant \<times> app_db \<times> app_command"

definition command_cas ::
  "app_db \<Rightarrow> string \<times> int \<Rightarrow> int \<Rightarrow> session_write \<Rightarrow> app_db option" where
  "command_cas db k e w =
     (case w of (attest, now, seen, cmd) \<Rightarrow>
        if command_target cmd = Some (k, e)
        then (case write_command attest now seen db cmd of Inl _ \<Rightarrow> None | Inr db' \<Rightarrow> Some db')
        else None)"

definition ids_unique :: "app_db \<Rightarrow> bool" where
  "ids_unique db \<longleftrightarrow> unique_by ap_id (db_applications db)"

lemma advance_is_write:
  assumes "advance_revision a e now v dbw = Inr db1"
    and "\<And>r. ap_id (v r) = ap_id r \<and> ap_user (v r) = ap_user r \<and> ap_job_id (v r) = ap_job_id r
      \<and> ap_scraped_job_id (v r) = ap_scraped_job_id r \<and> ap_revision (v r) = ap_revision r"
  shows "\<exists>f msg. write_application (ap_id a) (ap_user a) e f msg dbw = Inr db1 \<and> keeps_keys f e"
  using assms(1) unfolding advance_revision_def
  by (intro exI) (auto simp: keeps_keys_def assms(2) split: if_splits)

lemma guarded_write:
  assumes w: "write_command attest now seen db cmd = Inr db'"
    and t: "command_target cmd = Some ((aid, uid), e)"
  shows "\<exists>f msg db1. write_application aid uid e f msg db = Inr db1 \<and> keeps_keys f e
    \<and> db_applications db' = db_applications db1"
proof (cases cmd)
  case (AppendEvent u x d)
  with w t obtain a st db1 where a: "get_application seen uid aid = Inr a"
    and adv: "advance_revision a e now
       (\<lambda>r. r\<lparr>ap_current_stage := st,
               ap_latest_event_at := max (ap_latest_event_at a) (or_else (ec_occurred_at d) now)\<rparr>)
       db = Inr db1"
    and "db_applications db' = db_applications db1"
    by (auto simp: append_event_write_def and_then_Inr)
  with advance_is_write [OF adv] get_application_Inr [OF a] show ?thesis by auto
next
  case (UpdatePreparation u x d)
  with w t obtain a where a: "get_application seen uid aid = Inr a"
    by (auto simp: update_preparation_write_def and_then_Inr)
  obtain snap resume changed
    where p: "prepared (safe_snapshot attest seen a) (ap_resume_version_id a) d = (snap, resume, changed)"
    by (rule prod_cases3)
  from UpdatePreparation w t a p show ?thesis
    by (fastforce simp: update_preparation_write_def and_then_Inr keeps_keys_def)
next
  case (CreateTask n u x d)
  with w t obtain a us db1 where a: "get_application seen uid aid = Inr a"
    and adv: "advance_revision a e now (project_next_action (next_action us)) db = Inr db1"
    and "db_applications db' = db_applications db1"
    by (auto simp: create_task_write_def and_then_Inr Let_def)
  with advance_is_write [OF adv] get_application_Inr [OF a] show ?thesis by auto
next
  case (UpdateTask u x y d)
  with w t obtain a us db1 where a: "get_application seen uid aid = Inr a"
    and adv: "advance_revision a e now (project_next_action (next_action us)) db = Inr db1"
    and "db_applications db' = db_applications db1"
    by (auto simp: update_task_write_def and_then_Inr)
  with advance_is_write [OF adv] get_application_Inr [OF a] show ?thesis by auto
next
  case (PublishDossier u x expected version content)
  with w t obtain a db1 where a: "get_application seen uid aid = Inr a"
    and adv: "advance_revision a e now (\<lambda>r. r\<lparr>ap_resume_version_id := Some version\<rparr>) db = Inr db1"
    and "db_applications db' = db_applications db1"
    by (auto simp: publish_dossier_write_def and_then_Inr append_row_def)
  with advance_is_write [OF adv] get_application_Inr [OF a] show ?thesis by auto
qed (use t in simp)

lemma command_cas_write:
  assumes "command_cas db k e w = Some db'"
  shows "\<exists>f msg db1. write_application (fst k) (snd k) e f msg db = Inr db1 \<and> keeps_keys f e
    \<and> db_applications db' = db_applications db1"
proof -
  obtain attest now seen cmd where w: "w = (attest, now, seen, cmd)" by (rule prod_cases4)
  with assms have "write_command attest now seen db cmd = Inr db'"
    "command_target cmd = Some ((fst k, snd k), e)"
    by (auto simp: command_cas_def split: if_splits sum.splits)
  from guarded_write [OF this] show ?thesis .
qed

lemma write_application_revisions:
  assumes uniq: "ids_unique db" and w: "write_application aid uid e f msg db = Inr db1"
    and f: "keeps_keys f e"
  shows "app_revision db (aid, uid) = Some e" "app_revision db1 (aid, uid) = Some (e + 1)"
    "k' \<noteq> (aid, uid) \<Longrightarrow> app_revision db1 k' = app_revision db k'" "ids_unique db1"
proof -
  note u = uniq [unfolded ids_unique_def]
  from write_application_Inr [OF w u] obtain r where r: "r \<in> set (db_applications db)"
    "ap_id r = aid" "ap_user r = uid" "ap_revision r = e"
    and db1: "db1 = db\<lparr>db_applications := update_rows (\<lambda>x. ap_id x = aid) f (db_applications db)\<rparr>" .
  have sel: "select_first (\<lambda>a. ap_id a = aid \<and> ap_user a = uid) (db_applications db) = Some r"
  proof (cases "select_first (\<lambda>a. ap_id a = aid \<and> ap_user a = uid) (db_applications db)")
    case None
    with r show ?thesis by (auto simp: select_first_None)
  next
    case (Some x)
    from select_first_Some [OF Some] unique_byD [OF u _ r(1), of x] r(2) Some show ?thesis by simp
  qed
  have upd: "select_first (\<lambda>a. ap_id a = fst j \<and> ap_user a = snd j) (db_applications db1)
      = map_option (\<lambda>x. if ap_id x = aid then f x else x)
          (select_first (\<lambda>a. ap_id a = fst j \<and> ap_user a = snd j) (db_applications db))" for j
    unfolding db1 using f by (simp add: select_first_update keeps_keys_def)
  show "app_revision db (aid, uid) = Some e" using sel r by (simp add: app_revision_def)
  show "app_revision db1 (aid, uid) = Some (e + 1)"
    using sel upd [of "(aid, uid)"] r f by (simp add: app_revision_def keeps_keys_def)
  show "app_revision db1 k' = app_revision db k'" if "k' \<noteq> (aid, uid)"
  proof (cases "select_first (\<lambda>a. ap_id a = fst k' \<and> ap_user a = snd k') (db_applications db)")
    case (Some x)
    from select_first_Some [OF Some] unique_byD [OF u _ r(1), of x] r that
    have "ap_id x \<noteq> aid" by (metis prod.collapse)
    with upd [of k'] Some show ?thesis by (simp add: app_revision_def)
  qed (use upd [of k'] in \<open>simp add: app_revision_def\<close>)
  show "ids_unique db1"
    using u f unfolding db1 ids_unique_def by (simp add: unique_by_update keeps_keys_def)
qed

lemma app_revision_cong: "db_applications db = db_applications db' \<Longrightarrow>
    app_revision db = app_revision db' \<and> ids_unique db = ids_unique db'"
  by (simp add: app_revision_def ids_unique_def fun_eq_iff)

interpretation app_writes: revision_cas app_revision command_cas ids_unique
proof
  fix db k e w db'
  assume good: "ids_unique db" and c: "command_cas db k e w = Some db'"
  from command_cas_write [OF c] obtain f msg db1
    where w: "write_application (fst k) (snd k) e f msg db = Inr db1" "keeps_keys f e"
    and eq: "db_applications db' = db_applications db1" by blast
  note facts = write_application_revisions [OF good w] and same = app_revision_cong [OF eq]
  show "app_revision db k = Some e" using facts(1) by simp
  show "app_revision db' k = Some (e + 1)" using facts(2) same by simp
  show "ids_unique db'" using facts(4) same by simp
  show "app_revision db' k' = app_revision db k'" if "k' \<noteq> k" for k'
    using facts(3) same that by simp
qed

subsection \<open>Running a history\<close>

text \<open>One session at a time, each command reading the latest state, with a clock that does not go
  back.\<close>

fun run_history ::
  "(job_row \<Rightarrow> bool) \<Rightarrow> (instant \<times> app_db) list \<Rightarrow> (instant \<times> app_command) list
     \<Rightarrow> (instant \<times> app_db) list option" where
  "run_history attest h [] = Some h"
| "run_history attest h ((now, cmd) # cs) =
     (case h of [] \<Rightarrow> None
      | (clock, db) # _ \<Rightarrow>
          if clock \<le> now \<and> valid_command cmd \<and> fresh_command db cmd
          then (case write_command attest now db db cmd of
                  Inl _ \<Rightarrow> None
                | Inr db' \<Rightarrow> run_history attest ((now, db') # h) cs)
          else None)"

lemma run_history_timeline:
  "timeline h \<Longrightarrow> run_history attest h cs = Some h' \<Longrightarrow> timeline h'"
proof (induction attest h cs rule: run_history.induct)
  case (1 attest h)
  then show ?case by simp
next
  case (2 attest h now cmd cs)
  then show ?case
    by (fastforce split: list.splits prod.splits if_splits sum.splits
        intro: timeline_commit [of _ _ _ _ _ cmd attest now])
qed

lemma run_history_monotone:
  "clock_monotone h \<Longrightarrow> run_history attest h cs = Some h' \<Longrightarrow> clock_monotone h'"
proof (induction attest h cs rule: run_history.induct)
  case (2 attest h now cmd cs)
  then show ?case
    by (cases h) (fastforce split: prod.splits if_splits sum.splits)+
qed simp

end
