(* ===== verification/ApplicationClaims.thy ===== *)
theory ApplicationClaims
  imports AppHistory
begin

text \<open>
  The properties of the application service, over every history of commits
  that the service and the foreign keys can produce, and a sample history on
  which each of them is exercised.
\<close>

subsection \<open>A sample history\<close>

definition sample_uuid :: string where
  "sample_uuid = ''0f0f0f0f-1111-4222-8333-444455556666''"

definition sample_id :: string where
  "sample_id = ''7a7a7a7a-1111-4222-8333-444455556666''"

definition sample_job :: "int \<Rightarrow> job_row" where
  "sample_job i = \<lparr>jb_id = i, jb_user = 7, jb_scraped_job_id = 5, jb_applied = None,
     jb_affinity_score = Some 80, jb_affinity_analysis = Some ''fits'',
     jb_worth_applying = Some True, jb_execution_id = None, jb_row_fingerprint = None\<rparr>"

definition sample_db :: app_db where
  "sample_db = \<lparr>db_applications = [], db_events = [], db_jobs = [sample_job 1, sample_job 2],
     db_scraped = [\<lparr>sc_id = 5, sc_fields = (\<lambda>f. if f = ''title'' then Some ''Nurse'' else None)\<rparr>],
     db_versions = [], db_profiles = []\<rparr>"

definition sample_commands :: "(instant \<times> app_command) list" where
  "sample_commands =
     [(10, CreateApplication sample_id 7 \<lparr>ac_job_id = Some 1, ac_manual_job = None,
         ac_resume_version_id = None, ac_initial_stage = Saved, ac_note = None\<rparr>),
      (20, CreateTask sample_uuid 7 sample_id \<lparr>tc_expected_revision = 1, tc_title = ''call'',
         tc_due_at = Some 90, tc_priority = High, tc_reminder_at = Some 80\<rparr>),
      (30, AppendEvent 7 sample_id \<lparr>ec_expected_revision = 2, ec_type = StageEvent,
         ec_stage = Some Applied, ec_occurred_at = None, ec_note = None,
         ec_payload = OtherJson ''{}''\<rparr>)]"

definition sample_history :: "(instant \<times> app_db) list" where
  "sample_history = the (run_history (\<lambda>_. True) [(0, sample_db)] sample_commands)"

definition latest :: "(instant \<times> app_db) list \<Rightarrow> app_db" where
  "latest h = snd (hd h)"

definition sample_application :: app_row where
  "sample_application = hd (db_applications (latest sample_history))"

lemma sample_runs: "\<not> Option.is_none (run_history (\<lambda>_. True) [(0, sample_db)] sample_commands)"
  by code_simp

lemma sample_timeline: "timeline sample_history"
proof -
  from sample_runs obtain h where h: "run_history (\<lambda>_. True) [(0, sample_db)] sample_commands = Some h"
    by (cases "run_history (\<lambda>_. True) [(0, sample_db)] sample_commands") auto
  have "timeline [(0, sample_db)]"
    by (rule timeline_start) (simp_all add: sample_db_def)
  from run_history_timeline [OF this h] h show ?thesis by (simp add: sample_history_def)
qed

lemma sample_monotone: "clock_monotone sample_history"
proof -
  from sample_runs obtain h where h: "run_history (\<lambda>_. True) [(0, sample_db)] sample_commands = Some h"
    by (cases "run_history (\<lambda>_. True) [(0, sample_db)] sample_commands") auto
  from run_history_monotone [OF _ h] h show ?thesis by (simp add: sample_history_def)
qed

lemma sample_rows: "map (\<lambda>a. (ap_id a, ap_user a, ap_revision a, ap_current_stage a,
    ap_scraped_job_id a, ap_next_action_task_id a)) (db_applications (latest sample_history)) =
  [(sample_id, 7, 3, Applied, Some 5, Some sample_uuid)]"
  by code_simp

lemma sample_application_in: "sample_application \<in> set (db_applications (latest sample_history))"
  and sample_fields: "ap_id sample_application = sample_id" "ap_user sample_application = 7"
    "ap_scraped_job_id sample_application = Some 5" "ap_current_stage sample_application = Applied"
    "ap_next_action_task_id sample_application = Some sample_uuid"
  using sample_rows unfolding sample_application_def
  by (cases "db_applications (latest sample_history)"; simp)+

lemma timeline_latest: "timeline h \<Longrightarrow> clock_monotone h \<Longrightarrow> \<exists>clock. app_ok clock (latest h)"
  using timeline_inv [of h] by (auto simp: latest_def)

lemma timeline_row:
  "timeline h \<Longrightarrow> clock_monotone h \<Longrightarrow> a \<in> set (db_applications (latest h)) \<Longrightarrow>
    \<exists>clock. row_ok clock (app_events (latest h) (ap_id a)) a"
  using timeline_latest [of h] by (auto simp: app_ok_def)

lemma get_application_of_row:
  assumes "unique_by ap_id (db_applications db)" and "a \<in> set (db_applications db)"
  shows "get_application db (ap_user a) (ap_id a) = Inr a"
proof (cases "select_first (\<lambda>x. ap_id x = ap_id a \<and> ap_user x = ap_user a) (db_applications db)")
  case None
  with assms(2) show ?thesis by (auto simp: select_first_None)
next
  case (Some b)
  from select_first_Some [OF Some] unique_byD [OF assms(1) _ assms(2), of b] Some show ?thesis
    by (simp add: get_application_def)
qed

subsection \<open>Replay\<close>

text \<open>C3: The task list that the service returns is the replay of an append-only log. It succeeds
  exactly when every task event is acceptable, the revisions of each task are complete, agree and
  do not go back in time, and then it returns the latest revision of every task, each once, in
  board order, whatever order the events come in.\<close>

theorem replay_implements_log:
  "task_snapshots evs = Inr ts \<longleftrightarrow>
    events_valid evs \<and> log_ok (tasks_in evs) \<and> set ts = current_tasks (tasks_in evs)
    \<and> sorted (map task_sort_key ts) \<and> distinct ts"
  by (rule task_snapshots_spec)

subsection \<open>Histories\<close>

text \<open>C1: After any history of commits whose clock readings never go back, in whatever earlier
  states the commands were read, every application can be read: the response succeeds, its
  four next-action columns are the first pending task of the replay, a reminder never exceeds its
  due date and a task has a completion time exactly when it is completed.\<close>

theorem history_reads_succeed:
  assumes "timeline h" and "clock_monotone h" and "a \<in> set (db_applications (latest h))"
  shows "\<exists>rs. respond attest (latest h) (ap_user a) (ap_id a) = Inr rs
    \<and> project_next_action (next_action (rs_tasks rs)) a = a
    \<and> (\<forall>t \<in> set (rs_tasks rs). schedule_ok (t_reminder_at t) (t_due_at t)
         \<and> (t_status t = Completed \<longleftrightarrow> t_completed_at t \<noteq> None))"
proof -
  from timeline_latest [OF assms(1,2)] have "unique_by ap_id (db_applications (latest h))"
    by (auto simp: app_ok_def)
  note get = get_application_of_row [OF this assms(3)]
  from timeline_row [OF assms] obtain clock ts
    where ts: "task_snapshots (app_events (latest h) (ap_id a)) = Inr ts"
      and act: "project_next_action (next_action ts) a = a"
      and wf: "\<forall>t \<in> tasks_in (app_events (latest h) (ap_id a)). t_updated_at t \<le> clock \<and> task_wf t"
    by (auto simp: row_ok_def)
  have "\<forall>t \<in> set ts. task_wf t" using wf task_snapshots_facts(3) [OF ts] by blast
  with get ts act show ?thesis
    by (simp add: respond_def task_snapshots_events_of [THEN iffD2] task_wf_def)
qed

theorem history_reads_succeed_witness:
  "\<exists>rs. respond (\<lambda>_. True) (latest sample_history) 7 sample_id = Inr rs
    \<and> project_next_action (next_action (rs_tasks rs)) sample_application = sample_application
    \<and> (\<forall>t \<in> set (rs_tasks rs). schedule_ok (t_reminder_at t) (t_due_at t)
         \<and> (t_status t = Completed \<longleftrightarrow> t_completed_at t \<noteq> None))"
  using history_reads_succeed [OF sample_timeline sample_monotone sample_application_in, of "\<lambda>_. True"]
  unfolding sample_fields .

text \<open>Whether an application has ever reached a milestone is answered correctly from its stage
  and, for the terminal stages alone, its events: the answer is yes exactly when some event of the
  timeline records a milestone stage.\<close>

lemma history_milestones:
  assumes "timeline h" and "clock_monotone h" and "a \<in> set (db_applications (latest h))"
  shows "application_reached_applied (latest h) (ap_id a) (ap_current_stage a) \<longleftrightarrow>
    (\<exists>ev \<in> set (events_of (latest h) (ap_id a)). \<exists>st. ev_stage ev = Some st
       \<and> st \<in> set milestone_stages)"
proof -
  from timeline_row [OF assms] have st: "stage_ok (app_events (latest h) (ap_id a)) a"
    by (auto simp: row_ok_def)
  have ev: "set (app_events (latest h) (ap_id a)) = set (events_of (latest h) (ap_id a))"
    by (auto simp: app_events_def)
  note facts = st [unfolded stage_ok_def ev]
  consider "ap_current_stage a \<in> set milestone_stages" | "ap_current_stage a \<in> set terminal_stages"
    "ap_current_stage a \<notin> set milestone_stages" | "ap_current_stage a \<in> {Saved, Preparing}"
    using stage_cases_milestone by blast
  then show ?thesis
  proof cases
    case 1
    then have "application_reached_applied (latest h) (ap_id a) (ap_current_stage a)"
      by (simp add: application_reached_applied_def)
    moreover from facts 1 have "\<exists>ev \<in> set (events_of (latest h) (ap_id a)).
        \<exists>st. ev_stage ev = Some st \<and> st \<in> set milestone_stages" by blast
    ultimately show ?thesis by blast
  next
    case 2
    then show ?thesis by (auto simp: application_reached_applied_def)
  next
    case 3
    then have "ap_current_stage a \<notin> set milestone_stages" "ap_current_stage a \<notin> set terminal_stages"
      by (auto simp: milestone_stages_def terminal_stages_def)
    with facts 3 show ?thesis by (auto simp: application_reached_applied_def)
  qed
qed

theorem history_milestones_witness:
  "application_reached_applied (latest sample_history) sample_id Applied \<longleftrightarrow>
    (\<exists>ev \<in> set (events_of (latest sample_history) sample_id). \<exists>st. ev_stage ev = Some st
       \<and> st \<in> set milestone_stages)"
  using history_milestones [OF sample_timeline sample_monotone sample_application_in] unfolding sample_fields .

text \<open>An opportunity has one application per user, whatever sessions create them at once.\<close>

lemma history_one_application_per_listing:
  assumes "timeline h" and "clock_monotone h" and "a \<in> set (db_applications (latest h))"
    and "b \<in> set (db_applications (latest h))" and "ap_user a = ap_user b"
    and "ap_scraped_job_id a = Some sid" and "ap_scraped_job_id b = Some sid"
  shows "a = b"
proof -
  from timeline_latest [OF assms(1,2)] obtain clock where "app_ok clock (latest h)" ..
  with assms(3-) show ?thesis unfolding app_ok_def by force
qed

theorem history_one_application_per_listing_witness:
  "sample_application = hd (db_applications (latest sample_history))"
  by (rule history_one_application_per_listing
      [OF sample_timeline sample_monotone sample_application_in _ _ sample_fields(3)])
    (use sample_application_in sample_fields in \<open>simp_all add: sample_application_def\<close>)

text \<open>No application is lost, its revision never goes back, its stage only follows permitted
  transitions, and archiving is final.\<close>

lemma history_only_moves_forward:
  assumes "timeline h" and "clock_monotone h" and "(clock, db) \<in> set h" and "a \<in> set (db_applications db)"
  shows "\<exists>a' \<in> set (db_applications (latest h)). ap_id a' = ap_id a \<and> ap_user a' = ap_user a
    \<and> ap_revision a \<le> ap_revision a'
    \<and> stage_reach (ap_current_stage a) (ap_current_stage a')
    \<and> (ap_current_stage a = Archived \<longrightarrow> ap_current_stage a' = Archived)"
proof -
  from timeline_inv [OF assms(1,2)] assms(3) have "evolved db (latest h)"
    by (auto simp: latest_def)
  with assms(4) obtain a' where a': "a' \<in> set (db_applications (latest h))"
    "moved_on db (latest h) a a'" unfolding evolved_def by blast
  have "t = Archived" if "stage_reach Archived t" for t
    using that unfolding stage_reach_def by (induction rule: rtranclp_induct) auto
  with a' show ?thesis by (intro bexI [of _ a']) (auto simp: moved_on_def)
qed

theorem history_only_moves_forward_witness:
  "\<exists>a' \<in> set (db_applications (latest sample_history)). ap_id a' = sample_id \<and> ap_user a' = 7
    \<and> ap_revision sample_application \<le> ap_revision a'
    \<and> stage_reach Applied (ap_current_stage a') \<and> (Applied = Archived \<longrightarrow> ap_current_stage a' = Archived)"
proof -
  have "(fst (hd sample_history), latest sample_history) \<in> set sample_history"
    using timeline_inv [OF sample_timeline sample_monotone] by (simp add: latest_def)
  from history_only_moves_forward [OF sample_timeline sample_monotone this sample_application_in]
  show ?thesis unfolding sample_fields .
qed

subsection \<open>Concurrent writers\<close>

fun committed :: "app_db \<Rightarrow> session_write list \<Rightarrow> ((string \<times> int) \<times> int) list" where
  "committed db [] = []"
| "committed db ((attest, now, seen, cmd) # ws) =
     (case write_command attest now seen db cmd of
        Inl _ \<Rightarrow> committed db ws
      | Inr db' \<Rightarrow> (case command_target cmd of
          None \<Rightarrow> committed db' ws
        | Some t \<Rightarrow> t # committed db' ws))"

definition guarded :: "session_write \<Rightarrow> bool" where
  "guarded w \<longleftrightarrow> (case w of (_, _, _, cmd) \<Rightarrow> command_target cmd \<noteq> None)"

definition tagged :: "session_write \<Rightarrow> (string \<times> int) \<times> int \<times> session_write" where
  "tagged w = (case w of (_, _, _, cmd) \<Rightarrow>
     (case the (command_target cmd) of (k, e) \<Rightarrow> (k, e, w)))"

lemma committed_wins:
  "\<forall>w \<in> set ws. guarded w \<Longrightarrow> committed db ws = app_writes.wins db (map tagged ws)"
proof (induction db ws rule: committed.induct)
  case (1 db)
  then show ?case by simp
next
  case (2 db attest now seen cmd ws)
  then obtain k e where t: "command_target cmd = Some (k, e)"
    by (cases "command_target cmd") (auto simp: guarded_def)
  let ?w = "(attest, now, seen, cmd)"
  have tag: "tagged ?w = (k, e, ?w)" using t by (simp add: tagged_def)
  have cas: "command_cas db k e ?w =
      (case write_command attest now seen db cmd of Inl _ \<Rightarrow> None | Inr db' \<Rightarrow> Some db')"
    using t by (simp add: command_cas_def)
  show ?case
    by (cases "write_command attest now seen db cmd") (use 2 t in \<open>simp_all add: tag cas\<close>)
qed

text \<open>C2: No update is lost. Of all the writes to an application that name the same expected
  revision, from any sessions, in any order and whatever earlier state each of them has read, at
  most one commits; the others change nothing.\<close>

theorem one_commit_per_revision:
  assumes "ids_unique db" and "\<forall>w \<in> set ws. guarded w"
  shows "distinct (committed db ws)"
  unfolding committed_wins [OF assms(2)] by (rule app_writes.at_most_one_winner [OF assms(1)])

definition sample_writes :: "session_write list" where
  "sample_writes =
     (let db = latest sample_history;
          note = (\<lambda>text. AppendEvent 7 sample_id \<lparr>ec_expected_revision = 3, ec_type = NoteEvent,
             ec_stage = None, ec_occurred_at = None, ec_note = Some text,
             ec_payload = OtherJson ''{}''\<rparr>)
      in [(\<lambda>_. True, 40, db, note ''one''), (\<lambda>_. True, 41, db, note ''two'')])"

lemma sample_writes_commits: "committed (latest sample_history) sample_writes = [((sample_id, 7), 3)]"
  by code_simp

theorem one_commit_per_revision_witness:
  "distinct (committed (latest sample_history) sample_writes)
    \<and> committed (latest sample_history) sample_writes = [((sample_id, 7), 3)]"
proof
  have "ids_unique (latest sample_history)"
    using timeline_latest [OF sample_timeline sample_monotone] by (auto simp: app_ok_def ids_unique_def)
  moreover have "\<forall>w \<in> set sample_writes. guarded w"
    by (simp add: sample_writes_def guarded_def Let_def)
  ultimately show "distinct (committed (latest sample_history) sample_writes)"
    by (rule one_commit_per_revision)
qed (rule sample_writes_commits)

subsection \<open>A clock that goes back\<close>

text \<open>C30: A task update whose clock reading is older than the stored task is committed and leaves
  the application unreadable: the response of the update itself fails, and so does every later
  read, because the replay refuses a revision history that regresses.\<close>

theorem late_clock_update_poisons_application:
  assumes uniq: "ids_unique db" and c: "update_task attest now db db uid aid tid d = Committed db' r"
    and ts: "task_snapshots (events_of db aid) = Inr ts"
    and t: "find (\<lambda>t. t_id t = tid) ts = Some current" and late: "now < t_updated_at current"
  shows "(\<exists>e. r = Inl e) \<and> (\<exists>e. respond attest' db' uid aid = Inl e)"
proof -
  from c have w: "update_task_write now db db uid aid tid d = Inr db'"
    and r: "r = respond attest db' uid aid"
    by (auto simp: update_task_def finish_def split: sum.splits)
  from w ts t obtain a upd db1 where a: "get_application db uid aid = Inr a"
    and upd: "apply_task_update now d current = Inr upd"
    and adv: "advance_revision a (tu_expected_revision d) now
       (project_next_action (next_action (sort_key task_sort_key (replace_task tid upd ts)))) db = Inr db1"
    and db': "db' = append_row (task_event aid now (task_event_type current upd) upd) db1"
    by (auto simp: update_task_write_def and_then_Inr)
  from ts have ts': "task_snapshots (app_events db aid) = Inr ts"
    by (simp add: task_snapshots_events_of)
  from t have cur: "current \<in> set ts" "t_id current = tid" by (auto simp: find_Some_iff)
  with task_snapshots_facts(3) [OF ts'] have "valid_task current" by (auto dest: tasks_in_valid)
  note fields = apply_task_update_fields [OF upd]
  with \<open>valid_task current\<close> have "valid_task upd" "1 < t_revision upd" by (simp_all add: valid_task_def)
  from decode_task_event(2) [OF this]
  have dec: "decode_event (task_event aid now (task_event_type current upd) upd) = Inr (Some upd)" .
  from late fields have "t_updated_at upd < t_updated_at current" by simp
  from task_snapshots_replace(2) [OF ts' dec cur(1) fields(1-3) this]
  have bad: "\<nexists>us. task_snapshots (app_events db aid @
      [task_event aid now (task_event_type current upd) upd]) = Inr us" .
  have "db_events db1 = db_events db"
    using adv write_application_tables unfolding advance_revision_def by (auto split: if_splits)
  with db' have "app_events db' aid = app_events db aid @
      [task_event aid now (task_event_type current upd) upd]"
    by (simp add: app_events_def task_event_def)
  with bad have none: "\<nexists>us. task_snapshots (events_of db' aid) = Inr us"
    by (simp add: task_snapshots_events_of)
  have "\<exists>e. respond att db' uid aid = Inl e" for att
    using none unfolding respond_def
    by (cases "get_application db' uid aid"; cases "task_snapshots (events_of db' aid)") auto
  with r show ?thesis by blast
qed

definition late_update :: task_update where
  "late_update = \<lparr>tu_expected_revision = 3, tu_title = Some ''later'', tu_due_at = None,
     tu_priority = None, tu_reminder_at = None, tu_status = None\<rparr>"

definition sample_task :: task where
  "sample_task = new_task 20 sample_uuid \<lparr>tc_expected_revision = 1, tc_title = ''call'',
     tc_due_at = Some 90, tc_priority = High, tc_reminder_at = Some 80\<rparr>"

lemma late_update_commits:
  "(case update_task (\<lambda>_. True) 5 (latest sample_history) (latest sample_history) 7 sample_id
      sample_uuid late_update of Committed db (Inl e) \<Rightarrow> True | _ \<Rightarrow> False)"
  by code_simp

lemma sample_tasks: "task_snapshots (events_of (latest sample_history) sample_id) = Inr [sample_task]"
  by code_simp

theorem late_clock_update_poisons_application_witness:
  "\<exists>db' e. update_task (\<lambda>_. True) 5 (latest sample_history) (latest sample_history) 7 sample_id
      sample_uuid late_update = Committed db' (Inl e)
    \<and> (\<exists>e'. respond (\<lambda>_. False) db' 7 sample_id = Inl e')"
proof -
  obtain db' r where c: "update_task (\<lambda>_. True) 5 (latest sample_history) (latest sample_history) 7
      sample_id sample_uuid late_update = Committed db' r"
    using late_update_commits by (auto split: op_result.splits)
  have "ids_unique (latest sample_history)"
    using timeline_latest [OF sample_timeline sample_monotone] by (auto simp: app_ok_def ids_unique_def)
  from late_clock_update_poisons_application [OF this c sample_tasks, of sample_task "\<lambda>_. False"] c
  show ?thesis by (auto simp: sample_task_def new_task_def)
qed

subsection \<open>Markers and snapshots\<close>

lemma sync_jobs:
  assumes "application_reached_applied db (ap_id a) s" and "ap_scraped_job_id a = Some sid"
  shows "db_jobs (sync_legacy_applied_markers uid a s job db) =
    update_rows (\<lambda>r. jb_user r = uid \<and> jb_scraped_job_id r = sid \<and> jb_applied r \<noteq> Some True)
      (\<lambda>r. r\<lparr>jb_applied := Some True\<rparr>) (db_jobs db)"
  using assms(1) by (simp add: sync_legacy_applied_markers_def assms(2))

lemma sync_marks:
  assumes "application_reached_applied db (ap_id a) s" and "ap_scraped_job_id a = Some sid"
    and "j \<in> set (db_jobs (sync_legacy_applied_markers uid a s job db))"
    and "jb_user j = uid" and "jb_scraped_job_id j = sid"
  shows "jb_applied j = Some True"
  using assms(3) unfolding sync_jobs [OF assms(1,2)] set_update_rows
proof (elim UnE imageE)
  assume "j \<in> {r \<in> set (db_jobs db). \<not> (jb_user r = uid \<and> jb_scraped_job_id r = sid
      \<and> jb_applied r \<noteq> Some True)}"
  with assms(4,5) show ?thesis by blast
qed simp

lemma update_rows_rel:
  "(\<And>x. R x x) \<Longrightarrow> (\<And>x. R x (f x)) \<Longrightarrow> list_all2 R rows (update_rows p f rows)"
  by (induction rows) simp_all

definition only_marked :: "job_row \<Rightarrow> job_row \<Rightarrow> bool" where
  "only_marked j j' \<longleftrightarrow> j' = j \<or> j' = j\<lparr>jb_applied := Some True\<rparr>"

lemma sync_frame:
  "list_all2 only_marked (db_jobs db) (db_jobs (sync_legacy_applied_markers uid a s job db))"
proof -
  have "list_all2 only_marked rows rows" for rows
    by (rule list.rel_refl) (simp add: only_marked_def)
  moreover have "list_all2 only_marked rows
      (update_rows p (\<lambda>r. r\<lparr>jb_applied := Some True\<rparr>) rows)" for p rows
    by (rule update_rows_rel) (simp_all add: only_marked_def)
  ultimately show ?thesis
    by (simp add: sync_legacy_applied_markers_def Let_def split: option.split)
qed

text \<open>When an event moves an application to a milestone stage, or the application has
  reached one before, every job row of the user for the same listing is marked as applied in the
  same commit, duplicates included, and no other column of any job row changes.\<close>

lemma applied_markers_synchronised:
  assumes "append_event_write now db dbw uid aid d = Inr db'"
    and "get_application db uid aid = Inr a" and "next_stage a d = Inr st"
    and "application_reached_applied dbw aid st" and "ap_scraped_job_id a = Some sid"
  shows "(\<forall>j \<in> set (db_jobs db'). jb_user j = uid \<longrightarrow> jb_scraped_job_id j = sid \<longrightarrow>
      jb_applied j = Some True) \<and> list_all2 only_marked (db_jobs dbw) (db_jobs db')"
proof -
  from assms(1-3) obtain db1 where adv: "advance_revision a (ec_expected_revision d) now
       (\<lambda>r. r\<lparr>ap_current_stage := st,
               ap_latest_event_at := max (ap_latest_event_at a) (or_else (ec_occurred_at d) now)\<rparr>)
       dbw = Inr db1"
    and db': "db_jobs db' = db_jobs (sync_legacy_applied_markers uid a st None db1)"
    by (auto simp: append_event_write_def and_then_Inr)
  from adv have tables: "db_events db1 = db_events dbw" "db_jobs db1 = db_jobs dbw"
    using write_application_tables unfolding advance_revision_def by (auto split: if_splits)
  have "ap_id a = aid" using get_application_Inr [OF assms(2)] by simp
  with assms(4) tables have "application_reached_applied db1 (ap_id a) st"
    by (simp only: application_reached_applied_def)
  with sync_marks [OF this assms(5)] sync_frame [of db1] tables db' show ?thesis by auto
qed

definition applied_event :: event_create where
  "applied_event = \<lparr>ec_expected_revision = 2, ec_type = StageEvent, ec_stage = Some Applied,
     ec_occurred_at = None, ec_note = None, ec_payload = OtherJson ''{}''\<rparr>"

definition before_applied :: app_db where
  "before_applied = latest (the (run_history (\<lambda>_. True) [(0, sample_db)] (take 2 sample_commands)))"

definition seen_row :: app_row where
  "seen_row = hd (db_applications before_applied)"

theorem applied_markers_synchronised_witness:
  "\<exists>db'. append_event_write 30 before_applied before_applied 7 sample_id applied_event = Inr db'
    \<and> (\<forall>j \<in> set (db_jobs db'). jb_user j = 7 \<longrightarrow> jb_scraped_job_id j = 5 \<longrightarrow>
         jb_applied j = Some True) \<and> list_all2 only_marked (db_jobs before_applied) (db_jobs db')"
proof -
  have "\<not> Option.is_none (case append_event_write 30 before_applied before_applied 7 sample_id
      applied_event of Inl _ \<Rightarrow> None | Inr db \<Rightarrow> Some ())"
    by code_simp
  then obtain db' where w: "append_event_write 30 before_applied before_applied 7 sample_id
      applied_event = Inr db'"
    by (auto split: sum.splits)
  have rows: "map (\<lambda>a. (ap_id a, ap_user a, ap_current_stage a, ap_scraped_job_id a))
      (db_applications before_applied) = [(sample_id, 7, Saved, Some 5)]"
    by code_simp
  then have db: "db_applications before_applied = [seen_row]" and r: "ap_id seen_row = sample_id"
    "ap_user seen_row = 7" "ap_current_stage seen_row = Saved" "ap_scraped_job_id seen_row = Some 5"
    by (cases "db_applications before_applied"; simp add: seen_row_def)+
  have get: "get_application before_applied 7 sample_id = Inr seen_row"
    by (simp add: get_application_def db r)
  have stage: "next_stage seen_row applied_event = Inr Applied"
    by (simp add: next_stage_def applied_event_def r ensure_def)
  have "application_reached_applied before_applied sample_id Applied"
    by (simp add: application_reached_applied_def milestone_stages_def)
  from applied_markers_synchronised [OF w get stage this r(4)] w show ?thesis by blast
qed

text \<open>No analysis leaves the service unverified. The match data of a response is either the
  current data of the user's own job row, whose receipt has just been verified, or the neutral
  projection without a score; and no field outside the allowlist is returned.\<close>

lemma responses_carry_verified_analysis:
  assumes "respond attest db uid aid = Inr rs"
  shows "\<exists>m. sn_match (ap_job_snapshot (rs_application rs)) = Some m
    \<and> (mp_receipt_verified m \<and> (\<exists>j \<in> set (db_jobs db). jb_user j = uid \<and> attest j \<and> m = verified_match j)
       \<or> m = neutral_match ''analysis_not_receipt_verified'')
    \<and> (\<forall>f. sn_fields (ap_job_snapshot (rs_application rs)) f = None \<or> f \<in> set snapshot_safe_fields)"
proof -
  from assms obtain a where a: "get_application db uid aid = Inr a"
    and snap: "ap_job_snapshot (rs_application rs) = safe_snapshot attest db a"
    by (auto simp: respond_def and_then_Inr)
  from get_application_Inr [OF a] have "ap_user a = uid" by simp
  define v where "v = (case (case ap_job_id a of None \<Rightarrow> None
      | Some j \<Rightarrow> select_first (\<lambda>r. jb_id r = j) (db_jobs db)) of None \<Rightarrow> None
      | Some r \<Rightarrow> if jb_user r = ap_user a then Some (attest r, r) else None)"
  have safe: "safe_snapshot attest db a =
      sanitize_application_snapshot (ap_job_snapshot a) v ''analysis_not_receipt_verified''"
    by (simp add: safe_snapshot_def v_def Let_def)
  have own: "j \<in> set (db_jobs db) \<and> jb_user j = uid \<and> b = attest j" if "v = Some (b, j)" for b j
    using that \<open>ap_user a = uid\<close>
    by (auto simp: v_def dest: select_first_Some split: option.splits if_splits)
  show ?thesis
    using sanitize_match [of "ap_job_snapshot a" v "''analysis_not_receipt_verified''"]
      sanitize_allowlist [of "ap_job_snapshot a" v] own
    unfolding snap safe by (fastforce simp: verified_match_def)
qed

theorem responses_carry_verified_analysis_witness:
  "\<exists>rs m. respond (\<lambda>_. True) (latest sample_history) 7 sample_id = Inr rs
    \<and> sn_match (ap_job_snapshot (rs_application rs)) = Some m
    \<and> (mp_receipt_verified m \<or> m = neutral_match ''analysis_not_receipt_verified'')"
proof -
  have "\<not> Option.is_none (case respond (\<lambda>_. True) (latest sample_history) 7 sample_id of
      Inl _ \<Rightarrow> None | Inr rs \<Rightarrow> Some ())"
    by code_simp
  then obtain rs where rs: "respond (\<lambda>_. True) (latest sample_history) 7 sample_id = Inr rs"
    by (auto split: sum.splits)
  from responses_carry_verified_analysis [OF rs] rs show ?thesis by blast
qed

end
