(* ===== verification/Agenda.thy ===== *)
theory Agenda
  imports Applications
begin

text \<open>
  The daily queue of applications: \<open>ApplicationAgendaService\<close> in
  \<open>backend/applications/agenda.py\<close> with the response validators of
  \<open>schemas.py\<close>. The single SQL statement of \<open>build\<close> is written out as the
  relational operations it composes: classify the open rows of the user, count
  them, rank the visible ones and join the first \<open>limit\<close> of them.

  Instants are aware, so the checks for a missing timezone have no counterpart;
  the priority column only holds the declared values. An ascending SQL order
  puts NULL first, which is the order of \<open>option\<close>.
\<close>

subsection \<open>Classification\<close>

datatype agenda_state =
    Overdue | Today | Upcoming | Unscheduled | NeedsAction | Later | InvalidAction

definition us_hour :: int where "us_hour = 3600 * 1000000"

definition us_day :: int where "us_day = 24 * us_hour"

definition closed_stages :: "stage list" where
  "closed_stages = [Rejected, Withdrawn, Archived]"

definition agenda_window ::
  "instant \<Rightarrow> instant \<Rightarrow> int \<Rightarrow> (instant \<times> instant) outcome" where
  "agenda_window generated day_end horizon_days =
     (if day_end \<le> generated
      then Inl (ValidationError ''Local day boundary must be in the future'')
      else if day_end > generated + 26 * us_hour
      then Inl (ValidationError ''Local day boundary cannot be more than 26 hours ahead'')
      else Inr (day_end, generated + horizon_days * us_day))"

definition identity_absent :: "app_row \<Rightarrow> bool" where
  "identity_absent a \<longleftrightarrow> ap_next_action_task_id a = None \<and> ap_next_action_title a = None
     \<and> ap_next_action_priority a = None"

definition identity_incomplete :: "app_row \<Rightarrow> bool" where
  "identity_incomplete a \<longleftrightarrow> ap_next_action_task_id a = None \<or> ap_next_action_title a = None
     \<or> ap_next_action_priority a = None"

definition agenda_state_of :: "instant \<Rightarrow> instant \<Rightarrow> instant \<Rightarrow> app_row \<Rightarrow> agenda_state" where
  "agenda_state_of generated today_end horizon_end a =
     (if identity_absent a \<and> ap_next_action_at a = None then NeedsAction
      else if identity_incomplete a then InvalidAction
      else if ap_next_action_task_id a = Some [] \<or> ap_next_action_title a = Some []
      then InvalidAction
      else case ap_next_action_at a of
        None \<Rightarrow> Unscheduled
      | Some due \<Rightarrow>
          if due < generated then Overdue
          else if due < today_end then Today
          else if due \<le> horizon_end then Upcoming
          else Later)"

fun state_rank :: "agenda_state \<Rightarrow> nat" where
  "state_rank Overdue = 0"
| "state_rank Today = 1"
| "state_rank Upcoming = 2"
| "state_rank Unscheduled = 3"
| "state_rank NeedsAction = 4"
| "state_rank _ = 5"

definition visible_state :: "agenda_state \<Rightarrow> bool" where
  "visible_state s \<longleftrightarrow> s \<in> {Overdue, Today, Upcoming, Unscheduled, NeedsAction}"

definition priority_order :: "priority option \<Rightarrow> nat" where
  "priority_order p = (case p of None \<Rightarrow> 4 | Some q \<Rightarrow> priority_rank q)"

type_synonym agenda_key = "nat \<times> instant option \<times> nat \<times> instant \<times> string"

definition agenda_key ::
  "instant \<Rightarrow> instant \<Rightarrow> instant \<Rightarrow> app_row \<Rightarrow> agenda_key" where
  "agenda_key generated today_end horizon_end a =
     (state_rank (agenda_state_of generated today_end horizon_end a), ap_next_action_at a,
      priority_order (ap_next_action_priority a), ap_latest_event_at a, ap_id a)"

subsection \<open>Items\<close>

record action_view =
  av_id :: string
  av_title :: string
  av_due_at :: "instant option"
  av_priority :: priority

record agenda_item =
  ai_application_id :: string
  ai_revision :: int
  ai_title :: string
  ai_company :: string
  ai_stage :: stage
  ai_latest_event_at :: instant
  ai_state :: agenda_state
  ai_next_action :: "action_view option"

definition text_within :: "nat \<Rightarrow> string \<Rightarrow> bool" where
  "text_within n s \<longleftrightarrow> 1 \<le> length s \<and> length s \<le> n"

definition agenda_next_action :: "app_row \<Rightarrow> action_view option outcome" where
  "agenda_next_action a =
     (if identity_absent a
      then and_then (ensure (ap_next_action_at a = None)
             (ValidationError ''Next-action projection is incomplete'')) (\<lambda>_. Inr None)
      else case (ap_next_action_task_id a, ap_next_action_title a, ap_next_action_priority a) of
        (Some i, Some t, Some p) \<Rightarrow>
          and_then (ensure (text_within 36 i \<and> text_within 500 t)
            (ValidationError ''Next-action projection is invalid'')) (\<lambda>_.
          Inr (Some \<lparr>av_id = i, av_title = t, av_due_at = ap_next_action_at a, av_priority = p\<rparr>))
      | _ \<Rightarrow> Inl (ValidationError ''Next-action projection is incomplete''))"

text \<open>\<open>action_matches_state\<close>\<close>

definition action_matches_state :: "agenda_state \<Rightarrow> action_view option \<Rightarrow> bool" where
  "action_matches_state s v =
     (case v of
        None \<Rightarrow> s = NeedsAction
      | Some w \<Rightarrow> s \<noteq> NeedsAction
          \<and> (s \<in> {Overdue, Today, Upcoming} \<longrightarrow> av_due_at w \<noteq> None)
          \<and> (s = Unscheduled \<longrightarrow> av_due_at w = None))"

definition agenda_item_of ::
  "instant \<Rightarrow> instant \<Rightarrow> instant \<Rightarrow> app_row \<Rightarrow> agenda_item outcome" where
  "agenda_item_of generated today_end horizon_end a =
     and_then (agenda_next_action a) (\<lambda>v.
     let s = agenda_state_of generated today_end horizon_end a in
     and_then (ensure (text_within 36 (ap_id a) \<and> 1 \<le> ap_revision a
         \<and> text_within 240 (ap_job_title a) \<and> text_within 240 (ap_job_company a)
         \<and> action_matches_state s v)
       (ValidationError ''Application agenda projection is invalid'')) (\<lambda>_.
     Inr \<lparr>ai_application_id = ap_id a, ai_revision = ap_revision a, ai_title = ap_job_title a,
          ai_company = ap_job_company a, ai_stage = ap_current_stage a,
          ai_latest_event_at = ap_latest_event_at a, ai_state = s, ai_next_action = v\<rparr>))"

subsection \<open>The queue\<close>

record agenda_response =
  ag_generated_at :: instant
  ag_local_day_end :: instant
  ag_horizon_end :: instant
  ag_active_count :: nat
  ag_visible_count :: nat
  ag_later_count :: nat
  ag_truncated_count :: nat
  ag_items :: "agenda_item list"

definition open_for :: "int \<Rightarrow> app_row \<Rightarrow> bool" where
  "open_for uid a \<longleftrightarrow> ap_user a = uid \<and> ap_current_stage a \<notin> set closed_stages"

definition counts_are_coherent :: "agenda_response \<Rightarrow> bool" where
  "counts_are_coherent r \<longleftrightarrow>
     ag_generated_at r < ag_local_day_end r \<and> ag_generated_at r \<le> ag_horizon_end r
     \<and> ag_active_count r = ag_visible_count r + ag_later_count r
     \<and> int (ag_truncated_count r) = int (ag_visible_count r) - int (length (ag_items r))
     \<and> length (ag_items r) \<le> 200"

definition ranked_rows ::
  "(agenda_state \<Rightarrow> bool) \<Rightarrow> instant \<Rightarrow> instant \<Rightarrow> instant \<Rightarrow> int \<Rightarrow> app_row table \<Rightarrow> app_row list" where
  "ranked_rows vis generated today_end horizon_end uid apps =
     sort_key (agenda_key generated today_end horizon_end)
       (filter (\<lambda>a. open_for uid a \<and> vis (agenda_state_of generated today_end horizon_end a)) apps)"

definition build_agenda ::
  "app_row table \<Rightarrow> int \<Rightarrow> instant \<Rightarrow> int \<Rightarrow> int \<Rightarrow> instant \<Rightarrow> agenda_response outcome" where
  "build_agenda apps uid day_end horizon_days limit now =
     and_then (ensure (1 \<le> horizon_days \<and> horizon_days \<le> 30)
       (ValidationError ''Agenda horizon must be between 1 and 30 days'')) (\<lambda>_.
     and_then (ensure (1 \<le> limit \<and> limit \<le> 200)
       (ValidationError ''Agenda limit must be between 1 and 200'')) (\<lambda>_.
     and_then (agenda_window now day_end horizon_days) (\<lambda>(today_end, horizon_end).
     let state = agenda_state_of now today_end horizon_end;
         active = row_count (open_for uid) apps;
         later = row_count (\<lambda>a. open_for uid a \<and> state a = Later) apps;
         invalid = row_count (\<lambda>a. open_for uid a \<and> state a = InvalidAction) apps;
         ranked = ranked_rows visible_state now today_end horizon_end uid apps in
     and_then (ensure (invalid = 0)
       (ValidationError ''Next-action projection is incomplete'')) (\<lambda>_.
     and_then (map_outcome (agenda_item_of now today_end horizon_end) (take (nat limit) ranked))
       (\<lambda>items.
     let visible = active - later;
         r = \<lparr>ag_generated_at = now, ag_local_day_end = today_end, ag_horizon_end = horizon_end,
              ag_active_count = active, ag_visible_count = visible, ag_later_count = later,
              ag_truncated_count = visible - length items, ag_items = items\<rparr> in
     and_then (ensure (counts_are_coherent r)
       (ValidationError ''Application agenda response is invalid'')) (\<lambda>_. Inr r))))))"

subsection \<open>Counting\<close>

lemma row_count_partition:
  "row_count p rows = row_count (\<lambda>r. p r \<and> q r) rows + row_count (\<lambda>r. p r \<and> \<not> q r) rows"
  by (induction rows) auto

lemma state_partition:
  "visible_state s \<longleftrightarrow> s \<noteq> Later \<and> s \<noteq> InvalidAction"
  by (cases s) (simp_all add: visible_state_def)

lemma visible_rows:
  assumes "row_count (\<lambda>a. open_for uid a \<and> st a = InvalidAction) apps = 0"
  shows "row_count (open_for uid) apps = row_count (\<lambda>a. open_for uid a \<and> st a = Later) apps
    + length (filter (\<lambda>a. open_for uid a \<and> visible_state (st a)) apps)"
proof -
  have "row_count (\<lambda>a. open_for uid a \<and> st a \<noteq> Later) apps
      = row_count (\<lambda>a. open_for uid a \<and> visible_state (st a)) apps"
    using assms unfolding row_count_def state_partition
    by (intro arg_cong [where f = length] filter_cong) (auto simp: filter_empty_conv)
  with row_count_partition [of "open_for uid" apps "\<lambda>a. st a = Later"] show ?thesis
    by (simp add: row_count_def)
qed

lemma map_outcome_list_all2:
  "map_outcome f xs = Inr ys \<Longrightarrow> list_all2 (\<lambda>x y. f x = Inr y) xs ys"
proof (induction xs arbitrary: ys)
  case Nil
  then show ?case by simp
next
  case (Cons x xs)
  then show ?case by (auto split: sum.splits)
qed

lemma sort_key_take_least:
  assumes "a \<in> set (take n (sort_key k xs))" and "b \<in> set (drop n (sort_key k xs))"
  shows "k a \<le> k b"
proof -
  have "sorted (map k (take n (sort_key k xs) @ drop n (sort_key k xs)))"
    by (simp only: append_take_drop_id sorted_sort_key)
  then have "\<forall>x \<in> set (map k (take n (sort_key k xs))).
      \<forall>y \<in> set (map k (drop n (sort_key k xs))). x \<le> y"
    unfolding map_append sorted_append by blast
  with assms show ?thesis by simp
qed

lemma and_then_bind_InrD: "and_then m f = Inr y \<Longrightarrow> \<exists>x. m = Inr x \<and> f x = Inr y"
  by (simp add: and_then_Inr)

lemma build_agenda_Inr:
  assumes "build_agenda apps uid day_end horizon_days limit now = Inr r"
  defines "he \<equiv> now + horizon_days * us_day"
  defines "ranked \<equiv> ranked_rows visible_state now day_end he uid apps"
  shows "list_all2 (\<lambda>a i. agenda_item_of now day_end he a = Inr i)
      (take (nat limit) ranked) (ag_items r)"
    and "row_count (\<lambda>a. open_for uid a \<and> agenda_state_of now day_end he a = InvalidAction) apps = 0"
    and "ag_active_count r = row_count (open_for uid) apps"
    and "ag_later_count r = row_count (\<lambda>a. open_for uid a
      \<and> agenda_state_of now day_end he a = Later) apps"
    and "ag_visible_count r = ag_active_count r - ag_later_count r"
    and "ag_truncated_count r = ag_visible_count r - length (ag_items r)"
    and "1 \<le> limit" "limit \<le> 200"
proof -
  have win: "agenda_window now day_end horizon_days = Inr (day_end, he)"
    using assms(1) unfolding build_agenda_def
    by (auto simp: and_then_Inr agenda_window_def he_def split: if_splits)
  from assms(1) have lim: "1 \<le> limit" "limit \<le> 200"
    by (auto simp: build_agenda_def and_then_Inr)
  then show "1 \<le> limit" "limit \<le> 200" by simp_all
  obtain items where items:
    "map_outcome (agenda_item_of now day_end he) (take (nat limit) ranked) = Inr items"
    and inv: "row_count (\<lambda>a. open_for uid a \<and> agenda_state_of now day_end he a = InvalidAction) apps = 0"
    and r: "ag_items r = items" "ag_active_count r = row_count (open_for uid) apps"
      "ag_later_count r = row_count (\<lambda>a. open_for uid a
         \<and> agenda_state_of now day_end he a = Later) apps"
      "ag_visible_count r = ag_active_count r - ag_later_count r"
      "ag_truncated_count r = ag_visible_count r - length (ag_items r)"
    using assms(1) win unfolding build_agenda_def
    by (auto simp: and_then_Inr Let_def ranked_def)
  from map_outcome_list_all2 [OF items] r
  show "list_all2 (\<lambda>a i. agenda_item_of now day_end he a = Inr i)
      (take (nat limit) ranked) (ag_items r)" by simp
  show "row_count (\<lambda>a. open_for uid a \<and> agenda_state_of now day_end he a = InvalidAction) apps = 0"
    by (rule inv)
  show "ag_active_count r = row_count (open_for uid) apps"
    "ag_later_count r = row_count (\<lambda>a. open_for uid a
      \<and> agenda_state_of now day_end he a = Later) apps"
    "ag_visible_count r = ag_active_count r - ag_later_count r"
    "ag_truncated_count r = ag_visible_count r - length (ag_items r)" using r by simp_all
qed

subsection \<open>Properties\<close>

text \<open>C34: The daily queue accounts for every open application of the user. The rows it shows are
  open, owned and visible, each once and in queue order; when it is truncated, what it omits never
  comes before what it shows; and the active count is the number shown plus the truncated and the
  later ones.\<close>

theorem agenda_accounts_for_every_application:
  assumes "build_agenda apps uid day_end horizon_days limit now = Inr r" and "distinct apps"
  defines "state \<equiv> agenda_state_of now day_end (now + horizon_days * us_day)"
    and "key \<equiv> agenda_key now day_end (now + horizon_days * us_day)"
  shows "\<exists>shown. list_all2 (\<lambda>a i. ai_application_id i = ap_id a \<and> ai_state i = state a) shown (ag_items r)
    \<and> distinct shown \<and> sorted (map key shown)
    \<and> set shown \<subseteq> {a \<in> set apps. open_for uid a \<and> visible_state (state a)}
    \<and> (\<forall>a \<in> set apps. open_for uid a \<longrightarrow> visible_state (state a) \<longrightarrow> a \<notin> set shown \<longrightarrow>
         (\<forall>b \<in> set shown. key b \<le> key a))
    \<and> (ag_truncated_count r = 0 \<or> int (length (ag_items r)) = limit)
    \<and> ag_active_count r = row_count (open_for uid) apps
    \<and> ag_active_count r = length (ag_items r) + ag_truncated_count r + ag_later_count r
    \<and> (\<forall>a \<in> set apps. open_for uid a \<longrightarrow> visible_state (state a) \<or> state a = Later)"
proof -
  let ?he = "now + horizon_days * us_day"
  let ?vis = "filter (\<lambda>a. open_for uid a \<and> visible_state (state a)) apps"
  define ranked where "ranked = sort_key key ?vis"
  define shown where "shown = take (nat limit) ranked"
  note facts = build_agenda_Inr [OF assms(1)]
  have ranked: "ranked_rows visible_state now day_end ?he uid apps = ranked"
    by (simp add: ranked_rows_def ranked_def state_def key_def)
  from facts(1) have items: "list_all2 (\<lambda>a i. agenda_item_of now day_end ?he a = Inr i) shown (ag_items r)"
    by (simp add: ranked shown_def)
  have "list_all2 (\<lambda>a i. ai_application_id i = ap_id a \<and> ai_state i = state a) shown (ag_items r)"
    by (rule list.rel_mono_strong [OF items])
      (auto simp: agenda_item_of_def and_then_Inr Let_def state_def)
  moreover have "distinct shown" using assms(2) by (simp add: shown_def ranked_def)
  moreover have "sorted (map key shown)"
    by (simp add: shown_def ranked_def sorted_wrt_take flip: take_map)
  moreover have sub: "set shown \<subseteq> {a \<in> set apps. open_for uid a \<and> visible_state (state a)}"
    by (auto simp: shown_def ranked_def dest: in_set_takeD)
  moreover have "\<forall>a \<in> set apps. open_for uid a \<longrightarrow> visible_state (state a) \<longrightarrow> a \<notin> set shown \<longrightarrow>
         (\<forall>b \<in> set shown. key b \<le> key a)"
  proof (intro ballI impI)
    fix a b assume a: "a \<in> set apps" "open_for uid a" "visible_state (state a)" "a \<notin> set shown"
      and b: "b \<in> set shown"
    have "a \<in> set ranked" using a by (simp add: ranked_def)
    then have "a \<in> set (take (nat limit) ranked) \<union> set (drop (nat limit) ranked)"
      by (simp only: set_append [symmetric] append_take_drop_id)
    with a b show "key b \<le> key a"
      unfolding shown_def ranked_def by (blast intro: sort_key_take_least)
  qed
  moreover have "ag_truncated_count r = 0 \<or> int (length (ag_items r)) = limit"
  proof (cases "length ?vis \<le> nat limit")
    case True
    have "ag_truncated_count r = 0"
      using True list_all2_lengthD [OF items] visible_rows [of uid state apps] facts(2-6)
      by (simp add: shown_def ranked_def state_def)
    then show ?thesis ..
  next
    case False
    with list_all2_lengthD [OF items] have "length (ag_items r) = nat limit"
      by (simp add: shown_def ranked_def)
    with facts(7) show ?thesis by linarith
  qed
  moreover have inv: "row_count (\<lambda>a. open_for uid a \<and> state a = InvalidAction) apps = 0"
    and later: "ag_later_count r = row_count (\<lambda>a. open_for uid a \<and> state a = Later) apps"
    using facts(2,4) by (simp_all add: state_def)
  have "length (ag_items r) \<le> length ?vis"
    using list_all2_lengthD [OF items] by (simp add: shown_def ranked_def)
  with visible_rows [OF inv] later facts(3,5,6)
  have "ag_active_count r = length (ag_items r) + ag_truncated_count r + ag_later_count r" by simp
  moreover have "\<forall>a \<in> set apps. open_for uid a \<longrightarrow> visible_state (state a) \<or> state a = Later"
    using inv by (auto simp: row_count_0 state_partition)
  ultimately show ?thesis using facts(3) by blast
qed

definition plain_snapshot :: snapshot where
  "plain_snapshot = \<lparr>sn_fields = (\<lambda>_. None), sn_schema_version = 2, sn_match = None\<rparr>"

definition agenda_row :: "string \<Rightarrow> stage \<Rightarrow> instant option \<Rightarrow> app_row" where
  "agenda_row i st due =
     \<lparr>ap_id = i, ap_user = 7, ap_job_id = None, ap_scraped_job_id = None,
      ap_resume_version_id = None, ap_revision = 1, ap_current_stage = st,
      ap_job_snapshot = plain_snapshot, ap_job_title = ''Nurse'', ap_job_company = ''Clinic'',
      ap_job_location = None, ap_latest_event_at = 0, ap_updated_at = 0,
      ap_next_action_task_id = Some ''t'', ap_next_action_title = Some ''call'',
      ap_next_action_at = due, ap_next_action_priority = Some Normal\<rparr>"

definition agenda_rows :: "app_row list" where
  "agenda_rows = [agenda_row ''a'' Applied None, agenda_row ''b'' Saved (Some 50),
     agenda_row ''c'' Archived (Some 1), agenda_row ''d'' Saved (Some 150)]"

lemma agenda_rows_build:
  "(case build_agenda agenda_rows 7 200 1 2 100 of
      Inl _ \<Rightarrow> None | Inr r \<Rightarrow> Some (map ai_application_id (ag_items r), ag_truncated_count r))
    = Some ([''b'', ''d''], 1)"
  by code_simp

theorem agenda_accounts_for_every_application_witness:
  "\<exists>r shown. build_agenda agenda_rows 7 200 1 2 100 = Inr r
    \<and> list_all2 (\<lambda>a i. ai_application_id i = ap_id a
         \<and> ai_state i = agenda_state_of 100 200 (100 + 1 * us_day) a) shown (ag_items r)
    \<and> ag_active_count r = 3 \<and> map ai_application_id (ag_items r) = [''b'', ''d'']"
proof -
  from agenda_rows_build obtain r where r: "build_agenda agenda_rows 7 200 1 2 100 = Inr r"
    and ids: "map ai_application_id (ag_items r) = [''b'', ''d'']"
    by (auto split: sum.splits)
  have "distinct (map ap_id agenda_rows)" by (simp add: agenda_rows_def agenda_row_def)
  then have "distinct agenda_rows" by (simp add: distinct_map)
  moreover have "row_count (open_for 7) agenda_rows = 3"
    by (simp add: agenda_rows_def agenda_row_def open_for_def closed_stages_def)
  ultimately show ?thesis
    using agenda_accounts_for_every_application [OF r] r ids by auto
qed

end
