(* ===== verification/Float64.thy ===== *)
theory Float64
  imports Complex_Main Prelude
begin

text \<open>
  Python's \<open>float\<close> in the range where the program uses it: a finite binary64
  number is a rational, and an operation rounds its exact result to 53
  significant bits, ties to even. Overflow, subnormal results and the special
  values are outside this model. \<open>round_div\<close> is also Python's \<open>round\<close> of an
  exact quotient.
\<close>

text \<open>The quotient of two integers rounded to the nearest integer, ties to even.\<close>

definition round_div :: "int \<Rightarrow> int \<Rightarrow> int" where
  "round_div a b =
     (let q = a div b; r = a mod b in
      if 2 * r < b then q else if 2 * r > b then q + 1 else if even q then q else q + 1)"

function ilog2 :: "int \<Rightarrow> int" where
  "ilog2 n = (if n \<le> 1 then 0 else 1 + ilog2 (n div 2))"
  by auto
termination by (relation "measure nat") auto

declare ilog2.simps [simp del]

definition scale2 :: "int \<Rightarrow> int \<Rightarrow> int" where
  "scale2 e n = n * 2 ^ nat e"

text \<open>The exponent of the leading bit of \<open>p / q\<close> for positive \<open>p\<close> and \<open>q\<close>.\<close>

definition exponent2 :: "int \<Rightarrow> int \<Rightarrow> int" where
  "exponent2 p q =
     (let e = ilog2 p - ilog2 q in
      if scale2 e q \<le> scale2 (- e) p then e else e - 1)"

definition fl64 :: "rat \<Rightarrow> rat" where
  "fl64 x = (case quotient_of x of (p, q) \<Rightarrow>
     if p = 0 then 0
     else let u = exponent2 \<bar>p\<bar> q - 52;
              m = round_div (scale2 (- u) p) (scale2 u q)
          in Fract (scale2 u m) (scale2 (- u) 1))"

lemma round_div_between:
  assumes "0 < b"
  shows "2 * a - b \<le> 2 * b * round_div a b" "2 * b * round_div a b \<le> 2 * a + b"
proof -
  have "a = b * (a div b) + a mod b" "0 \<le> a mod b" "a mod b < b"
    using assms by simp_all
  moreover define q r where "q = a div b" and "r = a mod b"
  ultimately have "a = b * q + r" "0 \<le> r" "r < b" by simp_all
  then show "2 * a - b \<le> 2 * b * round_div a b" "2 * b * round_div a b \<le> 2 * a + b"
    unfolding round_div_def Let_def q_def [symmetric] r_def [symmetric]
    by (auto simp: algebra_simps)
qed

lemma round_div_exact [simp]: "0 < b \<Longrightarrow> round_div (b * q) b = q"
  by (simp add: round_div_def)

lemma round_div_0 [simp]: "0 < b \<Longrightarrow> round_div 0 b = 0"
  by (simp add: round_div_def)

lemma round_div_mono:
  assumes "0 < b" and "a \<le> a'"
  shows "round_div a b \<le> round_div a' b"
proof (cases "a div b = a' div b")
  case True
  with assms have "a mod b \<le> a' mod b" by (simp add: minus_mult_div_eq_mod [symmetric])
  with True show ?thesis by (simp add: round_div_def Let_def)
next
  case False
  with assms have "a div b + 1 \<le> a' div b" using zdiv_mono1 [of a a' b] by simp
  moreover have "round_div a b \<le> a div b + 1" "a' div b \<le> round_div a' b"
    by (simp_all add: round_div_def Let_def)
  ultimately show ?thesis by linarith
qed

lemma round_div_bounds:
  assumes "0 < b" and "b * l \<le> a" and "a \<le> b * u"
  shows "l \<le> round_div a b" "round_div a b \<le> u"
  using round_div_mono [OF assms(1,2)] round_div_mono [OF assms(1,3)] assms(1) by simp_all

lemma scale2_pos: "0 < n \<Longrightarrow> 0 < scale2 e n"
  by (simp add: scale2_def)

lemma fl64_0 [simp]: "fl64 0 = 0"
  by (simp add: fl64_def)

lemma fl64_nonneg:
  assumes "0 \<le> x"
  shows "0 \<le> fl64 x"
proof -
  obtain p q where pq: "quotient_of x = (p, q)" by (cases "quotient_of x")
  then have "0 < q" by (rule quotient_of_denom_pos)
  moreover have "0 \<le> p"
    using assms pq quotient_of_div [OF pq] \<open>0 < q\<close> by (simp add: zero_le_divide_iff)
  ultimately have "0 \<le> scale2 u (round_div (scale2 w p) (scale2 u q))" for u w
    using round_div_mono [of "scale2 u q" 0 "scale2 w p"]
    by (simp add: scale2_def)
  with pq show ?thesis
    by (auto simp: fl64_def Let_def zero_le_Fract_iff scale2_pos)
qed

text \<open>\<open>int(x)\<close> of a float cuts off the fraction.\<close>

definition trunc_rat :: "rat \<Rightarrow> int" where
  "trunc_rat x = (if 0 \<le> x then \<lfloor>x\<rfloor> else - \<lfloor>- x\<rfloor>)"

text \<open>The classic case: a second and a millisecond is not 1001 milliseconds.\<close>

lemma fl64_samples:
  "fl64 (fl64 (1001 / 1000) * 1000) = 1001 - 1 / 8796093022208"
  by code_simp

end
