(* ===== verification/SearchReceipt.thy ===== *)
theory SearchReceipt
  imports AppModel Float64
begin

text \<open>
  The durable receipt of a finished search run: \<open>backend/search/receipt.py\<close>.

  A status payload is a JSON object, here a map from keys to the values that
  the builder distinguishes. \<open>fromiso\<close> is \<open>datetime.fromisoformat\<close>, read as a UTC
  instant; everything holds for any such parser. The receipt keeps its fixed shape as a record and its
  JSON text as a tree, of which only the length matters to the code.
\<close>

subsection \<open>Values\<close>

datatype status_value =
    SNull | SBool bool | SInt int | SFloat rat | SText string | SDatetime instant | SOther

type_synonym payload_map = "string \<Rightarrow> status_value option"

definition get_value :: "payload_map \<Rightarrow> string \<Rightarrow> status_value" where
  "get_value m k = or_else (m k) SNull"

text \<open>\<open>int(text)\<close>: white space around, a sign, decimal digits with single underscores.\<close>

definition digit_value :: "char \<Rightarrow> int option" where
  "digit_value c = (let n = of_char c :: int in if 48 \<le> n \<and> n \<le> 57 then Some (n - 48) else None)"

fun scan_digits :: "int \<Rightarrow> bool \<Rightarrow> string \<Rightarrow> int option" where
  "scan_digits acc last_digit [] = (if last_digit then Some acc else None)"
| "scan_digits acc last_digit (c # cs) =
     (case digit_value c of
        Some d \<Rightarrow> scan_digits (acc * 10 + d) True cs
      | None \<Rightarrow> if c = CHR ''_'' \<and> last_digit then scan_digits acc False cs else None)"

definition max_int_digits :: nat where "max_int_digits = 4300"

definition parse_int :: "string \<Rightarrow> int option" where
  "parse_int text =
     (let s = py_strip text;
          body = (case s of [] \<Rightarrow> [] | c # cs \<Rightarrow> if c \<in> {CHR ''+'', CHR ''-''} then cs else s);
          sign = (case s of [] \<Rightarrow> 1 | c # _ \<Rightarrow> if c = CHR ''-'' then - 1 else 1) in
      if length (filter (\<lambda>c. digit_value c \<noteq> None) body) > max_int_digits then None
      else map_option (\<lambda>n. sign * n) (scan_digits 0 False body))"

definition MAX_COUNTER :: int where "MAX_COUNTER = 2147483647"

definition MAX_DURATION_MS :: int where "MAX_DURATION_MS = 31 * 24 * 60 * 60 * 1000"

definition MAX_SERIALIZED_BYTES :: nat where "MAX_SERIALIZED_BYTES = 4096"

fun bounded_counter :: "status_value \<Rightarrow> int" where
  "bounded_counter (SInt n) = min MAX_COUNTER (max 0 n)"
| "bounded_counter (SFloat x) = min MAX_COUNTER (max 0 (trunc_rat x))"
| "bounded_counter (SText t) = (case parse_int t of None \<Rightarrow> 0 | Some n \<Rightarrow> min MAX_COUNTER (max 0 n))"
| "bounded_counter _ = 0"

fun coerce_timestamp :: "(string \<Rightarrow> instant option) \<Rightarrow> status_value \<Rightarrow> instant option" where
  "coerce_timestamp fromiso (SDatetime t) = Some t"
| "coerce_timestamp fromiso (SText s) =
     (let text = py_strip s in
      if text = [] \<or> length text > 64 then None
      else fromiso (if last text = CHR ''Z'' then butlast text @ ''+00:00'' else text))"
| "coerce_timestamp fromiso _ = None"

subsection \<open>The receipt\<close>

definition counter_keys :: "string list" where
  "counter_keys =
     [''total_searches'', ''searches_completed'', ''jobs_found'', ''jobs_new'', ''jobs_unique'',
      ''jobs_duplicates'', ''jobs_duplicates_runtime'', ''jobs_duplicates_history'',
      ''jobs_duplicates_catalog_conflicts'', ''jobs_skipped'', ''jobs_analyzed'',
      ''jobs_analyze_total'', ''errors'', ''plan_unique_count'']"

definition provider_status :: "int \<Rightarrow> int \<Rightarrow> string" where
  "provider_status successful failed =
     (if successful \<noteq> 0 \<and> failed \<noteq> 0 then ''partial''
      else if successful \<noteq> 0 then ''succeeded''
      else if failed \<noteq> 0 then ''failed'' else ''not_contacted'')"

record receipt =
  rc_started_at :: instant
  rc_finished_at :: instant
  rc_duration_ms :: int
  rc_counts :: "(string \<times> int) list"
  rc_provider_status :: string
  rc_successful_requests :: int
  rc_failed_requests :: int
  rc_queries_without_provider :: int

text \<open>\<open>int((finished_at - started_at).total_seconds() * 1000)\<close> in floating point.\<close>

definition duration_ms :: "instant \<Rightarrow> instant \<Rightarrow> int" where
  "duration_ms started finished =
     min MAX_DURATION_MS (max 0
       (trunc_rat (fl64 (fl64 (of_int (finished - started) / 1000000) * 1000))))"

text \<open>The compact JSON text of a receipt, for its length.\<close>

datatype json = JNum int | JStr string | JTime instant | JObj "(string \<times> json) list"

fun decimal_length :: "nat \<Rightarrow> nat" where
  "decimal_length n = (if n < 10 then 1 else Suc (decimal_length (n div 10)))"

declare decimal_length.simps [simp del]

definition isoformat_length :: "instant \<Rightarrow> nat" where
  "isoformat_length t = (if t mod 1000000 = 0 then 25 else 32)"

fun json_length :: "json \<Rightarrow> nat" where
  "json_length (JNum n) = (if n < 0 then Suc (decimal_length (nat (- n))) else decimal_length (nat n))"
| "json_length (JStr s) = length s + 2"
| "json_length (JTime t) = isoformat_length t + 2"
| "json_length (JObj kvs) =
     2 + sum_list (map (\<lambda>(k, v). length k + 3 + json_length v) kvs) + (length kvs - 1)"

definition receipt_json :: "receipt \<Rightarrow> json" where
  "receipt_json r = JObj
     [(''counts'', JObj (map (\<lambda>(k, n). (k, JNum n)) (rc_counts r))),
      (''duration_ms'', JNum (rc_duration_ms r)),
      (''finished_at'', JTime (rc_finished_at r)),
      (''providers'', JObj
        [(''failed_requests'', JNum (rc_failed_requests r)),
         (''queries_without_provider'', JNum (rc_queries_without_provider r)),
         (''status'', JStr (rc_provider_status r)),
         (''successful_requests'', JNum (rc_successful_requests r))]),
      (''schema_version'', JNum 1),
      (''started_at'', JTime (rc_started_at r))]"

definition build_search_completion_summary ::
  "(string \<Rightarrow> instant option) \<Rightarrow> payload_map \<Rightarrow> receipt option" where
  "build_search_completion_summary fromiso payload =
     (if get_value payload ''state'' \<noteq> SText ''done'' then None
      else case (coerce_timestamp fromiso (get_value payload ''started_at''),
                 coerce_timestamp fromiso (get_value payload ''finished_at'')) of
        (Some started, Some finished) \<Rightarrow>
          if finished < started then None
          else let successful = bounded_counter (get_value payload ''provider_successes'');
                   failed = bounded_counter (get_value payload ''provider_failures'');
                   r = \<lparr>rc_started_at = started, rc_finished_at = finished,
                        rc_duration_ms = duration_ms started finished,
                        rc_counts = map (\<lambda>k. (k, bounded_counter (get_value payload k))) counter_keys,
                        rc_provider_status = provider_status successful failed,
                        rc_successful_requests = successful, rc_failed_requests = failed,
                        rc_queries_without_provider =
                          bounded_counter (get_value payload ''queries_without_provider'')\<rparr>
               in if json_length (receipt_json r) > MAX_SERIALIZED_BYTES then None else Some r
      | _ \<Rightarrow> None)"

text \<open>
  Importing a receipt: \<open>counts\<close> and \<open>providers\<close> are the nested objects, absent
  when the value has another shape.
\<close>

definition normalize_search_completion_summary ::
  "(string \<Rightarrow> instant option) \<Rightarrow> payload_map \<Rightarrow> payload_map option \<Rightarrow> payload_map option
     \<Rightarrow> receipt option" where
  "normalize_search_completion_summary fromiso value counts providers =
     (case (counts, providers) of
        (Some cs, Some ps) \<Rightarrow>
          build_search_completion_summary fromiso (\<lambda>k.
            if k \<in> set counter_keys then Some (get_value cs k)
            else if k = ''state'' then Some (SText ''done'')
            else if k \<in> {''started_at'', ''finished_at''} then Some (get_value value k)
            else if k = ''provider_successes'' then Some (get_value ps ''successful_requests'')
            else if k = ''provider_failures'' then Some (get_value ps ''failed_requests'')
            else if k = ''queries_without_provider''
            then Some (get_value ps ''queries_without_provider'')
            else None)
      | _ \<Rightarrow> None)"

subsection \<open>Bounds\<close>

lemma bounded_counter_range: "0 \<le> bounded_counter v" "bounded_counter v \<le> MAX_COUNTER"
  by (cases v; simp add: MAX_COUNTER_def split: option.split)+

lemma bounded_counter_idem [simp]: "bounded_counter (SInt (bounded_counter v)) = bounded_counter v"
  using bounded_counter_range [of v] by simp

lemma duration_ms_range: "0 \<le> duration_ms s f" "duration_ms s f \<le> MAX_DURATION_MS"
  by (simp_all add: duration_ms_def MAX_DURATION_MS_def)

lemma decimal_length_le: "n < 10 ^ k \<Longrightarrow> 0 < k \<Longrightarrow> decimal_length n \<le> k"
proof (induction k arbitrary: n)
  case 0
  then show ?case by simp
next
  case (Suc k)
  show ?case
  proof (cases "n < 10")
    case True
    then show ?thesis by (simp add: decimal_length.simps)
  next
    case False
    have "n div 10 < 10 ^ k" using Suc.prems by (simp add: less_mult_imp_div_less mult.commute)
    moreover have "0 < k" using Suc.prems False by (cases k) auto
    ultimately have "decimal_length (n div 10) \<le> k" by (rule Suc.IH)
    with False show ?thesis by (simp add: decimal_length.simps [of n])
  qed
qed

lemma counter_length:
  assumes "0 \<le> n" and "n < 10000000000"
  shows "json_length (JNum n) \<le> 10"
proof -
  have "nat n < 10 ^ 10" using assms by simp
  from decimal_length_le [OF this] assms show ?thesis by simp
qed

definition counter_ok :: "int \<Rightarrow> bool" where
  "counter_ok n \<longleftrightarrow> 0 \<le> n \<and> n \<le> MAX_COUNTER"

definition receipt_ok :: "receipt \<Rightarrow> bool" where
  "receipt_ok r \<longleftrightarrow> map fst (rc_counts r) = counter_keys
     \<and> list_all (\<lambda>(k, n). counter_ok n) (rc_counts r)
     \<and> 0 \<le> rc_duration_ms r \<and> rc_duration_ms r \<le> MAX_DURATION_MS
     \<and> rc_started_at r \<le> rc_finished_at r
     \<and> counter_ok (rc_successful_requests r) \<and> counter_ok (rc_failed_requests r)
     \<and> counter_ok (rc_queries_without_provider r)
     \<and> rc_provider_status r = provider_status (rc_successful_requests r) (rc_failed_requests r)"

lemma counts_length:
  assumes "list_all (\<lambda>(k, n). counter_ok n) xs"
  shows "(\<Sum>(k, v) \<leftarrow> map (\<lambda>(k, n). (k, JNum n)) xs. length k + 3 + json_length v)
    \<le> (\<Sum>k \<leftarrow> map fst xs. length k + 13)"
  using assms
proof (induction xs)
  case Nil
  then show ?case by simp
next
  case (Cons x xs)
  obtain k n where x: "x = (k, n)" by (cases x)
  with Cons.prems have "json_length (JNum n) \<le> 10"
    by (intro counter_length) (simp_all add: counter_ok_def MAX_COUNTER_def)
  with Cons x show ?case by simp
qed

lemma receipt_length:
  assumes ok: "receipt_ok r"
  shows "json_length (receipt_json r) \<le> 1000"
proof -
  have counts: "list_all (\<lambda>(k, n). counter_ok n) (rc_counts r)" "map fst (rc_counts r) = counter_keys"
    using ok by (simp_all add: receipt_ok_def)
  have "(\<Sum>k \<leftarrow> counter_keys. length k + 13) = 403"
    by (simp add: counter_keys_def)
  moreover have "length (rc_counts r) = 14"
    using arg_cong [OF counts(2), of length] by (simp add: counter_keys_def)
  ultimately have c: "json_length (JObj (map (\<lambda>(k, n). (k, JNum n)) (rc_counts r))) \<le> 500"
    using counts_length [OF counts(1)] counts(2) by simp
  have n: "json_length (JNum (rc_successful_requests r)) \<le> 10"
    "json_length (JNum (rc_failed_requests r)) \<le> 10"
    "json_length (JNum (rc_queries_without_provider r)) \<le> 10"
    "json_length (JNum (rc_duration_ms r)) \<le> 10"
    using ok by (intro counter_length;
        simp add: receipt_ok_def counter_ok_def MAX_COUNTER_def MAX_DURATION_MS_def)+
  have s: "length (rc_provider_status r) \<le> 13"
    using ok by (simp add: receipt_ok_def provider_status_def)
  have t: "isoformat_length x \<le> 32" for x by (simp add: isoformat_length_def)
  note json_length.simps(1) [simp del] json_length.simps(4) [simp del]
  have one: "json_length (JNum 1) = 1" by (simp add: json_length.simps decimal_length.simps)
  show ?thesis
    using c n s t [of "rc_started_at r"] t [of "rc_finished_at r"] one
    unfolding receipt_json_def json_length.simps(4) [of "(_, _) # _"]
    by (simp add: json_length.simps(4) [of "(_, _) # _"])
qed

lemma build_receipt_ok:
  assumes "build_search_completion_summary fromiso payload = Some r"
  shows "receipt_ok r"
  using assms bounded_counter_range
  by (auto simp: build_search_completion_summary_def receipt_ok_def Let_def counter_ok_def
      duration_ms_range list_all_iff comp_def split: if_splits option.splits)

subsection \<open>Properties\<close>

text \<open>A receipt is built exactly for a run that is done and has a start that does not follow its
  end; every counter then fits a 32-bit column, the duration stays within its bound, the counters are
  the allowlisted ones in their order, and the size guard of the builder never triggers.\<close>

lemma receipt_total_and_bounded:
  "((\<exists>r. build_search_completion_summary fromiso payload = Some r) \<longleftrightarrow>
      get_value payload ''state'' = SText ''done''
      \<and> (\<exists>s f. coerce_timestamp fromiso (get_value payload ''started_at'') = Some s
           \<and> coerce_timestamp fromiso (get_value payload ''finished_at'') = Some f \<and> s \<le> f))
   \<and> (case build_search_completion_summary fromiso payload of
        None \<Rightarrow> True
      | Some r \<Rightarrow> receipt_ok r \<and> json_length (receipt_json r) \<le> MAX_SERIALIZED_BYTES)"
proof -
  define mk where "mk = (\<lambda>s f. \<lparr>rc_started_at = s, rc_finished_at = f,
      rc_duration_ms = duration_ms s f,
      rc_counts = map (\<lambda>k. (k, bounded_counter (get_value payload k))) counter_keys,
      rc_provider_status = provider_status (bounded_counter (get_value payload ''provider_successes''))
        (bounded_counter (get_value payload ''provider_failures'')),
      rc_successful_requests = bounded_counter (get_value payload ''provider_successes''),
      rc_failed_requests = bounded_counter (get_value payload ''provider_failures''),
      rc_queries_without_provider =
        bounded_counter (get_value payload ''queries_without_provider'')\<rparr>)"
  have ok: "receipt_ok (mk s f)" if "s \<le> f" for s f
    using that bounded_counter_range
    by (auto simp: mk_def receipt_ok_def counter_ok_def duration_ms_range list_all_iff comp_def)
  have size: "json_length (receipt_json (mk s f)) \<le> MAX_SERIALIZED_BYTES" if "s \<le> f" for s f
    using receipt_length [OF ok [OF that]] by (simp add: MAX_SERIALIZED_BYTES_def)
  have build: "build_search_completion_summary fromiso payload =
      (if get_value payload ''state'' \<noteq> SText ''done'' then None
       else case (coerce_timestamp fromiso (get_value payload ''started_at''),
                  coerce_timestamp fromiso (get_value payload ''finished_at'')) of
         (Some s, Some f) \<Rightarrow> if f < s then None else Some (mk s f) | _ \<Rightarrow> None)"
  proof -
    have raw: "build_search_completion_summary fromiso payload =
      (if get_value payload ''state'' \<noteq> SText ''done'' then None
       else case (coerce_timestamp fromiso (get_value payload ''started_at''),
                  coerce_timestamp fromiso (get_value payload ''finished_at'')) of
         (Some s, Some f) \<Rightarrow> if f < s then None
           else if json_length (receipt_json (mk s f)) > MAX_SERIALIZED_BYTES then None
           else Some (mk s f) | _ \<Rightarrow> None)"
      unfolding build_search_completion_summary_def mk_def Let_def ..
    have "\<not> MAX_SERIALIZED_BYTES < json_length (receipt_json (mk s f))" if "\<not> f < s" for s f
      using size [of s f] that by simp
    then show ?thesis unfolding raw by (auto split: option.split)
  qed
  show ?thesis
    unfolding build using ok size by (auto simp: not_less split: option.split)
qed

text \<open>The stored form of a receipt, with its timestamps printed by \<open>isoformat\<close>.\<close>

definition stored_receipt :: "(instant \<Rightarrow> string) \<Rightarrow> receipt \<Rightarrow> payload_map" where
  "stored_receipt isoformat r = map_of
     [(''schema_version'', SInt 1),
      (''started_at'', SText (isoformat (rc_started_at r))),
      (''finished_at'', SText (isoformat (rc_finished_at r))),
      (''duration_ms'', SInt (rc_duration_ms r)), (''counts'', SOther), (''providers'', SOther)]"

definition stored_counts :: "receipt \<Rightarrow> payload_map" where
  "stored_counts r = map_of (map (\<lambda>(k, n). (k, SInt n)) (rc_counts r))"

definition stored_providers :: "receipt \<Rightarrow> payload_map" where
  "stored_providers r = map_of
     [(''status'', SText (rc_provider_status r)),
      (''successful_requests'', SInt (rc_successful_requests r)),
      (''failed_requests'', SInt (rc_failed_requests r)),
      (''queries_without_provider'', SInt (rc_queries_without_provider r))]"

text \<open>What \<open>isoformat\<close> and \<open>fromisoformat\<close> promise of one UTC instant.\<close>

definition stamp_round_trip ::
  "(string \<Rightarrow> instant option) \<Rightarrow> (instant \<Rightarrow> string) \<Rightarrow> instant \<Rightarrow> bool" where
  "stamp_round_trip fromiso isoformat t \<longleftrightarrow>
     fromiso (isoformat t) = Some t \<and> py_strip (isoformat t) = isoformat t
     \<and> isoformat t \<noteq> [] \<and> length (isoformat t) \<le> 64 \<and> last (isoformat t) \<noteq> CHR ''Z''"

lemma stamp_coerce:
  "stamp_round_trip fromiso isoformat t \<Longrightarrow> coerce_timestamp fromiso (SText (isoformat t)) = Some t"
  by (simp add: stamp_round_trip_def Let_def)

lemma counter_ok_fix: "counter_ok n \<Longrightarrow> bounded_counter (SInt n) = n"
  by (simp add: counter_ok_def)

lemma counter_keys_distinct: "distinct counter_keys"
  by (simp add: counter_keys_def)

lemma stored_counts_get:
  assumes keys: "map fst xs = counter_keys" and ok: "list_all (\<lambda>(k, n). counter_ok n) xs"
  shows "map (\<lambda>k. (k, bounded_counter (get_value (map_of (map (\<lambda>(k, n). (k, SInt n)) xs)) k)))
    counter_keys = xs"
proof -
  have dist: "distinct (map fst xs)" using keys counter_keys_distinct by simp
  have "bounded_counter (get_value (map_of (map (\<lambda>(k, n). (k, SInt n)) xs)) (fst x)) = snd x"
    if x: "x \<in> set xs" for x
  proof -
    obtain k n where kn: "x = (k, n)" by (cases x)
    have "distinct (map fst (map (\<lambda>(k, n). (k, SInt n)) xs))"
      using dist by (simp add: comp_def case_prod_beta)
    moreover have "(k, SInt n) \<in> set (map (\<lambda>(k, n). (k, SInt n)) xs)"
      using x kn by force
    ultimately have "map_of (map (\<lambda>(k, n). (k, SInt n)) xs) k = Some (SInt n)"
      by (rule map_of_is_SomeI)
    moreover have "counter_ok n" using ok x kn by (auto simp: list_all_iff)
    ultimately show ?thesis using kn counter_ok_fix by (simp add: get_value_def)
  qed
  then have "map (\<lambda>x. (fst x, bounded_counter (get_value
      (map_of (map (\<lambda>(k, n). (k, SInt n)) xs)) (fst x)))) xs = map (\<lambda>x. x) xs"
    by (intro map_cong) auto
  then show ?thesis by (simp add: keys [symmetric] comp_def)
qed

text \<open>C36: Exporting a receipt and importing it again gives the same receipt: the import neither
  loses nor adds anything to what the program has written.\<close>

theorem receipt_import_round_trip:
  assumes build: "build_search_completion_summary fromiso payload = Some r"
    and "stamp_round_trip fromiso isoformat (rc_started_at r)"
    and "stamp_round_trip fromiso isoformat (rc_finished_at r)"
  shows "normalize_search_completion_summary fromiso (stored_receipt isoformat r)
      (Some (stored_counts r)) (Some (stored_providers r)) = Some r"
proof -
  have ok: "receipt_ok r" by (rule build_receipt_ok [OF build])
  then have le: "\<not> rc_finished_at r < rc_started_at r" by (simp add: receipt_ok_def)
  let ?p = "\<lambda>k. if k \<in> set counter_keys then Some (get_value (stored_counts r) k)
      else if k = ''state'' then Some (SText ''done'')
      else if k \<in> {''started_at'', ''finished_at''} then Some (get_value (stored_receipt isoformat r) k)
      else if k = ''provider_successes'' then Some (get_value (stored_providers r) ''successful_requests'')
      else if k = ''provider_failures'' then Some (get_value (stored_providers r) ''failed_requests'')
      else if k = ''queries_without_provider''
      then Some (get_value (stored_providers r) ''queries_without_provider'')
      else None"
  have counts: "map (\<lambda>k. (k, bounded_counter (get_value ?p k))) counter_keys = rc_counts r"
  proof -
    have "map (\<lambda>k. (k, bounded_counter (get_value ?p k))) counter_keys =
        map (\<lambda>k. (k, bounded_counter (get_value (stored_counts r) k))) counter_keys"
      by (intro map_cong) (auto simp: get_value_def)
    with stored_counts_get [of "rc_counts r"] ok show ?thesis
      by (simp add: stored_counts_def receipt_ok_def)
  qed
  have keys: "''state'' \<notin> set counter_keys" "''started_at'' \<notin> set counter_keys"
    "''finished_at'' \<notin> set counter_keys" "''provider_successes'' \<notin> set counter_keys"
    "''provider_failures'' \<notin> set counter_keys" "''queries_without_provider'' \<notin> set counter_keys"
    by (simp_all add: counter_keys_def)
  have vals: "get_value ?p ''state'' = SText ''done''"
    "coerce_timestamp fromiso (get_value ?p ''started_at'') = Some (rc_started_at r)"
    "coerce_timestamp fromiso (get_value ?p ''finished_at'') = Some (rc_finished_at r)"
    "bounded_counter (get_value ?p ''provider_successes'') = rc_successful_requests r"
    "bounded_counter (get_value ?p ''provider_failures'') = rc_failed_requests r"
    "bounded_counter (get_value ?p ''queries_without_provider'') = rc_queries_without_provider r"
    using keys assms(2,3) ok stamp_coerce
    by (simp_all add: get_value_def stored_receipt_def stored_providers_def receipt_ok_def
        counter_ok_def del: coerce_timestamp.simps)
  have dur: "rc_duration_ms r = duration_ms (rc_started_at r) (rc_finished_at r)"
    using build by (auto simp: build_search_completion_summary_def Let_def
        split: if_splits option.splits)
  have r: "\<lparr>rc_started_at = rc_started_at r, rc_finished_at = rc_finished_at r,
      rc_duration_ms = duration_ms (rc_started_at r) (rc_finished_at r), rc_counts = rc_counts r,
      rc_provider_status = provider_status (rc_successful_requests r) (rc_failed_requests r),
      rc_successful_requests = rc_successful_requests r, rc_failed_requests = rc_failed_requests r,
      rc_queries_without_provider = rc_queries_without_provider r\<rparr> = r"
    using ok dur by (cases r) (simp add: receipt_ok_def)
  have fit: "\<not> MAX_SERIALIZED_BYTES < json_length (receipt_json r)"
    using receipt_length [OF ok] by (simp add: MAX_SERIALIZED_BYTES_def)
  have "build_search_completion_summary fromiso ?p = Some r"
    unfolding build_search_completion_summary_def
    by (simp only: vals counts r le fit Let_def if_False if_True option.case prod.case not_le not_less
        simp_thms)
  then show ?thesis by (simp add: normalize_search_completion_summary_def)
qed

definition demo_isoformat :: "instant \<Rightarrow> string" where
  "demo_isoformat t = (if t = 0 then ''2024-01-01T00:00:00+00:00''
     else ''2024-01-01T00:00:01.001000+00:00'')"

definition demo_fromiso :: "string \<Rightarrow> instant option" where
  "demo_fromiso s = (if s = ''2024-01-01T00:00:00+00:00'' then Some 0
     else if s = ''2024-01-01T00:00:01.001000+00:00'' then Some 1001000 else None)"

definition demo_run :: payload_map where
  "demo_run = map_of [(''state'', SText ''done''), (''started_at'', SDatetime 0),
     (''finished_at'', SDatetime 1001000), (''jobs_found'', SInt 12),
     (''errors'', SText '' 3 ''), (''provider_successes'', SInt 2)]"

theorem receipt_import_round_trip_witness:
  "\<exists>r. build_search_completion_summary demo_fromiso demo_run = Some r \<and> rc_duration_ms r = 1000
    \<and> normalize_search_completion_summary demo_fromiso (stored_receipt demo_isoformat r)
        (Some (stored_counts r)) (Some (stored_providers r)) = Some r"
proof -
  have "map_option (\<lambda>r. (rc_started_at r, rc_finished_at r, rc_duration_ms r))
      (build_search_completion_summary demo_fromiso demo_run) = Some (0, 1001000, 1000)"
    by code_simp
  then obtain r where r: "build_search_completion_summary demo_fromiso demo_run = Some r"
    "rc_started_at r = 0" "rc_finished_at r = 1001000" "rc_duration_ms r = 1000" by auto
  have "stamp_round_trip demo_fromiso demo_isoformat 0"
    "stamp_round_trip demo_fromiso demo_isoformat 1001000"
    by code_simp+
  with receipt_import_round_trip [OF r(1), of demo_isoformat] r show ?thesis by auto
qed

end
