(* ===== verification/SearchLock.thy ===== *)
theory SearchLock
  imports AppModel SearchReceipt
begin

text \<open>
  The search lock and the persisted search status of a profile: the
  conditional updates of \<open>backend/repositories/profile_repository.py\<close>
  (\<open>acquire_search_lock\<close>, \<open>activate_search_lock\<close>, \<open>release_search_lock\<close>,
  \<open>update_search_status\<close>, \<open>clear_search_status\<close>, \<open>get_search_status\<close>,
  \<open>get_search_statuses\<close>, \<open>clear_stale_search_statuses\<close>).

  Every operation is one transaction, so it is one step on the profile table.
  The locale \<open>expiring_lock\<close> states what the callers rely on: nobody but the
  holder moves a lock before it expires.
\<close>

subsection \<open>Rows\<close>

text \<open>A status entry; its timestamps are parsed, \<open>None\<close> where missing or not a timestamp.\<close>

record status_entry =
  se_state :: string
  se_user :: "int option"
  se_started_at :: "instant option"
  se_updated_at :: "instant option"
  se_finished_at :: "instant option"
  se_token :: "string option"
  se_values :: payload_map \<comment> \<open>every other key\<close>

record search_profile =
  sp_id :: int
  sp_user :: int
  sp_lock_token :: "string option"
  sp_lock_state :: "string option"
  sp_lock_acquired_at :: "instant option"
  sp_status_state :: "string option"
  sp_status_payload :: "status_entry option"
  sp_status_started_at :: "instant option"
  sp_status_updated_at :: "instant option"
  sp_status_finished_at :: "instant option"
  sp_last_started_at :: "instant option"
  sp_last_completed_at :: "instant option"
  sp_last_state :: "string option"
  sp_run_count :: int
  sp_last_summary :: "receipt option"

type_synonym profiles = "search_profile table"

definition LOCK_RESERVED :: string where "LOCK_RESERVED = ''reserved''"

definition LOCK_ACTIVE :: string where "LOCK_ACTIVE = ''active''"

definition us_second :: int where "us_second = 1000000"

subsection \<open>The lock\<close>

definition older_than :: "instant \<Rightarrow> instant option \<Rightarrow> bool" where
  "older_than cutoff since = (case since of None \<Rightarrow> True | Some t \<Rightarrow> t < cutoff)"

definition lock_available :: "instant \<Rightarrow> int \<Rightarrow> int \<Rightarrow> search_profile \<Rightarrow> bool" where
  "lock_available now reservation_ttl active_ttl p \<longleftrightarrow>
     sp_lock_token p = None
     \<or> (sp_lock_state p = Some LOCK_RESERVED
        \<and> older_than (now - reservation_ttl * us_second) (sp_lock_acquired_at p))
     \<or> (sp_lock_state p = Some LOCK_ACTIVE
        \<and> older_than (now - active_ttl * us_second) (sp_lock_acquired_at p))"

definition acquire_search_lock ::
  "instant \<Rightarrow> int \<Rightarrow> int \<Rightarrow> int \<Rightarrow> string \<Rightarrow> profiles \<Rightarrow> bool \<times> profiles" where
  "acquire_search_lock now reservation_ttl active_ttl pid token ps =
     (let free = (\<lambda>p. sp_id p = pid \<and> lock_available now reservation_ttl active_ttl p) in
      if row_count free ps = 0 then (False, ps)
      else (True, update_rows free
        (\<lambda>p. p\<lparr>sp_lock_token := Some token, sp_lock_state := Some LOCK_RESERVED,
               sp_lock_acquired_at := Some now\<rparr>) ps))"

definition activate_search_lock :: "instant \<Rightarrow> int \<Rightarrow> string \<Rightarrow> profiles \<Rightarrow> bool \<times> profiles" where
  "activate_search_lock now pid token ps =
     (let mine = (\<lambda>p. sp_id p = pid \<and> sp_lock_token p = Some token) in
      if row_count mine ps = 0 then (False, ps)
      else (True, update_rows mine
        (\<lambda>p. p\<lparr>sp_lock_state := Some LOCK_ACTIVE, sp_lock_acquired_at := Some now\<rparr>) ps))"

definition clear_status_columns :: "search_profile \<Rightarrow> search_profile" where
  "clear_status_columns p =
     p\<lparr>sp_status_state := None, sp_status_payload := None, sp_status_started_at := None,
       sp_status_updated_at := None, sp_status_finished_at := None\<rparr>"

definition release_search_lock :: "int \<Rightarrow> string option \<Rightarrow> profiles \<Rightarrow> bool \<times> profiles" where
  "release_search_lock pid token ps =
     (let mine = (\<lambda>p. sp_id p = pid \<and> (token \<noteq> None \<longrightarrow> sp_lock_token p = token));
          reserved = (\<lambda>p. sp_id p = pid \<and> sp_status_state p = Some LOCK_RESERVED
            \<and> (token \<noteq> None \<longrightarrow>
                 Option.bind (sp_status_payload p) se_token = token)) in
      if row_count mine ps = 0 then (False, ps)
      else (True, update_rows reserved clear_status_columns
        (update_rows mine
          (\<lambda>p. p\<lparr>sp_lock_token := None, sp_lock_state := None, sp_lock_acquired_at := None\<rparr>) ps)))"

subsection \<open>The persisted status\<close>

definition clear_search_status :: "int \<Rightarrow> profiles \<Rightarrow> bool \<times> profiles" where
  "clear_search_status pid ps =
     (let mine = (\<lambda>p. sp_id p = pid) in
      if row_count mine ps = 0 then (False, ps)
      else (True, update_rows mine clear_status_columns ps))"

definition get_search_status :: "int \<Rightarrow> profiles \<Rightarrow> status_entry option" where
  "get_search_status pid ps =
     (case select_first (\<lambda>p. sp_id p = pid) ps of None \<Rightarrow> None | Some p \<Rightarrow> sp_status_payload p)"

definition clear_stale_search_statuses ::
  "instant \<Rightarrow> int \<Rightarrow> string list \<Rightarrow> profiles \<Rightarrow> nat \<times> profiles" where
  "clear_stale_search_statuses now max_age terminal ps =
     (let old = (\<lambda>p. (\<exists>s \<in> set terminal. sp_status_state p = Some s)
            \<and> (case sp_status_finished_at p of None \<Rightarrow> False
               | Some t \<Rightarrow> t < now - max_age * us_second)) in
      (row_count old ps, update_rows old clear_status_columns ps))"

text \<open>
  \<open>update_search_status\<close>: the status columns, and for a finished run the
  receipt, unless a run that started as late has been counted already.
\<close>

definition stamp_value :: "instant option \<Rightarrow> status_value" where
  "stamp_value t = (case t of None \<Rightarrow> SNull | Some u \<Rightarrow> SDatetime u)"

definition entry_payload :: "status_entry \<Rightarrow> payload_map" where
  "entry_payload e k =
     (if k = ''state'' then Some (SText (se_state e))
      else if k = ''started_at'' then Some (stamp_value (se_started_at e))
      else if k = ''finished_at'' then Some (stamp_value (se_finished_at e))
      else if k = ''updated_at'' then Some (stamp_value (se_updated_at e))
      else se_values e k)"

definition write_status_columns :: "instant \<Rightarrow> status_entry \<Rightarrow> search_profile \<Rightarrow> search_profile" where
  "write_status_columns now e p =
     p\<lparr>sp_status_state := Some (se_state e), sp_status_payload := Some e,
       sp_status_started_at := se_started_at e,
       sp_status_updated_at := Some (or_else (se_updated_at e) now),
       sp_status_finished_at := se_finished_at e\<rparr>"

definition count_run :: "receipt \<Rightarrow> search_profile \<Rightarrow> search_profile" where
  "count_run r p =
     p\<lparr>sp_last_started_at := Some (rc_started_at r), sp_last_completed_at := Some (rc_finished_at r),
       sp_last_state := Some ''done'', sp_run_count := sp_run_count p + 1,
       sp_last_summary := Some r\<rparr>"

definition run_is_new :: "receipt \<Rightarrow> search_profile \<Rightarrow> bool" where
  "run_is_new r p \<longleftrightarrow>
     (case sp_last_started_at p of None \<Rightarrow> True | Some t \<Rightarrow> t < rc_started_at r)"

definition entry_receipt :: "status_entry \<Rightarrow> receipt option" where
  "entry_receipt e = build_search_completion_summary (\<lambda>_. None) (entry_payload e)"

definition update_search_status ::
  "instant \<Rightarrow> int \<Rightarrow> status_entry \<Rightarrow> profiles \<Rightarrow> bool \<times> profiles" where
  "update_search_status now pid e ps =
     (let mine = (\<lambda>p. sp_id p = pid) in
      if row_count mine ps = 0 then (False, ps)
      else let ps1 = update_rows mine (write_status_columns now e) ps in
        case (if se_state e = ''done'' then entry_receipt e else None) of
          None \<Rightarrow> (True, ps1)
        | Some r \<Rightarrow> (True, update_rows (\<lambda>p. sp_id p = pid \<and> run_is_new r p) (count_run r) ps1))"

definition get_search_statuses :: "int option \<Rightarrow> profiles \<Rightarrow> (int \<times> status_entry) list" where
  "get_search_statuses uid ps =
     concat (map (\<lambda>p. case sp_status_payload p of None \<Rightarrow> [] | Some e \<Rightarrow> [(sp_id p, e)])
       (filter (\<lambda>p. sp_status_state p \<noteq> None \<and> (uid = None \<or> uid = Some (sp_user p))) ps))"

lemmas lock_defs = acquire_search_lock_def activate_search_lock_def release_search_lock_def

subsection \<open>Runs of lock operations\<close>

datatype lock_event =
    AcquireLock instant int string
  | ActivateLock instant int string
  | ReleaseLock int "string option"

fun lock_step :: "int \<Rightarrow> int \<Rightarrow> lock_event \<Rightarrow> profiles \<Rightarrow> bool \<times> profiles" where
  "lock_step rttl attl (AcquireLock now pid token) ps = acquire_search_lock now rttl attl pid token ps"
| "lock_step rttl attl (ActivateLock now pid token) ps = activate_search_lock now pid token ps"
| "lock_step rttl attl (ReleaseLock pid token) ps = release_search_lock pid token ps"

definition profile_of :: "int \<Rightarrow> profiles \<Rightarrow> search_profile option" where
  "profile_of pid ps = select_first (\<lambda>p. sp_id p = pid) ps"

definition lock_of :: "profiles \<Rightarrow> int \<Rightarrow> (string option \<times> string option \<times> instant option) option" where
  "lock_of ps pid = map_option (\<lambda>p. (sp_lock_token p, sp_lock_state p, sp_lock_acquired_at p))
     (profile_of pid ps)"

text \<open>The lock columns are all set, to a known state, or all empty.\<close>

definition lock_consistent :: "search_profile \<Rightarrow> bool" where
  "lock_consistent p \<longleftrightarrow>
     (sp_lock_token p = None \<and> sp_lock_state p = None \<and> sp_lock_acquired_at p = None)
     \<or> (sp_lock_token p \<noteq> None \<and> sp_lock_acquired_at p \<noteq> None
        \<and> sp_lock_state p \<in> {Some LOCK_RESERVED, Some LOCK_ACTIVE})"

lemma lock_consistent_writes:
  "lock_consistent (p\<lparr>sp_lock_token := Some t, sp_lock_state := Some LOCK_RESERVED,
     sp_lock_acquired_at := Some now\<rparr>)"
  "sp_lock_token p = Some t \<Longrightarrow>
     lock_consistent (p\<lparr>sp_lock_state := Some LOCK_ACTIVE, sp_lock_acquired_at := Some now\<rparr>)"
  "lock_consistent (p\<lparr>sp_lock_token := None, sp_lock_state := None, sp_lock_acquired_at := None\<rparr>)"
  "lock_consistent p \<Longrightarrow> lock_consistent (clear_status_columns p)"
  by (simp_all add: lock_consistent_def clear_status_columns_def)

lemma lock_step_consistent:
  assumes "\<forall>p \<in> set ps. lock_consistent p"
  shows "\<forall>p \<in> set (snd (lock_step rttl attl ev ps)). lock_consistent p"
proof (cases ev)
  case (AcquireLock now pid token)
  then show ?thesis
    using assms by (simp add: acquire_search_lock_def Let_def)
      (intro impI update_rows_all, auto intro: lock_consistent_writes)
next
  case (ActivateLock now pid token)
  then show ?thesis
    using assms by (simp add: activate_search_lock_def Let_def)
      (intro impI update_rows_all, auto intro: lock_consistent_writes)
next
  case (ReleaseLock pid token)
  then show ?thesis
    using assms by (simp add: release_search_lock_def Let_def)
      (intro impI update_rows_all, auto intro: lock_consistent_writes)
qed

lemma lock_step_ids: "map sp_id (snd (lock_step rttl attl ev ps)) = map sp_id ps"
  by (cases ev) (auto simp: lock_defs Let_def clear_status_columns_def intro!: map_update_rows
      trans [OF map_update_rows])

subsection \<open>The interface of an expiring lock\<close>

text \<open>
  \<open>held db k\<close> is the token that holds the lock \<open>k\<close> and the instant until which
  nobody may take it over; \<open>act\<close> stands for the operations scoped to a token.
\<close>

locale expiring_lock =
  fixes held :: "'db \<Rightarrow> 'k \<Rightarrow> ('t \<times> instant) option"
    and acquire :: "instant \<Rightarrow> 'k \<Rightarrow> 't \<Rightarrow> 'db \<Rightarrow> bool \<times> 'db"
    and act :: "'a \<Rightarrow> 'k \<Rightarrow> 't \<Rightarrow> 'db \<Rightarrow> bool \<times> 'db"
    and ok :: "'db \<Rightarrow> bool"
  assumes acquire_held:
      "ok db \<Longrightarrow> held db k = Some (t, until) \<Longrightarrow> now \<le> until \<Longrightarrow> acquire now k t' db = (False, db)"
    and acquire_frame: "ok db \<Longrightarrow> k' \<noteq> k \<Longrightarrow> held (snd (acquire now k t db)) k' = held db k'"
    and act_foreign:
      "ok db \<Longrightarrow> held db k = Some (t, until) \<Longrightarrow> t' \<noteq> t \<Longrightarrow> act a k t' db = (False, db)"
    and act_frame: "ok db \<Longrightarrow> k' \<noteq> k \<Longrightarrow> held (snd (act a k t db)) k' = held db k'"
    and acquire_ok: "ok db \<Longrightarrow> ok (snd (acquire now k t db))"
    and act_ok: "ok db \<Longrightarrow> ok (snd (act a k t db))"
begin

fun lock_op :: "instant \<times> 'k \<times> 't + 'a \<times> 'k \<times> 't \<Rightarrow> 'db \<Rightarrow> bool \<times> 'db" where
  "lock_op (Inl (now, k, t)) db = acquire now k t db"
| "lock_op (Inr (a, k, t)) db = act a k t db"

fun lock_run :: "(instant \<times> 'k \<times> 't + 'a \<times> 'k \<times> 't) list \<Rightarrow> 'db \<Rightarrow> 'db" where
  "lock_run [] db = db"
| "lock_run (op # ops) db = lock_run ops (snd (lock_op op db))"

definition foreign :: "'k \<Rightarrow> 't \<Rightarrow> instant \<Rightarrow> instant \<times> 'k \<times> 't + 'a \<times> 'k \<times> 't \<Rightarrow> bool" where
  "foreign k t until op = (case op of
      Inl (now, k', _) \<Rightarrow> k' \<noteq> k \<or> now \<le> until
    | Inr (_, k', t') \<Rightarrow> k' \<noteq> k \<or> t' \<noteq> t)"

lemma foreign_op:
  assumes "ok db" and h: "held db k = Some (t, until)" and f: "foreign k t until op"
  shows "held (snd (lock_op op db)) k = held db k \<and> ok (snd (lock_op op db))"
proof (cases op)
  case (Inl x)
  obtain now k' t' where x: "x = (now, k', t')" by (rule prod_cases3)
  show ?thesis
  proof (cases "k' = k")
    case True
    with f Inl x have "now \<le> until" by (simp add: foreign_def)
    with acquire_held [OF assms(1) h this, of t'] Inl x True assms(1) show ?thesis by simp
  next
    case False
    with acquire_frame [OF assms(1), of k k' now t'] acquire_ok [OF assms(1), of now k' t'] Inl x
    show ?thesis by auto
  qed
next
  case (Inr x)
  obtain a k' t' where x: "x = (a, k', t')" by (rule prod_cases3)
  show ?thesis
  proof (cases "k' = k")
    case True
    with f Inr x have "t' \<noteq> t" by (simp add: foreign_def)
    with act_foreign [OF assms(1) h this, of a] Inr x True assms(1) show ?thesis by simp
  next
    case False
    with act_frame [OF assms(1), of k k' a t'] act_ok [OF assms(1), of a k' t'] Inr x
    show ?thesis by auto
  qed
qed

lemma fresh_lock_kept:
  "ok db \<Longrightarrow> held db k = Some (t, until) \<Longrightarrow> \<forall>op \<in> set ops. foreign k t until op \<Longrightarrow>
    held (lock_run ops db) k = Some (t, until) \<and> ok (lock_run ops db)"
proof (induction ops arbitrary: db)
  case Nil
  then show ?case by simp
next
  case (Cons op ops)
  with foreign_op [OF Cons.prems(1,2), of op] show ?case by simp
qed

lemma no_takeover:
  assumes "ok db" and "held db k = Some (t, until)" and "\<forall>op \<in> set ops. foreign k t until op"
    and "now \<le> until"
  shows "acquire now k t' (lock_run ops db) = (False, lock_run ops db)"
  using fresh_lock_kept [OF assms(1-3)] acquire_held [OF _ _ assms(4)] by blast

end

subsection \<open>The search lock provides it\<close>

definition lock_ttl :: "int \<Rightarrow> int \<Rightarrow> string option \<Rightarrow> int" where
  "lock_ttl rttl attl st = (if st = Some LOCK_RESERVED then rttl else attl) * us_second"

definition search_lock_held ::
  "int \<Rightarrow> int \<Rightarrow> profiles \<Rightarrow> int \<Rightarrow> (string \<times> instant) option" where
  "search_lock_held rttl attl ps pid =
     (case profile_of pid ps of None \<Rightarrow> None
      | Some p \<Rightarrow> (case (sp_lock_token p, sp_lock_acquired_at p) of
          (Some t, Some since) \<Rightarrow> Some (t, since + lock_ttl rttl attl (sp_lock_state p))
        | _ \<Rightarrow> None))"

fun scoped_op :: "instant option \<Rightarrow> int \<Rightarrow> string \<Rightarrow> profiles \<Rightarrow> bool \<times> profiles" where
  "scoped_op (Some now) pid token ps = activate_search_lock now pid token ps"
| "scoped_op None pid token ps = release_search_lock pid (Some token) ps"

definition locks_ok :: "profiles \<Rightarrow> bool" where
  "locks_ok ps \<longleftrightarrow> unique_by sp_id ps \<and> (\<forall>p \<in> set ps. lock_consistent p)"

lemma lock_step_ok: "locks_ok ps \<Longrightarrow> locks_ok (snd (lock_step rttl attl ev ps))"
  using lock_step_consistent lock_step_ids unfolding locks_ok_def unique_by_def by metis

lemma reserved_not_active: "LOCK_RESERVED \<noteq> LOCK_ACTIVE"
  by (simp add: LOCK_RESERVED_def LOCK_ACTIVE_def)

lemma profile_of_unique:
  "unique_by sp_id ps \<Longrightarrow> p \<in> set ps \<Longrightarrow> sp_id p = pid \<Longrightarrow> profile_of pid ps = Some p"
  unfolding profile_of_def by (rule select_first_unique)

lemma profile_of_Some: "profile_of pid ps = Some p \<Longrightarrow> p \<in> set ps \<and> sp_id p = pid"
  unfolding profile_of_def by (auto dest: select_first_Some)

lemma held_row:
  assumes ok: "locks_ok ps" and h: "search_lock_held rttl attl ps pid = Some (t, until)"
    and p: "p \<in> set ps" "sp_id p = pid"
  shows "sp_lock_token p = Some t" "now \<le> until \<Longrightarrow> \<not> lock_available now rttl attl p"
proof -
  have "profile_of pid ps = Some p"
    using ok p by (intro profile_of_unique) (simp_all add: locks_ok_def)
  with h obtain since where row: "sp_lock_token p = Some t" "sp_lock_acquired_at p = Some since"
    "until = since + lock_ttl rttl attl (sp_lock_state p)"
    by (auto simp: search_lock_held_def split: option.splits)
  moreover have "lock_consistent p" using ok p by (simp add: locks_ok_def)
  ultimately show "sp_lock_token p = Some t"
    "now \<le> until \<Longrightarrow> \<not> lock_available now rttl attl p"
    using reserved_not_active
    by (auto simp: lock_available_def older_than_def lock_ttl_def lock_consistent_def)
qed

lemma profile_of_update:
  assumes "\<And>p. sp_id (f p) = sp_id p" and "pid \<noteq> k"
  shows "profile_of pid (update_rows (\<lambda>p. sp_id p = k \<and> q p) f ps) = profile_of pid ps"
  unfolding profile_of_def using assms by (induction ps) auto

lemma lock_step_frame:
  assumes "case ev of AcquireLock _ k _ \<Rightarrow> pid \<noteq> k | ActivateLock _ k _ \<Rightarrow> pid \<noteq> k
    | ReleaseLock k _ \<Rightarrow> pid \<noteq> k"
  shows "profile_of pid (snd (lock_step rttl attl ev ps)) = profile_of pid ps"
  using assms
  by (cases ev) (auto simp: lock_defs Let_def clear_status_columns_def profile_of_update)

interpretation search_lock: expiring_lock "search_lock_held rttl attl"
  "\<lambda>now pid token. acquire_search_lock now rttl attl pid token" scoped_op locks_ok
  for rttl attl
proof
  fix ps k t until now t' a k'
  assume ok: "locks_ok ps"
  show "acquire_search_lock now rttl attl k t' ps = (False, ps)"
    if h: "search_lock_held rttl attl ps k = Some (t, until)" "now \<le> until"
  proof -
    have "row_count (\<lambda>p. sp_id p = k \<and> lock_available now rttl attl p) ps = 0"
      using held_row(2) [OF ok h(1) _ _ h(2)] by (auto simp: row_count_0)
    then show ?thesis by (simp add: acquire_search_lock_def)
  qed
  show "search_lock_held rttl attl (snd (acquire_search_lock now rttl attl k t ps)) k'
      = search_lock_held rttl attl ps k'" if "k' \<noteq> k"
    using lock_step_frame [where ev = "AcquireLock now k t" and pid = k' and ps = ps] that
    by (simp add: search_lock_held_def)
  show "scoped_op a k t' ps = (False, ps)"
    if h: "search_lock_held rttl attl ps k = Some (t, until)" "t' \<noteq> t"
  proof -
    have "row_count (\<lambda>p. sp_id p = k \<and> sp_lock_token p = Some t') ps = 0"
      using held_row(1) [OF ok h(1)] h(2) by (auto simp: row_count_0)
    then show ?thesis
      by (cases a) (simp_all add: activate_search_lock_def release_search_lock_def)
  qed
  show "search_lock_held rttl attl (snd (scoped_op a k t ps)) k' = search_lock_held rttl attl ps k'"
    if "k' \<noteq> k"
    using lock_step_frame [where ev = "ActivateLock (the a) k t" and pid = k' and ps = ps]
      lock_step_frame [where ev = "ReleaseLock k (Some t)" and pid = k' and ps = ps] that
    by (cases a) (simp_all add: search_lock_held_def)
  show "locks_ok (snd (acquire_search_lock now rttl attl k t ps))"
    using lock_step_ok [OF ok, of rttl attl "AcquireLock now k t"] by simp
  show "locks_ok (snd (scoped_op a k t ps))"
    using lock_step_ok [OF ok, of rttl attl "ActivateLock (the a) k t"]
      lock_step_ok [OF ok, of rttl attl "ReleaseLock k (Some t)"]
    by (cases a) simp_all
qed

subsection \<open>Properties of the lock\<close>

text \<open>A search lock that is held and has not outlived its time cannot be taken over. Whatever
  other sessions try on the profile tables meanwhile, as long as they act under other tokens, every
  attempt to acquire the lock before it expires is refused and changes nothing.\<close>

lemma search_lock_not_taken_over:
  assumes "locks_ok ps" and "search_lock_held rttl attl ps pid = Some (token, until)"
    and "\<forall>op \<in> set ops. search_lock.foreign pid token until op" and "now \<le> until"
  shows "acquire_search_lock now rttl attl pid other (search_lock.lock_run rttl attl ops ps)
      = (False, search_lock.lock_run rttl attl ops ps)
    \<and> search_lock_held rttl attl (search_lock.lock_run rttl attl ops ps) pid = Some (token, until)"
  using search_lock.no_takeover [OF assms] search_lock.fresh_lock_kept [OF assms(1-3)] by simp

definition idle_profile :: "int \<Rightarrow> search_profile" where
  "idle_profile i = \<lparr>sp_id = i, sp_user = 7, sp_lock_token = None, sp_lock_state = None,
     sp_lock_acquired_at = None, sp_status_state = None, sp_status_payload = None,
     sp_status_started_at = None, sp_status_updated_at = None, sp_status_finished_at = None,
     sp_last_started_at = None, sp_last_completed_at = None, sp_last_state = None,
     sp_run_count = 0, sp_last_summary = None\<rparr>"

definition held_profiles :: profiles where
  "held_profiles = snd (acquire_search_lock 0 30 1860 1 ''mine'' [idle_profile 1, idle_profile 2])"

lemma held_profiles_ok: "locks_ok held_profiles"
  "search_lock_held 30 1860 held_profiles 1 = Some (''mine'', 30000000)"
  by (simp_all add: held_profiles_def acquire_search_lock_def idle_profile_def lock_available_def
      locks_ok_def unique_by_def lock_consistent_def search_lock_held_def profile_of_def lock_ttl_def
      us_second_def)

theorem search_lock_not_taken_over_witness:
  "\<exists>ps. ps = search_lock.lock_run 30 1860 [Inl (10, 1, ''thief''), Inr (None, 1, ''thief'')] held_profiles
    \<and> acquire_search_lock 30000000 30 1860 1 ''thief'' ps = (False, ps)"
  using search_lock_not_taken_over [OF held_profiles_ok,
      of "[Inl (10, 1, ''thief''), Inr (None, 1, ''thief'')]" 30000000 "''thief''"]
  by (simp add: search_lock.foreign_def)

lemma release_row:
  assumes ok: "locks_ok ps" and p: "profile_of pid ps = Some p" and t: "sp_lock_token p = Some token"
  shows "\<exists>q. fst (release_search_lock pid (Some token) ps)
    \<and> profile_of pid (snd (release_search_lock pid (Some token) ps)) = Some q
    \<and> sp_lock_token q = None \<and> sp_lock_state q = None \<and> sp_lock_acquired_at q = None
    \<and> sp_status_payload q =
        (if sp_status_state p = Some LOCK_RESERVED
           \<and> Option.bind (sp_status_payload p) se_token = Some token
         then None else sp_status_payload p)
    \<and> (\<forall>pid'. pid' = pid \<or>
         profile_of pid' (snd (release_search_lock pid (Some token) ps)) = profile_of pid' ps)"
proof -
  let ?free = "\<lambda>p. p\<lparr>sp_lock_token := None, sp_lock_state := None, sp_lock_acquired_at := None\<rparr>"
  let ?mine = "\<lambda>p. sp_id p = pid \<and> sp_lock_token p = Some token"
  let ?res = "\<lambda>p. sp_id p = pid \<and> sp_status_state p = Some LOCK_RESERVED
      \<and> Option.bind (sp_status_payload p) se_token = Some token"
  from profile_of_Some [OF p] have mem: "p \<in> set ps" "sp_id p = pid" by auto
  then have found: "row_count ?mine ps \<noteq> 0" using t by (auto simp: row_count_0)
  have rel: "release_search_lock pid (Some token) ps =
      (True, update_rows ?res clear_status_columns (update_rows ?mine ?free ps))"
    using found by (simp add: release_search_lock_def)
  have "profile_of pid (snd (release_search_lock pid (Some token) ps)) =
      Some (if ?res (?free p) then clear_status_columns (?free p) else ?free p)"
    using p t mem(2) unfolding rel profile_of_def
    by (simp add: select_first_update clear_status_columns_def)
  moreover have "profile_of pid' (snd (release_search_lock pid (Some token) ps)) = profile_of pid' ps"
    if "pid' \<noteq> pid" for pid'
    using lock_step_frame [where ev = "ReleaseLock pid (Some token)" and pid = pid' and ps = ps] that
    by simp
  ultimately show ?thesis
    using rel mem(2) by (auto simp: clear_status_columns_def)
qed

text \<open>Releasing a lock with its token frees it and clears the reserved status only if that
  status was written under the same token; a status that a replacement owner has written, any other
  status and every other profile stay as they are.\<close>

lemma release_keeps_replacement_status:
  assumes ok: "locks_ok ps" and p: "profile_of pid ps = Some p" and t: "sp_lock_token p = Some token"
  shows "\<exists>q. fst (release_search_lock pid (Some token) ps)
    \<and> profile_of pid (snd (release_search_lock pid (Some token) ps)) = Some q
    \<and> sp_lock_token q = None \<and> sp_lock_state q = None \<and> sp_lock_acquired_at q = None
    \<and> sp_status_payload q =
        (if sp_status_state p = Some LOCK_RESERVED
           \<and> Option.bind (sp_status_payload p) se_token = Some token
         then None else sp_status_payload p)
    \<and> (\<forall>pid'. pid' = pid \<or>
         profile_of pid' (snd (release_search_lock pid (Some token) ps)) = profile_of pid' ps)"
  by (rule release_row [OF assms])

theorem release_keeps_replacement_status_witness:
  "\<exists>q. profile_of 1 (snd (release_search_lock 1 (Some ''mine'') held_profiles)) = Some q
    \<and> sp_lock_token q = None"
proof -
  have "map_option sp_lock_token (profile_of 1 held_profiles) = Some (Some ''mine'')"
    by (simp add: held_profiles_def acquire_search_lock_def idle_profile_def lock_available_def
        profile_of_def)
  then obtain p where "profile_of 1 held_profiles = Some p" "sp_lock_token p = Some ''mine''" by auto
  from release_keeps_replacement_status [OF held_profiles_ok(1) this] show ?thesis by blast
qed

subsection \<open>Counting runs\<close>

definition run_columns ::
  "search_profile \<Rightarrow> instant option \<times> instant option \<times> string option \<times> int \<times> receipt option" where
  "run_columns p = (sp_last_started_at p, sp_last_completed_at p, sp_last_state p, sp_run_count p,
     sp_last_summary p)"

fun status_updates :: "(instant \<times> status_entry) list \<Rightarrow> int \<Rightarrow> profiles \<Rightarrow> profiles" where
  "status_updates [] pid ps = ps"
| "status_updates ((now, e) # es) pid ps = status_updates es pid (snd (update_search_status now pid e ps))"

definition started_by :: "instant \<Rightarrow> status_entry \<Rightarrow> bool" where
  "started_by t e \<longleftrightarrow> (case se_started_at e of None \<Rightarrow> True | Some s \<Rightarrow> s \<le> t)"

lemma entry_receipt_started: "entry_receipt e = Some r \<Longrightarrow> se_started_at e = Some (rc_started_at r)"
  by (auto simp: entry_receipt_def build_search_completion_summary_def entry_payload_def get_value_def
      stamp_value_def Let_def split: if_splits option.splits)

lemma update_status_run_columns:
  assumes p: "profile_of pid ps = Some p" and t: "sp_last_started_at p = Some t" and e: "started_by t e"
  shows "\<exists>q. profile_of pid (snd (update_search_status now pid e ps)) = Some q
    \<and> run_columns q = run_columns p"
proof -
  from profile_of_Some [OF p] have mem: "p \<in> set ps" "sp_id p = pid" by auto
  then have found: "row_count (\<lambda>p. sp_id p = pid) ps \<noteq> 0" by (auto simp: row_count_0)
  let ?ps1 = "update_rows (\<lambda>p. sp_id p = pid) (write_status_columns now e) ps"
  have one: "profile_of pid ?ps1 = Some (write_status_columns now e p)"
    using p mem(2) unfolding profile_of_def by (simp add: select_first_update write_status_columns_def)
  have same: "run_columns (write_status_columns now e p) = run_columns p"
    by (simp add: run_columns_def write_status_columns_def)
  show ?thesis
  proof (cases "if se_state e = ''done'' then entry_receipt e else None")
    case None
    with found one same show ?thesis by (auto simp: update_search_status_def Let_def)
  next
    case (Some r)
    then have "entry_receipt e = Some r" by (simp split: if_splits)
    from entry_receipt_started [OF this] e have "rc_started_at r \<le> t" by (simp add: started_by_def)
    then have old: "\<not> run_is_new r (write_status_columns now e p)"
      using t by (simp add: run_is_new_def write_status_columns_def)
    have "profile_of pid (update_rows (\<lambda>p. sp_id p = pid \<and> run_is_new r p) (count_run r) ?ps1)
        = Some (write_status_columns now e p)"
      using one old unfolding profile_of_def
      by (subst select_first_update) (auto simp: count_run_def)
    with Some found same show ?thesis by (simp add: update_search_status_def Let_def)
  qed
qed

text \<open>A finished run is counted once. Once a run that started at a given time has been recorded, no
  sequence of status updates, replayed, late or out of order, of runs that started no later changes
  the run counter, the receipt or the recorded times.\<close>

lemma finished_run_counted_once:
  assumes "profile_of pid ps = Some p" and "sp_last_started_at p = Some t"
    and "\<forall>(now, e) \<in> set es. started_by t e"
  shows "\<exists>q. profile_of pid (status_updates es pid ps) = Some q \<and> run_columns q = run_columns p"
  using assms
proof (induction es arbitrary: ps p)
  case Nil
  then show ?case by simp
next
  case (Cons x es)
  obtain now e where x: "x = (now, e)" by (cases x)
  with Cons.prems have "started_by t e" by simp
  from update_status_run_columns [OF Cons.prems(1,2) this] obtain q
    where q: "profile_of pid (snd (update_search_status now pid e ps)) = Some q"
      "run_columns q = run_columns p" by blast
  then have "sp_last_started_at q = Some t" using Cons.prems(2) by (simp add: run_columns_def)
  from Cons.IH [OF q(1) this] Cons.prems(3) q(2) x show ?case by auto
qed

definition done_entry :: status_entry where
  "done_entry = \<lparr>se_state = ''done'', se_user = Some 7, se_started_at = Some 10,
     se_updated_at = Some 20, se_finished_at = Some 20, se_token = None, se_values = (\<lambda>_. None)\<rparr>"

definition counted_profiles :: profiles where
  "counted_profiles = snd (update_search_status 20 1 done_entry [idle_profile 1])"

theorem finished_run_counted_once_witness:
  "\<exists>q. profile_of 1 (status_updates [(30, done_entry), (40, done_entry)] 1 counted_profiles) = Some q
    \<and> sp_run_count q = 1"
proof -
  have "map_option (\<lambda>p. (sp_last_started_at p, sp_run_count p)) (profile_of 1 counted_profiles)
      = Some (Some 10, 1)"
    by code_simp
  then obtain p where p: "profile_of 1 counted_profiles = Some p" "sp_last_started_at p = Some 10"
    "sp_run_count p = 1" by auto
  have "started_by 10 done_entry" by (simp add: started_by_def done_entry_def)
  with finished_run_counted_once [OF p(1,2), of "[(30, done_entry), (40, done_entry)]"] p(3)
  show ?thesis by (auto simp: run_columns_def simp del: status_updates.simps)
qed

end
