(* ===== verification/SearchTasks.thy ===== *)
theory SearchTasks
  imports SearchLock
begin

text \<open>
  The runtime side of search ownership: the status maps and the task registry
  of \<open>backend/services/search_status.py\<close>, on top of the lock of
  \<open>SearchLock\<close>.

  A worker keeps three dictionaries. Each operation is one or two critical
  sections on them with a database call in between, during which other threads
  may run: an operation takes the memory that each of its sections sees and the
  tables that each of its database calls meets. \<open>fault\<close> says that the database
  call raises. Timestamps of entries are absent or parsable, which is all that
  the program writes; \<open>time.time()\<close> is an instant.
\<close>

subsection \<open>Status maps\<close>

definition entry_timestamp :: "status_entry \<Rightarrow> instant option" where
  "entry_timestamp e =
     (case se_updated_at e of Some t \<Rightarrow> Some t
      | None \<Rightarrow> (case se_finished_at e of Some t \<Rightarrow> Some t | None \<Rightarrow> se_started_at e))"

definition entry_timestamp_value :: "status_entry \<Rightarrow> instant" where
  "entry_timestamp_value e = or_else (entry_timestamp e) 0"

type_synonym status_map = "int \<Rightarrow> status_entry option"

definition merge_status_maps :: "status_map \<Rightarrow> status_map \<Rightarrow> int list \<Rightarrow> status_map" where
  "merge_status_maps existing incoming removed pid =
     (if pid \<in> set removed then None
      else case existing pid of
        None \<Rightarrow> incoming pid
      | Some current \<Rightarrow> (case incoming pid of
          None \<Rightarrow> Some current
        | Some new_entry \<Rightarrow>
            Some (if entry_timestamp_value new_entry \<ge> entry_timestamp_value current
                  then new_entry else current)))"

definition terminal_states :: "string list" where
  "terminal_states = [''done'', ''error'', ''stopped'', ''cancelled'']"

definition reservation_ttl :: int where "reservation_ttl = 30"

definition status_retention :: int where "status_retention = 86400"

definition is_stale_reserved_entry :: "instant \<Rightarrow> status_entry \<Rightarrow> bool" where
  "is_stale_reserved_entry now e \<longleftrightarrow>
     se_state e = LOCK_RESERVED
     \<and> (case entry_timestamp e of
          None \<Rightarrow> True
        | Some t \<Rightarrow> t \<le> 0 \<or> now - t > reservation_ttl * us_second)"

definition prune_stale_reserved_entries :: "instant \<Rightarrow> status_map \<Rightarrow> status_map" where
  "prune_stale_reserved_entries now m pid =
     (case m pid of None \<Rightarrow> None
      | Some e \<Rightarrow> if is_stale_reserved_entry now e then None else Some e)"

definition prune_old_terminal_statuses :: "instant \<Rightarrow> int \<Rightarrow> status_map \<Rightarrow> status_map" where
  "prune_old_terminal_statuses now max_age m pid =
     (case m pid of None \<Rightarrow> None
      | Some e \<Rightarrow>
          if se_state e \<notin> set terminal_states then Some e
          else (case se_finished_at e of
                  None \<Rightarrow> Some e
                | Some t \<Rightarrow> if t \<le> 0 \<or> t \<ge> now - max_age * us_second then Some e else None))"

definition status_is_expired :: "instant \<Rightarrow> status_entry \<Rightarrow> bool" where
  "status_is_expired now e \<longleftrightarrow>
     is_stale_reserved_entry now e
     \<or> (se_state e \<in> set terminal_states
        \<and> (case se_finished_at e of None \<Rightarrow> False
           | Some t \<Rightarrow> 0 < t \<and> t < now - status_retention * us_second))"

definition build_reserved_status_entry :: "instant \<Rightarrow> string \<Rightarrow> int option \<Rightarrow> status_entry" where
  "build_reserved_status_entry now token uid =
     \<lparr>se_state = LOCK_RESERVED, se_user = uid, se_started_at = Some now, se_updated_at = Some now,
      se_finished_at = None, se_token = Some token,
      se_values = (\<lambda>k. if k = ''terminal_reason'' then Some SNull else None)\<rparr>"

definition active_lock_ttl :: "int \<Rightarrow> int" where
  "active_lock_ttl configured = min (max configured reservation_ttl) (24 * 60 * 60) + 60"

subsection \<open>The registry of a worker\<close>

record task_handle =
  th_id :: nat
  th_done :: bool

record worker =
  wk_statuses :: status_map
  wk_active :: "int \<Rightarrow> task_handle option"
  wk_reserved :: "int \<Rightarrow> (instant \<times> string) option"

definition reservation_stale :: "instant \<Rightarrow> worker \<Rightarrow> int \<Rightarrow> bool" where
  "reservation_stale now w pid =
     (case wk_reserved w pid of None \<Rightarrow> False
      | Some (at_time, _) \<Rightarrow> now - at_time > reservation_ttl * us_second)"

definition status_reserved :: "worker \<Rightarrow> int \<Rightarrow> bool" where
  "status_reserved w pid =
     (case wk_statuses w pid of None \<Rightarrow> False | Some e \<Rightarrow> se_state e = LOCK_RESERVED)"

definition cleanup_stale_reservations :: "instant \<Rightarrow> worker \<Rightarrow> worker" where
  "cleanup_stale_reservations now w =
     w\<lparr>wk_reserved := (\<lambda>pid. if reservation_stale now w pid then None else wk_reserved w pid),
       wk_statuses := (\<lambda>pid. if reservation_stale now w pid \<and> status_reserved w pid then None
                             else wk_statuses w pid),
       wk_active := (\<lambda>pid. case wk_active w pid of None \<Rightarrow> None
                     | Some t \<Rightarrow> if th_done t then None else Some t)\<rparr>"

definition task_slot_is_available :: "task_handle option \<Rightarrow> bool" where
  "task_slot_is_available t = (case t of None \<Rightarrow> True | Some h \<Rightarrow> th_done h)"

definition persisted_status_keys :: "string list" where
  "persisted_status_keys =
     [''diagnostic_schema'', ''user_id'', ''state'', ''total_searches'', ''current_search_index'',
      ''searches_completed'', ''active_search_indices'', ''completed_search_indices'',
      ''current_query'', ''searches_generated'', ''jobs_found'', ''jobs_new'', ''jobs_unique'',
      ''jobs_duplicates'', ''jobs_duplicates_total'', ''jobs_duplicates_runtime'',
      ''jobs_duplicates_history'', ''jobs_duplicates_catalog_conflicts'', ''jobs_stale_before_save'',
      ''jobs_skipped'', ''errors'', ''analysis_targets'', ''analysis_current_index'', ''started_at'',
      ''finished_at'', ''updated_at'', ''error'', ''jobs_analyzed'', ''jobs_analyze_total'',
      ''terminal_reason'', ''degraded_mode'', ''plan_cache_hit'', ''plan_cache_miss'',
      ''plan_raw_count'', ''plan_unique_count'', ''planner_mode'', ''plan_provenance'',
      ''queries_without_provider'', ''provider_failures'', ''provider_successes'',
      ''avam_fallback_count'', ''log'', ''reservation_token'']"

definition normalize_status_entry :: "instant \<Rightarrow> status_entry \<Rightarrow> status_entry" where
  "normalize_status_entry now e =
     e\<lparr>se_updated_at := Some (or_else (se_updated_at e) now),
       se_values := (\<lambda>k. if k = ''diagnostic_schema'' then Some (SInt 2)
         else if k \<in> set persisted_status_keys then se_values e k else None)\<rparr>"

definition persist_current_status :: "instant \<Rightarrow> int \<Rightarrow> worker \<Rightarrow> profiles \<Rightarrow> profiles" where
  "persist_current_status now pid w ps =
     (case wk_statuses w pid of None \<Rightarrow> ps
      | Some e \<Rightarrow> snd (update_search_status now pid (normalize_status_entry now e) ps))"

text \<open>\<open>reserve_task\<close>: the check in memory, the database lock, the reservation and its status.\<close>

definition reserve_check :: "instant \<Rightarrow> int \<Rightarrow> worker \<Rightarrow> bool \<times> worker" where
  "reserve_check now pid w =
     (let w1 = cleanup_stale_reservations now w in
      (wk_active w1 pid = None \<and> wk_reserved w1 pid = None, w1))"

definition reserve_commit :: "instant \<Rightarrow> int \<Rightarrow> string \<Rightarrow> int option \<Rightarrow> worker \<Rightarrow> worker" where
  "reserve_commit now pid token uid w =
     w\<lparr>wk_reserved := (wk_reserved w)(pid \<mapsto> (now, token)),
       wk_statuses := (wk_statuses w)(pid \<mapsto> build_reserved_status_entry now token uid)\<rparr>"

definition reserve_task ::
  "instant \<Rightarrow> bool \<Rightarrow> int \<Rightarrow> int \<Rightarrow> string \<Rightarrow> int option \<Rightarrow> worker \<Rightarrow> worker \<Rightarrow> profiles
     \<Rightarrow> bool \<times> worker \<times> profiles" where
  "reserve_task now fault configured pid token uid w w' ps =
     (case reserve_check now pid w of
        (False, w1) \<Rightarrow> (False, w1, ps)
      | (True, w1) \<Rightarrow>
          if fault then (False, w', ps)
          else (case acquire_search_lock now reservation_ttl (active_lock_ttl configured) pid token ps of
                  (False, ps1) \<Rightarrow> (False, w', ps1)
                | (True, ps1) \<Rightarrow>
                    let w2 = reserve_commit now pid token uid w'
                    in (True, w2, persist_current_status now pid w2 ps1)))"

text \<open>\<open>register_task\<close> for a reservation token: check, activation, finalisation or rollback.\<close>

definition owns_reservation :: "worker \<Rightarrow> int \<Rightarrow> string \<Rightarrow> bool" where
  "owns_reservation w pid token =
     (case wk_reserved w pid of None \<Rightarrow> False | Some (_, t) \<Rightarrow> t = token)"

definition register_finalize :: "int \<Rightarrow> task_handle \<Rightarrow> string \<Rightarrow> worker \<Rightarrow> bool \<times> worker" where
  "register_finalize pid task token w =
     (if \<not> task_slot_is_available (wk_active w pid) then (False, w)
      else if \<not> owns_reservation w pid token then (False, w)
      else (True, w\<lparr>wk_reserved := (wk_reserved w)(pid := None),
                    wk_active := (wk_active w)(pid \<mapsto> task)\<rparr>))"

definition register_task ::
  "instant \<Rightarrow> bool \<Rightarrow> bool \<Rightarrow> int \<Rightarrow> task_handle \<Rightarrow> string \<Rightarrow> worker \<Rightarrow> worker \<Rightarrow> profiles
     \<Rightarrow> (profiles \<Rightarrow> profiles) \<Rightarrow> bool \<times> worker \<times> profiles" where
  "register_task now fault fault' pid task token w w' ps env =
     (if \<not> owns_reservation w pid token \<or> \<not> task_slot_is_available (wk_active w pid)
      then (False, w, ps)
      else if fault then (False, w', ps)
      else (case activate_search_lock now pid token ps of
              (False, ps1) \<Rightarrow> (False, w', ps1)
            | (True, ps1) \<Rightarrow>
                (case register_finalize pid task token w' of
                   (True, w2) \<Rightarrow> (True, w2, ps1)
                 | (False, w2) \<Rightarrow>
                     if fault' then (False, w2, env ps1)
                     else (False, w2, snd (release_search_lock pid (Some token) (env ps1))))))"

text \<open>\<open>register_task\<close> without a token only claims the slot in memory.\<close>

definition register_task_unreserved :: "int \<Rightarrow> task_handle \<Rightarrow> worker \<Rightarrow> bool \<times> worker" where
  "register_task_unreserved pid task w =
     (if task_slot_is_available (wk_active w pid)
      then (True, w\<lparr>wk_active := (wk_active w)(pid \<mapsto> task)\<rparr>) else (False, w))"

definition unregister_task :: "int \<Rightarrow> worker \<Rightarrow> worker" where
  "unregister_task pid w =
     w\<lparr>wk_reserved := (wk_reserved w)(pid := None), wk_active := (wk_active w)(pid := None)\<rparr>"

text \<open>\<open>release_task\<close>: an owner that the memory does not know may still hold the database lock.\<close>

definition drop_reserved_status :: "int \<Rightarrow> string option \<Rightarrow> worker \<Rightarrow> worker" where
  "drop_reserved_status pid token w =
     (case wk_statuses w pid of
        None \<Rightarrow> w
      | Some e \<Rightarrow>
          if se_state e = LOCK_RESERVED \<and> (token = None \<or> se_token e = token)
          then w\<lparr>wk_statuses := (wk_statuses w)(pid := None)\<rparr> else w)"

definition release_task ::
  "bool \<Rightarrow> int \<Rightarrow> string option \<Rightarrow> worker \<Rightarrow> profiles \<Rightarrow> bool \<times> worker \<times> profiles" where
  "release_task fault pid token w ps =
     (case wk_reserved w pid of
        Some (_, t) \<Rightarrow>
          if token \<noteq> None \<and> token \<noteq> Some t then (False, w, ps)
          else (let w1 = drop_reserved_status pid token
                      (w\<lparr>wk_reserved := (wk_reserved w)(pid := None)\<rparr>) in
                (True, w1, if fault then ps else snd (release_search_lock pid token ps)))
      | None \<Rightarrow>
          (let w1 = drop_reserved_status pid token w in
           if fault then (False, w1, ps)
           else (case release_search_lock pid token ps of (released, ps1) \<Rightarrow> (released, w1, ps1))))"

definition cancel_task :: "int \<Rightarrow> worker \<Rightarrow> bool \<times> worker" where
  "cancel_task pid w =
     (wk_active w pid \<noteq> None, w\<lparr>wk_reserved := (wk_reserved w)(pid := None)\<rparr>)"

definition clear_status :: "int \<Rightarrow> worker \<Rightarrow> profiles \<Rightarrow> worker \<times> profiles" where
  "clear_status pid w ps =
     (w\<lparr>wk_statuses := (wk_statuses w)(pid := None)\<rparr>, snd (clear_search_status pid ps))"

lemmas registry_defs = reserve_task_def reserve_check_def reserve_commit_def register_task_def
  register_finalize_def release_task_def

subsection \<open>Persisting a status leaves the lock alone\<close>

lemma lock_columns_update:
  assumes "\<And>p. sp_id (f p) = sp_id p" and "\<And>p. sp_lock_token (f p) = sp_lock_token p"
    and "\<And>p. sp_lock_state (f p) = sp_lock_state p"
    and "\<And>p. sp_lock_acquired_at (f p) = sp_lock_acquired_at p"
  shows "lock_of (update_rows q f ps) = lock_of ps" "locks_ok (update_rows q f ps) = locks_ok ps"
proof -
  have "profile_of pid (update_rows q f ps) =
      map_option (\<lambda>p. if q p then f p else p) (profile_of pid ps)" for pid
    unfolding profile_of_def using assms(1) by (intro select_first_update) simp
  then show "lock_of (update_rows q f ps) = lock_of ps"
    using assms by (auto simp: lock_of_def fun_eq_iff split: option.split)
      (simp_all add: map_option_case split: option.split)
  have "lock_consistent (f p) = lock_consistent p" for p
    using assms by (simp add: lock_consistent_def)
  then have "(\<forall>p \<in> set (update_rows q f ps). lock_consistent p) = (\<forall>p \<in> set ps. lock_consistent p)"
    by (induction ps) auto
  moreover have "map sp_id (update_rows q f ps) = map sp_id ps"
    by (rule map_update_rows) (rule assms(1))
  ultimately show "locks_ok (update_rows q f ps) = locks_ok ps"
    by (simp add: locks_ok_def unique_by_def)
qed

lemma update_search_status_lock:
  "lock_of (snd (update_search_status now pid e ps)) = lock_of ps"
  "locks_ok (snd (update_search_status now pid e ps)) = locks_ok ps"
proof -
  have wr: "lock_of (update_rows q (write_status_columns now e) rows) = lock_of rows"
    "locks_ok (update_rows q (write_status_columns now e) rows) = locks_ok rows" for q rows
    by (rule lock_columns_update; simp add: write_status_columns_def)+
  have cr: "lock_of (update_rows q (count_run r) rows) = lock_of rows"
    "locks_ok (update_rows q (count_run r) rows) = locks_ok rows" for q r rows
    by (rule lock_columns_update; simp add: count_run_def)+
  show "lock_of (snd (update_search_status now pid e ps)) = lock_of ps"
    "locks_ok (snd (update_search_status now pid e ps)) = locks_ok ps"
    by (simp_all add: update_search_status_def Let_def wr cr split: option.split)
qed

lemma held_lock_of:
  "search_lock_held rttl attl ps pid =
    (case lock_of ps pid of
       Some (Some t, st, Some since) \<Rightarrow> Some (t, since + lock_ttl rttl attl st) | _ \<Rightarrow> None)"
  by (simp add: search_lock_held_def lock_of_def split: option.split)

lemma persist_lock:
  "lock_of (persist_current_status now pid w ps) = lock_of ps"
  "locks_ok (persist_current_status now pid w ps) = locks_ok ps"
  by (simp_all add: persist_current_status_def update_search_status_lock split: option.split)

lemma acquire_holds:
  assumes ok: "locks_ok ps" and a: "acquire_search_lock now rttl attl pid token ps = (True, ps1)"
  shows "lock_of ps1 pid = Some (Some token, Some LOCK_RESERVED, Some now)" "locks_ok ps1"
proof -
  let ?free = "\<lambda>p. sp_id p = pid \<and> lock_available now rttl attl p"
  let ?f = "\<lambda>p. p\<lparr>sp_lock_token := Some token, sp_lock_state := Some LOCK_RESERVED,
      sp_lock_acquired_at := Some now\<rparr>"
  from a have found: "row_count ?free ps \<noteq> 0" and ps1: "ps1 = update_rows ?free ?f ps"
    by (auto simp: acquire_search_lock_def Let_def split: if_splits)
  from found obtain p where p: "p \<in> set ps" "?free p" by (auto simp: row_count_0)
  have "profile_of pid ps = Some p"
    using ok p by (intro profile_of_unique) (auto simp: locks_ok_def)
  then have "profile_of pid ps1 = Some (?f p)"
    using p unfolding ps1 profile_of_def by (simp add: select_first_update)
  then show "lock_of ps1 pid = Some (Some token, Some LOCK_RESERVED, Some now)"
    by (simp add: lock_of_def)
  show "locks_ok ps1" using lock_step_ok [OF ok, of rttl attl "AcquireLock now pid token"] a by simp
qed

lemma activate_holds:
  assumes ok: "locks_ok ps" and a: "activate_search_lock now pid token ps = (True, ps1)"
  shows "lock_of ps1 pid = Some (Some token, Some LOCK_ACTIVE, Some now)"
proof -
  let ?mine = "\<lambda>p. sp_id p = pid \<and> sp_lock_token p = Some token"
  let ?f = "\<lambda>p. p\<lparr>sp_lock_state := Some LOCK_ACTIVE, sp_lock_acquired_at := Some now\<rparr>"
  from a have found: "row_count ?mine ps \<noteq> 0" and ps1: "ps1 = update_rows ?mine ?f ps"
    by (auto simp: activate_search_lock_def Let_def split: if_splits)
  from found obtain p where p: "p \<in> set ps" "?mine p" by (auto simp: row_count_0)
  have "profile_of pid ps = Some p"
    using ok p by (intro profile_of_unique) (auto simp: locks_ok_def)
  then have "profile_of pid ps1 = Some (?f p)"
    using p unfolding ps1 profile_of_def by (simp add: select_first_update)
  with p show ?thesis by (simp add: lock_of_def)
qed

lemma release_drops_token:
  assumes "locks_ok ps"
  shows "\<exists>l. lock_of (snd (release_search_lock pid (Some token) ps)) pid = l
    \<and> (case l of None \<Rightarrow> True | Some (t, _) \<Rightarrow> t \<noteq> Some token)"
proof (cases "\<exists>p. profile_of pid ps = Some p \<and> sp_lock_token p = Some token")
  case True
  then obtain p where "profile_of pid ps = Some p" "sp_lock_token p = Some token" by blast
  from release_row [OF assms this] show ?thesis
    by (auto simp: lock_of_def)
next
  case False
  then have "row_count (\<lambda>p. sp_id p = pid \<and> sp_lock_token p = Some token) ps = 0"
    using assms profile_of_unique by (auto simp: row_count_0 locks_ok_def)
  then have "release_search_lock pid (Some token) ps = (False, ps)"
    by (simp add: release_search_lock_def)
  with False show ?thesis by (auto simp: lock_of_def split: option.split)
qed

subsection \<open>Properties\<close>

text \<open>Registering a task under a reservation is all or nothing. If it succeeds, the worker owned
  the reservation, the task is active, the reservation is used up and the database lock is active
  under the token; if it fails, the memory is as the other threads left it and, when the lock had been
  activated, the lock no longer belongs to the token.\<close>

lemma register_task_all_or_nothing:
  assumes "locks_ok ps" and "\<And>rows. locks_ok rows \<Longrightarrow> locks_ok (env rows)"
    and "register_task now fault False pid task token w w' ps env = (registered, w2, ps2)"
  shows "if registered
    then owns_reservation w' pid token \<and> wk_active w2 pid = Some task \<and> wk_reserved w2 pid = None
      \<and> lock_of ps2 pid = Some (Some token, Some LOCK_ACTIVE, Some now)
    else w2 \<in> {w, w'}
      \<and> (ps2 = ps \<or> (case lock_of ps2 pid of None \<Rightarrow> True | Some (t, _) \<Rightarrow> t \<noteq> Some token))"
proof (cases "\<not> owns_reservation w pid token \<or> \<not> task_slot_is_available (wk_active w pid) \<or> fault")
  case True
  with assms(3) show ?thesis by (auto simp: register_task_def split: if_splits)
next
  case False
  obtain ok1 ps1 where act: "activate_search_lock now pid token ps = (ok1, ps1)"
    by (cases "activate_search_lock now pid token ps")
  show ?thesis
  proof (cases ok1)
    case False': False
    with act have "ps1 = ps" by (auto simp: activate_search_lock_def Let_def split: if_splits)
    with False False' act assms(3) show ?thesis by (auto simp: register_task_def)
  next
    case True
    from act True have act1: "activate_search_lock now pid token ps = (True, ps1)" by simp
    note held = activate_holds [OF assms(1) act1]
    have "locks_ok ps1"
      using lock_step_ok [OF assms(1), of 0 0 "ActivateLock now pid token"] act by simp
    from release_drops_token [OF assms(2) [OF this], of pid token]
    have gone: "case lock_of (snd (release_search_lock pid (Some token) (env ps1))) pid of
        None \<Rightarrow> True | Some (t, _) \<Rightarrow> t \<noteq> Some token" by simp
    obtain fin w3 where fin: "register_finalize pid task token w' = (fin, w3)"
      by (cases "register_finalize pid task token w'")
    have mem: "if fin then owns_reservation w' pid token \<and> wk_active w3 pid = Some task
        \<and> wk_reserved w3 pid = None else w3 = w'"
      using fin by (auto simp: register_finalize_def split: if_splits)
    show ?thesis
      using False True act fin mem held gone assms(3) by (cases fin) (auto simp: register_task_def)
  qed
qed

definition quiet_worker :: worker where
  "quiet_worker = \<lparr>wk_statuses = (\<lambda>_. None), wk_active = (\<lambda>_. None), wk_reserved = (\<lambda>_. None)\<rparr>"

definition reserving_worker :: worker where
  "reserving_worker = reserve_commit 0 1 ''mine'' (Some 7) quiet_worker"

theorem register_task_all_or_nothing_witness:
  "\<exists>w2 ps2. register_task 5 False False 1 \<lparr>th_id = 3, th_done = False\<rparr> ''mine'' reserving_worker
      reserving_worker held_profiles id = (True, w2, ps2)
    \<and> wk_active w2 1 = Some \<lparr>th_id = 3, th_done = False\<rparr>
    \<and> lock_of ps2 1 = Some (Some ''mine'', Some LOCK_ACTIVE, Some 5)"
proof -
  obtain b w2 ps2 where r: "register_task 5 False False 1 \<lparr>th_id = 3, th_done = False\<rparr> ''mine''
      reserving_worker reserving_worker held_profiles id = (b, w2, ps2)"
    by (rule prod_cases3)
  have "fst (register_task 5 False False 1 \<lparr>th_id = 3, th_done = False\<rparr> ''mine''
      reserving_worker reserving_worker held_profiles id)"
    by code_simp
  with r have b: "b" by simp
  from register_task_all_or_nothing [OF held_profiles_ok(1) _ r] b r show ?thesis by simp
qed

text \<open>Two workers cannot reserve the same profile at once. After one worker has reserved it, a
  reservation by any other worker within the reservation time fails and leaves the profile tables as
  they are, whatever foreign lock operations run in between.\<close>

lemma second_worker_cannot_reserve:
  assumes "locks_ok ps"
    and "reserve_task now False conf pid token uid w w' ps = (True, w2, ps2)"
    and "\<forall>op \<in> set ops. search_lock.foreign pid token (now + reservation_ttl * us_second) op"
    and "now' \<le> now + reservation_ttl * us_second"
  defines "ps3 \<equiv> search_lock.lock_run reservation_ttl (active_lock_ttl conf) ops ps2"
  shows "fst (reserve_task now' fault conf pid token' uid' v v' ps3) = False
    \<and> snd (snd (reserve_task now' fault conf pid token' uid' v v' ps3)) = ps3"
proof -
  let ?r = reservation_ttl and ?a = "active_lock_ttl conf"
  from assms(2) obtain ps1 where acq: "acquire_search_lock now ?r ?a pid token ps = (True, ps1)"
    and ps2: "ps2 = persist_current_status now pid w2 ps1"
    by (auto simp: registry_defs Let_def split: prod.splits bool.splits if_splits)
  note held1 = acquire_holds [OF assms(1) acq]
  have ok: "locks_ok ps2" unfolding ps2 persist_lock by (rule held1(2))
  have held: "search_lock_held ?r ?a ps2 pid = Some (token, now + ?r * us_second)"
    using held1(1) unfolding held_lock_of ps2 persist_lock by (simp add: lock_ttl_def)
  have "acquire_search_lock now' ?r ?a pid token' ps3 = (False, ps3)"
    unfolding ps3_def by (rule search_lock.no_takeover [OF ok held assms(3,4)])
  then show ?thesis
    by (cases "reserve_check now' pid v" rule: prod.exhaust; cases "fst (reserve_check now' pid v)")
      (auto simp: reserve_task_def split: bool.splits)
qed

theorem second_worker_cannot_reserve_witness:
  "\<exists>w2 ps2. reserve_task 0 False 1800 1 ''mine'' None quiet_worker quiet_worker [idle_profile 1]
      = (True, w2, ps2)
    \<and> fst (reserve_task 30000000 False 1800 1 ''other'' None quiet_worker quiet_worker ps2) = False"
proof -
  obtain b w2 ps2 where r: "reserve_task 0 False 1800 1 ''mine'' None quiet_worker quiet_worker
      [idle_profile 1] = (b, w2, ps2)" by (rule prod_cases3)
  have "fst (reserve_task 0 False 1800 1 ''mine'' None quiet_worker quiet_worker [idle_profile 1])"
    by code_simp
  with r have b: "b = True" by simp
  have ok: "locks_ok [idle_profile 1]"
    by (simp add: locks_ok_def unique_by_def lock_consistent_def idle_profile_def)
  from second_worker_cannot_reserve [OF ok r [unfolded b], of "[]" 30000000 False "''other''" None
      quiet_worker quiet_worker]
  have "fst (reserve_task 30000000 False 1800 1 ''other'' None quiet_worker quiet_worker ps2) = False"
    by (simp add: reservation_ttl_def us_second_def)
  with r b show ?thesis by blast
qed

text \<open>Merging the persisted with the in-memory statuses keeps, for every profile that is not
  removed, an entry of one of the two maps that is at least as recent as both, and prefers the
  in-memory one on a tie; a removed profile has none.\<close>

lemma merge_keeps_newest:
  "(case merge_status_maps existing incoming removed pid of
      None \<Rightarrow> pid \<in> set removed \<or> (existing pid = None \<and> incoming pid = None)
    | Some e \<Rightarrow> pid \<notin> set removed \<and> (existing pid = Some e \<or> incoming pid = Some e)
        \<and> (case existing pid of None \<Rightarrow> True
           | Some c \<Rightarrow> entry_timestamp_value c \<le> entry_timestamp_value e)
        \<and> (case incoming pid of None \<Rightarrow> True
           | Some n \<Rightarrow> e = n \<or> entry_timestamp_value n < entry_timestamp_value e))"
  by (auto simp: merge_status_maps_def split: option.splits)

end
