(* ===== verification/AuthTokens.thy ===== *)
theory AuthTokens
  imports Prelude
begin

text \<open>
  Browser credentials, \<open>services/auth.py\<close> and the token helpers of
  \<open>services/auth_sessions.py\<close>. The library PyJWT and SHA-256 are parameters:
  \<open>tk_encode\<close> signs a payload with the server's key, \<open>tk_decode\<close> verifies a
  token at a time against a list of required claims, and \<open>tk_sha\<close> is the
  hexadecimal digest. What the code relies on is named by \<open>jwt_verifies\<close>
  (a token is valid until it expires) and \<open>sha_injective\<close>. Random
  identifiers and the readings of the clock are arguments (\<open>mint\<close>).
\<close>

named_theorems token_simps \<open>claims of the credentials that the server creates\<close>

definition second :: int where "second = 1000000"

subsection \<open>Claims\<close>

datatype claim = CText string | CInt int | CBool bool | CJson

type_synonym payload = "string \<Rightarrow> claim option"

record 't token_env =
  tk_encode :: "payload \<Rightarrow> 't"
  tk_decode :: "instant \<Rightarrow> string list \<Rightarrow> 't \<Rightarrow> payload option"
  tk_sha :: "string \<Rightarrow> string"
  tk_access_minutes :: int
  tk_refresh_days :: int

definition token_identifier :: "string \<Rightarrow> bool" where
  "token_identifier s \<longleftrightarrow> length s = 32 \<and> (\<forall>c \<in> set s. c \<in> set ''0123456789abcdef'')"

definition MAX_USERNAME_CHARS :: nat where "MAX_USERNAME_CHARS = 50"

definition text_claim :: "payload \<Rightarrow> string \<Rightarrow> string option" where
  "text_claim p k = (case p k of Some (CText s) \<Rightarrow> Some s | _ \<Rightarrow> None)"

definition int_claim :: "payload \<Rightarrow> string \<Rightarrow> int option" where
  "int_claim p k = (case p k of Some (CInt i) \<Rightarrow> Some i | _ \<Rightarrow> None)"

definition valid_common_claims :: "payload \<Rightarrow> bool" where
  "valid_common_claims p \<longleftrightarrow>
     (case text_claim p ''sub'' of None \<Rightarrow> False
      | Some s \<Rightarrow> 0 < length s \<and> length s \<le> MAX_USERNAME_CHARS)
     \<and> (case text_claim p ''jti'' of None \<Rightarrow> False | Some j \<Rightarrow> token_identifier j)
     \<and> int_claim p ''iat'' \<noteq> None \<and> int_claim p ''exp'' \<noteq> None"

definition valid_session_claim :: "payload \<Rightarrow> bool" where
  "valid_session_claim p \<longleftrightarrow>
     (case text_claim p ''sid'' of None \<Rightarrow> False | Some s \<Rightarrow> token_identifier s)"

subsection \<open>Decoding\<close>

definition PURPOSE_SESSION :: string where "PURPOSE_SESSION = ''session''"

definition PURPOSE_MAINTENANCE :: string where "PURPOSE_MAINTENANCE = ''vault_maintenance''"

definition access_required :: "string list" where
  "access_required = [''exp'', ''iat'', ''jti'', ''sid'', ''sub'', ''type'', ''purpose'']"

definition refresh_required :: "string list" where
  "refresh_required = [''exp'', ''iat'', ''jti'', ''sid'', ''sub'', ''type'']"

definition decode_access_token :: "'t token_env \<Rightarrow> instant \<Rightarrow> 't \<Rightarrow> payload option" where
  "decode_access_token E now token =
     (case tk_decode E now access_required token of
        None \<Rightarrow> None
      | Some p \<Rightarrow>
          if p ''type'' \<noteq> Some (CText ''access'')
             \<or> p ''purpose'' \<notin> {Some (CText PURPOSE_SESSION), Some (CText PURPOSE_MAINTENANCE)}
             \<or> \<not> valid_common_claims p \<or> \<not> valid_session_claim p
          then None else Some p)"

definition decode_refresh_token :: "'t token_env \<Rightarrow> instant \<Rightarrow> 't \<Rightarrow> payload option" where
  "decode_refresh_token E now token =
     (case tk_decode E now refresh_required token of
        None \<Rightarrow> None
      | Some p \<Rightarrow>
          if p ''type'' \<noteq> Some (CText ''refresh'')
             \<or> \<not> valid_common_claims p \<or> \<not> valid_session_claim p
          then None else Some p)"

subsection \<open>Creation\<close>

text \<open>PyJWT writes a datetime claim as whole seconds.\<close>

definition epoch_seconds :: "instant \<Rightarrow> int" where "epoch_seconds t = t div second"

definition access_claims ::
  "'t token_env \<Rightarrow> string \<Rightarrow> string \<Rightarrow> string \<Rightarrow> string \<Rightarrow> instant \<Rightarrow> payload" where
  "access_claims E sub sid purpose jti issued_at =
     [''sub'' \<mapsto> CText sub,
      ''exp'' \<mapsto> CInt (epoch_seconds (issued_at + tk_access_minutes E * 60 * second)),
      ''iat'' \<mapsto> CInt (epoch_seconds issued_at), ''jti'' \<mapsto> CText jti, ''sid'' \<mapsto> CText sid,
      ''type'' \<mapsto> CText ''access'', ''purpose'' \<mapsto> CText purpose]"

definition refresh_claims ::
  "'t token_env \<Rightarrow> string \<Rightarrow> string \<Rightarrow> string \<Rightarrow> instant \<Rightarrow> payload" where
  "refresh_claims E sub sid jti issued_at =
     [''sub'' \<mapsto> CText sub,
      ''exp'' \<mapsto> CInt (epoch_seconds (issued_at + tk_refresh_days E * 86400 * second)),
      ''iat'' \<mapsto> CInt (epoch_seconds issued_at), ''jti'' \<mapsto> CText jti, ''sid'' \<mapsto> CText sid,
      ''type'' \<mapsto> CText ''refresh'']"

text \<open>\<open>None\<close> stands for the \<open>ValueError\<close> of an invalid identifier or purpose.\<close>

definition create_access_token ::
  "'t token_env \<Rightarrow> string \<Rightarrow> string \<Rightarrow> string \<Rightarrow> string \<Rightarrow> instant \<Rightarrow> 't option" where
  "create_access_token E sub sid purpose jti issued_at =
     (if purpose \<notin> {PURPOSE_SESSION, PURPOSE_MAINTENANCE} then None
      else if \<not> token_identifier sid then None
      else Some (tk_encode E (access_claims E sub sid purpose jti issued_at)))"

definition create_refresh_token ::
  "'t token_env \<Rightarrow> string \<Rightarrow> string \<Rightarrow> string \<Rightarrow> instant \<Rightarrow> 't option" where
  "create_refresh_token E sub sid jti issued_at =
     (if \<not> token_identifier sid then None
      else Some (tk_encode E (refresh_claims E sub sid jti issued_at)))"

subsection \<open>The state that a refresh token names\<close>

record token_state =
  ts_sub :: string
  ts_sid :: string
  ts_digest :: string
  ts_expires :: instant

definition jti_digest :: "'t token_env \<Rightarrow> string \<Rightarrow> string" where
  "jti_digest E jti = tk_sha E jti"

definition erasure_pending_digest :: "'t token_env \<Rightarrow> string \<Rightarrow> string" where
  "erasure_pending_digest E sid = tk_sha E (''careeros-erasure-pending-v1:'' @ sid)"

definition token_state_of :: "'t token_env \<Rightarrow> instant \<Rightarrow> 't \<Rightarrow> token_state option" where
  "token_state_of E now token =
     (case decode_refresh_token E now token of
        None \<Rightarrow> None
      | Some p \<Rightarrow>
          (case (text_claim p ''sub'', text_claim p ''sid'', text_claim p ''jti'', int_claim p ''exp'') of
             (Some sub, Some sid, Some jti, Some e) \<Rightarrow>
               Some \<lparr>ts_sub = sub, ts_sid = sid, ts_digest = jti_digest E jti, ts_expires = e * second\<rparr>
           | _ \<Rightarrow> None))"

subsection \<open>What the code relies on\<close>

definition jwt_verifies :: "'t token_env \<Rightarrow> bool" where
  "jwt_verifies E \<longleftrightarrow>
     (\<forall>p now req issued e. int_claim p ''iat'' = Some issued \<longrightarrow> int_claim p ''exp'' = Some e \<longrightarrow>
        (\<forall>k \<in> set req. p k \<noteq> None) \<longrightarrow> issued * second \<le> now \<longrightarrow> now < e * second \<longrightarrow>
        tk_decode E now req (tk_encode E p) = Some p)"

definition jwt_faithful :: "'t token_env \<Rightarrow> bool" where
  "jwt_faithful E \<longleftrightarrow>
     (\<forall>p q now req. tk_decode E now req (tk_encode E p) = Some q \<longrightarrow> q = p)"

definition jwt_expires :: "'t token_env \<Rightarrow> bool" where
  "jwt_expires E \<longleftrightarrow>
     (\<forall>p now req token e. tk_decode E now req token = Some p \<longrightarrow> int_claim p ''exp'' = Some e \<longrightarrow>
        now < e * second)"

definition sha_injective :: "'t token_env \<Rightarrow> bool" where
  "sha_injective E \<longleftrightarrow> inj (tk_sha E)"

definition subject_ok :: "string \<Rightarrow> bool" where
  "subject_ok s \<longleftrightarrow> 0 < length s \<and> length s \<le> MAX_USERNAME_CHARS"

subsection \<open>Lemmas\<close>

lemma floor_second_le: "x div second * second \<le> x"
  by (simp add: second_def)

lemma token_state_facts:
  assumes "token_state_of E now token = Some s"
  shows "subject_ok (ts_sub s)" "token_identifier (ts_sid s)"
    "\<exists>jti. token_identifier jti \<and> ts_digest s = jti_digest E jti"
  using assms
  by (auto simp: token_state_of_def decode_refresh_token_def valid_common_claims_def subject_ok_def
      valid_session_claim_def split: option.splits if_splits)

lemma token_state_live:
  "jwt_expires E \<Longrightarrow> token_state_of E now token = Some s \<Longrightarrow> now < ts_expires s"
  by (force simp: token_state_of_def decode_refresh_token_def jwt_expires_def
      split: option.splits if_splits)

lemma decode_access_facts:
  assumes "decode_access_token E now token = Some p"
  obtains sub sid where "text_claim p ''sub'' = Some sub" "text_claim p ''sid'' = Some sid"
    "subject_ok sub" "token_identifier sid"
    "text_claim p ''purpose'' \<in> {Some PURPOSE_SESSION, Some PURPOSE_MAINTENANCE}"
  using assms
  by (auto simp: decode_access_token_def valid_common_claims_def valid_session_claim_def
      subject_ok_def text_claim_def split: option.splits if_splits claim.splits)

text \<open>The marker of a pending erasure is never the digest of a refresh token.\<close>

lemma erasure_digest_not_jti:
  assumes "sha_injective E" and "token_identifier jti"
  shows "erasure_pending_digest E sid \<noteq> jti_digest E jti"
proof
  assume "erasure_pending_digest E sid = jti_digest E jti"
  then have "jti = ''careeros-erasure-pending-v1:'' @ sid"
    using assms(1) by (auto simp: erasure_pending_digest_def jti_digest_def sha_injective_def inj_def)
  then have "CHR ''r'' \<in> set jti" by simp
  with assms(2) have "CHR ''r'' \<in> set ''0123456789abcdef''" by (simp only: token_identifier_def)
  then show False by simp
qed

lemma erasure_digest_inj:
  "sha_injective E \<Longrightarrow> erasure_pending_digest E a = erasure_pending_digest E b \<longleftrightarrow> a = b"
  by (auto simp: erasure_pending_digest_def sha_injective_def inj_def)

lemma jti_digest_inj: "sha_injective E \<Longrightarrow> jti_digest E a = jti_digest E b \<longleftrightarrow> a = b"
  by (auto simp: jti_digest_def sha_injective_def inj_def)

lemma access_claim_values [token_simps]:
  "access_claims E sub sid purpose jti t ''type'' = Some (CText ''access'')"
  "access_claims E sub sid purpose jti t ''purpose'' = Some (CText purpose)"
  "text_claim (access_claims E sub sid purpose jti t) ''sub'' = Some sub"
  "text_claim (access_claims E sub sid purpose jti t) ''sid'' = Some sid"
  "text_claim (access_claims E sub sid purpose jti t) ''jti'' = Some jti"
  "text_claim (access_claims E sub sid purpose jti t) ''purpose'' = Some purpose"
  "int_claim (access_claims E sub sid purpose jti t) ''iat'' = Some (epoch_seconds t)"
  "int_claim (access_claims E sub sid purpose jti t) ''exp''
     = Some (epoch_seconds (t + tk_access_minutes E * 60 * second))"
  "k \<in> set access_required \<Longrightarrow> access_claims E sub sid purpose jti t k \<noteq> None"
  by (auto simp: access_claims_def text_claim_def int_claim_def access_required_def)

lemma refresh_claim_values [token_simps]:
  "refresh_claims E sub sid jti t ''type'' = Some (CText ''refresh'')"
  "text_claim (refresh_claims E sub sid jti t) ''sub'' = Some sub"
  "text_claim (refresh_claims E sub sid jti t) ''sid'' = Some sid"
  "text_claim (refresh_claims E sub sid jti t) ''jti'' = Some jti"
  "int_claim (refresh_claims E sub sid jti t) ''iat'' = Some (epoch_seconds t)"
  "int_claim (refresh_claims E sub sid jti t) ''exp''
     = Some (epoch_seconds (t + tk_refresh_days E * 86400 * second))"
  "k \<in> set refresh_required \<Longrightarrow> refresh_claims E sub sid jti t k \<noteq> None"
  by (auto simp: refresh_claims_def text_claim_def int_claim_def refresh_required_def)

lemma epoch_seconds_le: "epoch_seconds t * second \<le> t"
  by (simp add: epoch_seconds_def second_def)

lemma epoch_seconds_window:
  "t \<le> now \<Longrightarrow> now + second \<le> t + d * second \<Longrightarrow> now < epoch_seconds (t + d * second) * second"
  by (simp add: epoch_seconds_def second_def)

lemma created_access_decodes:
  assumes E: "jwt_verifies E" and "subject_ok sub" and "token_identifier jti"
    and c: "create_access_token E sub sid purpose jti t = Some token"
    and "t \<le> now" and "now + second \<le> t + tk_access_minutes E * 60 * second"
  shows "decode_access_token E now token = Some (access_claims E sub sid purpose jti t)"
proof -
  let ?p = "access_claims E sub sid purpose jti t"
  have "tk_decode E now access_required (tk_encode E ?p) = Some ?p"
    using E [unfolded jwt_verifies_def, rule_format, of ?p "epoch_seconds t" _ access_required now]
      epoch_seconds_le [of t] epoch_seconds_window [OF assms(5), of "tk_access_minutes E * 60"] assms(5,6)
    by (auto simp: token_simps)
  with assms(2-4) show ?thesis
    by (auto simp: decode_access_token_def create_access_token_def valid_common_claims_def
        valid_session_claim_def subject_ok_def token_simps split: if_splits)
qed

lemma created_refresh_digest:
  assumes "jwt_faithful E" and "create_refresh_token E sub sid jti t = Some token"
    and "token_state_of E now token = Some st"
  shows "ts_digest st = jti_digest E jti" "ts_sid st = sid" "ts_sub st = sub" "token_identifier jti"
proof -
  let ?p = "refresh_claims E sub sid jti t"
  from assms(2) have token: "token = tk_encode E ?p"
    by (simp add: create_refresh_token_def split: if_splits)
  obtain q where q: "tk_decode E now refresh_required token = Some q"
    using assms(3) by (auto simp: token_state_of_def decode_refresh_token_def split: option.splits)
  with assms(1) token have "q = ?p" unfolding jwt_faithful_def by blast
  with assms(3) q show "ts_digest st = jti_digest E jti" "ts_sid st = sid" "ts_sub st = sub"
    "token_identifier jti"
    by (auto simp: token_state_of_def decode_refresh_token_def valid_common_claims_def token_simps
        split: if_splits option.splits)
qed

lemma created_refresh_state:
  assumes E: "jwt_verifies E" and "subject_ok sub" and "token_identifier jti"
    and c: "create_refresh_token E sub sid jti t = Some token"
    and "t \<le> now" and "now + second \<le> t + tk_refresh_days E * 86400 * second"
  shows "token_state_of E now token = Some \<lparr>ts_sub = sub, ts_sid = sid, ts_digest = jti_digest E jti,
    ts_expires = epoch_seconds (t + tk_refresh_days E * 86400 * second) * second\<rparr>"
proof -
  let ?p = "refresh_claims E sub sid jti t"
  have "tk_decode E now refresh_required (tk_encode E ?p) = Some ?p"
    using E [unfolded jwt_verifies_def, rule_format, of ?p "epoch_seconds t" _ refresh_required now]
      epoch_seconds_le [of t] epoch_seconds_window [OF assms(5), of "tk_refresh_days E * 86400"] assms(5,6)
    by (auto simp: token_simps)
  with assms(2-4) show ?thesis
    by (auto simp: token_state_of_def decode_refresh_token_def create_refresh_token_def
        valid_common_claims_def valid_session_claim_def subject_ok_def token_simps split: if_splits)
qed

end
