(* ===== verification/AuthSessions.thy ===== *)
theory AuthSessions
  imports AuthTokens "HOL-Library.Product_Lexorder" "HOL-Library.List_Lexorder" "HOL-Library.Char_ord"
begin

text \<open>
  Server-side authority of a browser, \<open>services/auth_sessions.py\<close>: a bounded set
  of session families per user, refresh rotation with replay detection, logout,
  and the restricted authority for pending maintenance of the vault. Every
  operation is one transaction (issuing takes the write lock of the database
  first), so it is a function on the tables; errors roll back. The two
  transactions of a rotation are \<open>rotate_update\<close> and \<open>rotate_inspect\<close>, with an
  arbitrary change of the tables in between.
\<close>

named_theorems session_defs \<open>the operations on session rows\<close>

subsection \<open>Tables\<close>

datatype vault_state = Ready | ResetPending | RestorePending | ErasurePending

record user_row =
  us_id :: int
  us_username :: string
  us_vault :: vault_state
  us_fingerprint :: "string option"

record auth_session =
  as_id :: string
  as_user :: int
  as_slot :: nat
  as_digest :: string
  as_expires :: instant
  as_revoked :: "instant option"
  as_created :: instant
  as_updated :: instant

record auth_db =
  ad_users :: "user_row table"
  ad_sessions :: "auth_session table"

type_synonym session_table = "auth_session table"

definition MAX_ACTIVE_REFRESH_SESSIONS :: nat where "MAX_ACTIVE_REFRESH_SESSIONS = 8"

definition ISSUE_ATTEMPTS :: nat where "ISSUE_ATTEMPTS = 3"

datatype auth_error = MaintenancePending string | RuntimeFailure string | IntegrityFailure | ValueFailure

text \<open>The random identifiers of one attempt and the clock while the tokens are created and checked.\<close>

record mint =
  mi_sid :: string
  mi_access_jti :: string
  mi_refresh_jti :: string
  mi_issued :: instant
  mi_checked :: instant

record 't session_tokens =
  st_username :: string
  st_session_id :: string
  st_access :: 't
  st_refresh :: 't

definition user_by_id :: "int \<Rightarrow> auth_db \<Rightarrow> user_row option" where
  "user_by_id uid db = select_first (\<lambda>u. us_id u = uid) (ad_users db)"

definition user_by_name :: "string \<Rightarrow> auth_db \<Rightarrow> user_row option" where
  "user_by_name name db = select_first (\<lambda>u. us_username u = name) (ad_users db)"

definition session_by_id :: "string \<Rightarrow> session_table \<Rightarrow> auth_session option" where
  "session_by_id sid rows = select_first (\<lambda>s. as_id s = sid) rows"

definition session_live :: "instant \<Rightarrow> auth_session \<Rightarrow> bool" where
  "session_live now s \<longleftrightarrow> as_revoked s = None \<and> now < as_expires s"

definition is_erasure_pending_session :: "'t token_env \<Rightarrow> auth_session \<Rightarrow> bool" where
  "is_erasure_pending_session E s \<longleftrightarrow>
     as_revoked s \<noteq> None \<and> as_digest s = erasure_pending_digest E (as_id s)"

definition get_erasure_pending_session :: "'t token_env \<Rightarrow> int \<Rightarrow> auth_db \<Rightarrow> auth_session option" where
  "get_erasure_pending_session E uid db =
     select_first (\<lambda>s. as_user s = uid \<and> is_erasure_pending_session E s) (ad_sessions db)"

subsection \<open>Issuing a session\<close>

text \<open>\<open>_available_session_slot\<close>\<close>

definition live_of :: "instant \<Rightarrow> int \<Rightarrow> session_table \<Rightarrow> auth_session list" where
  "live_of now uid rows = filter (\<lambda>s. as_user s = uid \<and> session_live now s) rows"

definition purge_dead :: "instant \<Rightarrow> int \<Rightarrow> session_table \<Rightarrow> session_table" where
  "purge_dead now uid rows =
     delete_rows (\<lambda>s. as_user s = uid \<and> (as_revoked s \<noteq> None \<or> as_expires s \<le> now)) rows"

definition free_slot :: "session_table \<Rightarrow> nat option" where
  "free_slot active = find (\<lambda>k. k \<notin> as_slot ` set active) [0..<MAX_ACTIVE_REFRESH_SESSIONS]"

definition available_session_slot :: "instant \<Rightarrow> int \<Rightarrow> session_table \<Rightarrow> nat \<times> session_table" where
  "available_session_slot now uid rows =
     (let rows1 = purge_dead now uid rows;
          active = sort_key (\<lambda>s. (as_created s, as_id s)) (live_of now uid rows1) in
      case free_slot active of
        Some k \<Rightarrow> (k, rows1)
      | None \<Rightarrow> (let oldest = hd active in
          (as_slot oldest, delete_rows (\<lambda>s. as_id s = as_id oldest) rows1)))"

text \<open>The constraints of the table: primary key, unique slot per user, unique digest.\<close>

definition session_collides :: "session_table \<Rightarrow> auth_session \<Rightarrow> bool" where
  "session_collides rows s \<longleftrightarrow>
     (\<exists>r \<in> set rows. as_id r = as_id s \<or> as_digest r = as_digest s
        \<or> (as_user r = as_user s \<and> as_slot r = as_slot s))
     \<or> MAX_ACTIVE_REFRESH_SESSIONS \<le> as_slot s"

definition new_session ::
  "'t token_env \<Rightarrow> instant \<Rightarrow> mint \<Rightarrow> int \<Rightarrow> nat \<Rightarrow> token_state \<Rightarrow> auth_session" where
  "new_session E now m uid slot st =
     \<lparr>as_id = mi_sid m, as_user = uid, as_slot = slot, as_digest = ts_digest st,
      as_expires = ts_expires st, as_revoked = None, as_created = now, as_updated = now\<rparr>"

datatype 't attempt = Retry | Failed auth_error | Issued "'t session_tokens" auth_db

definition issue_attempt :: "'t token_env \<Rightarrow> instant \<Rightarrow> mint \<Rightarrow> int \<Rightarrow> auth_db \<Rightarrow> 't attempt" where
  "issue_attempt E now m uid db =
     (case user_by_id uid db of
        None \<Rightarrow> Failed (MaintenancePending ''Complete pending local-data maintenance before signing in'')
      | Some u \<Rightarrow>
          if us_vault u \<noteq> Ready
          then Failed (MaintenancePending ''Complete pending local-data maintenance before signing in'')
          else (case available_session_slot now (us_id u) (ad_sessions db) of (slot, rows) \<Rightarrow>
            (case (create_access_token E (us_username u) (mi_sid m) PURPOSE_SESSION (mi_access_jti m) (mi_issued m),
                   create_refresh_token E (us_username u) (mi_sid m) (mi_refresh_jti m) (mi_issued m)) of
               (Some access, Some refresh) \<Rightarrow>
                 (case token_state_of E (mi_checked m) refresh of
                    None \<Rightarrow> Failed (RuntimeFailure ''Generated refresh token failed validation'')
                  | Some st \<Rightarrow>
                      if ts_sid st \<noteq> mi_sid m
                      then Failed (RuntimeFailure ''Generated auth session identifier changed unexpectedly'')
                      else let s = new_session E now m (us_id u) slot st in
                        if session_collides rows s then Retry
                        else Issued \<lparr>st_username = us_username u, st_session_id = mi_sid m,
                                     st_access = access, st_refresh = refresh\<rparr>
                               (db\<lparr>ad_sessions := rows @ [s]\<rparr>))
             | _ \<Rightarrow> Failed ValueFailure)))"

fun issue_loop :: "'t token_env \<Rightarrow> (instant \<times> mint) list \<Rightarrow> int \<Rightarrow> auth_db \<Rightarrow> (auth_error + 't session_tokens) \<times> auth_db" where
  "issue_loop E [] uid db = (Inl (RuntimeFailure ''Could not allocate a bounded refresh session''), db)"
| "issue_loop E ((now, m) # draws) uid db =
     (case issue_attempt E now m uid db of
        Retry \<Rightarrow> issue_loop E draws uid db
      | Failed e \<Rightarrow> (Inl e, db)
      | Issued t db' \<Rightarrow> (Inr t, db'))"

definition issue_auth_session ::
  "'t token_env \<Rightarrow> (nat \<Rightarrow> instant \<times> mint) \<Rightarrow> int \<Rightarrow> auth_db \<Rightarrow> (auth_error + 't session_tokens) \<times> auth_db" where
  "issue_auth_session E draws uid db = issue_loop E (map draws [0..<ISSUE_ATTEMPTS]) uid db"

subsection \<open>Refresh rotation\<close>

text \<open>The first transaction of \<open>rotate_refresh_session\<close>: \<open>RotateStop\<close> where it returns or raises.\<close>

datatype 't rotation =
    RotateStop
  | RotateError auth_error
  | Rotated "'t session_tokens"
  | RotateLost int

definition rotate_match :: "instant \<Rightarrow> token_state \<Rightarrow> int \<Rightarrow> auth_session \<Rightarrow> bool" where
  "rotate_match now st uid s \<longleftrightarrow> as_id s = ts_sid st \<and> as_user s = uid \<and> as_digest s = ts_digest st
     \<and> as_revoked s = None \<and> now < as_expires s"

definition digest_taken :: "(auth_session \<Rightarrow> bool) \<Rightarrow> string \<Rightarrow> session_table \<Rightarrow> bool" where
  "digest_taken hit d rows \<longleftrightarrow> (\<exists>r \<in> set rows. \<not> hit r \<and> as_digest r = d)"

definition rotate_update ::
  "'t token_env \<Rightarrow> instant \<Rightarrow> mint \<Rightarrow> token_state \<Rightarrow> auth_db \<Rightarrow> 't rotation \<times> auth_db" where
  "rotate_update E now m st db =
     (case user_by_name (ts_sub st) db of
        None \<Rightarrow> (RotateStop, db)
      | Some u \<Rightarrow>
          if us_vault u \<noteq> Ready then (RotateStop, db)
          else (case (create_refresh_token E (ts_sub st) (ts_sid st) (mi_refresh_jti m) (mi_issued m),
                      create_access_token E (ts_sub st) (ts_sid st) PURPOSE_SESSION (mi_access_jti m) (mi_issued m)) of
             (Some refresh, Some access) \<Rightarrow>
               (case token_state_of E (mi_checked m) refresh of
                  None \<Rightarrow> (RotateError (RuntimeFailure ''Generated refresh token failed validation''), db)
                | Some new \<Rightarrow>
                    let hit = rotate_match now st (us_id u) in
                    if row_count hit (ad_sessions db) = 1
                    then if digest_taken hit (ts_digest new) (ad_sessions db)
                      then (RotateError IntegrityFailure, db)
                      else (Rotated \<lparr>st_username = ts_sub st, st_session_id = ts_sid st,
                                   st_access = access, st_refresh = refresh\<rparr>,
                          db\<lparr>ad_sessions := update_rows hit
                            (\<lambda>s. s\<lparr>as_digest := ts_digest new, as_expires := ts_expires new,
                                  as_updated := now\<rparr>) (ad_sessions db)\<rparr>)
                    else (RotateLost (us_id u), db))
           | _ \<Rightarrow> (RotateError ValueFailure, db)))"

text \<open>The second transaction: an old token of a live family revokes the family.\<close>

definition rotate_inspect :: "instant \<Rightarrow> token_state \<Rightarrow> int \<Rightarrow> auth_db \<Rightarrow> auth_db" where
  "rotate_inspect now st uid db =
     (case session_by_id (ts_sid st) (ad_sessions db) of
        None \<Rightarrow> db
      | Some s \<Rightarrow>
          if as_user s = uid \<and> as_revoked s = None \<and> now < as_expires s \<and> as_digest s \<noteq> ts_digest st
          then db\<lparr>ad_sessions := update_rows
                 (\<lambda>r. as_id r = ts_sid st \<and> as_user r = uid \<and> as_revoked r = None)
                 (\<lambda>r. r\<lparr>as_revoked := Some now, as_updated := now\<rparr>) (ad_sessions db)\<rparr>
          else db)"

definition rotate_refresh_session ::
  "'t token_env \<Rightarrow> instant \<Rightarrow> instant \<Rightarrow> mint \<Rightarrow> (auth_db \<Rightarrow> auth_db) \<Rightarrow> 't \<Rightarrow> auth_db
     \<Rightarrow> (auth_error + 't session_tokens option) \<times> auth_db" where
  "rotate_refresh_session E received now m env token db =
     (case token_state_of E received token of
        None \<Rightarrow> (Inr None, db)
      | Some st \<Rightarrow>
          (case rotate_update E now m st db of
             (RotateStop, db') \<Rightarrow> (Inr None, db')
           | (RotateError e, db') \<Rightarrow> (Inl e, db')
           | (Rotated t, db') \<Rightarrow> (Inr (Some t), db')
           | (RotateLost uid, db') \<Rightarrow> (Inr None, rotate_inspect now st uid (env db'))))"

subsection \<open>Logout\<close>

type_synonym binding = "string \<times> string"

definition refresh_binding :: "'t token_env \<Rightarrow> instant \<Rightarrow> 't option \<Rightarrow> binding list" where
  "refresh_binding E now token =
     (case token of None \<Rightarrow> [] | Some t \<Rightarrow>
        case token_state_of E now t of None \<Rightarrow> [] | Some st \<Rightarrow> [(ts_sub st, ts_sid st)])"

definition access_binding :: "'t token_env \<Rightarrow> instant \<Rightarrow> 't option \<Rightarrow> binding list" where
  "access_binding E now token =
     (case token of None \<Rightarrow> [] | Some t \<Rightarrow>
        case decode_access_token E now t of
          None \<Rightarrow> []
        | Some p \<Rightarrow> (case (text_claim p ''sub'', text_claim p ''sid'') of
            (Some sub, Some sid) \<Rightarrow> [(sub, sid)] | _ \<Rightarrow> []))"

definition revoke_binding :: "'t token_env \<Rightarrow> instant \<Rightarrow> binding \<Rightarrow> nat \<times> auth_db \<Rightarrow> nat \<times> auth_db" where
  "revoke_binding E now b state =
     (case b of (name, sid) \<Rightarrow> case state of (n, db) \<Rightarrow>
        (case user_by_name name db of
           None \<Rightarrow> (n, db)
         | Some u \<Rightarrow>
             let rows = ad_sessions db; uid = us_id u;
                 pending = (case session_by_id sid rows of None \<Rightarrow> False
                   | Some s \<Rightarrow> as_user s = uid \<and> is_erasure_pending_session E s);
                 doomed = (\<lambda>r. as_id r = sid \<and> as_user r = uid
                   \<and> as_digest r = erasure_pending_digest E sid);
                 live = (\<lambda>r. as_id r = sid \<and> as_user r = uid \<and> as_revoked r = None) in
             if pending
             then (n + row_count doomed rows, db\<lparr>ad_sessions := delete_rows doomed rows\<rparr>)
             else (n + row_count live rows, db\<lparr>ad_sessions := update_rows live
                    (\<lambda>r. r\<lparr>as_revoked := Some now, as_updated := now\<rparr>) rows\<rparr>)))"

text \<open>The bindings are a set: a pair that both tokens name is revoked once, in either order.\<close>

definition revoke_presented_sessions ::
  "'t token_env \<Rightarrow> instant \<Rightarrow> instant \<Rightarrow> 't option \<Rightarrow> 't option \<Rightarrow> auth_db \<Rightarrow> nat \<times> auth_db" where
  "revoke_presented_sessions E received now refresh access db =
     fold (revoke_binding E now)
       (remdups (refresh_binding E received refresh @ access_binding E received access)) (0, db)"

definition revoke_refresh_session :: "'t token_env \<Rightarrow> instant \<Rightarrow> instant \<Rightarrow> 't \<Rightarrow> auth_db \<Rightarrow> bool \<times> auth_db" where
  "revoke_refresh_session E received now token db =
     (case revoke_presented_sessions E received now (Some token) None db of (n, db') \<Rightarrow> (0 < n, db'))"

definition revoke_access_session :: "'t token_env \<Rightarrow> instant \<Rightarrow> instant \<Rightarrow> 't \<Rightarrow> auth_db \<Rightarrow> bool \<times> auth_db" where
  "revoke_access_session E received now token db =
     (case revoke_presented_sessions E received now None (Some token) db of (n, db') \<Rightarrow> (0 < n, db'))"

subsection \<open>Maintenance access\<close>

record 't maintenance_token =
  mt_username :: string
  mt_session_id :: string
  mt_access :: 't
  mt_state :: vault_state

definition usable_for :: "'t token_env \<Rightarrow> vault_state \<Rightarrow> instant \<Rightarrow> auth_session \<Rightarrow> bool" where
  "usable_for E v now s \<longleftrightarrow>
     (if v = ErasurePending then is_erasure_pending_session E s else session_live now s)"

definition maintenance_session ::
  "'t token_env \<Rightarrow> vault_state \<Rightarrow> instant \<Rightarrow> mint \<Rightarrow> int \<Rightarrow> token_state \<Rightarrow> auth_session" where
  "maintenance_session E v now m uid st =
     \<lparr>as_id = mi_sid m, as_user = uid, as_slot = 0,
      as_digest = (if v = ErasurePending then erasure_pending_digest E (mi_sid m) else ts_digest st),
      as_expires = ts_expires st,
      as_revoked = (if v = ErasurePending then Some now else None),
      as_created = now, as_updated = now\<rparr>"

text \<open>The user object was loaded by the caller; the session rows are read here.\<close>

definition issue_maintenance_access ::
  "'t token_env \<Rightarrow> instant \<Rightarrow> mint \<Rightarrow> user_row \<Rightarrow> auth_db \<Rightarrow> (auth_error + 't maintenance_token) \<times> auth_db" where
  "issue_maintenance_access E now m u db =
     (let v = us_vault u; uid = us_id u; rows = ad_sessions db;
          access = (\<lambda>sid. create_access_token E (us_username u) sid PURPOSE_MAINTENANCE (mi_access_jti m) (mi_issued m));
          refresh = (\<lambda>sid. create_refresh_token E (us_username u) sid (mi_refresh_jti m) (mi_issued m));
          answer = (\<lambda>sid db'. case access sid of
             None \<Rightarrow> (Inl ValueFailure, db)
           | Some a \<Rightarrow> (Inr \<lparr>mt_username = us_username u, mt_session_id = sid, mt_access = a, mt_state = v\<rparr>, db'));
          failed = Inl (RuntimeFailure ''Generated maintenance session failed validation'') in
      if v = Ready then (Inl (MaintenancePending ''The vault has no pending maintenance''), db)
      else (case select_first (\<lambda>s. as_user s = uid \<and> usable_for E v now s) rows of
        None \<Rightarrow>
          (case refresh (mi_sid m) of
             None \<Rightarrow> (Inl ValueFailure, db)
           | Some t \<Rightarrow>
               (case token_state_of E (mi_checked m) t of
                  None \<Rightarrow> (failed, db)
                | Some st \<Rightarrow>
                    let rows1 = delete_rows (\<lambda>s. as_user s = uid) rows;
                        s = maintenance_session E v now m uid st in
                    if session_collides rows1 s then (Inl IntegrityFailure, db)
                    else answer (mi_sid m) (db\<lparr>ad_sessions := rows1 @ [s]\<rparr>)))
      | Some s \<Rightarrow>
          if now < as_expires s then answer (as_id s) db
          else (case refresh (as_id s) of
             None \<Rightarrow> (Inl ValueFailure, db)
           | Some t \<Rightarrow>
               (case token_state_of E (mi_checked m) t of
                  None \<Rightarrow> (failed, db)
                | Some st \<Rightarrow>
                    answer (as_id s) (db\<lparr>ad_sessions := update_rows (\<lambda>r. as_id r = as_id s)
                      (\<lambda>r. r\<lparr>as_expires := ts_expires st, as_updated := now\<rparr>) rows\<rparr>)))))"

lemmas auth_operation_defs [session_defs] =
  issue_attempt_def issue_auth_session_def rotate_update_def rotate_inspect_def
  rotate_refresh_session_def revoke_binding_def revoke_presented_sessions_def
  issue_maintenance_access_def

end
