(* ===== verification/Maintenance.thy ===== *)
theory Maintenance
  imports AuthSessions
begin

text \<open>
  The lifecycle of the vault and the authority it leaves to browsers: the
  durable guard of reset, restore and erasure (\<open>career/deletion.py\<close> and the end
  of a restore in \<open>portability/restore.py\<close>), the bearer checks of
  \<open>api/deps.py\<close>, and login and token refresh of \<open>api/routes/auth.py\<close>.
\<close>

subsection \<open>Errors\<close>

datatype vault_error = VaultDeletionError string | VaultMaintenanceConflict string | VaultIntegrityFailure

type_synonym 'a vault_result = "vault_error + 'a"

definition put_user :: "int \<Rightarrow> (user_row \<Rightarrow> user_row) \<Rightarrow> auth_db \<Rightarrow> auth_db" where
  "put_user uid f db = db\<lparr>ad_users := update_rows (\<lambda>u. us_id u = uid) f (ad_users db)\<rparr>"

definition put_sessions :: "(session_table \<Rightarrow> session_table) \<Rightarrow> auth_db \<Rightarrow> auth_db" where
  "put_sessions f db = db\<lparr>ad_sessions := f (ad_sessions db)\<rparr>"

subsection \<open>Beginning maintenance\<close>

definition revoke_others :: "instant \<Rightarrow> int \<Rightarrow> string \<Rightarrow> session_table \<Rightarrow> session_table" where
  "revoke_others now uid sid rows =
     update_rows (\<lambda>s. as_user s = uid \<and> as_id s \<noteq> sid \<and> as_revoked s = None)
       (\<lambda>s. s\<lparr>as_revoked := Some now, as_updated := now\<rparr>) rows"

definition current_session :: "int \<Rightarrow> string \<Rightarrow> session_table \<Rightarrow> auth_session option" where
  "current_session uid sid rows = select_first (\<lambda>s. as_user s = uid \<and> as_id s = sid) rows"

definition begin_erasure_pending ::
  "'t token_env \<Rightarrow> instant \<Rightarrow> int \<Rightarrow> string \<Rightarrow> session_table \<Rightarrow> session_table vault_result" where
  "begin_erasure_pending E now uid sid rows =
     (case current_session uid sid rows of
        None \<Rightarrow> Inl (VaultMaintenanceConflict ''The erasure authority is no longer valid'')
      | Some current \<Rightarrow>
          if (as_revoked current \<noteq> None \<and> \<not> is_erasure_pending_session E current)
             \<or> as_expires current \<le> now
          then Inl (VaultMaintenanceConflict ''The erasure authority is no longer valid'')
          else if digest_taken (\<lambda>s. as_id s = sid) (erasure_pending_digest E sid) rows
          then Inl VaultIntegrityFailure
          else Inr (update_rows (\<lambda>s. as_user s = uid \<and> as_id s = sid)
            (\<lambda>s. s\<lparr>as_digest := erasure_pending_digest E sid,
                  as_revoked := Some (or_else (as_revoked s) now), as_updated := now\<rparr>)
            (revoke_others now uid sid rows)))"

definition begin_live_maintenance_pending ::
  "instant \<Rightarrow> int \<Rightarrow> string \<Rightarrow> session_table \<Rightarrow> session_table vault_result" where
  "begin_live_maintenance_pending now uid sid rows =
     (case current_session uid sid rows of
        None \<Rightarrow> Inl (VaultMaintenanceConflict ''The vault maintenance authority is no longer valid'')
      | Some current \<Rightarrow>
          if as_revoked current \<noteq> None \<or> as_expires current \<le> now
          then Inl (VaultMaintenanceConflict ''The vault maintenance authority is no longer valid'')
          else Inr (revoke_others now uid sid rows))"

definition valid_fingerprint :: "string \<Rightarrow> bool" where
  "valid_fingerprint f \<longleftrightarrow> length f = 64 \<and> (\<forall>c \<in> set f. c \<in> set ''0123456789abcdef'')"

definition fingerprint_ok :: "vault_state \<Rightarrow> string option \<Rightarrow> bool" where
  "fingerprint_ok target fp \<longleftrightarrow>
     (if target = RestorePending then (case fp of None \<Rightarrow> False | Some f \<Rightarrow> valid_fingerprint f)
      else fp = None)"

definition allowed_current_states :: "vault_state \<Rightarrow> vault_state list" where
  "allowed_current_states target =
     [Ready, target] @ (if target = ErasurePending then [ResetPending, RestorePending] else [])"

definition expected_purpose :: "vault_state \<Rightarrow> string" where
  "expected_purpose v = (if v = Ready then PURPOSE_SESSION else PURPOSE_MAINTENANCE)"

definition begin_vault_maintenance ::
  "'t token_env \<Rightarrow> instant \<Rightarrow> int \<Rightarrow> string \<Rightarrow> vault_state \<Rightarrow> string \<Rightarrow> string option \<Rightarrow> auth_db
     \<Rightarrow> bool vault_result \<times> auth_db" where
  "begin_vault_maintenance E now uid sid target purpose fp db =
     (if target = Ready then (Inl (VaultDeletionError ''Invalid vault maintenance state''), db)
      else if \<not> fingerprint_ok target fp
      then (Inl (VaultDeletionError
        (if target = RestorePending then ''Restore maintenance requires an archive fingerprint''
         else ''Only restore maintenance accepts a fingerprint'')), db)
      else if uid \<le> 0
      then (Inl (VaultDeletionError ''Invalid user identifier for vault deletion''), db)
      else (case user_by_id uid db of
        None \<Rightarrow> (Inl (VaultMaintenanceConflict ''The local account no longer exists''), db)
      | Some u \<Rightarrow>
          if us_vault u \<notin> set (allowed_current_states target)
          then (Inl (VaultMaintenanceConflict ''Another vault maintenance operation is pending''), db)
          else if purpose \<noteq> expected_purpose (us_vault u)
          then (Inl (VaultMaintenanceConflict ''The vault maintenance authority is stale''), db)
          else if target = RestorePending \<and> us_vault u = RestorePending \<and> us_fingerprint u \<noteq> fp
          then (Inl (VaultMaintenanceConflict ''Retry restore with the same verified archive''), db)
          else (case (if target = ErasurePending
                      then begin_erasure_pending E now uid sid (ad_sessions db)
                      else begin_live_maintenance_pending now uid sid (ad_sessions db)) of
            Inl e \<Rightarrow> (Inl e, db)
          | Inr rows \<Rightarrow>
              (Inr (us_vault u = Ready),
               put_user uid (\<lambda>u. u\<lparr>us_vault := target, us_fingerprint := fp\<rparr>)
                 (db\<lparr>ad_sessions := rows\<rparr>)))))"

subsection \<open>Ending maintenance\<close>

definition clear_vault_maintenance ::
  "int \<Rightarrow> vault_state \<Rightarrow> auth_db \<Rightarrow> unit vault_result \<times> auth_db" where
  "clear_vault_maintenance uid expected db =
     (if expected \<notin> {ResetPending, RestorePending}
      then (Inl (VaultDeletionError ''Invalid clearable vault maintenance state''), db)
      else if uid \<le> 0
      then (Inl (VaultDeletionError ''Invalid user identifier for vault deletion''), db)
      else let owned = (\<lambda>u. us_id u = uid \<and> us_vault u = expected) in
        if row_count owned (ad_users db) = 0
        then (case user_by_id uid db of
                None \<Rightarrow> (Inl (VaultDeletionError ''The local account no longer exists''), db)
              | Some u \<Rightarrow>
                  if us_vault u \<noteq> Ready
                  then (Inl (VaultMaintenanceConflict
                    ''A different vault maintenance operation is pending''), db)
                  else (Inr (), db))
        else (Inr (), db\<lparr>ad_users := update_rows owned
               (\<lambda>u. u\<lparr>us_vault := Ready, us_fingerprint := None\<rparr>) (ad_users db)\<rparr>))"

text \<open>
  The tail of \<open>delete_complete_vault\<close> once the private data is gone: an erasure
  removes every session and makes the vault ready, a reset checks the presented
  family once more, revokes the others and clears its guard in one commit.
\<close>

definition remove_auth_sessions_after_cleanup ::
  "int \<Rightarrow> auth_db \<Rightarrow> nat vault_result \<times> auth_db" where
  "remove_auth_sessions_after_cleanup uid db =
     (let owned = (\<lambda>s. as_user s = uid) in
      case user_by_id uid db of
        None \<Rightarrow> (Inl (VaultDeletionError ''Private data cleanup completed, but session finalization failed''), db)
      | Some u \<Rightarrow>
          (Inr (row_count owned (ad_sessions db)),
           put_user uid (\<lambda>u. u\<lparr>us_vault := Ready, us_fingerprint := None\<rparr>)
             (put_sessions (delete_rows owned) db)))"

definition finish_reset :: "instant \<Rightarrow> int \<Rightarrow> string \<Rightarrow> auth_db \<Rightarrow> unit vault_result \<times> auth_db" where
  "finish_reset now uid sid db =
     (case begin_live_maintenance_pending now uid sid (ad_sessions db) of
        Inl e \<Rightarrow> (Inl e, db)
      | Inr rows \<Rightarrow>
          (case clear_vault_maintenance uid ResetPending (db\<lparr>ad_sessions := rows\<rparr>) of
             (Inl e, _) \<Rightarrow> (Inl e, db)
           | (Inr x, db') \<Rightarrow> (Inr x, db')))"

text \<open>The end of a restore revokes every family of the user and makes the vault ready.\<close>

definition finish_restore :: "instant \<Rightarrow> int \<Rightarrow> auth_db \<Rightarrow> auth_db" where
  "finish_restore now uid db =
     put_user uid (\<lambda>u. u\<lparr>us_vault := Ready, us_fingerprint := None\<rparr>)
       (put_sessions (update_rows (\<lambda>s. as_user s = uid \<and> as_revoked s = None)
          (\<lambda>s. s\<lparr>as_revoked := Some now\<rparr>)) db)"

subsection \<open>Bearer checks\<close>

definition get_current_user_id :: "'t token_env \<Rightarrow> instant \<Rightarrow> 't \<Rightarrow> auth_db \<Rightarrow> int option" where
  "get_current_user_id E now token db =
     (case decode_access_token E now token of
        None \<Rightarrow> None
      | Some p \<Rightarrow>
          (case (text_claim p ''sub'', text_claim p ''sid'', text_claim p ''purpose'') of
             (Some sub, Some sid, Some purpose) \<Rightarrow>
               if purpose \<noteq> PURPOSE_SESSION then None
               else map_option as_user
                 (select_first (\<lambda>s. as_id s = sid \<and> session_live now s
                    \<and> (\<exists>u \<in> set (ad_users db). us_id u = as_user s \<and> us_username u = sub
                         \<and> us_vault u = Ready)) (ad_sessions db))
           | _ \<Rightarrow> None))"

record authority =
  au_user :: int
  au_session :: string
  au_state :: vault_state
  au_purpose :: string

definition valid_authority :: "'t token_env \<Rightarrow> vault_state \<Rightarrow> string \<Rightarrow> auth_session \<Rightarrow> bool" where
  "valid_authority E v purpose s \<longleftrightarrow>
     (v = Ready \<and> purpose = PURPOSE_SESSION \<and> as_revoked s = None)
     \<or> (v \<in> {ResetPending, RestorePending} \<and> purpose = PURPOSE_MAINTENANCE \<and> as_revoked s = None)
     \<or> (v = ErasurePending \<and> purpose = PURPOSE_MAINTENANCE \<and> is_erasure_pending_session E s)"

definition get_vault_maintenance_authority ::
  "'t token_env \<Rightarrow> instant \<Rightarrow> 't \<Rightarrow> auth_db \<Rightarrow> authority option" where
  "get_vault_maintenance_authority E now token db =
     (case decode_access_token E now token of
        None \<Rightarrow> None
      | Some p \<Rightarrow>
          (case (text_claim p ''sub'', text_claim p ''sid'', text_claim p ''purpose'') of
             (Some sub, Some sid, Some purpose) \<Rightarrow>
               (case (session_by_id sid (ad_sessions db), user_by_name sub db) of
                  (Some s, Some u) \<Rightarrow>
                    if us_id u = as_user s \<and> now < as_expires s \<and> valid_authority E (us_vault u) purpose s
                    then Some \<lparr>au_user = as_user s, au_session = as_id s, au_state = us_vault u,
                               au_purpose = purpose\<rparr>
                    else None
                | _ \<Rightarrow> None)
           | _ \<Rightarrow> None))"

definition require_vault_maintenance_operation :: "authority \<Rightarrow> vault_state \<Rightarrow> bool" where
  "require_vault_maintenance_operation a pending \<longleftrightarrow>
     au_state a \<in> {Ready, pending}
       \<union> (if pending = ErasurePending then {ResetPending, RestorePending} else {})"

subsection \<open>Login\<close>

datatype 't login_answer =
    LoggedIn "'t session_tokens"
  | MaintenanceOnly "'t maintenance_token"
  | Unauthorized
  | LoginFailed auth_error

text \<open>
  After the password check: \<open>u\<close> is the user row as the request read it, and
  \<open>env\<close> what other requests commit before the session is issued.
\<close>

definition maintenance_answer :: "(auth_error + 't maintenance_token) \<times> auth_db \<Rightarrow> 't login_answer \<times> auth_db" where
  "maintenance_answer r =
     (case r of (Inl e, db) \<Rightarrow> (LoginFailed e, db) | (Inr t, db) \<Rightarrow> (MaintenanceOnly t, db))"

definition login ::
  "'t token_env \<Rightarrow> (nat \<Rightarrow> instant \<times> mint) \<Rightarrow> instant \<times> mint \<Rightarrow> user_row \<Rightarrow> (auth_db \<Rightarrow> auth_db) \<Rightarrow> auth_db
     \<Rightarrow> 't login_answer \<times> auth_db" where
  "login E draws spare u env db =
     (if us_vault u \<noteq> Ready
      then maintenance_answer (issue_maintenance_access E (fst spare) (snd spare) u db)
      else (case issue_auth_session E draws (us_id u) (env db) of
        (Inr t, db') \<Rightarrow> (LoggedIn t, db')
      | (Inl (MaintenancePending _), db') \<Rightarrow>
          (case user_by_id (us_id u) db' of
             None \<Rightarrow> (Unauthorized, db')
           | Some current \<Rightarrow>
               maintenance_answer (issue_maintenance_access E (fst spare) (snd spare) current db'))
      | (Inl e, db') \<Rightarrow> (LoginFailed e, db')))"

lemmas maintenance_operation_defs [session_defs] =
  begin_vault_maintenance_def begin_erasure_pending_def begin_live_maintenance_pending_def
  clear_vault_maintenance_def remove_auth_sessions_after_cleanup_def finish_reset_def
  finish_restore_def put_user_def put_sessions_def revoke_others_def current_session_def

end
