(* ===== verification/AuthHistory.thy ===== *)
theory AuthHistory
  imports Maintenance
begin

text \<open>
  Histories of browser sessions. What any operation can do to the session table
  is abstracted by \<open>evolves\<close>: deleting, revoking, rotating, marking for erasure,
  renewing and inserting rows under the conditions that the code checks. Every
  operation implements it (\<open>apply_evolves\<close>), so an invariant or a lasting fact
  is proved once for the six changes and holds of all interleavings.
\<close>

subsection \<open>Events\<close>

datatype 't auth_event =
    Issue "nat \<Rightarrow> instant \<times> mint" int
  | RotateFirst instant instant mint 't
  | RotateSecond instant instant 't int
  | Logout instant instant "'t option" "'t option"
  | MaintenanceAccess instant mint user_row
  | BeginMaintenance instant int string vault_state string "string option"
  | ClearMaintenance int vault_state
  | FinishErasure int
  | FinishReset instant int string
  | FinishRestore instant int

definition vault_of :: "int \<Rightarrow> auth_db \<Rightarrow> vault_state option" where
  "vault_of uid db = map_option us_vault (user_by_id uid db)"

text \<open>
  The three completions run in a route that has taken the maintenance gate, has set
  the pending state and keeps the gate until its commit. \<open>remove_auth_sessions_after_cleanup\<close>
  and \<open>finish_reset\<close> are reached only after their routes have read the pending state;
  \<open>_restore_transaction\<close> does not read it, and sets the vault ready because
  \<open>begin_vault_maintenance\<close> made it \<open>RestorePending\<close> under the same gate. The guards below
  state what the gate gives: outside it no event touches a vault state, so the state
  a route has set is still there at its commit (\<open>gate_free_keeps_vault\<close>,
  \<open>restore_still_pending\<close> in AuthMaintenance).
\<close>

fun auth_apply :: "'t token_env \<Rightarrow> 't auth_event \<Rightarrow> auth_db \<Rightarrow> auth_db" where
  "auth_apply E (Issue draws uid) db = snd (issue_auth_session E draws uid db)"
| "auth_apply E (RotateFirst received now m token) db =
     (case token_state_of E received token of None \<Rightarrow> db | Some st \<Rightarrow> snd (rotate_update E now m st db))"
| "auth_apply E (RotateSecond received now token uid) db =
     (case token_state_of E received token of None \<Rightarrow> db | Some st \<Rightarrow> rotate_inspect now st uid db)"
| "auth_apply E (Logout received now refresh access) db =
     snd (revoke_presented_sessions E received now refresh access db)"
| "auth_apply E (MaintenanceAccess now m u) db = snd (issue_maintenance_access E now m u db)"
| "auth_apply E (BeginMaintenance now uid sid target purpose fp) db =
     snd (begin_vault_maintenance E now uid sid target purpose fp db)"
| "auth_apply E (ClearMaintenance uid expected) db = snd (clear_vault_maintenance uid expected db)"
| "auth_apply E (FinishErasure uid) db =
     (if vault_of uid db = Some ErasurePending then snd (remove_auth_sessions_after_cleanup uid db) else db)"
| "auth_apply E (FinishReset now uid sid) db =
     (if vault_of uid db = Some ResetPending then snd (finish_reset now uid sid db) else db)"
| "auth_apply E (FinishRestore now uid) db =
     (if vault_of uid db = Some RestorePending then finish_restore now uid db else db)"

definition auth_run :: "'t token_env \<Rightarrow> 't auth_event list \<Rightarrow> auth_db \<Rightarrow> auth_db" where
  "auth_run E es db = fold (auth_apply E) es db"

text \<open>The refresh identifiers and family identifiers that an event draws at random.\<close>

fun drawn_jtis :: "'t auth_event \<Rightarrow> string set" where
  "drawn_jtis (Issue draws uid) = (\<lambda>i. mi_refresh_jti (snd (draws i))) ` {0, 1, 2}"
| "drawn_jtis (RotateFirst received now m token) = {mi_refresh_jti m}"
| "drawn_jtis (MaintenanceAccess now m u) = {mi_refresh_jti m}"
| "drawn_jtis _ = {}"

fun drawn_sids :: "'t auth_event \<Rightarrow> string set" where
  "drawn_sids (Issue draws uid) = (\<lambda>i. mi_sid (snd (draws i))) ` {0, 1, 2}"
| "drawn_sids (MaintenanceAccess now m u) = {mi_sid m}"
| "drawn_sids _ = {}"

subsection \<open>What happens to the session table\<close>

inductive evolves ::
  "'t token_env \<Rightarrow> string set \<Rightarrow> string set \<Rightarrow> session_table \<Rightarrow> session_table \<Rightarrow> bool"
  for E :: "'t token_env" and J S :: "string set" and rows :: session_table where
  ev_same: "evolves E J S rows rows"
| ev_delete: "evolves E J S rows rs \<Longrightarrow> evolves E J S rows (delete_rows p rs)"
| ev_revoke: "evolves E J S rows rs \<Longrightarrow> (\<And>r. p r \<Longrightarrow> as_revoked r = None) \<Longrightarrow>
    evolves E J S rows
      (update_rows p (\<lambda>r. r\<lparr>as_revoked := Some now, as_updated := upd r\<rparr>) rs)"
| ev_rotate: "evolves E J S rows rs \<Longrightarrow> (\<And>r. p r \<Longrightarrow> as_revoked r = None \<and> as_id r = sid) \<Longrightarrow>
    jti \<in> J \<Longrightarrow> token_identifier jti \<Longrightarrow> \<not> digest_taken p (jti_digest E jti) rs \<Longrightarrow>
    evolves E J S rows
      (update_rows p (\<lambda>r. r\<lparr>as_digest := jti_digest E jti, as_expires := e, as_updated := now\<rparr>) rs)"
| ev_mark: "evolves E J S rows rs \<Longrightarrow>
    (\<And>r. r \<in> set rs \<Longrightarrow> p r \<Longrightarrow> as_id r = sid \<and> (as_revoked r = None \<or> as_digest r = erasure_pending_digest E sid)) \<Longrightarrow>
    \<not> digest_taken (\<lambda>r. as_id r = sid) (erasure_pending_digest E sid) rs \<Longrightarrow>
    evolves E J S rows
      (update_rows p (\<lambda>r. r\<lparr>as_digest := erasure_pending_digest E sid,
                            as_revoked := Some (or_else (as_revoked r) now), as_updated := now\<rparr>) rs)"
| ev_renew: "evolves E J S rows rs \<Longrightarrow>
    evolves E J S rows (update_rows p (\<lambda>r. r\<lparr>as_expires := e, as_updated := now\<rparr>) rs)"
| ev_insert: "evolves E J S rows rs \<Longrightarrow> \<not> session_collides rs s \<Longrightarrow> as_id s \<in> S \<Longrightarrow>
    (as_revoked s = None \<and> (\<exists>jti \<in> J. token_identifier jti \<and> as_digest s = jti_digest E jti))
      \<or> (as_revoked s \<noteq> None \<and> as_digest s = erasure_pending_digest E (as_id s)) \<Longrightarrow>
    evolves E J S rows (rs @ [s])"

lemma evolves_trans: "evolves E J S b c \<Longrightarrow> evolves E J S a b \<Longrightarrow> evolves E J S a c"
  by (induction rule: evolves.induct) (auto intro: evolves.intros)

lemma evolves_mono:
  assumes "evolves E J S a b" and "J \<subseteq> J'" and "S \<subseteq> S'"
  shows "evolves E J' S' a b"
  using assms(1)
proof (induction rule: evolves.induct)
  case (ev_rotate rs p sid jti e now)
  with assms(2) show ?case by (intro evolves.ev_rotate) auto
next
  case (ev_insert rs s)
  with assms(2,3) show ?case by (intro evolves.ev_insert) auto
qed (auto intro: evolves.intros)

subsection \<open>Every operation implements it\<close>

lemma ev_revoke_same:
  "evolves E J S rows rs \<Longrightarrow> (\<And>r. p r \<Longrightarrow> as_revoked r = None) \<Longrightarrow>
    evolves E J S rows (update_rows p (\<lambda>r. r\<lparr>as_revoked := Some now\<rparr>) rs)"
  using ev_revoke [where E = E and now = now and upd = as_updated] by simp

lemma slot_evolves:
  "available_session_slot now uid rows = (k, rs) \<Longrightarrow> evolves E J S rows rs"
  by (auto simp: available_session_slot_def purge_dead_def Let_def
      intro!: ev_delete ev_same split: option.splits)

lemma attempt_issued:
  assumes "issue_attempt E now m uid db = Issued t db'"
  obtains u k rs access refresh st where "user_by_id uid db = Some u" "us_vault u = Ready"
    "available_session_slot now (us_id u) (ad_sessions db) = (k, rs)"
    "create_access_token E (us_username u) (mi_sid m) PURPOSE_SESSION (mi_access_jti m) (mi_issued m) = Some access"
    "create_refresh_token E (us_username u) (mi_sid m) (mi_refresh_jti m) (mi_issued m) = Some refresh"
    "token_state_of E (mi_checked m) refresh = Some st"
    "\<not> session_collides rs (new_session E now m (us_id u) k st)"
    "t = \<lparr>st_username = us_username u, st_session_id = mi_sid m, st_access = access, st_refresh = refresh\<rparr>"
    "db' = db\<lparr>ad_sessions := rs @ [new_session E now m (us_id u) k st]\<rparr>"
  using assms
  by (cases "user_by_id uid db"; cases "available_session_slot now uid (ad_sessions db)")
    (fastforce simp: issue_attempt_def Let_def split: option.splits if_splits prod.splits)+

lemma attempt_evolves:
  assumes "jwt_faithful E" and "issue_attempt E now m uid db = Issued t db'"
  shows "evolves E {mi_refresh_jti m} {mi_sid m} (ad_sessions db) (ad_sessions db')"
proof (rule attempt_issued [OF assms(2)])
  fix u k rs access refresh st
  assume slot: "available_session_slot now (us_id u) (ad_sessions db) = (k, rs)"
    and refresh: "create_refresh_token E (us_username u) (mi_sid m) (mi_refresh_jti m) (mi_issued m) = Some refresh"
    and st: "token_state_of E (mi_checked m) refresh = Some st"
    and free: "\<not> session_collides rs (new_session E now m (us_id u) k st)"
    and db': "db' = db\<lparr>ad_sessions := rs @ [new_session E now m (us_id u) k st]\<rparr>"
  note dg = created_refresh_digest [OF assms(1) refresh st]
  have "evolves E {mi_refresh_jti m} {mi_sid m} (ad_sessions db) (rs @ [new_session E now m (us_id u) k st])"
    using slot_evolves [OF slot] free dg by (intro ev_insert) (auto simp: new_session_def)
  with db' show ?thesis by simp
qed

lemma issue_loop_evolves:
  assumes "jwt_faithful E" and "(\<lambda>d. mi_refresh_jti (snd d)) ` set draws \<subseteq> J"
    and "(\<lambda>d. mi_sid (snd d)) ` set draws \<subseteq> S"
  shows "evolves E J S (ad_sessions db) (ad_sessions (snd (issue_loop E draws uid db)))"
  using assms(2,3)
proof (induction draws)
  case Nil
  then show ?case by (simp add: ev_same)
next
  case (Cons d draws)
  obtain now m where d: "d = (now, m)" by (cases d)
  show ?case
  proof (cases "issue_attempt E now m uid db")
    case Retry
    with Cons d show ?thesis by simp
  next
    case (Failed e)
    with d show ?thesis by (simp add: ev_same)
  next
    case (Issued t db')
    from evolves_mono [OF attempt_evolves [OF assms(1) this], of J S] Cons.prems d Issued
    show ?thesis by simp
  qed
qed

lemma rotate_rotated:
  assumes "rotate_update E now m st db = (Rotated t, db')"
  obtains u refresh new where "user_by_name (ts_sub st) db = Some u" "us_vault u = Ready"
    "create_refresh_token E (ts_sub st) (ts_sid st) (mi_refresh_jti m) (mi_issued m) = Some refresh"
    "token_state_of E (mi_checked m) refresh = Some new"
    "row_count (rotate_match now st (us_id u)) (ad_sessions db) = 1"
    "\<not> digest_taken (rotate_match now st (us_id u)) (ts_digest new) (ad_sessions db)"
    "st_refresh t = refresh" "st_session_id t = ts_sid st"
    "db' = db\<lparr>ad_sessions := update_rows (rotate_match now st (us_id u))
      (\<lambda>s. s\<lparr>as_digest := ts_digest new, as_expires := ts_expires new, as_updated := now\<rparr>) (ad_sessions db)\<rparr>"
  using assms that by (auto simp: rotate_update_def Let_def split: option.splits if_splits)

lemma rotate_else:
  "rotate_update E now m st db = (r, db') \<Longrightarrow> \<nexists>t. r = Rotated t \<Longrightarrow> db' = db"
  by (auto simp: rotate_update_def Let_def split: option.splits if_splits)

lemma rotate_evolves:
  assumes "jwt_faithful E"
  shows "evolves E {mi_refresh_jti m} S (ad_sessions db) (ad_sessions (snd (rotate_update E now m st db)))"
proof -
  obtain r db' where r: "rotate_update E now m st db = (r, db')" by fastforce
  show ?thesis
  proof (cases "\<exists>t. r = Rotated t")
    case True
    with r obtain t where rotated: "rotate_update E now m st db = (Rotated t, db')" by auto
    show ?thesis
    proof (rule rotate_rotated [OF rotated])
      fix u refresh new
      assume refresh: "create_refresh_token E (ts_sub st) (ts_sid st) (mi_refresh_jti m) (mi_issued m) = Some refresh"
        and new: "token_state_of E (mi_checked m) refresh = Some new"
        and free: "\<not> digest_taken (rotate_match now st (us_id u)) (ts_digest new) (ad_sessions db)"
        and db': "db' = db\<lparr>ad_sessions := update_rows (rotate_match now st (us_id u))
          (\<lambda>s. s\<lparr>as_digest := ts_digest new, as_expires := ts_expires new, as_updated := now\<rparr>) (ad_sessions db)\<rparr>"
      note dg = created_refresh_digest [OF assms refresh new]
      show ?thesis unfolding r snd_conv db' dg(1) using free dg
        by (auto simp: rotate_match_def intro!: ev_rotate [where sid = "ts_sid st"] ev_same)
    qed
  next
    case False
    with rotate_else [OF r] r show ?thesis by (simp add: ev_same)
  qed
qed

lemma inspect_evolves: "evolves E J S (ad_sessions db) (ad_sessions (rotate_inspect now st uid db))"
  by (auto simp: rotate_inspect_def intro!: ev_revoke ev_same split: option.splits)

lemma binding_evolves:
  "evolves E J S rows (ad_sessions (snd state)) \<Longrightarrow>
    evolves E J S rows (ad_sessions (snd (revoke_binding E now b state)))"
  by (cases b; cases state) (auto simp: revoke_binding_def Let_def
      intro!: ev_revoke ev_delete split: option.splits)

lemma bindings_evolve:
  "evolves E J S rows (ad_sessions (snd state)) \<Longrightarrow>
    evolves E J S rows (ad_sessions (snd (fold (revoke_binding E now) bs state)))"
proof (induction bs arbitrary: state)
  case (Cons b bs)
  from Cons.IH [OF binding_evolves [OF Cons.prems]] show ?case by simp
qed simp

lemma revoke_others_evolves: "evolves E J S rows (revoke_others now uid sid rows)"
  by (auto simp: revoke_others_def intro!: ev_revoke ev_same)

lemma revoke_others_then: "evolves E J S rows rs \<Longrightarrow> evolves E J S rows (revoke_others now uid sid rs)"
  by (rule evolves_trans [OF revoke_others_evolves])

lemma maintenance_insert_evolves:
  assumes "jwt_faithful E" and "create_refresh_token E name (mi_sid m) (mi_refresh_jti m) (mi_issued m) = Some t"
    and "token_state_of E (mi_checked m) t = Some st"
    and "\<not> session_collides (delete_rows p rows) (maintenance_session E v now m uid st)"
  shows "evolves E {mi_refresh_jti m} {mi_sid m} rows (delete_rows p rows @ [maintenance_session E v now m uid st])"
  using created_refresh_digest [OF assms(1-3)] assms(4)
  by (intro ev_insert ev_delete ev_same) (auto simp: maintenance_session_def)

lemma maintenance_evolves:
  assumes "jwt_faithful E"
  shows "evolves E {mi_refresh_jti m} {mi_sid m} (ad_sessions db)
    (ad_sessions (snd (issue_maintenance_access E now m u db)))"
  using maintenance_insert_evolves [OF assms]
  by (auto simp: issue_maintenance_access_def Let_def intro: ev_same ev_renew split: option.splits)

lemma current_session_key:
  assumes "unique_by as_id rows" and "current_session uid sid rows = Some c"
  shows "r \<in> set rows \<Longrightarrow> as_id r = sid \<Longrightarrow> r = c"
  using assms unique_byD [OF assms(1)] by (auto simp: current_session_def dest!: select_first_Some)

lemma set_revoke_others:
  "r \<in> set (revoke_others now uid sid rows) \<Longrightarrow> as_id r = sid \<Longrightarrow> r \<in> set rows"
  by (auto simp: revoke_others_def set_update_rows)

lemma digest_taken_revoke_others:
  "digest_taken (\<lambda>s. as_id s = sid) d (revoke_others now uid sid' rows)
    \<longleftrightarrow> digest_taken (\<lambda>s. as_id s = sid) d rows"
  unfolding revoke_others_def by (induction rows) (auto simp: digest_taken_def)

lemma erasure_evolves:
  assumes "unique_by as_id rows" and "begin_erasure_pending E now uid sid rows = Inr rows'"
  shows "evolves E J S rows rows'"
proof -
  from assms(2) obtain c where c: "current_session uid sid rows = Some c"
    and ok: "as_revoked c = None \<or> is_erasure_pending_session E c"
    and free: "\<not> digest_taken (\<lambda>s. as_id s = sid) (erasure_pending_digest E sid) rows"
    and rows': "rows' = update_rows (\<lambda>s. as_user s = uid \<and> as_id s = sid)
      (\<lambda>s. s\<lparr>as_digest := erasure_pending_digest E sid, as_revoked := Some (or_else (as_revoked s) now),
            as_updated := now\<rparr>) (revoke_others now uid sid rows)"
    by (auto simp: begin_erasure_pending_def split: option.splits if_splits)
  have id: "as_id c = sid" using c by (auto simp: current_session_def dest: select_first_Some)
  show ?thesis unfolding rows'
  proof (rule ev_mark [OF revoke_others_evolves])
    fix r assume "r \<in> set (revoke_others now uid sid rows)" and "as_user r = uid \<and> as_id r = sid"
    with current_session_key [OF assms(1) c] set_revoke_others have "r = c" by blast
    with ok id show "as_id r = sid \<and> (as_revoked r = None \<or> as_digest r = erasure_pending_digest E sid)"
      by (auto simp: is_erasure_pending_session_def)
  qed (simp add: digest_taken_revoke_others free)
qed

lemma live_maintenance_rows:
  "begin_live_maintenance_pending now uid sid rows = Inr rows' \<Longrightarrow> rows' = revoke_others now uid sid rows"
  by (auto simp: begin_live_maintenance_pending_def split: option.splits if_splits)

lemma put_user_sessions [simp]: "ad_sessions (put_user uid f db) = ad_sessions db"
  by (simp add: put_user_def)

lemma put_sessions_sessions [simp]: "ad_sessions (put_sessions f db) = f (ad_sessions db)"
  by (simp add: put_sessions_def)

lemma begin_evolves:
  assumes "unique_by as_id (ad_sessions db)"
  shows "evolves E J S (ad_sessions db)
    (ad_sessions (snd (begin_vault_maintenance E now uid sid target purpose fp db)))"
proof -
  have rows: "evolves E J S (ad_sessions db) rows"
    if "(if target = ErasurePending then begin_erasure_pending E now uid sid (ad_sessions db)
         else begin_live_maintenance_pending now uid sid (ad_sessions db)) = Inr rows" for rows
    using that erasure_evolves [OF assms, of E] revoke_others_evolves [of E]
    by (cases "target = ErasurePending") (auto dest: live_maintenance_rows)
  show ?thesis
    unfolding begin_vault_maintenance_def by (simp add: rows ev_same split: option.split sum.split)
qed

lemma clear_sessions [simp]: "ad_sessions (snd (clear_vault_maintenance uid v db)) = ad_sessions db"
  by (auto simp: clear_vault_maintenance_def Let_def split: option.splits)

lemma finish_reset_evolves: "evolves E J S (ad_sessions db) (ad_sessions (snd (finish_reset now uid sid db)))"
proof (cases "begin_live_maintenance_pending now uid sid (ad_sessions db)")
  case (Inr rows)
  then have rows: "rows = revoke_others now uid sid (ad_sessions db)" by (rule live_maintenance_rows)
  obtain r db' where c: "clear_vault_maintenance uid ResetPending (db\<lparr>ad_sessions := rows\<rparr>) = (r, db')"
    by fastforce
  with clear_sessions [of uid ResetPending "db\<lparr>ad_sessions := rows\<rparr>"] have "ad_sessions db' = rows" by simp
  with Inr c rows show ?thesis
    by (cases r) (auto simp: finish_reset_def intro: ev_same revoke_others_evolves)
qed (simp add: finish_reset_def ev_same)

lemma finish_restore_evolves: "evolves E J S (ad_sessions db) (ad_sessions (finish_restore now uid db))"
  by (auto simp: finish_restore_def intro!: ev_revoke_same ev_same)

lemma remove_evolves:
  "evolves E J S (ad_sessions db) (ad_sessions (snd (remove_auth_sessions_after_cleanup uid db)))"
  by (auto simp: remove_auth_sessions_after_cleanup_def Let_def intro: ev_same ev_delete split: option.splits)

lemma apply_evolves:
  assumes "jwt_faithful E" and "unique_by as_id (ad_sessions db)"
  shows "evolves E (drawn_jtis e) (drawn_sids e) (ad_sessions db) (ad_sessions (auth_apply E e db))"
proof (cases e)
  case (Issue draws uid)
  have "[0..<ISSUE_ATTEMPTS] = [0, 1, 2]" by (simp add: ISSUE_ATTEMPTS_def upt_rec)
  with Issue show ?thesis
    using issue_loop_evolves [OF assms(1), of "map draws [0, 1, 2]" "drawn_jtis e" "drawn_sids e" db uid]
    by (simp add: issue_auth_session_def image_image)
qed (simp_all add: assms rotate_evolves inspect_evolves maintenance_evolves begin_evolves
    finish_reset_evolves finish_restore_evolves remove_evolves bindings_evolve
    revoke_presented_sessions_def ev_same split: option.split)

subsection \<open>Invariant of the tables\<close>

definition digest_kind :: "'t token_env \<Rightarrow> auth_session \<Rightarrow> bool" where
  "digest_kind E s \<longleftrightarrow>
     (\<exists>jti. token_identifier jti \<and> as_digest s = jti_digest E jti)
     \<or> (as_digest s = erasure_pending_digest E (as_id s) \<and> as_revoked s \<noteq> None)"

definition rows_ok :: "'t token_env \<Rightarrow> session_table \<Rightarrow> bool" where
  "rows_ok E rows \<longleftrightarrow> unique_by as_id rows \<and> unique_by as_digest rows
     \<and> unique_by (\<lambda>s. (as_user s, as_slot s)) rows
     \<and> (\<forall>s \<in> set rows. as_slot s < MAX_ACTIVE_REFRESH_SESSIONS \<and> digest_kind E s)"

definition users_ok :: "auth_db \<Rightarrow> bool" where
  "users_ok db \<longleftrightarrow> unique_by us_id (ad_users db) \<and> unique_by us_username (ad_users db)"

definition auth_ok :: "'t token_env \<Rightarrow> auth_db \<Rightarrow> bool" where
  "auth_ok E db \<longleftrightarrow> rows_ok E (ad_sessions db) \<and> users_ok db"

lemma rows_ok_parts:
  assumes "rows_ok E rows"
  shows "unique_by as_id rows" "unique_by as_digest rows"
    "unique_by (\<lambda>s. (as_user s, as_slot s)) rows"
    "s \<in> set rows \<Longrightarrow> as_slot s < MAX_ACTIVE_REFRESH_SESSIONS" "s \<in> set rows \<Longrightarrow> digest_kind E s"
  using assms by (auto simp: rows_ok_def)

lemma rows_ok_delete: "rows_ok E rows \<Longrightarrow> rows_ok E (delete_rows p rows)"
  by (auto simp: rows_ok_def unique_by_delete)

lemma rows_ok_update:
  assumes "rows_ok E rows"
    and "\<And>r. as_id (f r) = as_id r \<and> as_user (f r) = as_user r \<and> as_slot (f r) = as_slot r"
    and "unique_by as_digest (update_rows p f rows)"
    and "\<And>r. r \<in> set rows \<Longrightarrow> p r \<Longrightarrow> digest_kind E (f r)"
  shows "rows_ok E (update_rows p f rows)"
  using assms by (auto simp: rows_ok_def set_update_rows intro!: unique_by_update)

text \<open>One row takes a digest that no other row carries.\<close>

lemma unique_digest_update:
  assumes "unique_by as_id rows" and "unique_by as_digest rows" and "\<And>r. r \<in> set rows \<Longrightarrow> p r \<Longrightarrow> as_id r = sid"
    and "\<And>r. as_digest (f r) = d" and "\<And>r. r \<in> set rows \<Longrightarrow> as_id r \<noteq> sid \<Longrightarrow> as_digest r \<noteq> d"
  shows "unique_by as_digest (update_rows p f rows)"
  using assms(1-3,5)
proof (induction rows)
  case (Cons r rows)
  show ?case
  proof (cases "p r")
    case True
    have other: "as_digest s \<noteq> d \<and> \<not> p s" if "s \<in> set rows" for s
      using that True Cons.prems by (auto simp: unique_by_def image_iff)
    then have "update_rows p f rows = rows" by (intro update_rows_none) blast
    moreover have "d \<notin> as_digest ` set rows" using other by auto
    ultimately show ?thesis using True Cons.prems(2) assms(4) by (simp add: unique_by_def)
  next
    case False
    then have "as_digest r \<notin> as_digest ` set (update_rows p f rows)"
      using Cons.prems assms(4) by (fastforce simp: set_update_rows unique_by_def image_iff)
    with False Cons show ?thesis by (simp add: unique_by_def)
  qed
qed (simp add: unique_by_def)

end
