(* ===== verification/AuthClaims.thy ===== *)
theory AuthClaims
  imports AuthHistory
begin

text \<open>
  What the histories of \<open>AuthHistory\<close> guarantee: the bound on the sessions of a
  user, one-time refresh tokens, final logout, and the exclusion of ordinary
  authority while the vault is being erased.
\<close>

subsection \<open>The invariant is kept\<close>

lemma rows_ok_insert:
  assumes ok: "rows_ok E rows" and "\<not> session_collides rows s" and kind: "digest_kind E s"
  shows "rows_ok E (rows @ [s])"
proof -
  have new: "as_id s \<notin> as_id ` set rows" "as_digest s \<notin> as_digest ` set rows"
    "(as_user s, as_slot s) \<notin> (\<lambda>s. (as_user s, as_slot s)) ` set rows"
    "as_slot s < MAX_ACTIVE_REFRESH_SESSIONS"
    using assms(2) by (force simp: session_collides_def)+
  with rows_ok_parts [OF ok] kind show ?thesis
    unfolding rows_ok_def unique_by_append1 by simp
qed

lemma evolves_rows_ok: "evolves E J S rows rs \<Longrightarrow> rows_ok E rows \<Longrightarrow> rows_ok E rs"
proof (induction rule: evolves.induct)
  case (ev_delete rs p)
  then show ?case by (simp add: rows_ok_delete)
next
  case (ev_revoke rs p upd now)
  then have ok: "rows_ok E rs" by simp
  note parts = rows_ok_parts [OF ok]
  have "unique_by as_digest
      (update_rows p (\<lambda>r. r\<lparr>as_revoked := Some now, as_updated := upd r\<rparr>) rs)"
    using parts(2) by (intro unique_by_update) auto
  with parts(5) show ?case by (intro rows_ok_update [OF ok]) (auto simp: digest_kind_def)
next
  case (ev_rotate rs p sid jti now e)
  then have ok: "rows_ok E rs" by simp
  note parts = rows_ok_parts [OF ok]
  let ?f = "\<lambda>r. r\<lparr>as_digest := jti_digest E jti, as_expires := e, as_updated := now\<rparr>"
  have "unique_by as_digest (update_rows p ?f rs)"
    using parts(1,2) ev_rotate(2,5)
    by (intro unique_digest_update [where sid = sid and d = "jti_digest E jti"])
      (auto simp: digest_taken_def)
  with ev_rotate(4) show ?case by (intro rows_ok_update [OF ok]) (auto simp: digest_kind_def)
next
  case (ev_mark rs p sid now)
  then have ok: "rows_ok E rs" by simp
  note parts = rows_ok_parts [OF ok]
  let ?f = "\<lambda>r. r\<lparr>as_digest := erasure_pending_digest E sid,
    as_revoked := Some (or_else (as_revoked r) now), as_updated := now\<rparr>"
  have "unique_by as_digest (update_rows p ?f rs)"
    using parts(1,2) ev_mark(2,3)
    by (intro unique_digest_update [where sid = sid and d = "erasure_pending_digest E sid"])
      (auto simp: digest_taken_def)
  with ev_mark(2) show ?case by (intro rows_ok_update [OF ok]) (auto simp: digest_kind_def)
next
  case (ev_renew rs p now e)
  then have ok: "rows_ok E rs" by simp
  note parts = rows_ok_parts [OF ok]
  have "unique_by as_digest (update_rows p (\<lambda>r. r\<lparr>as_expires := e, as_updated := now\<rparr>) rs)"
    using parts(2) by (intro unique_by_update) auto
  with parts(5) show ?case by (intro rows_ok_update [OF ok]) (auto simp: digest_kind_def)
next
  case (ev_insert rs s)
  then show ?case by (intro rows_ok_insert) (auto simp: digest_kind_def)
qed simp

definition account_key :: "user_row \<Rightarrow> int \<times> string" where
  "account_key u = (us_id u, us_username u)"

lemma users_ok_accounts: "users_ok db \<longleftrightarrow> distinct (map fst (map account_key (ad_users db)))
    \<and> distinct (map snd (map account_key (ad_users db)))"
  by (simp add: users_ok_def unique_by_def account_key_def comp_def)

lemma put_user_accounts:
  "(\<And>u. account_key (f u) = account_key u) \<Longrightarrow>
    map account_key (ad_users (put_user uid f db)) = map account_key (ad_users db)"
  by (simp add: put_user_def map_update_rows)

lemma put_sessions_users [simp]: "ad_users (put_sessions f db) = ad_users db"
  by (simp add: put_sessions_def)

lemma issue_loop_users [simp]: "ad_users (snd (issue_loop E draws uid db)) = ad_users db"
proof (induction draws)
  case (Cons d draws)
  obtain now m where "d = (now, m)" by (cases d)
  with Cons show ?case by (auto elim: attempt_issued split: attempt.splits)
qed simp

lemma rotate_users [simp]: "ad_users (snd (rotate_update E now m st db)) = ad_users db"
  by (auto simp: rotate_update_def Let_def split: option.splits)

lemma inspect_users [simp]: "ad_users (rotate_inspect now st uid db) = ad_users db"
  by (auto simp: rotate_inspect_def split: option.splits)

lemma binding_users [simp]:
  "ad_users (snd (revoke_binding E now b state)) = ad_users (snd state)"
  by (cases b; cases state) (auto simp: revoke_binding_def Let_def split: option.splits)

lemma bindings_users [simp]:
  "ad_users (snd (fold (revoke_binding E now) bs state)) = ad_users (snd state)"
proof (induction bs arbitrary: state)
  case (Cons b bs)
  then show ?case by (simp only: fold_simps binding_users)
qed simp

lemma maintenance_users [simp]: "ad_users (snd (issue_maintenance_access E now m u db)) = ad_users db"
  by (auto simp: issue_maintenance_access_def Let_def split: option.splits)

lemma clear_accounts:
  "map account_key (ad_users (snd (clear_vault_maintenance uid v db))) = map account_key (ad_users db)"
  by (auto simp: clear_vault_maintenance_def Let_def account_key_def map_update_rows split: option.splits)

lemma begin_accounts:
  "map account_key (ad_users (snd (begin_vault_maintenance E now uid sid target purpose fp db)))
    = map account_key (ad_users db)"
  by (simp add: begin_vault_maintenance_def put_user_accounts account_key_def split: option.split sum.split)

lemma reset_users:
  "ad_users (snd (finish_reset now uid sid db)) \<in>
    {ad_users db, ad_users (snd (clear_vault_maintenance uid ResetPending db))}"
  by (auto simp: finish_reset_def clear_vault_maintenance_def user_by_id_def Let_def
      split: sum.splits option.splits prod.splits if_splits)

lemma apply_accounts: "map account_key (ad_users (auth_apply E e db)) = map account_key (ad_users db)"
proof (cases e)
  case (FinishReset now uid sid)
  with reset_users [of now uid sid db] show ?thesis by (auto simp: clear_accounts)
qed (simp_all add: issue_auth_session_def revoke_presented_sessions_def clear_accounts begin_accounts
    put_user_accounts account_key_def remove_auth_sessions_after_cleanup_def finish_restore_def
    Let_def split: option.split)

lemma apply_users_ok: "users_ok db \<Longrightarrow> users_ok (auth_apply E e db)"
  by (simp add: users_ok_accounts apply_accounts del: map_map)

definition auth_good :: "'t token_env \<Rightarrow> auth_db \<Rightarrow> bool" where
  "auth_good E db \<longleftrightarrow> jwt_faithful E \<and> sha_injective E \<and> auth_ok E db"

lemma apply_good:
  assumes "auth_good E db"
  shows "auth_good E (auth_apply E e db)"
proof -
  have "jwt_faithful E" "unique_by as_id (ad_sessions db)" "rows_ok E (ad_sessions db)"
    using assms by (auto simp: auth_good_def auth_ok_def rows_ok_def)
  from evolves_rows_ok [OF apply_evolves [OF this(1,2), of e] this(3)] assms
  show ?thesis by (simp add: auth_good_def auth_ok_def apply_users_ok)
qed

subsection \<open>Lasting facts\<close>

text \<open>A spent refresh token: its family no longer carries its digest.\<close>

definition token_spent :: "'t token_env \<Rightarrow> int \<times> string \<times> string \<Rightarrow> auth_db \<Rightarrow> bool" where
  "token_spent E c db \<longleftrightarrow> (case c of (uid, sid, jti) \<Rightarrow> token_identifier jti \<and>
     (\<forall>s \<in> set (ad_sessions db). as_id s = sid \<longrightarrow> as_user s = uid \<and> as_digest s \<noteq> jti_digest E jti))"

definition not_redrawn :: "int \<times> string \<times> string \<Rightarrow> 't auth_event \<Rightarrow> bool" where
  "not_redrawn c e \<longleftrightarrow> (case c of (uid, sid, jti) \<Rightarrow> sid \<notin> drawn_sids e \<and> jti \<notin> drawn_jtis e)"

text \<open>A dead family: revoked, and not as the retry family of an erasure.\<close>

definition family_dead :: "'t token_env \<Rightarrow> string \<Rightarrow> auth_db \<Rightarrow> bool" where
  "family_dead E sid db \<longleftrightarrow>
     (\<forall>s \<in> set (ad_sessions db). as_id s = sid \<longrightarrow>
        as_revoked s \<noteq> None \<and> as_digest s \<noteq> erasure_pending_digest E sid)"

lemma evolves_spent:
  assumes "evolves E J S rows rs" and "sha_injective E" and "token_identifier jti"
    and "sid \<notin> S" and "jti \<notin> J"
    and "\<forall>s \<in> set rows. as_id s = sid \<longrightarrow> as_user s = uid \<and> as_digest s \<noteq> jti_digest E jti"
  shows "\<forall>s \<in> set rs. as_id s = sid \<longrightarrow> as_user s = uid \<and> as_digest s \<noteq> jti_digest E jti"
  using assms(1)
proof (induction rule: evolves.induct)
  case (ev_rotate rs p sid' jti' now e)
  with assms(2,5) have "jti_digest E jti' \<noteq> jti_digest E jti" by (auto simp: jti_digest_inj)
  with ev_rotate show ?case by (auto simp: set_update_rows)
next
  case (ev_mark rs p sid' now)
  with erasure_digest_not_jti [OF assms(2,3)] show ?case by (auto simp: set_update_rows)
next
  case (ev_insert rs s)
  with assms(4) show ?case by auto
qed (use assms(6) in \<open>auto simp: set_update_rows\<close>)

lemma evolves_dead:
  assumes "evolves E J S rows rs" and "sid \<notin> S"
    and "\<forall>s \<in> set rows. as_id s = sid \<longrightarrow> as_revoked s \<noteq> None \<and> as_digest s \<noteq> erasure_pending_digest E sid"
  shows "\<forall>s \<in> set rs. as_id s = sid \<longrightarrow> as_revoked s \<noteq> None \<and> as_digest s \<noteq> erasure_pending_digest E sid"
  using assms(1)
proof (induction rule: evolves.induct)
  case (ev_rotate rs p sid' jti now e)
  then have "\<forall>r \<in> set rs. p r \<longrightarrow> as_id r \<noteq> sid" by fastforce
  with ev_rotate(6) show ?case by (auto simp: set_update_rows)
next
  case (ev_mark rs p sid' now)
  then have "\<forall>r \<in> set rs. p r \<longrightarrow> as_id r \<noteq> sid" by fastforce
  with ev_mark(4) show ?case by (auto simp: set_update_rows)
next
  case (ev_insert rs s)
  with assms(2) show ?case by auto
qed (use assms(3) in \<open>auto simp: set_update_rows\<close>)

lemma evolves_owner:
  assumes "evolves E J S rows rs" and "sid \<notin> S" and "\<forall>s \<in> set rows. as_id s = sid \<longrightarrow> as_user s = uid"
  shows "\<forall>s \<in> set rs. as_id s = sid \<longrightarrow> as_user s = uid"
  using assms(1)
proof (induction rule: evolves.induct)
  case (ev_insert rs s)
  with assms(2) show ?case by auto
qed (use assms(3) in \<open>auto simp: set_update_rows\<close>)

interpretation spent: lasting_fact "auth_good E" "token_spent E" "auth_apply E" not_redrawn
  for E :: "'t token_env"
proof unfold_locales
  fix db c and e :: "'t auth_event"
  assume good: "auth_good E db" and spent: "token_spent E c db" and new: "not_redrawn c e"
  obtain uid sid jti where c: "c = (uid, sid, jti)" by (cases c)
  have "evolves E (drawn_jtis e) (drawn_sids e) (ad_sessions db) (ad_sessions (auth_apply E e db))"
    using good by (intro apply_evolves) (auto simp: auth_good_def auth_ok_def rows_ok_def)
  from evolves_spent [OF this, of jti sid uid] good spent new c show "token_spent E c (auth_apply E e db)"
    by (auto simp: token_spent_def not_redrawn_def auth_good_def)
qed (rule apply_good)

interpretation dead: lasting_fact "auth_good E" "family_dead E" "auth_apply E" "\<lambda>sid e. sid \<notin> drawn_sids e"
  for E :: "'t token_env"
proof unfold_locales
  fix db sid and e :: "'t auth_event"
  assume good: "auth_good E db" and dead: "family_dead E sid db" and new: "sid \<notin> drawn_sids e"
  have "evolves E (drawn_jtis e) (drawn_sids e) (ad_sessions db) (ad_sessions (auth_apply E e db))"
    using good by (intro apply_evolves) (auto simp: auth_good_def auth_ok_def rows_ok_def)
  from evolves_dead [OF this new] dead show "family_dead E sid (auth_apply E e db)"
    by (simp add: family_dead_def)
qed (rule apply_good)

subsection \<open>The bound on sessions\<close>

lemma slots_bound:
  assumes "unique_by (\<lambda>s. (as_user s, as_slot s)) rows"
    and "\<forall>s \<in> set rows. as_slot s < MAX_ACTIVE_REFRESH_SESSIONS"
  shows "row_count (\<lambda>s. as_user s = uid) rows \<le> MAX_ACTIVE_REFRESH_SESSIONS"
proof -
  let ?mine = "filter (\<lambda>s. as_user s = uid) rows"
  have "distinct (map (\<lambda>s. (as_user s, as_slot s)) ?mine)"
    using assms(1) by (simp add: unique_by_def distinct_map_filter)
  then have "distinct (map as_slot ?mine)"
    by (auto simp: distinct_map inj_on_def)
  then have "length ?mine = card (set (map as_slot ?mine))"
    using distinct_card by fastforce
  also have "\<dots> \<le> card {..<MAX_ACTIVE_REFRESH_SESSIONS}"
    using assms(2) by (intro card_mono) auto
  finally show ?thesis by (simp add: row_count_def)
qed

lemma run_good: "auth_good E db \<Longrightarrow> auth_good E (auth_run E es db)"
  unfolding auth_run_def by (rule dead.good_run)

text \<open>The session table stays consistent and bounded. After any interleaving of logins,
  rotations, logouts and maintenance of the vault, family identifiers, refresh digests and the slots of
  a user are unique, accounts keep their names, and no user has more than eight session rows.\<close>

lemma auth_sessions_bounded:
  assumes "jwt_faithful E" and "sha_injective E" and "auth_ok E db"
  shows "auth_ok E (auth_run E es db)
    \<and> row_count (\<lambda>s. as_user s = uid) (ad_sessions (auth_run E es db)) \<le> MAX_ACTIVE_REFRESH_SESSIONS
    \<and> map account_key (ad_users (auth_run E es db)) = map account_key (ad_users db)"
proof -
  have "auth_good E (auth_run E es db)" using assms by (intro run_good) (simp add: auth_good_def)
  moreover have "map account_key (ad_users (auth_run E es db)) = map account_key (ad_users db)"
    unfolding auth_run_def by (induction es arbitrary: db) (simp_all add: apply_accounts)
  ultimately show ?thesis
    using slots_bound [of "ad_sessions (auth_run E es db)" uid]
    by (auto simp: auth_good_def auth_ok_def rows_ok_def)
qed

subsection \<open>One-time refresh tokens\<close>

lemma rotation_spends:
  assumes "auth_good E db" and "token_state_of E received token = Some st"
    and "rotate_update E now m st db = (Rotated t, db')"
    and "token_identifier jti" and "ts_digest st = jti_digest E jti" and "mi_refresh_jti m \<noteq> jti"
  shows "\<exists>uid. token_spent E (uid, ts_sid st, jti) db'"
proof (rule rotate_rotated [OF assms(3)])
  fix u refresh new
  assume refresh: "create_refresh_token E (ts_sub st) (ts_sid st) (mi_refresh_jti m) (mi_issued m) = Some refresh"
    and new: "token_state_of E (mi_checked m) refresh = Some new"
    and one: "row_count (rotate_match now st (us_id u)) (ad_sessions db) = 1"
    and db': "db' = db\<lparr>ad_sessions := update_rows (rotate_match now st (us_id u))
      (\<lambda>s. s\<lparr>as_digest := ts_digest new, as_expires := ts_expires new, as_updated := now\<rparr>) (ad_sessions db)\<rparr>"
  have good: "jwt_faithful E" "sha_injective E" "unique_by as_id (ad_sessions db)"
    using assms(1) by (auto simp: auth_good_def auth_ok_def rows_ok_def)
  have dg: "ts_digest new \<noteq> jti_digest E jti"
    using created_refresh_digest(1) [OF good(1) refresh new] assms(6) good(2) by (simp add: jti_digest_inj)
  from one obtain r where r: "r \<in> set (ad_sessions db)" "rotate_match now st (us_id u) r"
    by (metis One_nat_def row_count_pos_exists)
  have "s = r" if "s \<in> set (ad_sessions db)" "as_id s = ts_sid st" for s
    using unique_byD [OF good(3) that(1) r(1)] that r(2) by (simp add: rotate_match_def)
  with r dg assms(4) show ?thesis
    by (intro exI [of _ "us_id u"]) (auto simp: db' token_spent_def set_update_rows rotate_match_def)
qed

lemma spent_not_rotated:
  assumes "token_spent E (uid, ts_sid st, jti) db" and "ts_digest st = jti_digest E jti"
  shows "fst (rotate_update E now m st db) \<noteq> Rotated t"
proof
  assume "fst (rotate_update E now m st db) = Rotated t"
  then have "rotate_update E now m st db = (Rotated t, snd (rotate_update E now m st db))"
    by (metis prod.collapse)
  then show False
  proof (rule rotate_rotated)
    fix u assume "row_count (rotate_match now st (us_id u)) (ad_sessions db) = 1"
    then obtain r where "r \<in> set (ad_sessions db)" "rotate_match now st (us_id u) r"
      by (metis One_nat_def row_count_pos_exists)
    with assms show False by (auto simp: token_spent_def rotate_match_def)
  qed
qed

lemma inspect_kills:
  assumes "unique_by as_id (ad_sessions db)"
    and "\<forall>s \<in> set (ad_sessions db). as_id s = ts_sid st \<longrightarrow> as_user s = uid \<and> as_digest s \<noteq> ts_digest st"
    and "s \<in> set (ad_sessions (rotate_inspect now st uid db))" and "as_id s = ts_sid st"
  shows "\<not> session_live now s"
proof (cases "session_by_id (ts_sid st) (ad_sessions db)")
  case None
  then have "rotate_inspect now st uid db = db" by (simp add: rotate_inspect_def)
  with None assms(3,4) show ?thesis by (auto simp: session_by_id_def select_first_None)
next
  case (Some c)
  then have c: "c \<in> set (ad_sessions db)" "as_id c = ts_sid st"
    by (auto simp: session_by_id_def dest: select_first_Some)
  let ?p = "\<lambda>r. as_id r = ts_sid st \<and> as_user r = uid \<and> as_revoked r = None"
  let ?f = "\<lambda>r. r\<lparr>as_revoked := Some now, as_updated := now\<rparr>"
  have same: "r = c" if "r \<in> set (ad_sessions db)" "as_id r = ts_sid st" for r
    using unique_byD [OF assms(1) that(1) c(1)] that c by simp
  show ?thesis
  proof (cases "as_revoked c = None \<and> now < as_expires c")
    case True
    with Some c assms(2) have "ad_sessions (rotate_inspect now st uid db) = update_rows ?p ?f (ad_sessions db)"
      by (simp add: rotate_inspect_def)
    with assms(3,4) obtain r where r: "r \<in> set (ad_sessions db)" "s = ?f r \<or> (s = r \<and> \<not> ?p r)"
      by (auto simp: set_update_rows)
    then have "as_id r = ts_sid st" using assms(4) by auto
    with r assms(2) show ?thesis by (auto simp: session_live_def)
  next
    case False
    then have "rotate_inspect now st uid db = db" using Some by (auto simp: rotate_inspect_def)
    with assms(3,4) same have "s = c" by simp
    with False show ?thesis by (simp add: session_live_def)
  qed
qed

lemma family_owner_update:
  "(\<And>r. as_id (f r) = as_id r \<and> as_user (f r) = as_user r) \<Longrightarrow>
    (\<lambda>s. (as_id s, as_user s)) ` set (update_rows p f rows) = (\<lambda>s. (as_id s, as_user s)) ` set rows"
  by (simp flip: set_map add: map_update_rows)

text \<open>C26: A refresh token works once. After a rotation has consumed it, no later presentation of the
  same token succeeds, whatever happens in between; and when the replay is looked up for the account,
  the family it belongs to is not live afterwards.\<close>

theorem rotated_token_never_again:
  assumes "jwt_faithful E" and "sha_injective E" and "auth_ok E db"
    and "decode_refresh_token E received token = Some p" and "text_claim p ''jti'' = Some jti"
    and "token_state_of E received token = Some st"
    and "rotate_update E now m st db = (Rotated t, db1)" and "mi_refresh_jti m \<noteq> jti"
    and "\<forall>e \<in> set es. ts_sid st \<notin> drawn_sids e \<and> jti \<notin> drawn_jtis e"
  shows "(\<nexists>t'. fst (rotate_update E now' m' st (auth_run E es db1)) = Rotated t')
    \<and> (\<forall>s0 \<in> set (ad_sessions db). as_id s0 = ts_sid st \<longrightarrow>
         fst (rotate_update E now' m' st (auth_run E es db1)) = RotateLost (as_user s0) \<longrightarrow>
         (\<forall>s \<in> set (ad_sessions (rotate_inspect now' st (as_user s0) (auth_run E es db1))).
            as_id s = ts_sid st \<longrightarrow> \<not> session_live now' s))"
proof -
  let ?db2 = "auth_run E es db1"
  have jti: "token_identifier jti" "ts_digest st = jti_digest E jti"
    using assms(4-6) by (auto simp: token_state_of_def decode_refresh_token_def valid_common_claims_def
      split: option.splits if_splits)
  have good: "auth_good E db" using assms by (simp add: auth_good_def)
  obtain uid where spent1: "token_spent E (uid, ts_sid st, jti) db1"
    using rotation_spends [OF good assms(6,7) jti assms(8)] by blast
  have good1: "auth_good E db1"
    using apply_good [OF good, of "RotateFirst received now m token"] assms(6,7) by simp
  have spent2: "token_spent E (uid, ts_sid st, jti) ?db2"
    unfolding auth_run_def using assms(9) by (intro spent.lasts [OF good1 spent1]) (simp add: not_redrawn_def)
  have unique: "unique_by as_id (ad_sessions ?db2)"
    using run_good [OF good1, of es] by (auto simp: auth_good_def auth_ok_def rows_ok_def)
  have owner: "as_user s0 = uid" if s0: "s0 \<in> set (ad_sessions db)" "as_id s0 = ts_sid st" for s0
    using assms(7)
  proof (rule rotate_rotated)
    fix u new
    let ?f = "\<lambda>s. s\<lparr>as_digest := ts_digest new, as_expires := ts_expires new, as_updated := now\<rparr>"
    assume "db1 = db\<lparr>ad_sessions := update_rows (rotate_match now st (us_id u)) ?f (ad_sessions db)\<rparr>"
    then have "ad_sessions db1 = update_rows (rotate_match now st (us_id u)) ?f (ad_sessions db)" by simp
    then have "(\<lambda>s. (as_id s, as_user s)) ` set (ad_sessions db1)
        = (\<lambda>s. (as_id s, as_user s)) ` set (ad_sessions db)"
      by (simp only:, intro family_owner_update) simp
    moreover have "(ts_sid st, as_user s0) \<in> (\<lambda>s. (as_id s, as_user s)) ` set (ad_sessions db)"
      using s0 by force
    ultimately have "(ts_sid st, as_user s0) \<in> (\<lambda>s. (as_id s, as_user s)) ` set (ad_sessions db1)"
      by (simp only:)
    with spent1 show ?thesis by (auto simp: token_spent_def)
  qed
  have "\<not> session_live now' s" if "uid' = uid"
    and "s \<in> set (ad_sessions (rotate_inspect now' st uid' ?db2))" and "as_id s = ts_sid st" for s uid'
    using inspect_kills [OF unique _ that(2,3)] spent2 that(1) jti(2) by (auto simp: token_spent_def)
  with spent_not_rotated [OF spent2 jti(2)] owner show ?thesis by blast
qed

end
