(* ===== verification/AuthLifecycle.thy ===== *)
theory AuthLifecycle
  imports AuthClaims
begin

text \<open>
  Logout and the lifecycle of the vault over histories: a family that logged out
  has no authority again, an ordinary session works from its issue, and while an
  erasure is pending only its retry family has any authority.
\<close>

subsection \<open>What a bearer check accepts\<close>

lemma current_user_session:
  assumes "get_current_user_id E now token db = Some uid"
  shows "\<exists>p s sid sub. decode_access_token E now token = Some p \<and> text_claim p ''sid'' = Some sid
    \<and> text_claim p ''sub'' = Some sub \<and> s \<in> set (ad_sessions db) \<and> as_id s = sid \<and> as_user s = uid
    \<and> session_live now s
    \<and> (\<exists>u \<in> set (ad_users db). us_id u = uid \<and> us_username u = sub \<and> us_vault u = Ready)"
  using assms
  by (auto simp: get_current_user_id_def split: option.splits if_splits dest!: select_first_Some)

lemma authority_session:
  assumes "get_vault_maintenance_authority E now token db = Some a"
  obtains p s u sub purpose where "decode_access_token E now token = Some p"
    "text_claim p ''sid'' = Some (as_id s)" "text_claim p ''sub'' = Some sub"
    "text_claim p ''purpose'' = Some purpose"
    "s \<in> set (ad_sessions db)" "user_by_name sub db = Some u" "us_id u = as_user s"
    "now < as_expires s" "valid_authority E (us_vault u) purpose s"
    "a = \<lparr>au_user = as_user s, au_session = as_id s, au_state = us_vault u, au_purpose = purpose\<rparr>"
proof -
  from assms obtain p sub sid purpose s u where
    p: "decode_access_token E now token = Some p" "text_claim p ''sub'' = Some sub"
    "text_claim p ''sid'' = Some sid" "text_claim p ''purpose'' = Some purpose"
    and s: "session_by_id sid (ad_sessions db) = Some s" and u: "user_by_name sub db = Some u"
    and ok: "us_id u = as_user s" "now < as_expires s" "valid_authority E (us_vault u) purpose s"
      "a = \<lparr>au_user = as_user s, au_session = as_id s, au_state = us_vault u, au_purpose = purpose\<rparr>"
    by (auto simp: get_vault_maintenance_authority_def split: option.splits if_splits)
  from s have "s \<in> set (ad_sessions db)" "as_id s = sid"
    by (auto simp: session_by_id_def dest: select_first_Some)
  with p u ok that show thesis by blast
qed

lemma unique_users:
  assumes "users_ok db" and "u \<in> set (ad_users db)"
  shows "user_by_id (us_id u) db = Some u" "user_by_name (us_username u) db = Some u"
  using assms select_first_unique [of us_id "ad_users db" u] select_first_unique [of us_username "ad_users db" u]
  by (auto simp: user_by_id_def user_by_name_def users_ok_def)

lemma user_by_nameD: "user_by_name n db = Some u \<Longrightarrow> u \<in> set (ad_users db) \<and> us_username u = n"
  by (auto simp: user_by_name_def dest: select_first_Some)

lemma user_by_idD: "user_by_id i db = Some u \<Longrightarrow> u \<in> set (ad_users db) \<and> us_id u = i"
  by (auto simp: user_by_id_def dest: select_first_Some)

subsection \<open>Logout\<close>

lemma dead_no_authority:
  assumes "family_dead E sid db"
  shows "decode_access_token E now token = Some p \<Longrightarrow> text_claim p ''sid'' = Some sid \<Longrightarrow>
      get_current_user_id E now token db = None"
    and "decode_access_token E now token = Some p \<Longrightarrow> text_claim p ''sid'' = Some sid \<Longrightarrow>
      get_vault_maintenance_authority E now token db = None"
    and "ts_sid st = sid \<Longrightarrow> fst (rotate_update E now m st db) \<noteq> Rotated t"
proof -
  assume p: "decode_access_token E now token = Some p" "text_claim p ''sid'' = Some sid"
  show "get_current_user_id E now token db = None"
  proof (rule ccontr)
    assume "get_current_user_id E now token db \<noteq> None"
    then obtain uid where "get_current_user_id E now token db = Some uid" by auto
    from current_user_session [OF this] p assms show False
      by (auto simp: family_dead_def session_live_def)
  qed
  show "get_vault_maintenance_authority E now token db = None"
  proof (rule ccontr)
    assume "get_vault_maintenance_authority E now token db \<noteq> None"
    then obtain a where "get_vault_maintenance_authority E now token db = Some a" by auto
    then show False
    proof (rule authority_session)
      fix q s u purpose
      assume "decode_access_token E now token = Some q" "text_claim q ''sid'' = Some (as_id s)"
        and "s \<in> set (ad_sessions db)" and v: "valid_authority E (us_vault u) purpose s"
      with p assms have "as_revoked s \<noteq> None" "as_digest s \<noteq> erasure_pending_digest E (as_id s)"
        by (auto simp: family_dead_def)
      with v show False by (auto simp: valid_authority_def is_erasure_pending_session_def)
    qed
  qed
next
  assume sid: "ts_sid st = sid"
  show "fst (rotate_update E now m st db) \<noteq> Rotated t"
  proof
    assume "fst (rotate_update E now m st db) = Rotated t"
    then have "rotate_update E now m st db = (Rotated t, snd (rotate_update E now m st db))"
      by (metis prod.collapse)
    then show False
    proof (rule rotate_rotated)
      fix u assume "row_count (rotate_match now st (us_id u)) (ad_sessions db) = 1"
      then obtain r where "r \<in> set (ad_sessions db)" "rotate_match now st (us_id u) r"
        by (metis One_nat_def row_count_pos_exists)
      with assms sid show False by (auto simp: family_dead_def rotate_match_def)
    qed
  qed
qed

lemma binding_keeps:
  assumes "unique_by as_id (ad_sessions (snd state))"
  shows "family_dead E sid (snd state) \<Longrightarrow> family_dead E sid (snd (revoke_binding E now b state))"
    and "\<forall>s \<in> set (ad_sessions (snd state)). as_id s = sid \<longrightarrow> as_user s = uid \<Longrightarrow>
      \<forall>s \<in> set (ad_sessions (snd (revoke_binding E now b state))). as_id s = sid \<longrightarrow> as_user s = uid"
  using evolves_dead [OF binding_evolves [OF ev_same, of E "{}" "{}" state now b], of sid]
    evolves_owner [OF binding_evolves [OF ev_same, of E "{}" "{}" state now b], of sid uid]
  by (simp_all add: family_dead_def)

lemma binding_kills:
  assumes ok: "rows_ok E (ad_sessions (snd state))" and sha: "sha_injective E"
    and u: "user_by_name name (snd state) = Some u"
    and own: "\<forall>s \<in> set (ad_sessions (snd state)). as_id s = sid \<longrightarrow> as_user s = us_id u"
  shows "family_dead E sid (snd (revoke_binding E now (name, sid) state))"
proof -
  obtain n db where state: "state = (n, db)" by (cases state)
  let ?rows = "ad_sessions db"
  have kind: "as_revoked s = None \<Longrightarrow> s \<in> set ?rows \<Longrightarrow> as_digest s \<noteq> erasure_pending_digest E (as_id s)" for s
    using rows_ok_parts(5) [OF ok, of s] erasure_digest_not_jti [OF sha] by (auto simp: state digest_kind_def)
  show ?thesis
  proof (cases "session_by_id sid ?rows")
    case None
    then have "\<forall>s \<in> set ?rows. as_id s \<noteq> sid" by (simp add: session_by_id_def select_first_None)
    then show ?thesis using u None
      by (auto simp: state revoke_binding_def Let_def family_dead_def set_update_rows)
  next
    case (Some c)
    then have c: "c \<in> set ?rows" "as_id c = sid" by (auto simp: session_by_id_def dest: select_first_Some)
    have same: "s = c" if "s \<in> set ?rows" "as_id s = sid" for s
      using unique_byD [OF rows_ok_parts(1) [OF ok]] that c by (auto simp: state)
    have owner: "as_user c = us_id u" using own c by (simp add: state)
    show ?thesis
    proof (cases "is_erasure_pending_session E c")
      case True
      then have "as_digest c = erasure_pending_digest E sid" using c by (simp add: is_erasure_pending_session_def)
      then show ?thesis using u Some True owner same
        by (auto simp: state revoke_binding_def Let_def family_dead_def)
    next
      case False
      then have "as_revoked c \<noteq> None \<longrightarrow> as_digest c \<noteq> erasure_pending_digest E sid"
        using c by (auto simp: is_erasure_pending_session_def)
      moreover have "as_digest c \<noteq> erasure_pending_digest E sid" if "as_revoked c = None"
        using kind [OF that c(1)] c(2) by simp
      ultimately have "as_digest c \<noteq> erasure_pending_digest E sid" by blast
      moreover have rows: "ad_sessions (snd (revoke_binding E now (name, sid) state)) = update_rows
          (\<lambda>r. as_id r = sid \<and> as_user r = us_id u \<and> as_revoked r = None)
          (\<lambda>r. r\<lparr>as_revoked := Some now, as_updated := now\<rparr>) ?rows"
        (is "_ = update_rows ?p ?f _")
        using u Some False by (simp add: state revoke_binding_def Let_def)
      moreover have "as_revoked s \<noteq> None \<and> as_digest s = as_digest c"
        if s: "s \<in> set (update_rows ?p ?f ?rows)" "as_id s = sid" for s
      proof -
        from s(1) obtain r where r: "r \<in> set ?rows" "s = (if ?p r then ?f r else r)"
          by (auto simp: update_rows_def)
        with s(2) have "as_id r = sid" by (auto split: if_splits)
        with same r(1) have "r = c" by simp
        with r(2) c owner show ?thesis by (cases "as_revoked c") auto
      qed
      ultimately show ?thesis by (simp add: family_dead_def)
    qed
  qed
qed

lemma bindings_kill:
  assumes "rows_ok E (ad_sessions (snd state))" and "sha_injective E"
    and "user_by_name name (snd state) = Some u" and "(name, sid) \<in> set bs \<or> family_dead E sid (snd state)"
    and "\<forall>s \<in> set (ad_sessions (snd state)). as_id s = sid \<longrightarrow> as_user s = us_id u"
  shows "family_dead E sid (snd (fold (revoke_binding E now) bs state))"
  using assms
proof (induction bs arbitrary: state)
  case (Cons b bs)
  let ?next = "revoke_binding E now b state"
  note id = rows_ok_parts(1) [OF Cons.prems(1)]
  have ok: "rows_ok E (ad_sessions (snd ?next))"
    by (rule evolves_rows_ok [OF binding_evolves [OF ev_same] Cons.prems(1)])
  have u: "user_by_name name (snd ?next) = Some u"
    using Cons.prems(3) by (simp add: user_by_name_def)
  have "(name, sid) \<in> set bs \<or> family_dead E sid (snd ?next)"
    using Cons.prems binding_kills [OF Cons.prems(1,2,3,5), of now] binding_keeps(1) [OF id, of E sid now b]
    by (cases "b = (name, sid)") auto
  then have "family_dead E sid (snd (fold (revoke_binding E now) bs ?next))"
    using Cons.IH [OF ok Cons.prems(2) u _ binding_keeps(2) [OF id Cons.prems(5)]] by blast
  then show ?case by simp
qed simp

text \<open>C28: Logout is final. After a logout that presented a valid access token of a family of the
  account, no access token of the family authorises anything and no refresh token of it is accepted,
  whatever other sessions do afterwards.\<close>

theorem logout_is_final:
  assumes "jwt_faithful E" and "sha_injective E" and "auth_ok E db"
    and "decode_access_token E received token = Some p"
    and "text_claim p ''sub'' = Some name" and "text_claim p ''sid'' = Some sid"
    and "user_by_name name db = Some u"
    and "\<forall>s \<in> set (ad_sessions db). as_id s = sid \<longrightarrow> as_user s = us_id u"
    and "\<forall>e \<in> set es. sid \<notin> drawn_sids e"
    and "db' = auth_run E (Logout received now refresh (Some token) # es) db"
  shows "(\<forall>t q. decode_access_token E later t = Some q \<longrightarrow> text_claim q ''sid'' = Some sid \<longrightarrow>
      get_current_user_id E later t db' = None \<and> get_vault_maintenance_authority E later t db' = None)
    \<and> (\<forall>st t m. ts_sid st = sid \<longrightarrow> fst (rotate_update E later m st db') \<noteq> Rotated t)"
proof -
  let ?logout = "Logout received now refresh (Some token)"
  have good: "auth_good E db" using assms by (simp add: auth_good_def)
  have "(name, sid) \<in> set (access_binding E received (Some token))"
    using assms(4-6) by (simp add: access_binding_def)
  then have "family_dead E sid (auth_apply E ?logout db)"
    using bindings_kill [of E "(0, db)" name u sid _ now] assms(2,3,7,8)
    by (simp add: revoke_presented_sessions_def auth_ok_def)
  then have dead: "family_dead E sid db'"
    unfolding assms(10) auth_run_def fold.simps comp_apply
    by (rule dead.lasts [OF apply_good [OF good]]) (rule assms(9))
  from dead_no_authority [OF this] show ?thesis by blast
qed

subsection \<open>Allocation of a slot\<close>

lemma free_slot_Some: "free_slot active = Some k \<Longrightarrow> k < MAX_ACTIVE_REFRESH_SESSIONS \<and> k \<notin> as_slot ` set active"
  by (auto simp: free_slot_def find_Some_iff)

lemma free_slot_None: "free_slot active = None \<longleftrightarrow> {..<MAX_ACTIVE_REFRESH_SESSIONS} \<subseteq> as_slot ` set active"
  by (auto simp: free_slot_def find_None_iff)

lemma purge_mine: "s \<in> set (purge_dead now uid rows) \<Longrightarrow> as_user s = uid \<Longrightarrow> session_live now s"
  by (auto simp: purge_dead_def session_live_def)

lemma set_live_of: "set (live_of now uid rows) = {s \<in> set rows. as_user s = uid \<and> session_live now s}"
  by (auto simp: live_of_def)

lemma live_of_purged: "set (live_of now uid (purge_dead now uid rows)) = set (live_of now uid rows)"
  by (auto simp: set_live_of purge_dead_def session_live_def)

lemma slot_allocation_facts:
  assumes "rows_ok E rows" and "available_session_slot now uid rows = (k, rs)"
  shows "k < MAX_ACTIVE_REFRESH_SESSIONS \<and> (\<forall>s \<in> set rs. as_user s = uid \<longrightarrow> as_slot s \<noteq> k \<and> session_live now s)
    \<and> set rs \<subseteq> set rows \<and> (\<forall>s \<in> set rows. as_user s \<noteq> uid \<longrightarrow> s \<in> set rs)
    \<and> (\<forall>s \<in> set rows. as_user s = uid \<longrightarrow> session_live now s \<longrightarrow> s \<notin> set rs \<longrightarrow>
         row_count (\<lambda>s. as_user s = uid \<and> session_live now s) rows = MAX_ACTIVE_REFRESH_SESSIONS
         \<and> (\<forall>s' \<in> set rows. as_user s' = uid \<longrightarrow> session_live now s' \<longrightarrow>
              (as_created s, as_id s) \<le> (as_created s', as_id s')))"
proof -
  note parts = rows_ok_parts [OF assms(1)]
  let ?rows1 = "purge_dead now uid rows"
  let ?active = "sort_key (\<lambda>s. (as_created s, as_id s)) (live_of now uid ?rows1)"
  have active: "set ?active = {s \<in> set rows. as_user s = uid \<and> session_live now s}"
    using live_of_purged [of now uid rows] by (simp add: set_live_of)
  have sub: "set ?rows1 \<subseteq> set rows" "\<forall>s \<in> set rows. as_user s \<noteq> uid \<longrightarrow> s \<in> set ?rows1"
    by (auto simp: purge_dead_def)
  have kept: "s \<in> set ?rows1" if "s \<in> set rows" "session_live now s" for s
    using that by (auto simp: purge_dead_def session_live_def)
  show ?thesis
  proof (cases "free_slot ?active")
    case (Some j)
    with assms(2) have "k = j" "rs = ?rows1" by (auto simp: available_session_slot_def Let_def)
    moreover have "\<forall>s \<in> set ?rows1. as_user s = uid \<longrightarrow> s \<in> set ?active"
      using purge_mine sub(1) unfolding active by blast
    ultimately show ?thesis
      using free_slot_Some [OF Some] sub kept purge_mine [of _ now uid rows] by (auto simp del: set_sort)
  next
    case None
    let ?old = "hd ?active"
    have rs: "k = as_slot ?old" "rs = delete_rows (\<lambda>s. as_id s = as_id ?old) ?rows1"
      using None assms(2) by (auto simp: available_session_slot_def Let_def)
    have "0 \<in> as_slot ` set ?active"
      using None free_slot_None [of ?active] by (auto simp: MAX_ACTIVE_REFRESH_SESSIONS_def simp del: set_sort)
    then have "?active \<noteq> []" by (auto simp del: set_sort)
    then have "?old \<in> set ?active" by (rule hd_in_set)
    with active have old: "?old \<in> set rows" "as_user ?old = uid" "session_live now ?old" by blast+
    have oldest: "(as_created ?old, as_id ?old) \<le> (as_created s, as_id s)" if "s \<in> set ?active" for s
    proof -
      have "sorted (map (\<lambda>s. (as_created s, as_id s)) ?active)" by simp
      with that \<open>?active \<noteq> []\<close> show ?thesis
        by (cases ?active) auto
    qed
    have only: "s = ?old" if "s \<in> set rows" "as_id s = as_id ?old" for s
      using unique_byD [OF parts(1) that(1) old(1)] that(2) by blast
    have slot: "as_slot s \<noteq> as_slot ?old" if "s \<in> set rs" "as_user s = uid" for s
    proof
      assume "as_slot s = as_slot ?old"
      with unique_byD [OF parts(3), of s ?old] that old sub(1) rs(2) have "s = ?old" by auto
      with that rs(2) show False by auto
    qed
    have full: "row_count (\<lambda>s. as_user s = uid \<and> session_live now s) rows = MAX_ACTIVE_REFRESH_SESSIONS"
    proof (rule antisym)
      show "row_count (\<lambda>s. as_user s = uid \<and> session_live now s) rows \<le> MAX_ACTIVE_REFRESH_SESSIONS"
        using slots_bound [OF parts(3)] parts(4) row_count_mono [of rows "\<lambda>s. as_user s = uid \<and> session_live now s" "\<lambda>s. as_user s = uid"]
        by (meson order_trans)
      have "card {..<MAX_ACTIVE_REFRESH_SESSIONS} \<le> card (as_slot ` set (live_of now uid rows))"
        using None free_slot_None [of ?active] active by (intro card_mono) (auto simp: set_live_of)
      also have "\<dots> \<le> card (set (live_of now uid rows))" by (rule card_image_le) simp
      also have "\<dots> \<le> length (live_of now uid rows)" by (rule card_length)
      finally show "MAX_ACTIVE_REFRESH_SESSIONS \<le> row_count (\<lambda>s. as_user s = uid \<and> session_live now s) rows"
        by (simp add: row_count_def live_of_def)
    qed
    have bound: "k < MAX_ACTIVE_REFRESH_SESSIONS" using parts(4) old(1) rs(1) by simp
    have others: "s \<in> set rs" if "s \<in> set rows" "as_user s \<noteq> uid" for s
      using that sub(2) only [of s] old(2) rs(2) by auto
    have lost: "s = ?old" if "s \<in> set rows" "session_live now s" "s \<notin> set rs" for s
      using that kept only rs(2) by auto
    have mine: "session_live now s" if "s \<in> set rs" "as_user s = uid" for s
      using that rs(2) purge_mine by auto
    have subset: "set rs \<subseteq> set rows" using rs(2) sub(1) by auto
    show ?thesis
    proof (intro conjI ballI impI)
      fix s s' assume "s \<in> set rows" "session_live now s" "s \<notin> set rs"
        and "s' \<in> set rows" "as_user s' = uid" "session_live now s'"
      with lost oldest active show "(as_created s, as_id s) \<le> (as_created s', as_id s')" by blast
    qed (use bound slot mine subset others full rs(1) in \<open>simp_all del: set_sort\<close>)
  qed
qed

lemma slot_allocated:
  assumes "rows_ok E rows" and "available_session_slot now uid rows = (k, rs)"
  shows "k < MAX_ACTIVE_REFRESH_SESSIONS" "s \<in> set rs \<Longrightarrow> as_user s = uid \<Longrightarrow> as_slot s \<noteq> k"
    "s \<in> set rs \<Longrightarrow> s \<in> set rows" 
  using slot_allocation_facts [OF assms] by blast+

lemma slot_others:
  assumes "rows_ok E rows" and "available_session_slot now uid rows = (k, rs)"
  shows "filter (\<lambda>s. as_user s \<noteq> uid) rs = filter (\<lambda>s. as_user s \<noteq> uid) rows"
proof -
  have "filter (\<lambda>s. as_user s \<noteq> uid) (delete_rows p rows) = filter (\<lambda>s. as_user s \<noteq> uid) rows"
    if "\<forall>s \<in> set rows. p s \<longrightarrow> as_user s = uid" for p and rows :: session_table
    using that by (auto simp: delete_rows_def intro: filter_cong)
  note del = this
  have purge: "filter (\<lambda>s. as_user s \<noteq> uid) (purge_dead now uid rows) = filter (\<lambda>s. as_user s \<noteq> uid) rows"
    unfolding purge_dead_def by (intro del) auto
  have "\<exists>p. rs = delete_rows p (purge_dead now uid rows)"
  proof (cases "free_slot (sort_key (\<lambda>s. (as_created s, as_id s)) (live_of now uid (purge_dead now uid rows)))")
    case None
    with assms(2) show ?thesis by (auto simp: available_session_slot_def Let_def)
  next
    case (Some j)
    with assms(2) have "rs = delete_rows (\<lambda>_. False) (purge_dead now uid rows)"
      by (auto simp: available_session_slot_def Let_def delete_rows_def)
    then show ?thesis by blast
  qed
  then obtain p where p: "rs = delete_rows p (purge_dead now uid rows)" by blast
  have "\<forall>s \<in> set (purge_dead now uid rows). p s \<longrightarrow> as_user s = uid"
    using slot_allocation_facts [OF assms] p by (auto simp: purge_dead_def)
  with del [of "purge_dead now uid rows" p] p purge show ?thesis by simp
qed

text \<open>The slot for a new session is always free. The allocation removes only sessions of the
  user that are revoked or expired, and a live one only when all eight slots are taken by live ones;
  then it is the oldest. Sessions of other users are not touched.\<close>

lemma slot_allocation:
  assumes "rows_ok E rows" and "available_session_slot now uid rows = (k, rs)"
  shows "k < MAX_ACTIVE_REFRESH_SESSIONS \<and> (\<forall>s \<in> set rs. as_user s = uid \<longrightarrow> as_slot s \<noteq> k \<and> session_live now s)
    \<and> set rs \<subseteq> set rows \<and> (\<forall>s \<in> set rows. as_user s \<noteq> uid \<longrightarrow> s \<in> set rs)
    \<and> (\<forall>s \<in> set rows. as_user s = uid \<longrightarrow> session_live now s \<longrightarrow> s \<notin> set rs \<longrightarrow>
         row_count (\<lambda>s. as_user s = uid \<and> session_live now s) rows = MAX_ACTIVE_REFRESH_SESSIONS
         \<and> (\<forall>s' \<in> set rows. as_user s' = uid \<longrightarrow> session_live now s' \<longrightarrow>
              (as_created s, as_id s) \<le> (as_created s', as_id s')))"
  by (rule slot_allocation_facts [OF assms])

end
