(* ===== verification/AuthMaintenance.thy ===== *)
theory AuthMaintenance
  imports AuthLifecycle
begin

text \<open>
  Issuing a session for a ready vault, and the authority that remains while
  maintenance of the vault is pending.
\<close>

subsection \<open>Issuing\<close>

definition fresh_mint :: "'t token_env \<Rightarrow> mint \<Rightarrow> session_table \<Rightarrow> bool" where
  "fresh_mint E m rows \<longleftrightarrow> token_identifier (mi_sid m) \<and> token_identifier (mi_access_jti m)
     \<and> token_identifier (mi_refresh_jti m)
     \<and> (\<forall>s \<in> set rows. as_id s \<noteq> mi_sid m \<and> as_digest s \<noteq> jti_digest E (mi_refresh_jti m))"

definition in_access_window :: "'t token_env \<Rightarrow> mint \<Rightarrow> instant \<Rightarrow> bool" where
  "in_access_window E m later \<longleftrightarrow>
     mi_issued m \<le> later \<and> later + second \<le> mi_issued m + tk_access_minutes E * 60 * second"

definition in_refresh_window :: "'t token_env \<Rightarrow> mint \<Rightarrow> instant \<Rightarrow> bool" where
  "in_refresh_window E m later \<longleftrightarrow>
     mi_issued m \<le> later \<and> later + second \<le> mi_issued m + tk_refresh_days E * 86400 * second"

lemma refresh_window_live:
  "in_refresh_window E m later \<Longrightarrow>
    later < epoch_seconds (mi_issued m + tk_refresh_days E * 86400 * second) * second"
  using epoch_seconds_window [of "mi_issued m" later "tk_refresh_days E * 86400"]
  by (simp add: in_refresh_window_def)

lemma attempt_succeeds:
  assumes jwt: "jwt_verifies E" and faith: "jwt_faithful E" and ok: "auth_ok E db"
    and u: "user_by_id uid db = Some u" "us_vault u = Ready" "subject_ok (us_username u)"
    and fresh: "fresh_mint E m (ad_sessions db)" and checked: "in_refresh_window E m (mi_checked m)"
  obtains k rs access refresh st
  where "available_session_slot now uid (ad_sessions db) = (k, rs)"
    and "create_access_token E (us_username u) (mi_sid m) PURPOSE_SESSION (mi_access_jti m) (mi_issued m) = Some access"
    and "create_refresh_token E (us_username u) (mi_sid m) (mi_refresh_jti m) (mi_issued m) = Some refresh"
    and "ts_digest st = jti_digest E (mi_refresh_jti m)"
    and "ts_expires st = epoch_seconds (mi_issued m + tk_refresh_days E * 86400 * second) * second"
    and "issue_attempt E now m uid db = Issued
      \<lparr>st_username = us_username u, st_session_id = mi_sid m, st_access = access, st_refresh = refresh\<rparr>
      (db\<lparr>ad_sessions := rs @ [new_session E now m uid k st]\<rparr>)"
proof -
  obtain k rs where slot: "available_session_slot now uid (ad_sessions db) = (k, rs)" by fastforce
  have ids: "us_id u = uid" using user_by_idD [OF u(1)] by simp
  have sid: "token_identifier (mi_sid m)" and jti: "token_identifier (mi_refresh_jti m)"
    using fresh by (auto simp: fresh_mint_def)
  obtain access refresh where
    a: "create_access_token E (us_username u) (mi_sid m) PURPOSE_SESSION (mi_access_jti m) (mi_issued m) = Some access"
    and r: "create_refresh_token E (us_username u) (mi_sid m) (mi_refresh_jti m) (mi_issued m) = Some refresh"
    using sid by (simp add: create_access_token_def create_refresh_token_def)
  let ?st = "\<lparr>ts_sub = us_username u, ts_sid = mi_sid m, ts_digest = jti_digest E (mi_refresh_jti m),
    ts_expires = epoch_seconds (mi_issued m + tk_refresh_days E * 86400 * second) * second\<rparr>"
  have st: "token_state_of E (mi_checked m) refresh = Some ?st"
    using checked by (intro created_refresh_state [OF jwt u(3) jti r]) (auto simp: in_refresh_window_def)
  have rows: "rows_ok E (ad_sessions db)" using ok by (simp add: auth_ok_def)
  note alloc = slot_allocated [OF rows slot]
  have "\<not> session_collides rs (new_session E now m uid k ?st)"
    using alloc fresh by (auto simp: session_collides_def new_session_def fresh_mint_def)
  then have "issue_attempt E now m uid db = Issued
      \<lparr>st_username = us_username u, st_session_id = mi_sid m, st_access = access, st_refresh = refresh\<rparr>
      (db\<lparr>ad_sessions := rs @ [new_session E now m uid k ?st]\<rparr>)"
    using u(1,2) ids slot a r st by (simp add: issue_attempt_def Let_def)
  with slot a r show thesis by (intro that [of k rs access refresh ?st]) simp_all
qed

text \<open>C29: A login on a ready vault succeeds and its credentials work. With fresh identifiers the first
  attempt issues a session; its access token authenticates the user as long as it is valid, its refresh
  token matches the family, and no session of another user is changed.\<close>

theorem login_issues_working_session:
  fixes E :: "'t token_env"
  assumes "jwt_verifies E" and "jwt_faithful E" and "auth_ok E db"
    and "user_by_id uid db = Some u" and "us_vault u = Ready" and "subject_ok (us_username u)"
    and "draws 0 = (now, m)" and "fresh_mint E m (ad_sessions db)"
    and "in_refresh_window E m (mi_checked m)"
    and "in_access_window E m later" and "in_refresh_window E m later"
  shows "\<exists>t db'. login E draws spare u (\<lambda>x. x) db = (LoggedIn t, db')
    \<and> get_current_user_id E later (st_access t) db' = Some uid
    \<and> (\<exists>st. token_state_of E later (st_refresh t) = Some st
         \<and> (\<exists>s \<in> set (ad_sessions db'). rotate_match later st uid s))
    \<and> filter (\<lambda>s. as_user s \<noteq> uid) (ad_sessions db') = filter (\<lambda>s. as_user s \<noteq> uid) (ad_sessions db)
    \<and> ad_users db' = ad_users db"
proof (rule attempt_succeeds [OF assms(1-6,8,9), of now])
  fix k rs st and access refresh :: 't
  let ?s = "new_session E now m uid k st" and ?db' = "db\<lparr>ad_sessions := rs @ [new_session E now m uid k st]\<rparr>"
  let ?t = "\<lparr>st_username = us_username u, st_session_id = mi_sid m, st_access = access, st_refresh = refresh\<rparr>"
  assume slot: "available_session_slot now uid (ad_sessions db) = (k, rs)"
    and a: "create_access_token E (us_username u) (mi_sid m) PURPOSE_SESSION (mi_access_jti m) (mi_issued m) = Some access"
    and r: "create_refresh_token E (us_username u) (mi_sid m) (mi_refresh_jti m) (mi_issued m) = Some refresh"
    and st: "ts_digest st = jti_digest E (mi_refresh_jti m)"
      "ts_expires st = epoch_seconds (mi_issued m + tk_refresh_days E * 86400 * second) * second"
    and issued: "issue_attempt E now m uid db = Issued ?t ?db'"
  have uid: "us_id u = uid" "u \<in> set (ad_users db)" using user_by_idD [OF assms(4)] by auto
  have jtis: "token_identifier (mi_access_jti m)" "token_identifier (mi_refresh_jti m)"
    using assms(8) by (auto simp: fresh_mint_def)
  have three: "[0..<ISSUE_ATTEMPTS] = [0, 1, 2]" by (simp add: ISSUE_ATTEMPTS_def upt_rec)
  have "login E draws spare u (\<lambda>x. x) db = (LoggedIn ?t, ?db')"
    using assms(5,7) issued uid three by (simp add: login_def issue_auth_session_def)
  moreover have live: "session_live later ?s"
    using refresh_window_live [OF assms(11)] st by (simp add: session_live_def new_session_def)
  moreover have "get_current_user_id E later access ?db' = Some uid"
  proof -
    have "decode_access_token E later access =
        Some (access_claims E (us_username u) (mi_sid m) PURPOSE_SESSION (mi_access_jti m) (mi_issued m))"
      using assms(10) by (intro created_access_decodes [OF assms(1,6) jtis(1) a]) (auto simp: in_access_window_def)
    moreover have "select_first (\<lambda>s. as_id s = mi_sid m \<and> session_live later s
        \<and> (\<exists>v \<in> set (ad_users db). us_id v = as_user s \<and> us_username v = us_username u \<and> us_vault v = Ready))
        (rs @ [?s]) = Some ?s"
    proof (rule select_first_appended)
      have "\<forall>x \<in> set rs. as_id x \<noteq> mi_sid m"
        using slot_allocated(3) [OF _ slot] assms(3,8) by (auto simp: auth_ok_def fresh_mint_def)
      then show "\<forall>x \<in> set rs. \<not> (as_id x = mi_sid m \<and> session_live later x
        \<and> (\<exists>v \<in> set (ad_users db). us_id v = as_user x \<and> us_username v = us_username u \<and> us_vault v = Ready))"
        by blast
      have "as_id ?s = mi_sid m" "as_user ?s = uid" by (simp_all add: new_session_def)
      with live uid assms(5) show "as_id ?s = mi_sid m \<and> session_live later ?s
        \<and> (\<exists>v \<in> set (ad_users db). us_id v = as_user ?s \<and> us_username v = us_username u \<and> us_vault v = Ready)"
        by metis
    qed
    ultimately show ?thesis by (simp add: get_current_user_id_def token_simps) (simp add: new_session_def)
  qed
  moreover have "token_state_of E later refresh = Some \<lparr>ts_sub = us_username u, ts_sid = mi_sid m,
      ts_digest = jti_digest E (mi_refresh_jti m),
      ts_expires = epoch_seconds (mi_issued m + tk_refresh_days E * 86400 * second) * second\<rparr>"
    using assms(11) by (intro created_refresh_state [OF assms(1,6) jtis(2) r]) (auto simp: in_refresh_window_def)
  moreover have "rotate_match later \<lparr>ts_sub = us_username u, ts_sid = mi_sid m,
      ts_digest = jti_digest E (mi_refresh_jti m),
      ts_expires = epoch_seconds (mi_issued m + tk_refresh_days E * 86400 * second) * second\<rparr> uid ?s"
    using live st by (simp add: rotate_match_def session_live_def new_session_def)
  moreover have "filter (\<lambda>s. as_user s \<noteq> uid) (rs @ [?s]) = filter (\<lambda>s. as_user s \<noteq> uid) (ad_sessions db)"
    using slot_others [OF _ slot, of E] assms(3) by (simp add: auth_ok_def new_session_def)
  ultimately show ?thesis by (intro exI [of _ ?t] exI [of _ ?db']) (auto simp del: filter_append)
qed

subsection \<open>A pending erasure\<close>

lemma user_by_id_update:
  assumes "\<And>u. us_id (f u) = us_id u"
  shows "user_by_id uid (db\<lparr>ad_users := update_rows p f (ad_users db)\<rparr>)
    = map_option (\<lambda>u. if p u then f u else u) (user_by_id uid db)"
  using assms unfolding user_by_id_def by (simp add: select_first_update)

lemma user_by_id_put:
  assumes "\<And>u. us_id (f u) = us_id u"
  shows "user_by_id uid (put_user uid' f db)
    = map_option (\<lambda>u. if us_id u = uid' then f u else u) (user_by_id uid db)"
  unfolding put_user_def by (rule user_by_id_update [OF assms])

lemma user_by_id_users: "ad_users db' = ad_users db \<Longrightarrow> user_by_id uid db' = user_by_id uid db"
  by (simp add: user_by_id_def)

lemma vault_of_users: "ad_users db' = ad_users db \<Longrightarrow> vault_of uid db' = vault_of uid db"
  by (simp add: vault_of_def user_by_id_def)

lemma sessions_keep_users [simp]:
  "user_by_id uid (db\<lparr>ad_sessions := rows\<rparr>) = user_by_id uid db"
  "user_by_id uid (put_sessions f db) = user_by_id uid db"
  "vault_of uid (db\<lparr>ad_sessions := rows\<rparr>) = vault_of uid db"
  "vault_of uid (put_sessions f db) = vault_of uid db"
  by (simp_all add: vault_of_def user_by_id_def)

lemma operations_keep_vault [simp]:
  "vault_of uid (snd (issue_loop E draws uid' db)) = vault_of uid db"
  "vault_of uid (snd (rotate_update E now m st db)) = vault_of uid db"
  "vault_of uid (rotate_inspect now st uid' db) = vault_of uid db"
  "vault_of uid (snd (fold (revoke_binding E now) bs state)) = vault_of uid (snd state)"
  "vault_of uid (snd (issue_maintenance_access E now m u db)) = vault_of uid db"
  by (simp_all add: vault_of_def user_by_id_def)

lemma user_by_id_self: "user_by_id uid db = Some u \<Longrightarrow> us_id u = uid"
  by (auto dest: user_by_idD)

lemma vault_of_put:
  "(\<And>u. us_id (f u) = us_id u) \<Longrightarrow>
    vault_of uid (put_user uid' f db) =
      (if uid = uid' then map_option (us_vault \<circ> f) (user_by_id uid db) else vault_of uid db)"
  by (cases "user_by_id uid db") (auto simp: vault_of_def user_by_id_put dest: user_by_id_self)

lemma clear_vault_of:
  assumes "vault_of uid db = Some ErasurePending"
  shows "vault_of uid (snd (clear_vault_maintenance uid' v db)) = Some ErasurePending"
proof -
  let ?db' = "db\<lparr>ad_users := update_rows (\<lambda>u. us_id u = uid' \<and> us_vault u = v)
    (\<lambda>u. u\<lparr>us_vault := Ready, us_fingerprint := None\<rparr>) (ad_users db)\<rparr>"
  have "snd (clear_vault_maintenance uid' v db) \<in> (if v = ErasurePending then {db} else {db, ?db'})"
    by (auto simp: clear_vault_maintenance_def Let_def split: option.splits)
  moreover have "vault_of uid ?db' = Some ErasurePending" if "v \<noteq> ErasurePending"
  proof -
    from assms obtain u where "user_by_id uid db = Some u" "us_vault u = ErasurePending"
      by (auto simp: vault_of_def)
    with that show ?thesis by (simp add: vault_of_def user_by_id_update)
  qed
  ultimately show ?thesis using assms by (auto split: if_splits)
qed

lemma reset_vault_of:
  assumes "vault_of uid db = Some ErasurePending"
  shows "vault_of uid (snd (finish_reset now uid' sid db)) = Some ErasurePending"
proof -
  have "vault_of uid (snd (finish_reset now uid' sid db)) \<in>
      {vault_of uid db, vault_of uid (snd (clear_vault_maintenance uid' ResetPending db))}"
    using reset_users [of now uid' sid db] by (auto intro: vault_of_users)
  with assms clear_vault_of [OF assms] show ?thesis by auto
qed

lemma begin_vault_of:
  assumes "vault_of uid db = Some ErasurePending"
  shows "vault_of uid (snd (begin_vault_maintenance E now uid' sid target purpose fp db)) = Some ErasurePending"
proof -
  from assms obtain u where u: "user_by_id uid db = Some u" "us_vault u = ErasurePending"
    by (auto simp: vault_of_def)
  have target: "target = ErasurePending"
    if "ErasurePending \<in> set (allowed_current_states target)" "target \<noteq> Ready"
    using that by (auto simp: allowed_current_states_def split: if_splits)
  show ?thesis
  proof (cases "uid' = uid")
    case True
    with assms u target show ?thesis
      by (auto simp: begin_vault_maintenance_def vault_of_put split: sum.splits)
  next
    case False
    with assms show ?thesis
      by (simp add: begin_vault_maintenance_def vault_of_put split: option.splits sum.splits)
  qed
qed

lemma apply_vault_of:
  assumes pending: "vault_of uid db = Some ErasurePending" and "e \<noteq> FinishErasure uid"
  shows "vault_of uid (auth_apply E e db) = Some ErasurePending"
proof (cases e)
  case (FinishErasure uid')
  with assms have "uid' \<noteq> uid" by auto
  with FinishErasure pending show ?thesis
    by (simp add: remove_auth_sessions_after_cleanup_def Let_def vault_of_put split: option.split)
next
  case (FinishRestore now uid')
  with pending show ?thesis
    by (cases "uid' = uid") (simp_all add: finish_restore_def vault_of_put)
qed (use pending in \<open>simp_all add: issue_auth_session_def revoke_presented_sessions_def
    clear_vault_of begin_vault_of reset_vault_of split: option.split\<close>)

interpretation erasing: lasting_fact users_ok "\<lambda>uid db. vault_of uid db = Some ErasurePending" "auth_apply E"
    "\<lambda>uid e. e \<noteq> FinishErasure uid"
  for E :: "'t token_env"
  by unfold_locales (auto simp: apply_users_ok apply_vault_of)

subsection \<open>The maintenance gate\<close>

text \<open>The events that happen only while their route holds the maintenance gate.\<close>

fun holds_gate :: "'t auth_event \<Rightarrow> bool" where
  "holds_gate (BeginMaintenance now uid sid target purpose fp) \<longleftrightarrow> True"
| "holds_gate (ClearMaintenance uid expected) \<longleftrightarrow> True"
| "holds_gate (FinishErasure uid) \<longleftrightarrow> True"
| "holds_gate (FinishReset now uid sid) \<longleftrightarrow> True"
| "holds_gate (FinishRestore now uid) \<longleftrightarrow> True"
| "holds_gate e \<longleftrightarrow> False"

lemma gate_free_keeps_vault:
  "\<not> holds_gate e \<Longrightarrow> vault_of uid (auth_apply E e db) = vault_of uid db"
  by (cases e) (simp_all add: issue_auth_session_def revoke_presented_sessions_def split: option.split)

lemma gate_free_run_keeps_vault:
  assumes "\<forall>e \<in> set es. \<not> holds_gate e"
  shows "vault_of uid (auth_run E es db) = vault_of uid db"
  using assms by (induction es arbitrary: db) (simp_all add: auth_run_def gate_free_keeps_vault)

lemma begun_vault_of:
  assumes "begin_vault_maintenance E now uid sid target purpose fp db = (Inr r, db')"
  shows "vault_of uid db' = Some target"
  using assms
  by (auto simp: begin_vault_maintenance_def vault_of_put split: option.splits sum.splits if_splits)

text \<open>A restore that has begun finds its own pending state when it commits, and its commit happens.\<close>

lemma restore_still_pending:
  assumes "begin_vault_maintenance E now uid sid RestorePending purpose fp db = (Inr r, db')"
    and "\<forall>e \<in> set es. \<not> holds_gate e"
  shows "vault_of uid (auth_run E es db') = Some RestorePending"
    and "auth_apply E (FinishRestore later uid) (auth_run E es db') = finish_restore later uid (auth_run E es db')"
  using gate_free_run_keeps_vault [OF assms(2), of uid E db'] begun_vault_of [OF assms(1)] by simp_all

subsection \<open>Authority while an erasure is pending\<close>

lemma issue_not_ready:
  assumes "vault_of uid db = Some v" and "v \<noteq> Ready"
  shows "issue_auth_session E draws uid db =
    (Inl (MaintenancePending ''Complete pending local-data maintenance before signing in''), db)"
proof -
  have three: "[0..<ISSUE_ATTEMPTS] = [0, 1, 2]" by (simp add: ISSUE_ATTEMPTS_def upt_rec)
  obtain now m where d: "draws 0 = (now, m)" by fastforce
  from assms obtain u where "user_by_id uid db = Some u" "us_vault u \<noteq> Ready" by (auto simp: vault_of_def)
  with three d show ?thesis by (simp add: issue_auth_session_def issue_attempt_def)
qed

lemma vault_ready_unique:
  assumes "users_ok db" and "u \<in> set (ad_users db)"
  shows "vault_of (us_id u) db = Some (us_vault u)"
  using unique_users(1) [OF assms] by (simp add: vault_of_def)

text \<open>C27: An erasure that has begun excludes everything else until it is finished. Whatever requests
  arrive, the vault stays in erasure; no access token authenticates the user, no session is issued or
  rotated, and the only authority left is that of a maintenance bearer of a retry family.\<close>

theorem pending_erasure_excludes_everything:
  assumes "users_ok db" and "vault_of uid db = Some ErasurePending"
    and "\<forall>e \<in> set es. e \<noteq> FinishErasure uid"
    and "db' = auth_run E es db"
  shows "vault_of uid db' = Some ErasurePending
    \<and> get_current_user_id E now token db' \<noteq> Some uid
    \<and> issue_auth_session E draws uid db' =
        (Inl (MaintenancePending ''Complete pending local-data maintenance before signing in''), db')
    \<and> (\<forall>u. user_by_name (ts_sub st) db' = Some u \<longrightarrow> us_id u = uid \<longrightarrow>
         rotate_update E now m st db' = (RotateStop, db'))
    \<and> (\<forall>a. get_vault_maintenance_authority E now token db' = Some a \<longrightarrow> au_user a = uid \<longrightarrow>
         au_purpose a = PURPOSE_MAINTENANCE \<and> au_state a = ErasurePending
         \<and> (\<exists>s \<in> set (ad_sessions db'). as_id s = au_session a \<and> is_erasure_pending_session E s))"
proof -
  have ok: "users_ok db'" unfolding assms(4) auth_run_def by (rule erasing.good_run [OF assms(1)])
  have pending: "vault_of uid db' = Some ErasurePending"
    unfolding assms(4) auth_run_def by (rule erasing.lasts [OF assms(1-3)])
  have vault: "us_vault u = ErasurePending" if "u \<in> set (ad_users db')" "us_id u = uid" for u
    using vault_ready_unique [OF ok that(1)] that(2) pending by simp
  have "get_current_user_id E now token db' \<noteq> Some uid"
    using current_user_session [of E now token db' uid] vault by fastforce
  moreover have "rotate_update E now m st db' = (RotateStop, db')"
    if "user_by_name (ts_sub st) db' = Some u" "us_id u = uid" for u
    using that vault [of u] user_by_nameD [OF that(1)] by (simp add: rotate_update_def)
  moreover have "au_purpose a = PURPOSE_MAINTENANCE \<and> au_state a = ErasurePending
      \<and> (\<exists>s \<in> set (ad_sessions db'). as_id s = au_session a \<and> is_erasure_pending_session E s)"
    if a: "get_vault_maintenance_authority E now token db' = Some a" "au_user a = uid" for a
    using a(1)
  proof (rule authority_session)
    fix s u sub purpose
    assume s: "s \<in> set (ad_sessions db')" "valid_authority E (us_vault u) purpose s"
      and u: "user_by_name sub db' = Some u" "us_id u = as_user s"
      and eq: "a = \<lparr>au_user = as_user s, au_session = as_id s, au_state = us_vault u, au_purpose = purpose\<rparr>"
    have "us_vault u = ErasurePending" using user_by_nameD [OF u(1)] u(2) eq a(2) by (intro vault) auto
    with s eq show ?thesis by (auto simp: valid_authority_def)
  qed
  ultimately show ?thesis using pending issue_not_ready [OF pending] by blast
qed

subsection \<open>One family remains\<close>

lemma revoke_others_live:
  "s \<in> set (revoke_others now uid sid rows) \<Longrightarrow> as_user s = uid \<Longrightarrow> as_revoked s = None \<Longrightarrow> as_id s = sid"
  unfolding revoke_others_def by (erule update_rows_cases) auto

lemma filter_update_others:
  "(\<And>r. p r \<Longrightarrow> \<not> q r \<and> \<not> q (f r)) \<Longrightarrow> filter q (update_rows p f rows) = filter q rows"
  by (induction rows) auto

lemma begin_rows:
  assumes "(if target = ErasurePending then begin_erasure_pending E now uid sid rows
      else begin_live_maintenance_pending now uid sid rows) = Inr rows'"
  shows "s \<in> set rows' \<Longrightarrow> as_user s = uid \<Longrightarrow> as_revoked s = None \<Longrightarrow>
      as_id s = sid \<and> target \<noteq> ErasurePending"
    and "filter (\<lambda>s. as_user s \<noteq> uid) rows' = filter (\<lambda>s. as_user s \<noteq> uid) rows"
proof -
  have others: "filter (\<lambda>s. as_user s \<noteq> uid) (revoke_others now uid sid rows) = filter (\<lambda>s. as_user s \<noteq> uid) rows"
    unfolding revoke_others_def by (rule filter_update_others) simp
  let ?f = "\<lambda>s. s\<lparr>as_digest := erasure_pending_digest E sid,
    as_revoked := Some (or_else (as_revoked s) now), as_updated := now\<rparr>"
  let ?p = "\<lambda>s. as_user s = uid \<and> as_id s = sid"
  have marked: "filter (\<lambda>s. as_user s \<noteq> uid) (update_rows ?p ?f rs) = filter (\<lambda>s. as_user s \<noteq> uid) rs"
    for rs :: session_table
    by (rule filter_update_others) simp
  show "filter (\<lambda>s. as_user s \<noteq> uid) rows' = filter (\<lambda>s. as_user s \<noteq> uid) rows"
  proof (cases "target = ErasurePending")
    case True
    with assms have "rows' = update_rows ?p ?f (revoke_others now uid sid rows)"
      by (auto simp: begin_erasure_pending_def split: option.splits if_splits)
    with marked others show ?thesis by simp
  next
    case False
    with assms live_maintenance_rows others show ?thesis by simp
  qed
  assume s: "s \<in> set rows'" "as_user s = uid" "as_revoked s = None"
  show "as_id s = sid \<and> target \<noteq> ErasurePending"
  proof (cases "target = ErasurePending")
    case True
    with assms have "rows' = update_rows ?p ?f (revoke_others now uid sid rows)"
      by (auto simp: begin_erasure_pending_def split: option.splits if_splits)
    with s(1) have "s \<in> set (update_rows ?p ?f (revoke_others now uid sid rows))" by simp
    then have "s \<in> set (revoke_others now uid sid rows)" "as_id s \<noteq> sid"
      using s(2,3) by (cases rule: update_rows_cases; simp)+
    with revoke_others_live s show ?thesis by blast
  next
    case False
    with assms have "rows' = revoke_others now uid sid rows" by (simp add: live_maintenance_rows)
    with revoke_others_live s False show ?thesis by blast
  qed
qed

text \<open>Beginning maintenance leaves one family. When reset, restore or erasure of a vault begins, the
  vault is in that state, the transition was allowed and its bearer had the purpose that the state
  demands, every other family of the user is revoked, and other accounts are not touched.\<close>

lemma maintenance_keeps_one_family:
  assumes "begin_vault_maintenance E now uid sid target purpose fp db = (Inr first, db')"
  shows "vault_of uid db' = Some target \<and> target \<noteq> Ready
    \<and> (\<exists>v. vault_of uid db = Some v \<and> v \<in> set (allowed_current_states target)
         \<and> purpose = expected_purpose v \<and> first = (v = Ready))
    \<and> (\<forall>s \<in> set (ad_sessions db'). as_user s = uid \<longrightarrow> as_revoked s = None \<longrightarrow>
         as_id s = sid \<and> target \<noteq> ErasurePending)
    \<and> (\<exists>s \<in> set (ad_sessions db). as_user s = uid \<and> as_id s = sid \<and> now < as_expires s
         \<and> (as_revoked s = None \<or> (target = ErasurePending \<and> is_erasure_pending_session E s)))
    \<and> filter (\<lambda>s. as_user s \<noteq> uid) (ad_sessions db') = filter (\<lambda>s. as_user s \<noteq> uid) (ad_sessions db)
    \<and> filter (\<lambda>u. us_id u \<noteq> uid) (ad_users db') = filter (\<lambda>u. us_id u \<noteq> uid) (ad_users db)"
proof -
  from assms obtain u rows where u: "user_by_id uid db = Some u"
    and v: "us_vault u \<in> set (allowed_current_states target)" "purpose = expected_purpose (us_vault u)"
      "first = (us_vault u = Ready)" "target \<noteq> Ready"
    and rows: "(if target = ErasurePending then begin_erasure_pending E now uid sid (ad_sessions db)
      else begin_live_maintenance_pending now uid sid (ad_sessions db)) = Inr rows"
    and db': "db' = put_user uid (\<lambda>u. u\<lparr>us_vault := target, us_fingerprint := fp\<rparr>) (db\<lparr>ad_sessions := rows\<rparr>)"
    by (auto simp: begin_vault_maintenance_def split: option.splits sum.splits if_splits)
  have "vault_of uid db' = Some target"
    using u by (simp add: db' vault_of_put)
  moreover have "filter (\<lambda>u. us_id u \<noteq> uid) (ad_users db') = filter (\<lambda>u. us_id u \<noteq> uid) (ad_users db)"
    unfolding db' put_user_def by (simp add: filter_update_others)
  moreover have "\<exists>s \<in> set (ad_sessions db). as_user s = uid \<and> as_id s = sid \<and> now < as_expires s
      \<and> (as_revoked s = None \<or> (target = ErasurePending \<and> is_erasure_pending_session E s))"
  proof -
    from rows obtain c where c: "current_session uid sid (ad_sessions db) = Some c" "now < as_expires c"
      "as_revoked c = None \<or> (target = ErasurePending \<and> is_erasure_pending_session E c)"
      by (auto simp: begin_erasure_pending_def begin_live_maintenance_pending_def not_le
          split: option.splits if_splits)
    then show ?thesis by (auto simp: current_session_def dest!: select_first_Some)
  qed
  ultimately show ?thesis
    using u v begin_rows [OF rows] by (auto simp: vault_of_def db' simp del: put_user_def)
qed

end
