(* ===== verification/AuthWitnesses.thy ===== *)
theory AuthWitnesses
  imports AuthMaintenance
begin

text \<open>
  Concrete runs of the session component: a small instance of the token library
  whose tokens are their own payloads, one account, and each property of the
  component at concrete tables and tokens.
\<close>

definition demo_decode :: "instant \<Rightarrow> string list \<Rightarrow> payload \<Rightarrow> payload option" where
  "demo_decode now req p =
     (if list_all (\<lambda>k. p k \<noteq> None) req
        \<and> (case int_claim p ''iat'' of None \<Rightarrow> True | Some i \<Rightarrow> i * second \<le> now)
        \<and> (case int_claim p ''exp'' of None \<Rightarrow> False | Some e \<Rightarrow> now < e * second)
      then Some p else None)"

definition demo_env :: "payload token_env" where
  "demo_env = \<lparr>tk_encode = (\<lambda>p. p), tk_decode = demo_decode, tk_sha = (\<lambda>s. s),
     tk_access_minutes = 30, tk_refresh_days = 7\<rparr>"

lemma demo_env_laws: "jwt_verifies demo_env" "jwt_faithful demo_env" "jwt_expires demo_env" "sha_injective demo_env"
  by (auto simp: jwt_verifies_def jwt_faithful_def jwt_expires_def sha_injective_def demo_env_def
      demo_decode_def list_all_iff split: option.splits if_splits)

definition demo_mint :: "char \<Rightarrow> char \<Rightarrow> mint" where
  "demo_mint s j = \<lparr>mi_sid = replicate 32 s, mi_access_jti = replicate 32 j, mi_refresh_jti = replicate 32 j,
     mi_issued = 0, mi_checked = 0\<rparr>"

definition demo_draws :: "nat \<Rightarrow> instant \<times> mint" where
  "demo_draws i = (0, demo_mint (CHR ''a'') (CHR ''b''))"

definition demo_accounts :: auth_db where
  "demo_accounts = \<lparr>ad_users = [\<lparr>us_id = 1, us_username = ''ada'', us_vault = Ready, us_fingerprint = None\<rparr>],
     ad_sessions = []\<rparr>"

definition demo_row :: auth_session where
  "demo_row = \<lparr>as_id = replicate 32 CHR ''a'', as_user = 1, as_slot = 0, as_digest = replicate 32 CHR ''b'',
     as_expires = 604800000000, as_revoked = None, as_created = 0, as_updated = 0\<rparr>"

definition demo_signed_in :: auth_db where
  "demo_signed_in = demo_accounts\<lparr>ad_sessions := [demo_row]\<rparr>"

definition demo_refresh :: payload where
  "demo_refresh = refresh_claims demo_env ''ada'' (replicate 32 CHR ''a'') (replicate 32 CHR ''b'') 0"

definition demo_access :: payload where
  "demo_access = access_claims demo_env ''ada'' (replicate 32 CHR ''a'') PURPOSE_SESSION (replicate 32 CHR ''b'') 0"

lemma demo_accounts_ok: "auth_ok demo_env demo_accounts"
  by (simp add: auth_ok_def rows_ok_def users_ok_def unique_by_def demo_accounts_def)

lemma hex_b: "token_identifier (replicate 32 CHR ''b'')"
  by (simp add: token_identifier_def)

lemma demo_signed_in_ok: "auth_ok demo_env demo_signed_in"
  using hex_b by (auto simp: auth_ok_def rows_ok_def users_ok_def unique_by_def demo_signed_in_def
      demo_accounts_def demo_row_def digest_kind_def jti_digest_def demo_env_def MAX_ACTIVE_REFRESH_SESSIONS_def)

theorem auth_sessions_bounded_witness:
  "auth_ok demo_env (auth_run demo_env [Issue demo_draws 1] demo_accounts)
    \<and> row_count (\<lambda>s. as_user s = 1) (ad_sessions (auth_run demo_env [Issue demo_draws 1] demo_accounts)) = 1"
proof -
  have "row_count (\<lambda>s. as_user s = 1) (ad_sessions (auth_run demo_env [Issue demo_draws 1] demo_accounts)) = 1"
    by code_simp
  with auth_sessions_bounded [OF demo_env_laws(2,4) demo_accounts_ok, of "[Issue demo_draws 1]" 1]
  show ?thesis by blast
qed

definition demo_state :: token_state where
  "demo_state = \<lparr>ts_sub = ''ada'', ts_sid = replicate 32 CHR ''a'', ts_digest = replicate 32 CHR ''b'',
     ts_expires = 604800000000\<rparr>"

theorem rotated_token_never_again_witness:
  "\<exists>t db1. rotate_update demo_env 0 (demo_mint (CHR ''a'') (CHR ''c'')) demo_state demo_signed_in = (Rotated t, db1)
    \<and> (\<nexists>t'. fst (rotate_update demo_env 5 (demo_mint (CHR ''a'') (CHR ''d'')) demo_state
          (auth_run demo_env [] db1)) = Rotated t')"
proof -
  let ?m = "demo_mint (CHR ''a'') (CHR ''c'')"
  have "case rotate_update demo_env 0 ?m demo_state demo_signed_in of (Rotated t, _) \<Rightarrow> True | _ \<Rightarrow> False"
    by code_simp
  then obtain t db1 where r: "rotate_update demo_env 0 ?m demo_state demo_signed_in = (Rotated t, db1)"
    by (auto split: prod.splits rotation.splits)
  have d: "decode_refresh_token demo_env 0 demo_refresh = Some demo_refresh"
    using hex_b by (simp add: decode_refresh_token_def demo_env_def demo_decode_def demo_refresh_def token_simps
        list_all_iff valid_common_claims_def valid_session_claim_def token_identifier_def MAX_USERNAME_CHARS_def
        refresh_claims_def text_claim_def int_claim_def refresh_required_def epoch_seconds_def second_def)
  have j: "text_claim demo_refresh ''jti'' = Some (replicate 32 CHR ''b'')"
    by (simp add: demo_refresh_def token_simps)
  have st: "token_state_of demo_env 0 demo_refresh = Some demo_state"
    using d by (simp add: token_state_of_def demo_refresh_def token_simps demo_state_def jti_digest_def
        demo_env_def epoch_seconds_def second_def)
  have "mi_refresh_jti ?m \<noteq> replicate 32 CHR ''b''" by (simp add: demo_mint_def)
  from rotated_token_never_again [OF demo_env_laws(2,4) demo_signed_in_ok d j st r this, of "[]"] r
  show ?thesis by auto
qed

lemma demo_access_decodes: "decode_access_token demo_env 0 demo_access = Some demo_access"
  "decode_access_token demo_env 5 demo_access = Some demo_access"
  by (simp_all add: decode_access_token_def demo_env_def demo_decode_def demo_access_def
        list_all_iff valid_common_claims_def valid_session_claim_def token_identifier_def MAX_USERNAME_CHARS_def
        access_claims_def text_claim_def int_claim_def access_required_def epoch_seconds_def second_def)

theorem logout_is_final_witness:
  "get_current_user_id demo_env 5 demo_access demo_signed_in = Some 1
    \<and> get_current_user_id demo_env 5 demo_access
        (auth_run demo_env [Logout 0 0 None (Some demo_access)] demo_signed_in) = None"
proof -
  let ?a = "replicate 32 CHR ''a''"
  obtain u where u: "user_by_name ''ada'' demo_signed_in = Some u" "us_id u = 1"
    by (simp add: user_by_name_def demo_signed_in_def demo_accounts_def)
  have c: "text_claim demo_access ''sub'' = Some ''ada''" "text_claim demo_access ''sid'' = Some ?a"
    by (simp_all add: demo_access_def token_simps)
  have own: "\<forall>s \<in> set (ad_sessions demo_signed_in). as_id s = ?a \<longrightarrow> as_user s = us_id u"
    using u by (simp add: demo_signed_in_def demo_accounts_def demo_row_def)
  have "get_current_user_id demo_env 5 demo_access demo_signed_in = Some 1" by code_simp
  with logout_is_final [OF demo_env_laws(2,4) demo_signed_in_ok demo_access_decodes(1) c u(1) own, of "[]" _ 0 None 5]
    demo_access_decodes(2) c(2) show ?thesis by simp
qed

theorem slot_allocation_witness:
  "available_session_slot 0 1 [demo_row] = (1, [demo_row])
    \<and> (1::nat) < MAX_ACTIVE_REFRESH_SESSIONS \<and> list_all (\<lambda>s. as_slot s \<noteq> 1) [demo_row]"
proof -
  have r: "available_session_slot 0 1 [demo_row] = (1, [demo_row])"
    by code_simp
  have "rows_ok demo_env [demo_row]"
    using demo_signed_in_ok by (simp add: auth_ok_def demo_signed_in_def)
  from slot_allocation [OF this r] r show ?thesis by (simp add: demo_row_def MAX_ACTIVE_REFRESH_SESSIONS_def)
qed

theorem login_issues_working_session_witness:
  "\<exists>t db'. login demo_env demo_draws (0, demo_mint (CHR ''x'') (CHR ''x'')) (hd (ad_users demo_accounts)) (\<lambda>x. x)
      demo_accounts = (LoggedIn t, db') \<and> get_current_user_id demo_env 5 (st_access t) db' = Some 1"
proof -
  let ?u = "hd (ad_users demo_accounts)" and ?m = "demo_mint (CHR ''a'') (CHR ''b'')"
  have u: "user_by_id 1 demo_accounts = Some ?u" "us_vault ?u = Ready" "subject_ok (us_username ?u)"
    by (simp_all add: user_by_id_def demo_accounts_def subject_ok_def MAX_USERNAME_CHARS_def)
  have m: "fresh_mint demo_env ?m (ad_sessions demo_accounts)"
    by (simp add: fresh_mint_def demo_accounts_def demo_mint_def token_identifier_def)
  have w: "in_refresh_window demo_env ?m (mi_checked ?m)" "in_access_window demo_env ?m 5"
    "in_refresh_window demo_env ?m 5"
    by (simp_all add: in_refresh_window_def in_access_window_def demo_mint_def demo_env_def second_def)
  from login_issues_working_session [OF demo_env_laws(1,2) demo_accounts_ok u _ m w, of demo_draws 0]
  show ?thesis unfolding demo_draws_def by blast
qed

definition demo_erasing :: auth_db where
  "demo_erasing = demo_signed_in\<lparr>ad_users :=
     [\<lparr>us_id = 1, us_username = ''ada'', us_vault = ErasurePending, us_fingerprint = None\<rparr>]\<rparr>"

theorem pending_erasure_excludes_everything_witness:
  "vault_of 1 (auth_run demo_env [Issue demo_draws 1, FinishReset 0 1 ''x''] demo_erasing) = Some ErasurePending
    \<and> get_current_user_id demo_env 5 demo_access
        (auth_run demo_env [Issue demo_draws 1, FinishReset 0 1 ''x''] demo_erasing) \<noteq> Some 1"
proof -
  let ?es = "[Issue demo_draws 1, FinishReset 0 1 ''x'']"
  have ok: "users_ok demo_erasing" and v: "vault_of 1 demo_erasing = Some ErasurePending"
    by (simp_all add: users_ok_def unique_by_def demo_erasing_def vault_of_def user_by_id_def)
  have "\<forall>e \<in> set ?es. e \<noteq> FinishErasure 1" by simp
  from pending_erasure_excludes_everything
    [OF ok v this refl, where E = demo_env and now = 5 and token = demo_access]
  show ?thesis by blast
qed

theorem maintenance_keeps_one_family_witness:
  "\<exists>db'. begin_vault_maintenance demo_env 0 1 (replicate 32 CHR ''a'') ResetPending PURPOSE_SESSION None
      demo_signed_in = (Inr True, db') \<and> vault_of 1 db' = Some ResetPending"
proof -
  let ?r = "begin_vault_maintenance demo_env 0 1 (replicate 32 CHR ''a'') ResetPending PURPOSE_SESSION None
      demo_signed_in"
  have "fst ?r = Inr True" by code_simp
  then have r: "?r = (Inr True, snd ?r)" by (metis prod.collapse)
  from maintenance_keeps_one_family [OF r] r show ?thesis by blast
qed

end
