(* ===== verification/Grants.thy ===== *)
theory Grants
  imports Maintenance
begin

text \<open>
  Automation grants, \<open>automation/grants.py\<close> with the row of \<open>models.py\<close> and the
  label and scopes of \<open>schemas.py\<close>. A grant is a scoped bearer whose secret is
  stored only as a digest. Unicode normalisation, the categories of characters
  and SHA-256 are parameters (\<open>grant_env\<close>); identifiers, secrets and clock
  readings are arguments. Each mutation runs under one process lock and commits
  once, so it is a function on the tables.
\<close>

subsection \<open>Rows and views\<close>

record grant_env =
  ge_nfc :: "string \<Rightarrow> string"
  ge_invisible :: "char \<Rightarrow> bool"
  ge_sha :: "string \<Rightarrow> string"

record grant =
  gr_id :: string
  gr_user :: int
  gr_label :: string
  gr_digest :: string
  gr_scopes :: "string list option"  \<comment> \<open>None: the stored JSON is not a list of strings\<close>
  gr_expires :: instant
  gr_revoked :: "instant option"
  gr_created :: instant

record grant_db =
  gd_users :: "user_row table"
  gd_grants :: "grant table"

type_synonym grants = "grant table"

record grant_view =
  gv_id :: string
  gv_label :: string
  gv_scopes :: "string list"
  gv_expires :: instant
  gv_revoked :: "instant option"
  gv_created :: instant

datatype grant_error = GrantError string | GrantIntegrity | GrantVanished

type_synonym 'a grant_result = "grant_error + 'a"

definition base_scopes :: "string list" where
  "base_scopes = [''system:read'', ''career:read'', ''resume:read'', ''applications:read'']"

definition extended_scopes :: "string list" where
  "extended_scopes = [''context:read'', ''proposals:write'']"

definition all_scopes :: "string list" where
  "all_scopes = base_scopes @ extended_scopes"

definition MAX_ACTIVE_GRANTS :: nat where "MAX_ACTIVE_GRANTS = 32"

definition RECENT_HISTORY :: nat where "RECENT_HISTORY = 100"

definition PRUNE_BATCH :: nat where "PRUNE_BATCH = 500"

definition TOKEN_PREFIX :: string where "TOKEN_PREFIX = ''careeros_mcp_v1_''"

definition scope_set :: "grant \<Rightarrow> string list" where
  "scope_set g = or_else (gr_scopes g) []"

definition normalize_scopes :: "string list \<Rightarrow> string list grant_result" where
  "normalize_scopes values =
     (if values = [] \<or> \<not> list_all (\<lambda>s. s \<in> set all_scopes) values
      then Inl (GrantError ''invalid_scopes'')
      else Inr (filter (\<lambda>s. s \<in> set values) all_scopes))"

text \<open>\<open>str.strip\<close>, over the characters that Python counts as white space.\<close>

definition is_space :: "char \<Rightarrow> bool" where
  "is_space c \<longleftrightarrow> of_char c \<in> {9, 10, 11, 12, 13, 28, 29, 30, 31, 32, 133, 160 :: nat}"

definition strip :: "string \<Rightarrow> string" where
  "strip s = rev (dropWhile is_space (rev (dropWhile is_space s)))"

definition normalize_grant_label :: "grant_env \<Rightarrow> string \<Rightarrow> string option" where
  "normalize_grant_label G value =
     (let normalized = strip (ge_nfc G value) in
      if 1 \<le> length normalized \<and> length normalized \<le> 120 \<and> \<not> list_ex (ge_invisible G) normalized
      then Some normalized else None)"

definition grant_view_of :: "grant \<Rightarrow> grant_view grant_result" where
  "grant_view_of g =
     (case normalize_scopes (scope_set g) of
        Inl e \<Rightarrow> Inl e
      | Inr scopes \<Rightarrow> Inr \<lparr>gv_id = gr_id g, gv_label = gr_label g, gv_scopes = scopes,
          gv_expires = gr_expires g, gv_revoked = gr_revoked g, gv_created = gr_created g\<rparr>)"

definition vault_ready :: "int \<Rightarrow> user_row table \<Rightarrow> bool" where
  "vault_ready uid users = (map_option us_vault (select_first (\<lambda>u. us_id u = uid) users) = Some Ready)"

subsection \<open>The bounded history of inactive grants\<close>

definition grant_live :: "instant \<Rightarrow> grant \<Rightarrow> bool" where
  "grant_live now g \<longleftrightarrow> gr_revoked g = None \<and> now < gr_expires g"

definition inactive :: "int \<Rightarrow> instant \<Rightarrow> grant \<Rightarrow> bool" where
  "inactive uid now g \<longleftrightarrow> gr_user g = uid \<and> (gr_revoked g \<noteq> None \<or> gr_expires g \<le> now)"

definition inactivity_at :: "grant \<Rightarrow> instant" where
  "inactivity_at g = or_else (gr_revoked g) (gr_expires g)"

definition history_order :: "grant \<Rightarrow> int \<times> string" where
  "history_order g = (- inactivity_at g, gr_id g)"

definition inactive_history :: "int \<Rightarrow> instant \<Rightarrow> grants \<Rightarrow> grant list" where
  "inactive_history uid now rows = sort_key history_order (filter (inactive uid now) rows)"

definition stale_batch :: "int \<Rightarrow> instant \<Rightarrow> grants \<Rightarrow> string list" where
  "stale_batch uid now rows = map gr_id (take PRUNE_BATCH (drop RECENT_HISTORY (inactive_history uid now rows)))"

definition drop_stale :: "int \<Rightarrow> string list \<Rightarrow> grants \<Rightarrow> grants" where
  "drop_stale uid ids rows = delete_rows (\<lambda>g. gr_user g = uid \<and> gr_id g \<in> set ids) rows"

lemma stale_batch_inactive:
  assumes "i \<in> set (stale_batch uid now rows)"
  shows "\<exists>g \<in> set rows. inactive uid now g \<and> gr_id g = i"
proof -
  from assms obtain g where "g \<in> set (inactive_history uid now rows)" "gr_id g = i"
    by (auto simp: stale_batch_def dest!: in_set_takeD in_set_dropD)
  then show ?thesis by (auto simp: inactive_history_def)
qed

lemma drop_stale_less:
  assumes "stale_batch uid now rows \<noteq> []"
  shows "length (drop_stale uid (stale_batch uid now rows) rows) < length rows"
proof -
  let ?ids = "stale_batch uid now rows"
  from assms obtain i where i: "i \<in> set ?ids" by (cases ?ids) auto
  from stale_batch_inactive [OF i] obtain g where "g \<in> set rows" "gr_user g = uid" "gr_id g \<in> set ?ids"
    using i by (auto simp: inactive_def)
  then show ?thesis
    unfolding drop_stale_def delete_rows_def by (intro length_filter_less) auto
qed

function prune_inactive_history :: "int \<Rightarrow> instant \<Rightarrow> grants \<Rightarrow> nat \<times> grants" where
  "prune_inactive_history uid now rows =
     (let ids = stale_batch uid now rows in
      if ids = [] then (0, rows)
      else let rows' = drop_stale uid ids rows in
        case prune_inactive_history uid now rows' of
          (removed, final) \<Rightarrow> ((length rows - length rows') + removed, final))"
  by pat_completeness auto

termination
  by (relation "measure (\<lambda>(uid, now, rows). length rows)") (auto simp: drop_stale_less)

declare prune_inactive_history.simps [simp del]

subsection \<open>Operations\<close>

record grant_draw =
  gw_id :: string
  gw_secret :: string
  gw_created :: instant

definition lifetime_ok :: "int \<Rightarrow> bool" where
  "lifetime_ok lifetime \<longleftrightarrow> 5 * 60 * second \<le> lifetime \<and> lifetime \<le> 365 * 86400 * second"

definition active_count :: "int \<Rightarrow> instant \<Rightarrow> grants \<Rightarrow> nat" where
  "active_count uid now rows = row_count (\<lambda>g. gr_user g = uid \<and> grant_live now g) rows"

definition issue_check ::
  "grant_env \<Rightarrow> instant \<Rightarrow> int \<Rightarrow> string \<Rightarrow> string list \<Rightarrow> int \<Rightarrow> bool \<Rightarrow> grant_db
     \<Rightarrow> (string \<times> string list) grant_result" where
  "issue_check G now uid label scopes lifetime acknowledged db =
     (case normalize_grant_label G label of
        None \<Rightarrow> Inl (GrantError ''invalid_label'')
      | Some label' \<Rightarrow>
          if \<not> lifetime_ok lifetime then Inl (GrantError ''invalid_lifetime'')
          else (case normalize_scopes scopes of
            Inl e \<Rightarrow> Inl e
          | Inr scopes' \<Rightarrow>
              if list_ex (\<lambda>s. s \<in> set extended_scopes) scopes' \<and> \<not> acknowledged
              then Inl (GrantError ''disclosure_required'')
              else if \<not> vault_ready uid (gd_users db)
              then Inl (GrantError ''vault_maintenance_pending'')
              else if MAX_ACTIVE_GRANTS \<le> active_count uid now (gd_grants db)
              then Inl (GrantError ''active_grant_limit'')
              else Inr (label', scopes')))"

definition new_grant ::
  "grant_env \<Rightarrow> instant \<Rightarrow> grant_draw \<Rightarrow> int \<Rightarrow> string \<Rightarrow> string list \<Rightarrow> int \<Rightarrow> grant" where
  "new_grant G now w uid label scopes lifetime =
     \<lparr>gr_id = gw_id w, gr_user = uid, gr_label = label, gr_digest = ge_sha G (TOKEN_PREFIX @ gw_secret w),
      gr_scopes = Some scopes, gr_expires = now + lifetime, gr_revoked = None, gr_created = gw_created w\<rparr>"

definition grant_collides :: "grants \<Rightarrow> grant \<Rightarrow> bool" where
  "grant_collides rows g \<longleftrightarrow> list_ex (\<lambda>r. gr_id r = gr_id g \<or> gr_digest r = gr_digest g) rows"

definition issue_grant ::
  "grant_env \<Rightarrow> instant \<Rightarrow> grant_draw \<Rightarrow> int \<Rightarrow> string \<Rightarrow> string list \<Rightarrow> int \<Rightarrow> bool \<Rightarrow> grant_db
     \<Rightarrow> (grant_view \<times> string) grant_result \<times> grant_db" where
  "issue_grant G now w uid label scopes lifetime acknowledged db =
     (case issue_check G now uid label scopes lifetime acknowledged db of
        Inl e \<Rightarrow> (Inl e, db)
      | Inr (label', scopes') \<Rightarrow>
          let g = new_grant G now w uid label' scopes' lifetime in
          if grant_collides (gd_grants db) g then (Inl GrantIntegrity, db)
          else let db' = db\<lparr>gd_grants := snd (prune_inactive_history uid now (gd_grants db @ [g]))\<rparr> in
            case grant_view_of g of
              Inl e \<Rightarrow> (Inl e, db')
            | Inr view \<Rightarrow> (Inr (view, TOKEN_PREFIX @ gw_secret w), db'))"

record principal =
  pr_grant :: string
  pr_user :: int
  pr_scopes :: "string list"

definition principal_allows :: "principal \<Rightarrow> string \<Rightarrow> bool" where
  "principal_allows p s = (s \<in> set (pr_scopes p))"

definition authenticate_grant :: "grant_env \<Rightarrow> instant \<Rightarrow> string \<Rightarrow> grant_db \<Rightarrow> principal grant_result" where
  "authenticate_grant G now token db =
     (let candidate = strip token; digest = ge_sha G candidate in
      if take (length TOKEN_PREFIX) candidate \<noteq> TOKEN_PREFIX
         \<or> \<not> (50 \<le> length candidate \<and> length candidate \<le> 96)
      then Inl (GrantError ''invalid_grant'')
      else (case select_first (\<lambda>g. gr_digest g = digest) (gd_grants db) of
        None \<Rightarrow> Inl (GrantError ''invalid_grant'')
      | Some g \<Rightarrow>
          if gr_revoked g \<noteq> None then Inl (GrantError ''revoked_grant'')
          else if gr_expires g \<le> now then Inl (GrantError ''expired_grant'')
          else if \<not> vault_ready (gr_user g) (gd_users db)
          then Inl (GrantError ''vault_maintenance_pending'')
          else (case normalize_scopes (scope_set g) of
            Inl e \<Rightarrow> Inl (GrantError ''invalid_grant'')
          | Inr scopes \<Rightarrow> Inr \<lparr>pr_grant = gr_id g, pr_user = gr_user g, pr_scopes = scopes\<rparr>)))"

fun views_of :: "grant list \<Rightarrow> grant_view list grant_result" where
  "views_of [] = Inr []"
| "views_of (g # gs) =
     (case grant_view_of g of
        Inl e \<Rightarrow> Inl e
      | Inr v \<Rightarrow> (case views_of gs of Inl e \<Rightarrow> Inl e | Inr vs \<Rightarrow> Inr (v # vs)))"

definition list_grants :: "int \<Rightarrow> instant \<Rightarrow> grant_db \<Rightarrow> grant_view list grant_result" where
  "list_grants uid now db =
     (let active = sort_key (\<lambda>g. (- gr_created g, gr_id g))
            (filter (\<lambda>g. gr_user g = uid \<and> grant_live now g) (gd_grants db));
          history = take RECENT_HISTORY (inactive_history uid now (gd_grants db)) in
      views_of (active @ history))"

definition revoke_grant :: "instant \<Rightarrow> int \<Rightarrow> string \<Rightarrow> grant_db \<Rightarrow> grant_view grant_result \<times> grant_db" where
  "revoke_grant now uid gid db =
     (case select_first (\<lambda>g. gr_id g = gid \<and> gr_user g = uid) (gd_grants db) of
        None \<Rightarrow> (Inl (GrantError ''grant_not_found''), db)
      | Some g \<Rightarrow>
          if gr_revoked g \<noteq> None then (grant_view_of g, db)
          else let g' = g\<lparr>gr_revoked := Some now\<rparr>;
              rows = update_rows (\<lambda>r. gr_id r = gid \<and> gr_user r = uid) (\<lambda>r. r\<lparr>gr_revoked := Some now\<rparr>)
                (gd_grants db) in
            let kept = snd (prune_inactive_history uid now rows); db' = db\<lparr>gd_grants := kept\<rparr> in
            if list_ex (\<lambda>r. gr_id r = gid) kept then (grant_view_of g', db') else (Inl GrantVanished, db'))"

text \<open>What a restore and the deletion of a vault do to the grants of a user.\<close>

definition revoke_all_grants :: "instant \<Rightarrow> int \<Rightarrow> grant_db \<Rightarrow> grant_db" where
  "revoke_all_grants now uid db = db\<lparr>gd_grants :=
     update_rows (\<lambda>g. gr_user g = uid \<and> gr_revoked g = None) (\<lambda>g. g\<lparr>gr_revoked := Some now\<rparr>) (gd_grants db)\<rparr>"

definition delete_all_grants :: "int \<Rightarrow> grant_db \<Rightarrow> grant_db" where
  "delete_all_grants uid db = db\<lparr>gd_grants := delete_rows (\<lambda>g. gr_user g = uid) (gd_grants db)\<rparr>"

lemmas grant_operation_defs [session_defs] =
  issue_grant_def revoke_grant_def revoke_all_grants_def delete_all_grants_def

subsection \<open>Pruning is the bounded history\<close>

lemma set_history: "set (inactive_history uid now rows) = {g \<in> set rows. inactive uid now g}"
  by (simp add: inactive_history_def)

lemma history_unique:
  assumes "unique_by gr_id rows"
  shows "distinct (map gr_id (inactive_history uid now rows))"
proof -
  have "distinct (map gr_id (filter (inactive uid now) rows))"
    using assms by (simp add: unique_by_def distinct_map_filter)
  then show ?thesis by (simp add: distinct_map inactive_history_def)
qed

lemma history_filter:
  "inactive_history uid now (filter P rows) = filter P (inactive_history uid now rows)"
  unfolding inactive_history_def by (simp add: filter_sort [symmetric] conj_commute)

lemma in_take_notin_drop:
  "distinct (map f xs) \<Longrightarrow> x \<in> set (take n xs) \<Longrightarrow> f x \<notin> f ` set (drop n xs)"
  by (metis (no_types, lifting) append_take_drop_id disjoint_iff distinct_append image_eqI list.set_map map_append)

text \<open>The recent history: what the loop keeps, computed at once.\<close>

definition keep_recent :: "int \<Rightarrow> instant \<Rightarrow> grants \<Rightarrow> grants" where
  "keep_recent uid now rows =
     filter (\<lambda>g. inactive uid now g \<longrightarrow> gr_id g \<in> gr_id ` set (take RECENT_HISTORY (inactive_history uid now rows))) rows"

lemma drop_stale_filter:
  assumes "unique_by gr_id rows"
  shows "drop_stale uid (stale_batch uid now rows) rows
    = filter (\<lambda>g. gr_id g \<notin> set (stale_batch uid now rows)) rows"
proof -
  have "gr_user g = uid" if g: "g \<in> set rows" "gr_id g \<in> set (stale_batch uid now rows)" for g
  proof -
    from stale_batch_inactive [OF g(2)] obtain g' where "g' \<in> set rows" "inactive uid now g'" "gr_id g' = gr_id g"
      by blast
    with unique_byD [OF assms] g(1) have "g' = g" by blast
    with \<open>inactive uid now g'\<close> show ?thesis by (simp add: inactive_def)
  qed
  then show ?thesis unfolding drop_stale_def delete_rows_def by (intro filter_cong) auto
qed

lemma history_after_drop:
  assumes "unique_by gr_id rows"
  shows "inactive_history uid now (drop_stale uid (stale_batch uid now rows) rows)
    = take RECENT_HISTORY (inactive_history uid now rows)
      @ drop (RECENT_HISTORY + PRUNE_BATCH) (inactive_history uid now rows)"
proof -
  let ?h = "inactive_history uid now rows" and ?n = RECENT_HISTORY and ?b = PRUNE_BATCH
  let ?mid = "take ?b (drop ?n ?h)" and ?out = "\<lambda>g. gr_id g \<notin> set (stale_batch uid now rows)"
  have split: "?h = take ?n ?h @ ?mid @ drop (?n + ?b) ?h"
    by (metis append_take_drop_id drop_drop add.commute)
  have d: "distinct (map gr_id (take ?n ?h @ ?mid @ drop (?n + ?b) ?h))"
    using history_unique [OF assms, of uid now] split by metis
  have ids: "set (stale_batch uid now rows) = gr_id ` set ?mid" by (simp add: stale_batch_def)
  have "filter ?out (take ?n ?h) = take ?n ?h" "filter ?out (drop (?n + ?b) ?h) = drop (?n + ?b) ?h"
    using d by (auto simp: ids filter_id_conv simp del: set_take_subset)
  moreover have "filter ?out ?mid = []" by (simp add: ids filter_empty_conv)
  ultimately have "filter ?out (take ?n ?h @ ?mid @ drop (?n + ?b) ?h) = take ?n ?h @ drop (?n + ?b) ?h"
    by simp
  with split show ?thesis by (simp add: drop_stale_filter [OF assms] history_filter)
qed

lemma keep_recent_drop:
  assumes "unique_by gr_id rows"
  shows "keep_recent uid now (drop_stale uid (stale_batch uid now rows) rows) = keep_recent uid now rows"
proof -
  let ?h = "inactive_history uid now rows" and ?rows' = "drop_stale uid (stale_batch uid now rows) rows"
  have first: "take RECENT_HISTORY (inactive_history uid now ?rows') = take RECENT_HISTORY ?h"
    by (auto simp: history_after_drop [OF assms])
  have "gr_id g \<notin> set (stale_batch uid now rows)"
    if "g \<in> set rows" "inactive uid now g \<longrightarrow> gr_id g \<in> gr_id ` set (take RECENT_HISTORY ?h)" for g
  proof
    assume stale: "gr_id g \<in> set (stale_batch uid now rows)"
    from stale_batch_inactive [OF this] that(1) unique_byD [OF assms] have "inactive uid now g" by blast
    with that(2) obtain g' where "g' \<in> set (take RECENT_HISTORY ?h)" "gr_id g' = gr_id g" by auto
    with in_take_notin_drop [OF history_unique [OF assms], of g' RECENT_HISTORY uid now]
    have "gr_id g \<notin> gr_id ` set (drop RECENT_HISTORY ?h)" by simp
    with stale show False by (auto simp: stale_batch_def dest!: in_set_takeD)
  qed
  then show ?thesis
    unfolding keep_recent_def first unfolding drop_stale_filter [OF assms] filter_filter
    by (intro filter_cong) auto
qed

lemma prune_spec:
  assumes "unique_by gr_id rows"
  shows "prune_inactive_history uid now rows = (length rows - length (keep_recent uid now rows), keep_recent uid now rows)"
  using assms
proof (induction uid now rows rule: prune_inactive_history.induct)
  case (1 uid now rows)
  let ?ids = "stale_batch uid now rows" and ?rows' = "drop_stale uid (stale_batch uid now rows) rows"
  show ?case
  proof (cases "?ids = []")
    case True
    then have "length (inactive_history uid now rows) \<le> RECENT_HISTORY"
      by (auto simp: stale_batch_def PRUNE_BATCH_def)
    then have "keep_recent uid now rows = rows"
      by (auto simp: keep_recent_def filter_id_conv set_history)
    with True show ?thesis by (subst prune_inactive_history.simps) (simp add: Let_def)
  next
    case False
    have u: "unique_by gr_id ?rows'" using 1(2) by (simp add: drop_stale_def unique_by_delete)
    have less: "length ?rows' \<le> length rows" by (simp add: drop_stale_def delete_rows_def)
    have "length (keep_recent uid now ?rows') \<le> length ?rows'" by (simp add: keep_recent_def)
    with less False 1(1) [OF refl False refl u] keep_recent_drop [OF 1(2), of uid now]
    show ?thesis by (subst prune_inactive_history.simps) (simp add: Let_def)
  qed
qed

end
