(* ===== verification/GrantClaims.thy ===== *)
theory GrantClaims
  imports Grants
begin

text \<open>
  Properties of automation grants: pruning computes the bounded history, the
  rows of a user are bounded in every history, an issued token authenticates,
  and a revoked grant never authenticates again.
\<close>

subsection \<open>Counting rows\<close>

lemma row_count_split:
  "row_count p rows = row_count (\<lambda>r. p r \<and> q r) rows + row_count (\<lambda>r. p r \<and> \<not> q r) rows"
  by (induction rows) auto

lemma keep_recent_sub: "g \<in> set (keep_recent uid now rows) \<Longrightarrow> g \<in> set rows"
  by (simp add: keep_recent_def)

lemma row_count_filter_le: "row_count p (filter q rows) \<le> row_count p rows"
  by (induction rows) auto

lemma row_count_filter_same:
  "(\<And>r. r \<in> set rows \<Longrightarrow> p r \<Longrightarrow> q r) \<Longrightarrow> row_count p (filter q rows) = row_count p rows"
  by (induction rows) auto

lemma unique_by_filter: "unique_by key rows \<Longrightarrow> unique_by key (filter q rows)"
  by (simp add: unique_by_def distinct_map_filter)

lemma keep_recent_bound:
  assumes "unique_by gr_id rows"
  shows "row_count (inactive uid now) (keep_recent uid now rows) \<le> RECENT_HISTORY"
proof -
  let ?kept = "filter (inactive uid now) (keep_recent uid now rows)"
  let ?recent = "take RECENT_HISTORY (inactive_history uid now rows)"
  have "distinct (map gr_id ?kept)"
    using assms by (simp add: keep_recent_def unique_by_def distinct_map_filter)
  then have "length ?kept = card (gr_id ` set ?kept)"
    by (metis distinct_card length_map list.set_map)
  also have "\<dots> \<le> card (gr_id ` set ?recent)" by (intro card_mono) (auto simp: keep_recent_def)
  also have "\<dots> \<le> length ?recent" by (metis card_length length_map list.set_map)
  finally show ?thesis by (simp add: row_count_def)
qed

lemma keep_recent_others:
  "row_count (\<lambda>g. gr_user g = uid' \<and> grant_live now g) (keep_recent uid now rows)
    = row_count (\<lambda>g. gr_user g = uid' \<and> grant_live now g) rows"
  "uid' \<noteq> uid \<Longrightarrow> row_count (\<lambda>g. gr_user g = uid') (keep_recent uid now rows)
    = row_count (\<lambda>g. gr_user g = uid') rows"
  unfolding keep_recent_def by (rule row_count_filter_same; force simp: inactive_def grant_live_def)+

lemma rows_live_or_inactive:
  "row_count (\<lambda>g. gr_user g = uid) rows = active_count uid now rows + row_count (inactive uid now) rows"
proof -
  have "(\<lambda>g. gr_user g = uid \<and> \<not> grant_live now g) = inactive uid now"
    by (auto simp: fun_eq_iff grant_live_def inactive_def)
  with row_count_split [of "\<lambda>g. gr_user g = uid" rows "grant_live now"] show ?thesis
    by (simp add: active_count_def)
qed

text \<open>The batched pruning of inactive grants computes the bounded history: it ends, removes exactly
  the inactive grants of the user that are not among the hundred most recently deactivated, and never
  removes a live grant or a grant of somebody else.\<close>

lemma pruning_keeps_recent_history:
  assumes "unique_by gr_id rows"
  shows "snd (prune_inactive_history uid now rows) = filter (\<lambda>g. inactive uid now g \<longrightarrow>
        gr_id g \<in> gr_id ` set (take RECENT_HISTORY (inactive_history uid now rows))) rows
    \<and> fst (prune_inactive_history uid now rows) = length rows - length (snd (prune_inactive_history uid now rows))
    \<and> row_count (inactive uid now) (snd (prune_inactive_history uid now rows)) \<le> RECENT_HISTORY
    \<and> (\<forall>g \<in> set rows. g \<notin> set (snd (prune_inactive_history uid now rows)) \<longrightarrow> gr_user g = uid \<and> \<not> grant_live now g)"
  using keep_recent_bound [OF assms, of uid now]
  by (auto simp: prune_spec [OF assms] keep_recent_def inactive_def grant_live_def)

subsection \<open>Histories\<close>

datatype grant_event =
    IssueGrant instant grant_draw int string "string list" int bool
  | RevokeGrant instant int string
  | RevokeAllGrants instant int
  | DeleteAllGrants int
  | LifecycleChange "user_row table"

fun grant_apply :: "grant_env \<Rightarrow> grant_event \<Rightarrow> grant_db \<Rightarrow> grant_db" where
  "grant_apply G (IssueGrant now w uid label scopes lifetime ack) db =
     snd (issue_grant G now w uid label scopes lifetime ack db)"
| "grant_apply G (RevokeGrant now uid gid) db = snd (revoke_grant now uid gid db)"
| "grant_apply G (RevokeAllGrants now uid) db = revoke_all_grants now uid db"
| "grant_apply G (DeleteAllGrants uid) db = delete_all_grants uid db"
| "grant_apply G (LifecycleChange users) db = db\<lparr>gd_users := users\<rparr>"

definition grant_run :: "grant_env \<Rightarrow> grant_event list \<Rightarrow> grant_db \<Rightarrow> grant_db" where
  "grant_run G es db = fold (grant_apply G) es db"

definition GRANT_ROWS :: nat where "GRANT_ROWS = MAX_ACTIVE_GRANTS + RECENT_HISTORY"

definition grants_ok :: "grants \<Rightarrow> bool" where
  "grants_ok rows \<longleftrightarrow> unique_by gr_id rows \<and> unique_by gr_digest rows
     \<and> (\<forall>uid. row_count (\<lambda>g. gr_user g = uid) rows \<le> GRANT_ROWS)"

lemma issue_checkD:
  assumes "issue_check G now uid label scopes lifetime ack db = Inr (label', scopes')"
  shows "lifetime_ok lifetime" "normalize_scopes scopes = Inr scopes'" "vault_ready uid (gd_users db)"
    "active_count uid now (gd_grants db) < MAX_ACTIVE_GRANTS"
    "list_ex (\<lambda>s. s \<in> set extended_scopes) scopes' \<Longrightarrow> ack"
  using assms by (auto simp: issue_check_def not_le split: option.splits sum.splits if_splits)

lemma new_grant_simps [simp]:
  "gr_id (new_grant G now w uid label scopes lifetime) = gw_id w"
  "gr_user (new_grant G now w uid label scopes lifetime) = uid"
  "gr_digest (new_grant G now w uid label scopes lifetime) = ge_sha G (TOKEN_PREFIX @ gw_secret w)"
  "gr_scopes (new_grant G now w uid label scopes lifetime) = Some scopes"
  "gr_expires (new_grant G now w uid label scopes lifetime) = now + lifetime"
  "gr_revoked (new_grant G now w uid label scopes lifetime) = None"
  by (simp_all add: new_grant_def)

lemma issue_grants:
  obtains "gd_grants (snd (issue_grant G now w uid label scopes lifetime ack db)) = gd_grants db"
  | label' scopes' where "issue_check G now uid label scopes lifetime ack db = Inr (label', scopes')"
    "\<not> grant_collides (gd_grants db) (new_grant G now w uid label' scopes' lifetime)"
    "gd_grants (snd (issue_grant G now w uid label scopes lifetime ack db)) =
       snd (prune_inactive_history uid now (gd_grants db @ [new_grant G now w uid label' scopes' lifetime]))"
  by (cases "issue_check G now uid label scopes lifetime ack db"; cases "grant_collides (gd_grants db)
      (new_grant G now w uid (fst (projr (issue_check G now uid label scopes lifetime ack db)))
        (snd (projr (issue_check G now uid label scopes lifetime ack db))) lifetime)")
    (auto simp: issue_grant_def Let_def split: sum.splits)

lemma grant_collides_unique:
  "\<not> grant_collides rows g \<Longrightarrow> unique_by gr_id rows \<Longrightarrow> unique_by gr_digest rows \<Longrightarrow>
    unique_by gr_id (rows @ [g]) \<and> unique_by gr_digest (rows @ [g])"
  by (auto simp: grant_collides_def unique_by_append1 list_ex_iff)

lemma keep_recent_unique:
  "unique_by gr_id rows \<Longrightarrow> unique_by gr_id (keep_recent uid now rows)"
  "unique_by gr_digest rows \<Longrightarrow> unique_by gr_digest (keep_recent uid now rows)"
  by (simp_all add: keep_recent_def unique_by_filter)

lemma issued_rows_ok:
  assumes ok: "grants_ok rows" and free: "\<not> grant_collides rows g" and "gr_user g = uid"
    and live: "active_count uid now rows < MAX_ACTIVE_GRANTS"
  shows "grants_ok (keep_recent uid now (rows @ [g]))"
proof -
  have u: "unique_by gr_id (rows @ [g])" "unique_by gr_digest (rows @ [g])"
    using grant_collides_unique [OF free] ok by (auto simp: grants_ok_def)
  have "row_count (\<lambda>g. gr_user g = uid') (keep_recent uid now (rows @ [g])) \<le> GRANT_ROWS" for uid'
  proof (cases "uid' = uid")
    case True
    have "active_count uid now (keep_recent uid now (rows @ [g])) = active_count uid now (rows @ [g])"
      unfolding active_count_def by (rule keep_recent_others)
    also have "\<dots> \<le> MAX_ACTIVE_GRANTS" using live by (simp add: active_count_def)
    finally show ?thesis using keep_recent_bound [OF u(1), of uid now] True
      by (simp add: rows_live_or_inactive [of _ _ now] GRANT_ROWS_def)
  next
    case False
    with assms(3) ok show ?thesis by (simp add: keep_recent_others grants_ok_def)
  qed
  with keep_recent_unique u show ?thesis by (simp add: grants_ok_def)
qed

lemma row_count_update_same:
  "(\<And>r. q (f r) = q r) \<Longrightarrow> row_count q (update_rows p f rows) = row_count q rows"
  by (induction rows) auto

lemma revoked_rows_ok:
  assumes "grants_ok rows"
  shows "grants_ok (update_rows p (\<lambda>g. g\<lparr>gr_revoked := Some now\<rparr>) rows)"
proof -
  have "unique_by gr_id (update_rows p (\<lambda>g. g\<lparr>gr_revoked := Some now\<rparr>) rows)"
    "unique_by gr_digest (update_rows p (\<lambda>g. g\<lparr>gr_revoked := Some now\<rparr>) rows)"
    using assms by (auto simp: grants_ok_def intro!: unique_by_update)
  with assms show ?thesis by (simp add: grants_ok_def row_count_update_same)
qed

lemma filtered_rows_ok: "grants_ok rows \<Longrightarrow> grants_ok (filter q rows)"
  by (auto simp: grants_ok_def unique_by_filter intro: order_trans [OF row_count_filter_le])

lemma grants_unique: "grants_ok rows \<Longrightarrow> unique_by gr_id rows"
  by (simp add: grants_ok_def)

lemma revoke_grants:
  assumes "unique_by gr_id (gd_grants db)"
  shows "gd_grants (snd (revoke_grant now uid gid db)) \<in> {gd_grants db, keep_recent uid now
      (update_rows (\<lambda>r. gr_id r = gid \<and> gr_user r = uid) (\<lambda>r. r\<lparr>gr_revoked := Some now\<rparr>) (gd_grants db))}"
proof -
  have "unique_by gr_id (update_rows p (\<lambda>r. r\<lparr>gr_revoked := Some now\<rparr>) (gd_grants db))" for p
    using assms by (intro unique_by_update) auto
  then show ?thesis by (simp add: revoke_grant_def Let_def prune_spec split: option.split)
qed

lemma apply_grants_ok:
  assumes "grants_ok (gd_grants db)"
  shows "grants_ok (gd_grants (grant_apply G e db))"
proof (cases e)
  case (IssueGrant now w uid label scopes lifetime ack)
  show ?thesis
  proof (rule issue_grants [of G now w uid label scopes lifetime ack db])
    fix label' scopes'
    let ?g = "new_grant G now w uid label' scopes' lifetime"
    assume c: "issue_check G now uid label scopes lifetime ack db = Inr (label', scopes')"
      "\<not> grant_collides (gd_grants db) ?g"
      "gd_grants (snd (issue_grant G now w uid label scopes lifetime ack db)) =
         snd (prune_inactive_history uid now (gd_grants db @ [?g]))"
    have "unique_by gr_id (gd_grants db @ [?g])"
      using grant_collides_unique [OF c(2)] assms by (simp add: grants_ok_def)
    with c IssueGrant issued_rows_ok [OF assms c(2) _ issue_checkD(4) [OF c(1)]] show ?thesis
      by (simp add: prune_spec)
  qed (use IssueGrant assms in simp)
next
  case (RevokeGrant now uid gid)
  with revoke_grants [OF grants_unique [OF assms], of now uid gid] assms show ?thesis
    by (auto simp: keep_recent_def filtered_rows_ok revoked_rows_ok)
qed (use assms in \<open>simp_all add: revoke_all_grants_def delete_all_grants_def delete_rows_def
    revoked_rows_ok filtered_rows_ok\<close>)

text \<open>A digest without authority: every grant that carries it is revoked.\<close>

definition digest_dead :: "string \<Rightarrow> grant_db \<Rightarrow> bool" where
  "digest_dead d db \<longleftrightarrow> (\<forall>g \<in> set (gd_grants db). gr_digest g = d \<longrightarrow> gr_revoked g \<noteq> None)"

fun reissues :: "grant_env \<Rightarrow> string \<Rightarrow> grant_event \<Rightarrow> bool" where
  "reissues G d (IssueGrant now w uid label scopes lifetime ack) = (ge_sha G (TOKEN_PREFIX @ gw_secret w) = d)"
| "reissues G d _ = False"

lemma dead_update:
  assumes "\<forall>g \<in> set rows. gr_digest g = d \<longrightarrow> gr_revoked g \<noteq> None"
  shows "\<forall>g \<in> set (update_rows p (\<lambda>g. g\<lparr>gr_revoked := Some now\<rparr>) rows). gr_digest g = d \<longrightarrow> gr_revoked g \<noteq> None"
  using assms by (intro update_rows_all) auto

lemma apply_dead:
  assumes ok: "grants_ok (gd_grants db)" and dead: "digest_dead d db" and new: "\<not> reissues G d e"
  shows "digest_dead d (grant_apply G e db)"
proof (cases e)
  case (IssueGrant now w uid label scopes lifetime ack)
  show ?thesis
  proof (rule issue_grants [of G now w uid label scopes lifetime ack db])
    fix label' scopes'
    let ?g = "new_grant G now w uid label' scopes' lifetime"
    assume c: "\<not> grant_collides (gd_grants db) ?g"
      "gd_grants (snd (issue_grant G now w uid label scopes lifetime ack db)) =
         snd (prune_inactive_history uid now (gd_grants db @ [?g]))"
    have "unique_by gr_id (gd_grants db @ [?g])"
      using grant_collides_unique [OF c(1)] ok by (simp add: grants_ok_def)
    with c dead new IssueGrant show ?thesis
      by (auto simp: digest_dead_def prune_spec dest!: keep_recent_sub)
  qed (use IssueGrant dead in \<open>simp add: digest_dead_def\<close>)
next
  case (RevokeGrant now uid gid)
  have "\<forall>g \<in> set (keep_recent uid now (update_rows (\<lambda>r. gr_id r = gid \<and> gr_user r = uid)
      (\<lambda>r. r\<lparr>gr_revoked := Some now\<rparr>) (gd_grants db))). gr_digest g = d \<longrightarrow> gr_revoked g \<noteq> None"
    using dead_update [OF dead [unfolded digest_dead_def]] keep_recent_sub by blast
  with RevokeGrant revoke_grants [OF grants_unique [OF ok], of now uid gid] dead show ?thesis
    unfolding digest_dead_def by (auto simp del: not_None_eq)
next
  case (RevokeAllGrants now uid)
  with dead_update [OF dead [unfolded digest_dead_def]] show ?thesis
    by (simp add: digest_dead_def revoke_all_grants_def del: not_None_eq)
qed (use dead in \<open>simp_all add: digest_dead_def delete_all_grants_def\<close>)

interpretation dead_grant: lasting_fact "\<lambda>db. grants_ok (gd_grants db)" digest_dead "grant_apply G"
    "\<lambda>d e. \<not> reissues G d e" for G
  by unfold_locales (auto simp: apply_grants_ok apply_dead)

lemma dead_not_authenticated:
  assumes "digest_dead (ge_sha G (strip token)) db"
  shows "authenticate_grant G now token db \<noteq> Inr p"
proof
  assume "authenticate_grant G now token db = Inr p"
  then obtain g where "select_first (\<lambda>g. gr_digest g = ge_sha G (strip token)) (gd_grants db) = Some g"
    "gr_revoked g = None"
    by (auto simp: authenticate_grant_def Let_def split: if_splits option.splits sum.splits)
  with assms show False by (auto simp: digest_dead_def dest!: select_first_Some)
qed

text \<open>The grants of a user are bounded. In every history of issues, revocations, restores and
  deletions, identifiers and digests are unique and a user never has more than 132 grant rows: at most
  32 live ones when one is issued, and the hundred most recent inactive ones.\<close>

lemma grant_rows_bounded:
  assumes "grants_ok (gd_grants db)"
  shows "grants_ok (gd_grants (grant_run G es db))
    \<and> row_count (\<lambda>g. gr_user g = uid) (gd_grants (grant_run G es db)) \<le> 132
    \<and> (\<forall>v. fst (issue_grant G now w uid label scopes lifetime ack (grant_run G es db)) = Inr v \<longrightarrow>
         active_count uid now (gd_grants (snd (issue_grant G now w uid label scopes lifetime ack (grant_run G es db)))) \<le> 32)"
proof -
  let ?db = "grant_run G es db"
  have ok: "grants_ok (gd_grants ?db)"
    unfolding grant_run_def by (rule dead_grant.good_run [OF assms])
  then have rows: "row_count (\<lambda>g. gr_user g = uid) (gd_grants ?db) \<le> 132"
    by (simp add: grants_ok_def GRANT_ROWS_def MAX_ACTIVE_GRANTS_def RECENT_HISTORY_def)
  have "active_count uid now (gd_grants (snd (issue_grant G now w uid label scopes lifetime ack ?db))) \<le> 32"
    if issued: "fst (issue_grant G now w uid label scopes lifetime ack ?db) = Inr v" for v
  proof (cases "issue_check G now uid label scopes lifetime ack ?db")
    case (Inr r)
    obtain label' scopes' where r: "r = (label', scopes')" by (cases r)
    let ?g = "new_grant G now w uid label' scopes' lifetime"
    from Inr r issued have free: "\<not> grant_collides (gd_grants ?db) ?g"
      by (auto simp: issue_grant_def Let_def)
    have "unique_by gr_id (gd_grants ?db @ [?g])"
      using grant_collides_unique [OF free] ok by (simp add: grants_ok_def)
    then have "gd_grants (snd (issue_grant G now w uid label scopes lifetime ack ?db))
        = keep_recent uid now (gd_grants ?db @ [?g])"
      using Inr r free by (simp add: issue_grant_def Let_def prune_spec split: sum.split)
    moreover have "active_count uid now (gd_grants ?db @ [?g]) \<le> 32"
      using issue_checkD(4) [of G now uid label scopes lifetime ack ?db label' scopes'] Inr r
      by (simp add: active_count_def MAX_ACTIVE_GRANTS_def)
    ultimately show ?thesis by (simp add: active_count_def keep_recent_others)
  qed (use issued in \<open>simp add: issue_grant_def\<close>)
  with ok rows show ?thesis by blast
qed

text \<open>C31: A revoked grant stays revoked. Once the owner has revoked the grant of a token, the token
  authenticates nobody in any later history in which the same secret is not drawn again.\<close>

theorem revoked_grant_never_authenticates:
  assumes "grants_ok (gd_grants db)" and "g \<in> set (gd_grants db)" and "gr_digest g = ge_sha G (strip token)"
    and "\<forall>e \<in> set es. \<not> reissues G (ge_sha G (strip token)) e"
    and "db' = grant_run G (RevokeGrant now (gr_user g) (gr_id g) # es) db"
  shows "authenticate_grant G later token db' \<noteq> Inr p"
proof -
  let ?d = "ge_sha G (strip token)" and ?revoke = "RevokeGrant now (gr_user g) (gr_id g)"
  have u: "unique_by gr_id (gd_grants db)" "unique_by gr_digest (gd_grants db)"
    using assms(1) by (auto simp: grants_ok_def)
  have only: "r = g" if "r \<in> set (gd_grants db)" "gr_digest r = ?d" for r
    using unique_byD [OF u(2) that(1) assms(2)] that(2) assms(3) by simp
  have found: "select_first (\<lambda>r. gr_id r = gr_id g \<and> gr_user r = gr_user g) (gd_grants db) = Some g"
  proof (cases "select_first (\<lambda>r. gr_id r = gr_id g \<and> gr_user r = gr_user g) (gd_grants db)")
    case None
    with assms(2) show ?thesis by (auto simp: select_first_None)
  next
    case (Some r)
    with select_first_Some [OF Some] unique_byD [OF u(1) _ assms(2)] show ?thesis by auto
  qed
  have "digest_dead ?d (grant_apply G ?revoke db)"
  proof (cases "gr_revoked g")
    case None
    let ?f = "\<lambda>r. r\<lparr>gr_revoked := Some now\<rparr>" and ?p = "\<lambda>r. gr_id r = gr_id g \<and> gr_user r = gr_user g"
    have unique: "unique_by gr_id (update_rows ?p ?f (gd_grants db))"
      using u(1) by (intro unique_by_update) auto
    have "gr_revoked r \<noteq> None" if "r \<in> set (update_rows ?p ?f (gd_grants db))" "gr_digest r = ?d" for r
      using that(1)
    proof (cases rule: update_rows_cases)
      case kept
      with only that(2) show ?thesis by auto
    qed simp
    with found None show ?thesis
      by (auto simp: digest_dead_def revoke_grant_def Let_def prune_spec [OF unique] simp del: not_None_eq
          dest!: keep_recent_sub)
  next
    case (Some t)
    with found only show ?thesis by (auto simp: digest_dead_def revoke_grant_def)
  qed
  moreover have "grants_ok (gd_grants (grant_apply G ?revoke db))" by (rule apply_grants_ok [OF assms(1)])
  ultimately have "digest_dead ?d db'"
    unfolding assms(5) grant_run_def fold.simps comp_apply
    by (intro dead_grant.lasts) (use assms(4) in auto)
  then show ?thesis by (rule dead_not_authenticated)
qed

subsection \<open>An issued token\<close>

definition url_safe :: "char \<Rightarrow> bool" where
  "url_safe c \<longleftrightarrow> (let n = of_char c :: nat in
     (65 \<le> n \<and> n \<le> 90) \<or> (97 \<le> n \<and> n \<le> 122) \<or> (48 \<le> n \<and> n \<le> 57) \<or> n = 45 \<or> n = 95)"

lemma url_safe_not_space: "url_safe c \<Longrightarrow> \<not> is_space c"
  by (auto simp: url_safe_def is_space_def Let_def)

lemma strip_padded:
  assumes "\<forall>c \<in> set pad. is_space c" and "\<forall>c \<in> set pad'. is_space c" and "s \<noteq> []"
    and "\<not> is_space (hd s)" and "\<not> is_space (last s)"
  shows "strip (pad @ s @ pad') = s"
proof -
  have 1: "dropWhile is_space (pad @ s @ pad') = s @ pad'"
    using assms(1,3,4) by (cases s) (auto simp: dropWhile_append)
  have 2: "dropWhile is_space (rev pad' @ rev s) = rev s"
    using assms(2,3,5) by (cases s rule: rev_cases) (auto simp: dropWhile_append)
  show ?thesis by (simp add: strip_def 1 2)
qed

lemma normalize_scopes_set:
  "normalize_scopes values = Inr scopes \<Longrightarrow> set scopes = set values \<and> set scopes \<subseteq> set all_scopes"
  by (auto simp: normalize_scopes_def list_all_iff split: if_splits)

lemma normalize_scopes_idem:
  assumes "normalize_scopes values = Inr scopes"
  shows "normalize_scopes scopes = Inr scopes"
proof -
  from assms have v: "values \<noteq> []" "set values \<subseteq> set all_scopes"
    "scopes = filter (\<lambda>s. s \<in> set values) all_scopes"
    by (auto simp: normalize_scopes_def list_all_iff split: if_splits)
  from normalize_scopes_set [OF assms] v(1) have "scopes \<noteq> []" by auto
  moreover have "filter (\<lambda>s. s \<in> set scopes) all_scopes = scopes"
    unfolding v(3) by (rule filter_cong) (auto simp:)
  ultimately show ?thesis
    using normalize_scopes_set [OF assms]
    by (auto simp: normalize_scopes_def list_all_iff)
qed

text \<open>C32: An issued token authenticates its owner. The token that issuing returns, with any
  white space around it, is accepted until it expires, for the user, the grant and exactly the requested
  scopes; extended scopes are granted only after the disclosure was acknowledged.\<close>

theorem issued_token_authenticates:
  assumes "grants_ok (gd_grants db)"
    and "issue_grant G now w uid label scopes lifetime ack db = (Inr (view, token), db')"
    and "length (gw_secret w) = 43" and "\<forall>c \<in> set (gw_secret w). url_safe c"
    and "\<forall>c \<in> set pad. is_space c" and "\<forall>c \<in> set pad'. is_space c" and "later < now + lifetime"
  shows "authenticate_grant G later (pad @ token @ pad') db'
      = Inr \<lparr>pr_grant = gw_id w, pr_user = uid, pr_scopes = gv_scopes view\<rparr>
    \<and> set (gv_scopes view) = set scopes
    \<and> (set scopes \<inter> set extended_scopes = {} \<or> ack)"
proof -
  from assms(2) obtain label' scopes' where
    c: "issue_check G now uid label scopes lifetime ack db = Inr (label', scopes')"
    by (auto simp: issue_grant_def split: sum.splits)
  let ?g = "new_grant G now w uid label' scopes' lifetime"
  note ck = issue_checkD [OF c]
  note idem = normalize_scopes_idem [OF ck(2)]
  from assms(2) c have free: "\<not> grant_collides (gd_grants db) ?g"
    by (auto simp: issue_grant_def Let_def)
  have u: "unique_by gr_id (gd_grants db @ [?g])" "unique_by gr_digest (gd_grants db @ [?g])"
    using grant_collides_unique [OF free] assms(1) by (auto simp: grants_ok_def)
  have view: "gv_scopes view = scopes'" "token = TOKEN_PREFIX @ gw_secret w"
    and db': "db' = db\<lparr>gd_grants := keep_recent uid now (gd_grants db @ [?g])\<rparr>"
    using assms(2) c free idem
    by (auto simp: issue_grant_def Let_def prune_spec [OF u(1)] grant_view_of_def scope_set_def)
  have "0 < lifetime" using ck(1) by (simp add: lifetime_ok_def second_def)
  then have "?g \<in> set (gd_grants db')" by (simp add: db' keep_recent_def inactive_def)
  moreover have "unique_by gr_digest (gd_grants db')" using u by (simp add: db' keep_recent_unique)
  ultimately have found: "select_first (\<lambda>g. gr_digest g = ge_sha G token) (gd_grants db') = Some ?g"
    by (intro select_first_unique) (auto simp: view)
  have "gw_secret w \<noteq> []" using assms(3) by auto
  then have "\<not> is_space (last token)" using assms(4) url_safe_not_space by (simp add: view)
  then have strip: "strip (pad @ token @ pad') = token"
    using assms(5,6) by (intro strip_padded) (auto simp: view TOKEN_PREFIX_def is_space_def)
  have "authenticate_grant G later (pad @ token @ pad') db'
      = Inr \<lparr>pr_grant = gw_id w, pr_user = uid, pr_scopes = scopes'\<rparr>"
    using found strip assms(3,7) ck(3) idem
    by (simp add: authenticate_grant_def Let_def view TOKEN_PREFIX_def db' scope_set_def)
  moreover have "set scopes \<inter> set extended_scopes = {} \<or> ack"
    using ck(5) normalize_scopes_set [OF ck(2)] by (auto simp: list_ex_iff)
  ultimately show ?thesis using view normalize_scopes_set [OF ck(2)] by simp
qed

subsection \<open>Concrete runs\<close>

definition plain_env :: grant_env where
  "plain_env = \<lparr>ge_nfc = (\<lambda>s. s), ge_invisible = (\<lambda>c. of_char c < (32 :: nat)), ge_sha = (\<lambda>s. s)\<rparr>"

definition plain_draw :: grant_draw where
  "plain_draw = \<lparr>gw_id = ''g1'', gw_secret = replicate 43 CHR ''x'', gw_created = 0\<rparr>"

definition no_grants :: grant_db where
  "no_grants = \<lparr>gd_users = [\<lparr>us_id = 1, us_username = ''ada'', us_vault = Ready, us_fingerprint = None\<rparr>],
     gd_grants = []\<rparr>"

definition plain_grant :: grant where
  "plain_grant = new_grant plain_env 0 plain_draw 1 ''cli'' [''context:read''] 86400000000"

definition one_grant :: grant_db where
  "one_grant = no_grants\<lparr>gd_grants := [plain_grant]\<rparr>"

lemma demo_grants_ok: "grants_ok (gd_grants no_grants)" "grants_ok (gd_grants one_grant)"
  by (simp_all add: grants_ok_def unique_by_def no_grants_def one_grant_def GRANT_ROWS_def MAX_ACTIVE_GRANTS_def)

theorem pruning_keeps_recent_history_witness:
  "prune_inactive_history 1 86400000000 [plain_grant] = (0, [plain_grant])"
proof -
  have u: "unique_by gr_id [plain_grant]" by (simp add: unique_by_def)
  have "snd (prune_inactive_history 1 86400000000 [plain_grant]) = [plain_grant]"
    using pruning_keeps_recent_history [OF u, of 1 86400000000]
    by (auto simp: inactive_history_def RECENT_HISTORY_def)
  with pruning_keeps_recent_history [OF u, of 1 86400000000] show ?thesis by (metis diff_self_eq_0 prod.collapse)
qed

theorem grant_rows_bounded_witness:
  "row_count (\<lambda>g. gr_user g = 1) (gd_grants (grant_run plain_env
      [IssueGrant 0 plain_draw 1 ''cli'' [''context:read''] 86400000000 True] no_grants)) \<le> 132
    \<and> (gd_grants (grant_run plain_env
      [IssueGrant 0 plain_draw 1 ''cli'' [''context:read''] 86400000000 True] no_grants)) = [plain_grant]"
proof -
  have "gd_grants (grant_run plain_env
      [IssueGrant 0 plain_draw 1 ''cli'' [''context:read''] 86400000000 True] no_grants) = [plain_grant]"
    by code_simp
  with grant_rows_bounded [OF demo_grants_ok(1), of plain_env
      "[IssueGrant 0 plain_draw 1 ''cli'' [''context:read''] 86400000000 True]" 1] show ?thesis by blast
qed

theorem revoked_grant_never_authenticates_witness:
  "authenticate_grant plain_env 5 (TOKEN_PREFIX @ gw_secret plain_draw) one_grant
      = Inr \<lparr>pr_grant = ''g1'', pr_user = 1, pr_scopes = [''context:read'']\<rparr>
    \<and> authenticate_grant plain_env 5 (TOKEN_PREFIX @ gw_secret plain_draw)
        (grant_run plain_env [RevokeGrant 1 1 ''g1''] one_grant)
      \<noteq> Inr \<lparr>pr_grant = ''g1'', pr_user = 1, pr_scopes = [''context:read'']\<rparr>"
proof -
  have g: "plain_grant \<in> set (gd_grants one_grant)"
    "gr_digest plain_grant = ge_sha plain_env (strip (TOKEN_PREFIX @ gw_secret plain_draw))"
    "gr_user plain_grant = 1" "gr_id plain_grant = ''g1''"
    by (simp add: one_grant_def, code_simp, code_simp, code_simp)
  have "authenticate_grant plain_env 5 (TOKEN_PREFIX @ gw_secret plain_draw) one_grant
      = Inr \<lparr>pr_grant = ''g1'', pr_user = 1, pr_scopes = [''context:read'']\<rparr>" by code_simp
  with revoked_grant_never_authenticates [OF demo_grants_ok(2) g(1,2), of "[]"] g(3,4) show ?thesis by simp
qed

theorem issued_token_authenticates_witness:
  "\<exists>view token db'. issue_grant plain_env 0 plain_draw 1 ''cli'' [''context:read''] 86400000000 True no_grants
      = (Inr (view, token), db')
    \<and> authenticate_grant plain_env 5 ('' '' @ token @ []) db'
      = Inr \<lparr>pr_grant = ''g1'', pr_user = 1, pr_scopes = gv_scopes view\<rparr>"
proof -
  let ?r = "issue_grant plain_env 0 plain_draw 1 ''cli'' [''context:read''] 86400000000 True no_grants"
  have "case fst ?r of Inr _ \<Rightarrow> True | Inl _ \<Rightarrow> False" by code_simp
  then obtain view token where "fst ?r = Inr (view, token)" by (auto split: sum.splits)
  then have r: "?r = (Inr (view, token), snd ?r)" by (metis prod.collapse)
  have w: "length (gw_secret plain_draw) = 43" "\<forall>c \<in> set (gw_secret plain_draw). url_safe c"
    "\<forall>c \<in> set '' ''. is_space c" "gw_id plain_draw = ''g1''"
    by code_simp+
  from issued_token_authenticates [OF demo_grants_ok(1) r w(1,2,3), of "[]" 5] w(4) r
  show ?thesis by auto
qed

end
