(* ===== verification/AgentWork.thy ===== *)
theory AgentWork
  imports Grants
begin

text \<open>
  Work requests for external agents and their proposals: \<open>agent_work/models.py\<close>,
  \<open>guards.py\<close>, \<open>service.py\<close>, \<open>proposal_service.py\<close> and \<open>acceptance.py\<close>. The
  contents of the vault, the context snapshot (\<open>context.py\<close>), the validation of
  a payload (\<open>validation.py\<close>) and the writers that put
  an accepted proposal into the vault are arguments of the model (\<open>work_env\<close>):
  other components that these services call. A submission, an
  acceptance and a transition rest on one update that is conditional on the state and
  the revision of the row and reserves the database; what they had read before it is
  checked again after it (the grant, the inputs). So an operation is a function on the
  tables, and errors leave them as they were.
\<close>

subsection \<open>Rows\<close>

datatype work_state = Queued | Returned | Accepted | Rejected | Canceled | Expired

datatype work_kind = Discover | Analyze | Materials

datatype work_error = WorkError string

type_synonym 'a work_result = "work_error + 'a"

record ('r, 'o) work_receipt =
  rt_request :: string
  rt_proposal :: string
  rt_kind :: work_kind
  rt_accepted_at :: instant
  rt_target_job :: "int option"
  rt_outcome :: 'o  \<comment> \<open>created ids or the material receipt\<close>
  rt_digest :: string
  rt_revisions :: 'r

record work_targets =
  wt_kind :: work_kind
  wt_instruction :: string
  wt_job :: "int option"
  wt_application :: "string option"
  wt_resume :: "string option"
  wt_preset :: "(string \<times> int \<times> string) option"
  wt_facts :: "string list option"

record ('c, 'r, 'o) work_request =
  wr_id :: string
  wr_user :: int
  wr_grant :: "string option"
  wr_state :: work_state
  wr_revision :: int
  wr_targets :: work_targets
  wr_historical :: string  \<comment> \<open>the grant that the frozen context names\<close>
  wr_context :: 'c
  wr_digest :: string
  wr_inputs :: 'r
  wr_expires :: instant
  wr_receipt :: "('r, 'o) work_receipt option"
  wr_created :: instant
  wr_updated :: instant

record 'p proposal =
  pp_id :: string
  pp_request :: string
  pp_user :: int
  pp_grant :: string
  pp_key :: string
  pp_digest :: string
  pp_payload :: 'p
  pp_created :: instant

record ('v, 'c, 'p, 'r, 'o) work_db =
  wd_users :: "user_row table"
  wd_grants :: grants
  wd_requests :: "('c, 'r, 'o) work_request table"
  wd_proposals :: "'p proposal table"
  wd_vault :: 'v

record ('v, 'c, 'p, 'r, 'o) work_env =
  we_build :: "'v \<Rightarrow> int \<Rightarrow> string \<Rightarrow> string \<Rightarrow> work_targets \<Rightarrow> ('c \<times> string \<times> 'r) work_result"
  we_owns_job :: "'v \<Rightarrow> int \<Rightarrow> int \<Rightarrow> bool"
  we_owns_application :: "'v \<Rightarrow> int \<Rightarrow> string \<Rightarrow> bool"
  we_owns_resume :: "'v \<Rightarrow> int \<Rightarrow> string \<Rightarrow> bool"
  we_resume_preset :: "'v \<Rightarrow> string \<Rightarrow> (string \<times> int \<times> string) option"
  we_validate :: "work_targets \<Rightarrow> 'c \<Rightarrow> 'p \<Rightarrow> 'p work_result"
  we_parse :: "'p \<Rightarrow> 'p option"
  we_payload_digest :: "'p \<Rightarrow> string"
  we_write :: "'v \<Rightarrow> ('c, 'r, 'o) work_request \<Rightarrow> 'p proposal \<Rightarrow> 'p \<Rightarrow> instant \<Rightarrow> ('v \<times> 'o) work_result"

subsection \<open>Guards\<close>

definition require_grant ::
  "instant \<Rightarrow> user_row table \<Rightarrow> grants \<Rightarrow> string option \<Rightarrow> string option \<Rightarrow> int option \<Rightarrow> grant work_result" where
  "require_grant now users grants gid scope uid =
     (case select_first (\<lambda>g. Some (gr_id g) = gid) grants of
        None \<Rightarrow> Inl (WorkError ''grant_required'')
      | Some g \<Rightarrow>
          if uid \<noteq> None \<and> uid \<noteq> Some (gr_user g) then Inl (WorkError ''grant_required'')
          else if gr_revoked g \<noteq> None then Inl (WorkError ''grant_revoked'')
          else if gr_expires g \<le> now then Inl (WorkError ''grant_expired'')
          else if (case scope of None \<Rightarrow> False | Some s \<Rightarrow> s \<notin> set (scope_set g))
          then Inl (WorkError ''scope_denied'')
          else if \<not> vault_ready (gr_user g) users then Inl (WorkError ''vault_unavailable'')
          else Inr g)"

definition work_live_error :: "instant \<Rightarrow> ('c, 'r, 'o) work_request \<Rightarrow> work_error option" where
  "work_live_error now req =
     (if wr_expires req \<le> now \<or> wr_state req = Expired then Some (WorkError ''work_expired'')
      else if wr_state req = Canceled then Some (WorkError ''work_canceled'')
      else None)"

definition current_input_state ::
  "('v, 'c, 'p, 'r, 'o) work_env \<Rightarrow> 'v \<Rightarrow> ('c, 'r, 'o) work_request \<Rightarrow> (string \<times> 'r) option" where
  "current_input_state W v req =
     (case we_build W v (wr_user req) (wr_id req) (wr_historical req) (wr_targets req) of
        Inl _ \<Rightarrow> None
      | Inr (_, digest, revisions) \<Rightarrow> Some (digest, revisions))"

definition inputs_current ::
  "('v, 'c, 'p, 'r, 'o) work_env \<Rightarrow> 'v \<Rightarrow> ('c, 'r, 'o) work_request \<Rightarrow> bool" where
  "inputs_current W v req \<longleftrightarrow> current_input_state W v req = Some (wr_digest req, wr_inputs req)"

definition owned_request ::
  "int \<Rightarrow> string \<Rightarrow> ('c, 'r, 'o) work_request table \<Rightarrow> ('c, 'r, 'o) work_request option" where
  "owned_request uid rid reqs = select_first (\<lambda>q. wr_id q = rid \<and> wr_user q = uid) reqs"

definition proposal_of :: "string \<Rightarrow> 'p proposal table \<Rightarrow> 'p proposal option" where
  "proposal_of rid ps = select_first (\<lambda>p. pp_request p = rid) ps"

definition set_request ::
  "(('c, 'r, 'o) work_request \<Rightarrow> bool) \<Rightarrow> (('c, 'r, 'o) work_request \<Rightarrow> ('c, 'r, 'o) work_request)
     \<Rightarrow> ('v, 'c, 'p, 'r, 'o) work_db \<Rightarrow> ('v, 'c, 'p, 'r, 'o) work_db" where
  "set_request p f db = db\<lparr>wd_requests := update_rows p f (wd_requests db)\<rparr>"

subsection \<open>Creating a request\<close>

record work_create =
  wc_grant :: string
  wc_targets :: "work_targets"
  wc_lifetime_hours :: int

definition valid_work_create :: "work_create \<Rightarrow> bool" where
  "valid_work_create c \<longleftrightarrow>
     (let t = wc_targets c in
      1 \<le> wc_lifetime_hours c \<and> wc_lifetime_hours c \<le> 168
      \<and> 1 \<le> length (wt_instruction t) \<and> length (wt_instruction t) \<le> 4000
      \<and> (case wt_job t of None \<Rightarrow> True | Some j \<Rightarrow> 1 \<le> j)
      \<and> (case wt_preset t of None \<Rightarrow> True
           | Some (preset, version, locale) \<Rightarrow> length preset \<le> 64 \<and> 1 \<le> version \<and> locale \<in> {''en'', ''de''})
      \<and> (wt_kind t = Analyze \<longrightarrow> wt_job t \<noteq> None)
      \<and> (wt_kind t = Materials \<longrightarrow> wt_application t \<noteq> None \<and> wt_resume t \<noteq> None)
      \<and> (case wt_facts t of None \<Rightarrow> True | Some fs \<Rightarrow> length fs \<le> 100 \<and> distinct fs))"

definition hour :: int where "hour = 3600 * second"

definition work_expiry :: "instant \<Rightarrow> int \<Rightarrow> grant \<Rightarrow> instant" where
  "work_expiry now hours g = min (now + min (hours * hour) (7 * 24 * hour)) (gr_expires g)"

definition missing_target :: "('v, 'c, 'p, 'r, 'o) work_env \<Rightarrow> 'v \<Rightarrow> int \<Rightarrow> work_targets \<Rightarrow> bool" where
  "missing_target W v uid t \<longleftrightarrow>
     (case wt_job t of None \<Rightarrow> False | Some j \<Rightarrow> j \<noteq> 0 \<and> \<not> we_owns_job W v uid j)
     \<or> (case wt_application t of None \<Rightarrow> False | Some a \<Rightarrow> a \<noteq> [] \<and> \<not> we_owns_application W v uid a)
     \<or> (case wt_resume t of None \<Rightarrow> False | Some r \<Rightarrow> r \<noteq> [] \<and> \<not> we_owns_resume W v uid r)"

definition with_preset :: "('v, 'c, 'p, 'r, 'o) work_env \<Rightarrow> 'v \<Rightarrow> work_targets \<Rightarrow> work_targets" where
  "with_preset W v t =
     (if wt_kind t = Materials \<and> wt_preset t = None
      then t\<lparr>wt_preset := Option.bind (wt_resume t) (we_resume_preset W v)\<rparr> else t)"

definition create_work_request ::
  "('v, 'c, 'p, 'r, 'o) work_env \<Rightarrow> instant \<Rightarrow> string \<Rightarrow> int \<Rightarrow> work_create
     \<Rightarrow> ('v, 'c, 'p, 'r, 'o) work_db \<Rightarrow> string work_result \<times> ('v, 'c, 'p, 'r, 'o) work_db" where
  "create_work_request W now rid uid c db =
     (if \<not> vault_ready uid (wd_users db) then (Inl (WorkError ''vault_unavailable''), db)
      else (case select_first (\<lambda>g. gr_id g = wc_grant c \<and> gr_user g = uid) (wd_grants db) of
        None \<Rightarrow> (Inl (WorkError ''grant_required''), db)
      | Some g \<Rightarrow>
          if gr_revoked g \<noteq> None then (Inl (WorkError ''grant_revoked''), db)
          else if gr_expires g \<le> now then (Inl (WorkError ''grant_expired''), db)
          else if ''context:read'' \<notin> set (scope_set g) \<and> ''proposals:write'' \<notin> set (scope_set g)
          then (Inl (WorkError ''scope_denied''), db)
          else if work_expiry now (wc_lifetime_hours c) g \<le> now then (Inl (WorkError ''grant_expired''), db)
          else if missing_target W (wd_vault db) uid (wc_targets c)
          then (Inl (WorkError ''work_not_found''), db)
          else let t = with_preset W (wd_vault db) (wc_targets c) in
            (case we_build W (wd_vault db) uid rid (gr_id g) t of
               Inl e \<Rightarrow> (Inl e, db)
             | Inr (ctx, digest, inputs) \<Rightarrow>
                 if list_ex (\<lambda>q. wr_id q = rid) (wd_requests db)
                 then (Inl (WorkError ''integrity''), db)
                 else (Inr rid, db\<lparr>wd_requests := wd_requests db @
                   [\<lparr>wr_id = rid, wr_user = uid, wr_grant = Some (gr_id g), wr_state = Queued,
                     wr_revision = 1, wr_targets = t, wr_historical = gr_id g, wr_context = ctx,
                     wr_digest = digest, wr_inputs = inputs,
                     wr_expires = work_expiry now (wc_lifetime_hours c) g,
                     wr_receipt = None, wr_created = now, wr_updated = now\<rparr>]\<rparr>))))"

subsection \<open>The owner's operations\<close>

definition bump :: "work_state \<Rightarrow> instant \<Rightarrow> ('c, 'r, 'o) work_request \<Rightarrow> ('c, 'r, 'o) work_request" where
  "bump st now q = q\<lparr>wr_state := st, wr_revision := wr_revision q + 1, wr_updated := now\<rparr>"

definition expire_stale_work ::
  "int \<Rightarrow> instant \<Rightarrow> ('v, 'c, 'p, 'r, 'o) work_db \<Rightarrow> ('v, 'c, 'p, 'r, 'o) work_db" where
  "expire_stale_work uid now db =
     set_request (\<lambda>q. wr_user q = uid \<and> wr_expires q \<le> now \<and> wr_state q \<in> {Queued, Returned})
       (bump Expired now) db"

definition list_work_requests ::
  "instant \<Rightarrow> int \<Rightarrow> nat \<Rightarrow> nat \<Rightarrow> work_state option \<Rightarrow> string option \<Rightarrow> ('v, 'c, 'p, 'r, 'o) work_db
     \<Rightarrow> (('c, 'r, 'o) work_request list \<times> nat) work_result \<times> ('v, 'c, 'p, 'r, 'o) work_db" where
  "list_work_requests now uid offset limit state gid db =
     (if \<not> vault_ready uid (wd_users db) then (Inl (WorkError ''vault_unavailable''), db)
      else let db' = expire_stale_work uid now db;
          rows = filter (\<lambda>q. wr_user q = uid \<and> (state = None \<or> state = Some (wr_state q))
                   \<and> (gid = None \<or> wr_grant q = gid)) (wd_requests db');
          ordered = sort_key (\<lambda>q. (- wr_created q, wr_id q)) rows in
        (Inr (take limit (drop offset ordered), length rows), db'))"

definition get_work_request ::
  "instant \<Rightarrow> int \<Rightarrow> string \<Rightarrow> ('v, 'c, 'p, 'r, 'o) work_db
     \<Rightarrow> (('c, 'r, 'o) work_request \<times> 'p proposal option) work_result \<times> ('v, 'c, 'p, 'r, 'o) work_db" where
  "get_work_request now uid rid db =
     (if \<not> vault_ready uid (wd_users db) then (Inl (WorkError ''vault_unavailable''), db)
      else let db' = expire_stale_work uid now db in
        (case owned_request uid rid (wd_requests db') of
           None \<Rightarrow> (Inl (WorkError ''work_not_found''), db')
         | Some q \<Rightarrow> (Inr (q, proposal_of rid (wd_proposals db')), db')))"

definition allowed_from :: "work_state \<Rightarrow> work_state list" where
  "allowed_from st = (if st = Canceled then [Queued, Returned] else [Returned])"

definition transition ::
  "instant \<Rightarrow> int \<Rightarrow> string \<Rightarrow> int \<Rightarrow> work_state \<Rightarrow> ('v, 'c, 'p, 'r, 'o) work_db
     \<Rightarrow> unit work_result \<times> ('v, 'c, 'p, 'r, 'o) work_db" where
  "transition now uid rid expected st db =
     (if \<not> vault_ready uid (wd_users db) then (Inl (WorkError ''vault_unavailable''), db)
      else (case owned_request uid rid (wd_requests db) of
        None \<Rightarrow> (Inl (WorkError ''work_not_found''), db)
      | Some q \<Rightarrow>
          if wr_expires q \<le> now then (Inl (WorkError ''work_expired''), expire_stale_work uid now db)
          else if wr_state q = Canceled then (Inl (WorkError ''work_canceled''), db)
          else let hit = (\<lambda>q. wr_id q = rid \<and> wr_user q = uid \<and> wr_revision q = expected
                 \<and> wr_state q \<in> set (allowed_from st) \<and> now < wr_expires q) in
            if row_count hit (wd_requests db) \<noteq> 1 then (Inl (WorkError ''revision_conflict''), db)
            else (Inr (), set_request hit (bump st now) db)))"

definition cancel_work_request ::
  "instant \<Rightarrow> int \<Rightarrow> string \<Rightarrow> int \<Rightarrow> ('v, 'c, 'p, 'r, 'o) work_db
     \<Rightarrow> unit work_result \<times> ('v, 'c, 'p, 'r, 'o) work_db" where
  "cancel_work_request now uid rid expected db = transition now uid rid expected Canceled db"

definition reject_work_request ::
  "instant \<Rightarrow> int \<Rightarrow> string \<Rightarrow> int \<Rightarrow> ('v, 'c, 'p, 'r, 'o) work_db
     \<Rightarrow> unit work_result \<times> ('v, 'c, 'p, 'r, 'o) work_db" where
  "reject_work_request now uid rid expected db = transition now uid rid expected Rejected db"

subsection \<open>Submitting a proposal\<close>

record 'p submission =
  sb_request :: string
  sb_digest :: string
  sb_key :: string
  sb_result :: 'p

record proposal_receipt =
  pc_proposal :: string
  pc_request :: string
  pc_state :: work_state
  pc_digest :: string
  pc_created :: instant

definition receipt_of :: "'p proposal \<Rightarrow> work_state \<Rightarrow> proposal_receipt" where
  "receipt_of p st = \<lparr>pc_proposal = pp_id p, pc_request = pp_request p, pc_state = st,
     pc_digest = pp_digest p, pc_created = pp_created p\<rparr>"

definition bound_request ::
  "instant \<Rightarrow> string \<Rightarrow> string \<Rightarrow> string option \<Rightarrow> ('v, 'c, 'p, 'r, 'o) work_db
     \<Rightarrow> ('c, 'r, 'o) work_request work_result" where
  "bound_request now gid rid scope db =
     (case require_grant now (wd_users db) (wd_grants db) (Some gid) scope None of
        Inl e \<Rightarrow> Inl e
      | Inr g \<Rightarrow>
          (case select_first (\<lambda>q. wr_id q = rid \<and> wr_user q = gr_user g \<and> wr_grant q = Some gid)
                  (wd_requests db) of
             None \<Rightarrow> Inl (WorkError ''work_not_found'')
           | Some q \<Rightarrow> (case work_live_error now q of Some e \<Rightarrow> Inl e | None \<Rightarrow> Inr q)))"

definition submit_proposal ::
  "('v, 'c, 'p, 'r, 'o) work_env \<Rightarrow> instant \<Rightarrow> string \<Rightarrow> string \<Rightarrow> string \<Rightarrow> 'p submission
     \<Rightarrow> ('v, 'c, 'p, 'r, 'o) work_db \<Rightarrow> proposal_receipt work_result \<times> ('v, 'c, 'p, 'r, 'o) work_db" where
  "submit_proposal W now pid gid rid s db =
     (if rid \<noteq> sb_request s then (Inl (WorkError ''invalid_result''), db)
      else (case bound_request now gid rid (Some ''proposals:write'') db of
        Inl e \<Rightarrow> (Inl e, db)
      | Inr q \<Rightarrow>
          if sb_digest s \<noteq> wr_digest q then (Inl (WorkError ''stale_input''), db)
          else (case we_validate W (wr_targets q) (wr_context q) (sb_result s) of
            Inl e \<Rightarrow> (Inl e, db)
          | Inr payload \<Rightarrow>
              let digest = we_payload_digest W payload in
              (case proposal_of rid (wd_proposals db) of
                 Some p \<Rightarrow>
                   if pp_key p = sb_key s \<and> pp_digest p = digest
                   then (Inr (receipt_of p (wr_state q)), db)
                   else (Inl (WorkError ''result_conflict''), db)
               | None \<Rightarrow>
                   if wr_state q \<noteq> Queued then (Inl (WorkError ''revision_conflict''), db)
                   else let hit = (\<lambda>r. wr_id r = wr_id q \<and> wr_user r = wr_user q \<and> wr_grant r = Some gid
                          \<and> wr_state r = Queued \<and> wr_revision r = wr_revision q \<and> now < wr_expires r) in
                     if row_count hit (wd_requests db) \<noteq> 1
                     then (Inl (WorkError ''result_conflict''), db)
                     else (case require_grant now (wd_users db) (wd_grants db) (Some gid)
                                  (Some ''proposals:write'') (Some (wr_user q)) of
                       Inl e \<Rightarrow> (Inl e, db)
                     | Inr _ \<Rightarrow>
                         if \<not> inputs_current W (wd_vault db) q
                         then (Inl (WorkError ''stale_input''), db)
                         else if list_ex (\<lambda>r. pp_id r = pid) (wd_proposals db)
                         then (Inl (WorkError ''result_conflict''), db)
                         else let p = \<lparr>pp_id = pid, pp_request = wr_id q, pp_user = wr_user q,
                                pp_grant = gid, pp_key = sb_key s, pp_digest = digest,
                                pp_payload = payload, pp_created = now\<rparr> in
                           (Inr (receipt_of p Returned),
                            (set_request hit (bump Returned now) db)
                              \<lparr>wd_proposals := wd_proposals db @ [p]\<rparr>))))))"

definition get_work_result ::
  "instant \<Rightarrow> string \<Rightarrow> string \<Rightarrow> ('v, 'c, 'p, 'r, 'o) work_db \<Rightarrow> proposal_receipt work_result" where
  "get_work_result now gid rid db =
     (case bound_request now gid rid None db of
        Inl e \<Rightarrow> Inl e
      | Inr q \<Rightarrow>
          (case require_grant now (wd_users db) (wd_grants db) (Some gid) None None of
             Inl e \<Rightarrow> Inl e
           | Inr g \<Rightarrow>
               if ''context:read'' \<notin> set (scope_set g) \<and> ''proposals:write'' \<notin> set (scope_set g)
               then Inl (WorkError ''scope_denied'')
               else (case select_first (\<lambda>p. pp_request p = rid \<and> pp_user p = wr_user q) (wd_proposals db) of
                  None \<Rightarrow> Inl (WorkError ''work_not_found'')
                | Some p \<Rightarrow> Inr (receipt_of p (wr_state q)))))"

subsection \<open>Acceptance\<close>

record 'r acceptance =
  ac_revision :: int
  ac_targets :: 'r

definition replay_acceptance ::
  "('v, 'c, 'p, 'r, 'o) work_env \<Rightarrow> 'r acceptance \<Rightarrow> ('c, 'r, 'o) work_request \<Rightarrow> ('r, 'o) work_receipt
     \<Rightarrow> ('v, 'c, 'p, 'r, 'o) work_db \<Rightarrow> ('r, 'o) work_receipt work_result" where
  "replay_acceptance W a q rc db =
     (if ac_revision a \<notin> {wr_revision q - 1, wr_revision q} then Inl (WorkError ''revision_conflict'')
      else if ac_targets a \<noteq> wr_inputs q then Inl (WorkError ''stale_input'')
      else (case current_input_state W (wd_vault db) q of
        None \<Rightarrow> Inl (WorkError ''stale_input'')
      | Some (digest, revisions) \<Rightarrow>
          if rt_digest rc \<noteq> digest \<or> rt_revisions rc \<noteq> revisions then Inl (WorkError ''stale_input'')
          else Inr rc))"

definition proposal_payload ::
  "('v, 'c, 'p, 'r, 'o) work_env \<Rightarrow> ('c, 'r, 'o) work_request \<Rightarrow> 'p proposal \<Rightarrow> 'p work_result" where
  "proposal_payload W q p =
     (case we_parse W (pp_payload p) of
        None \<Rightarrow> Inl (WorkError ''invalid_result'')
      | Some raw \<Rightarrow>
          (case we_validate W (wr_targets q) (wr_context q) raw of
             Inl e \<Rightarrow> Inl e
           | Inr payload \<Rightarrow>
               if we_payload_digest W payload \<noteq> pp_digest p then Inl (WorkError ''invalid_result'')
               else Inr payload))"

text \<open>The guarded update of the row, and what it finally writes.\<close>

definition accept_hit ::
  "instant \<Rightarrow> int \<Rightarrow> int \<Rightarrow> ('c, 'r, 'o) work_request \<Rightarrow> ('c, 'r, 'o) work_request \<Rightarrow> bool" where
  "accept_hit now uid n q r \<longleftrightarrow> wr_id r = wr_id q \<and> wr_user r = uid \<and> wr_state r = Returned
     \<and> wr_revision r = n \<and> now < wr_expires r"

definition accept_row ::
  "instant \<Rightarrow> int \<Rightarrow> ('r, 'o) work_receipt \<Rightarrow> ('c, 'r, 'o) work_request \<Rightarrow> ('c, 'r, 'o) work_request" where
  "accept_row now n rc r = r\<lparr>wr_state := Accepted, wr_revision := n + 1, wr_receipt := Some rc, wr_updated := now\<rparr>"

definition accept_first ::
  "('v, 'c, 'p, 'r, 'o) work_env \<Rightarrow> instant \<Rightarrow> int \<Rightarrow> string \<Rightarrow> 'r acceptance \<Rightarrow> ('c, 'r, 'o) work_request
     \<Rightarrow> ('v, 'c, 'p, 'r, 'o) work_db \<Rightarrow> ('r, 'o) work_receipt work_result \<times> ('v, 'c, 'p, 'r, 'o) work_db" where
  "accept_first W now uid rid a q db =
     (let hit = accept_hit now uid (ac_revision a) q in
      if row_count hit (wd_requests db) \<noteq> 1 then (Inl (WorkError ''revision_conflict''), db)
      else if \<not> inputs_current W (wd_vault db) q then (Inl (WorkError ''stale_input''), db)
      else if ac_targets a \<noteq> wr_inputs q then (Inl (WorkError ''stale_input''), db)
      else (case proposal_of rid (wd_proposals db) of
        None \<Rightarrow> (Inl (WorkError ''work_not_found''), db)
      | Some p \<Rightarrow>
          (case proposal_payload W q p of
             Inl e \<Rightarrow> (Inl e, db)
           | Inr payload \<Rightarrow>
               (case we_write W (wd_vault db) q p payload now of
                  Inl e \<Rightarrow> (Inl e, db)
                | Inr (v', outcome) \<Rightarrow>
                    (case current_input_state W v' q of
                       None \<Rightarrow> (Inl (WorkError ''stale_input''), db)
                     | Some (digest, revisions) \<Rightarrow>
                         let rc = \<lparr>rt_request = wr_id q, rt_proposal = pp_id p,
                           rt_kind = wt_kind (wr_targets q), rt_accepted_at = now,
                           rt_target_job = wt_job (wr_targets q), rt_outcome = outcome,
                           rt_digest = digest, rt_revisions = revisions\<rparr> in
                         (Inr rc, (set_request hit (accept_row now (ac_revision a) rc) db)
                            \<lparr>wd_vault := v'\<rparr>))))))"

definition was_accepted :: "('c, 'r, 'o) work_request \<Rightarrow> bool" where
  "was_accepted q \<longleftrightarrow> wr_state q = Accepted \<and> wr_receipt q \<noteq> None"

definition accept_work_proposal ::
  "('v, 'c, 'p, 'r, 'o) work_env \<Rightarrow> instant \<Rightarrow> int \<Rightarrow> string \<Rightarrow> 'r acceptance \<Rightarrow> ('v, 'c, 'p, 'r, 'o) work_db
     \<Rightarrow> ('r, 'o) work_receipt work_result \<times> ('v, 'c, 'p, 'r, 'o) work_db" where
  "accept_work_proposal W now uid rid a db =
     (if \<not> vault_ready uid (wd_users db) then (Inl (WorkError ''vault_unavailable''), db)
      else (case owned_request uid rid (wd_requests db) of
        None \<Rightarrow> (Inl (WorkError ''work_not_found''), db)
      | Some q \<Rightarrow>
          (case require_grant now (wd_users db) (wd_grants db) (wr_grant q) (Some ''proposals:write'') (Some uid) of
             Inl e \<Rightarrow> (Inl e, db)
           | Inr _ \<Rightarrow>
          (case work_live_error now q of
             Some e \<Rightarrow> (Inl e, db)
           | None \<Rightarrow>
               if was_accepted q then (replay_acceptance W a q (the (wr_receipt q)) db, db)
               else accept_first W now uid rid a q db))))"

lemmas work_operation_defs [session_defs] =
  create_work_request_def expire_stale_work_def transition_def submit_proposal_def accept_work_proposal_def accept_first_def

end
