(* ===== verification/AgentClaims.thy ===== *)
theory AgentClaims
  imports AgentWork
begin

text \<open>
  The life of a work request: an abstract state machine (\<open>work_edge\<close>) that every
  operation refines, terminal states that last, proposals that are stored once
  and never change, and acceptances that write the vault at most once.
\<close>

subsection \<open>Events\<close>

text \<open>
  The vault changes at any time, and what is deleted from it is forgotten by the
  requests that point at it: the target columns are foreign keys with \<open>ON DELETE SET NULL\<close>.
\<close>

record work_deletions =
  dl_jobs :: "int list"
  dl_applications :: "string list"
  dl_resumes :: "string list"

definition forget :: "'a list \<Rightarrow> 'a option \<Rightarrow> 'a option" where
  "forget gone t = (case t of None \<Rightarrow> None | Some x \<Rightarrow> if x \<in> set gone then None else Some x)"

definition forget_targets :: "work_deletions \<Rightarrow> work_targets \<Rightarrow> work_targets" where
  "forget_targets d t = t\<lparr>wt_job := forget (dl_jobs d) (wt_job t),
     wt_application := forget (dl_applications d) (wt_application t),
     wt_resume := forget (dl_resumes d) (wt_resume t)\<rparr>"

definition unlink :: "work_deletions \<Rightarrow> ('c, 'r, 'o) work_request table \<Rightarrow> ('c, 'r, 'o) work_request table" where
  "unlink d reqs = map (\<lambda>q. q\<lparr>wr_targets := forget_targets d (wr_targets q)\<rparr>) reqs"

datatype ('v, 'p, 'r) work_event =
    CreateWork instant string int work_create
  | SweepWork instant int
  | CancelWork instant int string int
  | RejectWork instant int string int
  | Submit instant string string string "'p submission"
  | Accept instant int string "'r acceptance"
  | VaultChange 'v work_deletions
  | AuthorityChange "user_row table" grants
  | EraseWork int

text \<open>A grant that disappears leaves its requests unbound (\<open>ON DELETE SET NULL\<close>).\<close>

definition unbind :: "grants \<Rightarrow> ('c, 'r, 'o) work_request table \<Rightarrow> ('c, 'r, 'o) work_request table" where
  "unbind grants reqs =
     update_rows (\<lambda>q. \<forall>g \<in> set grants. wr_grant q \<noteq> Some (gr_id g)) (\<lambda>q. q\<lparr>wr_grant := None\<rparr>) reqs"

fun work_apply ::
  "('v, 'c, 'p, 'r, 'o) work_env \<Rightarrow> ('v, 'p, 'r) work_event \<Rightarrow> ('v, 'c, 'p, 'r, 'o) work_db
     \<Rightarrow> ('v, 'c, 'p, 'r, 'o) work_db" where
  "work_apply W (CreateWork now rid uid c) db = snd (create_work_request W now rid uid c db)"
| "work_apply W (SweepWork now uid) db =
     (if vault_ready uid (wd_users db) then expire_stale_work uid now db else db)"
| "work_apply W (CancelWork now uid rid n) db = snd (cancel_work_request now uid rid n db)"
| "work_apply W (RejectWork now uid rid n) db = snd (reject_work_request now uid rid n db)"
| "work_apply W (Submit now pid gid rid s) db = snd (submit_proposal W now pid gid rid s db)"
| "work_apply W (Accept now uid rid a) db = snd (accept_work_proposal W now uid rid a db)"
| "work_apply W (VaultChange v d) db = db\<lparr>wd_vault := v, wd_requests := unlink d (wd_requests db)\<rparr>"
| "work_apply W (AuthorityChange users grants) db =
     db\<lparr>wd_users := users, wd_grants := grants, wd_requests := unbind grants (wd_requests db)\<rparr>"
| "work_apply W (EraseWork uid) db =
     db\<lparr>wd_requests := delete_rows (\<lambda>q. wr_user q = uid) (wd_requests db),
        wd_proposals := delete_rows (\<lambda>p. pp_user p = uid) (wd_proposals db)\<rparr>"

definition work_run ::
  "('v, 'c, 'p, 'r, 'o) work_env \<Rightarrow> ('v, 'p, 'r) work_event list \<Rightarrow> ('v, 'c, 'p, 'r, 'o) work_db
     \<Rightarrow> ('v, 'c, 'p, 'r, 'o) work_db" where
  "work_run W es db = fold (work_apply W) es db"

subsection \<open>The abstract life of a request\<close>

inductive work_edge :: "work_state \<Rightarrow> work_state \<Rightarrow> bool" where
  edge_return: "work_edge Queued Returned"
| edge_accept: "work_edge Returned Accepted"
| edge_reject: "work_edge Returned Rejected"
| edge_cancel_queued: "work_edge Queued Canceled"
| edge_cancel_returned: "work_edge Returned Canceled"
| edge_expire_queued: "work_edge Queued Expired"
| edge_expire_returned: "work_edge Returned Expired"

inductive_cases work_edgeE: "work_edge s t"

definition terminal :: "work_state \<Rightarrow> bool" where
  "terminal s \<longleftrightarrow> s \<in> {Accepted, Rejected, Canceled, Expired}"

lemma terminal_stuck: "terminal s \<Longrightarrow> \<not> work_edge s t"
  by (auto simp: terminal_def elim: work_edgeE)

text \<open>The targets of a request are those that it was created with, less the deleted ones.\<close>

definition targets_follow :: "work_targets \<Rightarrow> work_targets \<Rightarrow> bool" where
  "targets_follow t u \<longleftrightarrow> wt_kind u = wt_kind t \<and> wt_instruction u = wt_instruction t \<and> wt_preset u = wt_preset t
     \<and> wt_facts u = wt_facts t \<and> wt_job u \<in> {wt_job t, None} \<and> wt_application u \<in> {wt_application t, None}
     \<and> wt_resume u \<in> {wt_resume t, None}"

lemma targets_follow_refl [simp]: "targets_follow t t"
  by (simp add: targets_follow_def)

lemma targets_follow_trans: "targets_follow t u \<Longrightarrow> targets_follow u w \<Longrightarrow> targets_follow t w"
  by (auto simp: targets_follow_def)

lemma forget_targets_follow: "targets_follow t (forget_targets d t)"
  by (auto simp: targets_follow_def forget_targets_def forget_def split: option.split)

text \<open>One request before and after an event: unchanged, unbound, without a deleted target, or one edge further.\<close>

definition same_request :: "('c, 'r, 'o) work_request \<Rightarrow> ('c, 'r, 'o) work_request \<Rightarrow> bool" where
  "same_request q r \<longleftrightarrow> wr_id r = wr_id q \<and> wr_user r = wr_user q \<and> targets_follow (wr_targets q) (wr_targets r)
     \<and> wr_historical r = wr_historical q \<and> wr_context r = wr_context q \<and> wr_digest r = wr_digest q
     \<and> wr_inputs r = wr_inputs q \<and> wr_expires r = wr_expires q \<and> wr_created r = wr_created q"

definition request_step :: "('c, 'r, 'o) work_request \<Rightarrow> ('c, 'r, 'o) work_request \<Rightarrow> bool" where
  "request_step q r \<longleftrightarrow> same_request q r \<and>
     ((wr_state r = wr_state q \<and> wr_revision r = wr_revision q \<and> wr_receipt r = wr_receipt q)
      \<or> (work_edge (wr_state q) (wr_state r) \<and> wr_revision r = wr_revision q + 1
         \<and> (if wr_state r = Accepted then wr_receipt r \<noteq> None else wr_receipt r = wr_receipt q)))"

lemma request_step_refl: "request_step q q"
  by (simp add: request_step_def same_request_def)

lemma request_step_bump:
  "work_edge (wr_state q) st \<Longrightarrow> st \<noteq> Accepted
     \<Longrightarrow> request_step q (bump st now q) \<and> wr_targets (bump st now q) = wr_targets q"
  by (simp add: request_step_def same_request_def bump_def)

text \<open>What an event does to the table of requests, and to their targets.\<close>

definition requests_evolve ::
  "(work_targets \<Rightarrow> work_targets) \<Rightarrow> ('c, 'r, 'o) work_request table \<Rightarrow> ('c, 'r, 'o) work_request table \<Rightarrow> bool" where
  "requests_evolve g rows rows' \<longleftrightarrow>
     (\<exists>f. (\<forall>q \<in> set rows. request_step q (f q) \<and> wr_targets (f q) = g (wr_targets q)) \<and> rows' = map f rows)
     \<or> (\<exists>q. g = id \<and> rows' = rows @ [q] \<and> (\<forall>r \<in> set rows. wr_id r \<noteq> wr_id q)
          \<and> wr_state q = Queued \<and> wr_revision q = 1 \<and> wr_receipt q = None)"

lemma evolve_same: "requests_evolve id rows rows"
  unfolding requests_evolve_def by (intro disjI1 exI [of _ "\<lambda>q. q"]) (simp add: request_step_refl)

lemma evolve_update:
  assumes "\<And>q. q \<in> set rows \<Longrightarrow> p q \<Longrightarrow> request_step q (f q) \<and> wr_targets (f q) = wr_targets q"
  shows "requests_evolve id rows (update_rows p f rows)"
  unfolding requests_evolve_def update_rows_def
  using assms by (intro disjI1 exI [of _ "\<lambda>q. if p q then f q else q"]) (simp add: request_step_refl)

lemma expire_evolves: "requests_evolve id (wd_requests db) (wd_requests (expire_stale_work uid now db))"
  by (auto simp: expire_stale_work_def set_request_def
      intro!: evolve_update request_step_bump edge_expire_queued edge_expire_returned)

lemma transition_evolves:
  assumes "st \<in> {Canceled, Rejected}"
  shows "requests_evolve id (wd_requests db) (wd_requests (snd (transition now uid rid expected st db)))"
proof -
  have edge: "work_edge s st" if "s \<in> set (allowed_from st)" for s
    using assms that by (auto simp: allowed_from_def intro: work_edge.intros)
  have "requests_evolve id (wd_requests db) (update_rows (\<lambda>q. wr_id q = rid \<and> wr_user q = uid \<and> wr_revision q = expected
      \<and> wr_state q \<in> set (allowed_from st) \<and> now < wr_expires q) (bump st now) (wd_requests db))"
    using assms edge by (intro evolve_update request_step_bump) auto
  then show ?thesis
    by (simp add: transition_def Let_def set_request_def expire_evolves evolve_same split: option.split)
qed

lemma create_evolves: "requests_evolve id (wd_requests db) (wd_requests (snd (create_work_request W now rid uid c db)))"
proof (cases "wd_requests (snd (create_work_request W now rid uid c db)) = wd_requests db")
  case True
  then show ?thesis by (simp add: evolve_same)
next
  case False
  then obtain q where "wd_requests (snd (create_work_request W now rid uid c db)) = wd_requests db @ [q]"
    "wr_id q = rid" "wr_state q = Queued" "wr_revision q = 1" "wr_receipt q = None"
    "\<not> list_ex (\<lambda>q. wr_id q = rid) (wd_requests db)"
    by (auto simp: create_work_request_def Let_def split: option.splits sum.splits if_splits)
  then show ?thesis
    unfolding requests_evolve_def by (intro disjI2 exI [of _ q]) (auto simp: list_ex_iff)
qed

subsection \<open>Submissions\<close>

definition submit_hit ::
  "instant \<Rightarrow> string \<Rightarrow> ('c, 'r, 'o) work_request \<Rightarrow> ('c, 'r, 'o) work_request \<Rightarrow> bool" where
  "submit_hit now gid q r \<longleftrightarrow> wr_id r = wr_id q \<and> wr_user r = wr_user q \<and> wr_grant r = Some gid
     \<and> wr_state r = Queued \<and> wr_revision r = wr_revision q \<and> now < wr_expires r"

definition new_proposal ::
  "('v, 'c, 'p, 'r, 'o) work_env \<Rightarrow> instant \<Rightarrow> string \<Rightarrow> string \<Rightarrow> 'p submission \<Rightarrow> ('c, 'r, 'o) work_request
     \<Rightarrow> 'p \<Rightarrow> 'p proposal" where
  "new_proposal W now pid gid s q payload =
     \<lparr>pp_id = pid, pp_request = wr_id q, pp_user = wr_user q, pp_grant = gid, pp_key = sb_key s,
      pp_digest = we_payload_digest W payload, pp_payload = payload, pp_created = now\<rparr>"

definition first_submission ::
  "('v, 'c, 'p, 'r, 'o) work_env \<Rightarrow> instant \<Rightarrow> string \<Rightarrow> ('c, 'r, 'o) work_request \<Rightarrow> 'p proposal
     \<Rightarrow> ('v, 'c, 'p, 'r, 'o) work_db \<Rightarrow> ('v, 'c, 'p, 'r, 'o) work_db \<Rightarrow> bool" where
  "first_submission W now gid q p db db' \<longleftrightarrow>
     proposal_of (wr_id q) (wd_proposals db) = None \<and> wr_state q = Queued
     \<and> row_count (submit_hit now gid q) (wd_requests db) = 1 \<and> inputs_current W (wd_vault db) q
     \<and> (\<forall>r \<in> set (wd_proposals db). pp_id r \<noteq> pp_id p)
     \<and> db' = (set_request (submit_hit now gid q) (bump Returned now) db)\<lparr>wd_proposals := wd_proposals db @ [p]\<rparr>"

lemma bound_request_facts:
  assumes "bound_request now gid rid scope db = Inr q"
  shows "q \<in> set (wd_requests db)" "wr_id q = rid" "wr_grant q = Some gid" "work_live_error now q = None"
    "\<exists>g. require_grant now (wd_users db) (wd_grants db) (Some gid) scope None = Inr g \<and> wr_user q = gr_user g"
  using assms by (auto simp: bound_request_def split: sum.splits option.splits dest!: select_first_Some)

lemma submit_facts:
  assumes "submit_proposal W now pid gid rid s db = (Inr rc, db')"
  obtains q payload where "bound_request now gid rid (Some ''proposals:write'') db = Inr q"
    "rid = sb_request s" "sb_digest s = wr_digest q"
    "we_validate W (wr_targets q) (wr_context q) (sb_result s) = Inr payload"
    "(\<exists>p. proposal_of rid (wd_proposals db) = Some p \<and> pp_key p = sb_key s
        \<and> pp_digest p = we_payload_digest W payload \<and> rc = receipt_of p (wr_state q) \<and> db' = db)
     \<or> (rc = receipt_of (new_proposal W now pid gid s q payload) Returned
        \<and> first_submission W now gid q (new_proposal W now pid gid s q payload) db db')"
proof -
  have hit: "submit_hit now gid q = (\<lambda>r. wr_id r = wr_id q \<and> wr_user r = wr_user q \<and> wr_grant r = Some gid
     \<and> wr_state r = Queued \<and> wr_revision r = wr_revision q \<and> now < wr_expires r)"
    for q :: "('b, 'd, 'e) work_request"
    by (simp add: fun_eq_iff submit_hit_def)
  from assms obtain q payload where
    q: "rid = sb_request s" "bound_request now gid rid (Some ''proposals:write'') db = Inr q"
      "sb_digest s = wr_digest q" "we_validate W (wr_targets q) (wr_context q) (sb_result s) = Inr payload"
    by (auto simp: submit_proposal_def split: sum.splits if_splits)
  note id = bound_request_facts(2) [OF q(2)]
  show thesis
  proof (rule that [OF q(2,1,3,4)], cases "proposal_of rid (wd_proposals db)")
    case None
    with assms q id have "rc = receipt_of (new_proposal W now pid gid s q payload) Returned
        \<and> first_submission W now gid q (new_proposal W now pid gid s q payload) db db'"
      by (simp add: submit_proposal_def first_submission_def new_proposal_def hit Let_def list_ex_iff
          split: sum.splits if_splits)
    then show "(\<exists>p. proposal_of rid (wd_proposals db) = Some p \<and> pp_key p = sb_key s
        \<and> pp_digest p = we_payload_digest W payload \<and> rc = receipt_of p (wr_state q) \<and> db' = db)
     \<or> (rc = receipt_of (new_proposal W now pid gid s q payload) Returned
        \<and> first_submission W now gid q (new_proposal W now pid gid s q payload) db db')" by blast
  qed (use assms q in \<open>simp add: submit_proposal_def Let_def split: if_splits\<close>)
qed

lemma submit_refused: "submit_proposal W now pid gid rid s db = (Inl e, db') \<Longrightarrow> db' = db"
  by (auto simp: submit_proposal_def Let_def split: sum.splits option.splits if_splits)

lemma submit_evolves: "requests_evolve id (wd_requests db) (wd_requests (snd (submit_proposal W now pid gid rid s db)))"
proof -
  obtain r db' where r: "submit_proposal W now pid gid rid s db = (r, db')" by fastforce
  show ?thesis
  proof (cases r)
    case (Inl e)
    with r submit_refused [of W now pid gid rid s db e db'] show ?thesis by (simp add: evolve_same)
  next
    case (Inr rc)
    with r have ok: "submit_proposal W now pid gid rid s db = (Inr rc, db')" by simp
    show ?thesis
    proof (rule submit_facts [OF ok], elim disjE exE conjE)
      fix q p
      assume "first_submission W now gid q p db db'"
      then have "wd_requests db' = update_rows (submit_hit now gid q) (bump Returned now) (wd_requests db)"
        by (simp add: first_submission_def set_request_def)
      then have "requests_evolve id (wd_requests db) (wd_requests db')"
        by (auto simp: submit_hit_def intro!: evolve_update request_step_bump edge_return)
      with r show ?thesis by simp
    qed (use r in \<open>simp add: evolve_same\<close>)
  qed
qed

subsection \<open>Acceptances\<close>

definition first_acceptance ::
  "('v, 'c, 'p, 'r, 'o) work_env \<Rightarrow> instant \<Rightarrow> int \<Rightarrow> 'r acceptance \<Rightarrow> ('c, 'r, 'o) work_request
     \<Rightarrow> ('r, 'o) work_receipt \<Rightarrow> ('v, 'c, 'p, 'r, 'o) work_db \<Rightarrow> ('v, 'c, 'p, 'r, 'o) work_db \<Rightarrow> bool" where
  "first_acceptance W now uid a q rc db db' \<longleftrightarrow>
     row_count (accept_hit now uid (ac_revision a) q) (wd_requests db) = 1
     \<and> inputs_current W (wd_vault db) q \<and> ac_targets a = wr_inputs q
     \<and> (\<exists>p payload v' outcome. proposal_of (wr_id q) (wd_proposals db) = Some p
        \<and> proposal_payload W q p = Inr payload \<and> we_write W (wd_vault db) q p payload now = Inr (v', outcome)
        \<and> current_input_state W v' q = Some (rt_digest rc, rt_revisions rc)
        \<and> rt_request rc = wr_id q \<and> rt_proposal rc = pp_id p \<and> rt_outcome rc = outcome
        \<and> db' = (set_request (accept_hit now uid (ac_revision a) q) (accept_row now (ac_revision a) rc) db)
                  \<lparr>wd_vault := v'\<rparr>)"

lemma accept_fresh:
  assumes "accept_first W now uid (wr_id q) a q db = (Inr rc, db')"
  shows "first_acceptance W now uid a q rc db db'"
  using assms unfolding accept_first_def first_acceptance_def
  by (auto simp: Let_def split: sum.splits option.splits if_splits prod.splits)

lemma accept_facts:
  assumes "accept_work_proposal W now uid rid a db = (Inr rc, db')"
  obtains q g where "vault_ready uid (wd_users db)" "owned_request uid rid (wd_requests db) = Some q"
    "wr_id q = rid" "wr_user q = uid" "q \<in> set (wd_requests db)"
    "require_grant now (wd_users db) (wd_grants db) (wr_grant q) (Some ''proposals:write'') (Some uid) = Inr g"
    "work_live_error now q = None"
    "(was_accepted q \<and> wr_receipt q = Some rc \<and> replay_acceptance W a q rc db = Inr rc \<and> db' = db)
     \<or> (\<not> was_accepted q \<and> first_acceptance W now uid a q rc db db')"
proof -
  from assms obtain q g where
    q: "vault_ready uid (wd_users db)" "owned_request uid rid (wd_requests db) = Some q"
      "require_grant now (wd_users db) (wd_grants db) (wr_grant q) (Some ''proposals:write'') (Some uid) = Inr g"
      "work_live_error now q = None"
    by (auto simp: accept_work_proposal_def split: sum.splits option.splits if_splits)
  from q(2) have id: "wr_id q = rid" "wr_user q = uid" "q \<in> set (wd_requests db)"
    by (auto simp: owned_request_def dest: select_first_Some)
  show thesis
  proof (rule that [OF q(1,2) id q(3,4)], cases "was_accepted q")
    case True
    then obtain rc' where "wr_receipt q = Some rc'" by (auto simp: was_accepted_def)
    with assms q True show "(was_accepted q \<and> wr_receipt q = Some rc \<and> replay_acceptance W a q rc db = Inr rc \<and> db' = db)
     \<or> (\<not> was_accepted q \<and> first_acceptance W now uid a q rc db db')"
      by (auto simp: accept_work_proposal_def replay_acceptance_def split: option.splits if_splits)
  next
    case False
    with assms q id have "accept_first W now uid (wr_id q) a q db = (Inr rc, db')"
      by (simp add: accept_work_proposal_def)
    from accept_fresh [OF this] False show "(was_accepted q \<and> wr_receipt q = Some rc \<and> replay_acceptance W a q rc db = Inr rc \<and> db' = db)
     \<or> (\<not> was_accepted q \<and> first_acceptance W now uid a q rc db db')" by simp
  qed
qed

lemma accept_first_refused: "accept_first W now uid rid a q db = (Inl e, db') \<Longrightarrow> db' = db"
  by (auto simp: accept_first_def Let_def split: sum.splits option.splits if_splits prod.splits)

lemma accept_refused: "accept_work_proposal W now uid rid a db = (Inl e, db') \<Longrightarrow> db' = db"
  by (auto simp: accept_work_proposal_def dest: accept_first_refused
      split: sum.splits option.splits if_splits)

lemma accept_evolves: "requests_evolve id (wd_requests db) (wd_requests (snd (accept_work_proposal W now uid rid a db)))"
proof -
  obtain r db' where r: "accept_work_proposal W now uid rid a db = (r, db')" by fastforce
  show ?thesis
  proof (cases r)
    case (Inl e)
    with r accept_refused [of W now uid rid a db e db'] show ?thesis by (simp add: evolve_same)
  next
    case (Inr rc)
    with r have ok: "accept_work_proposal W now uid rid a db = (Inr rc, db')" by simp
    show ?thesis
    proof (rule accept_facts [OF ok], elim disjE conjE)
      fix q
      assume "first_acceptance W now uid a q rc db db'"
      then have "wd_requests db' = update_rows (accept_hit now uid (ac_revision a) q)
          (accept_row now (ac_revision a) rc) (wd_requests db)"
        by (auto simp: first_acceptance_def set_request_def)
      then have "requests_evolve id (wd_requests db) (wd_requests db')"
        by (auto simp: accept_hit_def accept_row_def request_step_def same_request_def
            intro!: evolve_update edge_accept)
      with r show ?thesis by simp
    qed (use r in \<open>simp add: evolve_same\<close>)
  qed
qed

subsection \<open>The tables stay well formed\<close>

fun revision_of :: "work_state \<Rightarrow> int set" where
  "revision_of Queued = {1}"
| "revision_of Returned = {2}"
| "revision_of Accepted = {3}"
| "revision_of Rejected = {3}"
| "revision_of Canceled = {2, 3}"
| "revision_of Expired = {2, 3}"

definition request_well :: "('c, 'r, 'o) work_request \<Rightarrow> bool" where
  "request_well q \<longleftrightarrow> wr_revision q \<in> revision_of (wr_state q)
     \<and> (wr_receipt q \<noteq> None \<longleftrightarrow> wr_state q = Accepted)"

definition linked :: "('c, 'r, 'o) work_request table \<Rightarrow> 'p proposal table \<Rightarrow> bool" where
  "linked reqs props \<longleftrightarrow> (\<forall>p \<in> set props. \<exists>q \<in> set reqs.
     wr_id q = pp_request p \<and> wr_user q = pp_user p \<and> wr_state q \<noteq> Queued)"

definition requests_well :: "('c, 'r, 'o) work_request table \<Rightarrow> bool" where
  "requests_well reqs \<longleftrightarrow> unique_by wr_id reqs \<and> (\<forall>q \<in> set reqs. request_well q)"

definition work_well :: "('v, 'c, 'p, 'r, 'o) work_db \<Rightarrow> bool" where
  "work_well db \<longleftrightarrow> requests_well (wd_requests db) \<and> unique_by pp_id (wd_proposals db)
     \<and> unique_by pp_request (wd_proposals db) \<and> linked (wd_requests db) (wd_proposals db)"

lemma work_edge_revision: "work_edge s t \<Longrightarrow> n \<in> revision_of s \<Longrightarrow> n + 1 \<in> revision_of t"
  by (auto elim!: work_edgeE)

lemma work_edge_ends: "work_edge s t \<Longrightarrow> s \<noteq> Accepted \<and> t \<noteq> Queued"
  by (auto elim!: work_edgeE)

lemma request_step_well: "request_step q r \<Longrightarrow> request_well q \<Longrightarrow> request_well r"
  using work_edge_revision [of "wr_state q" "wr_state r" "wr_revision q"]
    work_edge_ends [of "wr_state q" "wr_state r"]
  unfolding request_step_def request_well_def by (cases "wr_state r = Accepted") auto

lemma request_step_link:
  "request_step q r \<Longrightarrow> wr_id r = wr_id q \<and> wr_user r = wr_user q \<and> (wr_state q \<noteq> Queued \<longrightarrow> wr_state r \<noteq> Queued)"
  by (auto simp: request_step_def same_request_def dest: work_edge_ends)

lemma evolve_cases:
  assumes "requests_evolve g rows rows'"
  obtains (moved) f where "\<And>q. q \<in> set rows \<Longrightarrow> request_step q (f q)"
      "\<And>q. q \<in> set rows \<Longrightarrow> wr_targets (f q) = g (wr_targets q)" "rows' = map f rows"
  | (added) q where "g = id" "rows' = rows @ [q]" "\<And>r. r \<in> set rows \<Longrightarrow> wr_id r \<noteq> wr_id q" "request_well q"
  using assms by (auto simp: requests_evolve_def request_well_def)

lemma evolve_well:
  assumes "requests_evolve g rows rows'" and "requests_well rows"
  shows "requests_well rows'"
  using assms(1)
proof (cases rule: evolve_cases)
  case (moved f)
  then have ids: "map wr_id rows' = map wr_id rows" by (auto dest: request_step_link)
  have "\<forall>r \<in> set rows'. request_well r"
    using moved assms(2) by (auto simp: requests_well_def intro: request_step_well)
  with assms(2) show ?thesis by (simp add: requests_well_def unique_by_def ids del: map_map)
next
  case (added q)
  then have "wr_id q \<notin> wr_id ` set rows" by (metis imageE)
  with assms(2) added(2,4) show ?thesis by (simp add: requests_well_def unique_by_append1)
qed

lemma evolve_linked:
  assumes "requests_evolve g rows rows'" and "linked rows props"
  shows "linked rows' props"
  using assms(1)
proof (cases rule: evolve_cases)
  case (moved f)
  show ?thesis
    unfolding linked_def
  proof
    fix p
    assume "p \<in> set props"
    then obtain q where "q \<in> set rows" "wr_id q = pp_request p" "wr_user q = pp_user p" "wr_state q \<noteq> Queued"
      using assms(2) by (auto simp: linked_def)
    with moved request_step_link [of q "f q"]
    show "\<exists>q \<in> set rows'. wr_id q = pp_request p \<and> wr_user q = pp_user p \<and> wr_state q \<noteq> Queued" by auto
  qed
next
  case (added q)
  with assms(2) show ?thesis by (auto simp: linked_def)
qed

lemma linked_append1: "linked reqs (props @ [p]) \<longleftrightarrow> linked reqs props
    \<and> (\<exists>q \<in> set reqs. wr_id q = pp_request p \<and> wr_user q = pp_user p \<and> wr_state q \<noteq> Queued)"
  by (auto simp: linked_def)

lemma erase_linked:
  assumes "linked reqs props"
  shows "linked (delete_rows (\<lambda>q. wr_user q = uid) reqs) (delete_rows (\<lambda>p. pp_user p = uid) props)"
  unfolding linked_def
proof
  fix p
  assume "p \<in> set (delete_rows (\<lambda>p. pp_user p = uid) props)"
  with assms obtain q where "q \<in> set reqs" "wr_id q = pp_request p" "wr_user q = pp_user p"
      "wr_state q \<noteq> Queued" "pp_user p \<noteq> uid"
    by (auto simp: linked_def)
  then show "\<exists>q \<in> set (delete_rows (\<lambda>q. wr_user q = uid) reqs).
      wr_id q = pp_request p \<and> wr_user q = pp_user p \<and> wr_state q \<noteq> Queued" by auto
qed

lemma evolve_step:
  assumes "requests_evolve g rows rows'" and "q \<in> set rows"
  obtains r where "r \<in> set rows'" "request_step q r" "wr_targets r = g (wr_targets q)"
  using assms(1)
proof (cases rule: evolve_cases)
  case (moved f)
  then show thesis using assms(2) that by auto
next
  case (added q')
  then show thesis using assms(2) that request_step_refl by auto
qed

lemma erase_requests_well: "requests_well reqs \<Longrightarrow> requests_well (delete_rows p reqs)"
  by (simp add: requests_well_def unique_by_delete)

subsection \<open>Every event\<close>

fun erases :: "int \<Rightarrow> ('v, 'p, 'r) work_event \<Rightarrow> bool" where
  "erases uid (EraseWork u) = (u = uid)"
| "erases uid _ = False"

fun targets_after :: "('v, 'p, 'r) work_event \<Rightarrow> work_targets \<Rightarrow> work_targets" where
  "targets_after (VaultChange v d) = forget_targets d"
| "targets_after _ = id"

definition forgets :: "work_targets \<Rightarrow> ('v, 'p, 'r) work_event \<Rightarrow> bool" where
  "forgets t e \<longleftrightarrow> targets_after e t \<noteq> t"

lemma unbind_evolves: "requests_evolve id reqs (unbind grants reqs)"
  unfolding unbind_def by (intro evolve_update) (simp add: request_step_def same_request_def)

lemma unlink_evolves: "requests_evolve (forget_targets d) reqs (unlink d reqs)"
  unfolding requests_evolve_def unlink_def
  by (intro disjI1 exI [of _ "\<lambda>q. q\<lparr>wr_targets := forget_targets d (wr_targets q)\<rparr>"])
    (simp add: request_step_def same_request_def forget_targets_follow)

lemma work_apply_evolves:
  "(\<exists>uid. e = EraseWork uid) \<or> requests_evolve (targets_after e) (wd_requests db) (wd_requests (work_apply W e db))"
  by (cases e) (simp_all add: create_evolves expire_evolves transition_evolves submit_evolves accept_evolves
      unbind_evolves unlink_evolves evolve_same cancel_work_request_def reject_work_request_def)

lemma submit_proposals:
  "wd_proposals (snd (submit_proposal W now pid gid rid s db)) = wd_proposals db
   \<or> (\<exists>q p. q \<in> set (wd_requests db) \<and> pp_request p = wr_id q \<and> pp_user p = wr_user q
       \<and> first_submission W now gid q p db (snd (submit_proposal W now pid gid rid s db)))"
proof -
  obtain r db' where r: "submit_proposal W now pid gid rid s db = (r, db')" by fastforce
  show ?thesis
  proof (cases r)
    case (Inl e)
    with r submit_refused [of W now pid gid rid s db e db'] show ?thesis by simp
  next
    case (Inr rc)
    with r have ok: "submit_proposal W now pid gid rid s db = (Inr rc, db')" by simp
    show ?thesis
    proof (rule submit_facts [OF ok], elim disjE exE conjE)
      fix q payload
      let ?p = "new_proposal W now pid gid s q payload"
      assume b: "bound_request now gid rid (Some ''proposals:write'') db = Inr q"
        and f: "first_submission W now gid q ?p db db'"
      from f bound_request_facts(1) [OF b] r have "q \<in> set (wd_requests db) \<and> pp_request ?p = wr_id q
          \<and> pp_user ?p = wr_user q \<and> first_submission W now gid q ?p db (snd (submit_proposal W now pid gid rid s db))"
        by (simp add: new_proposal_def)
      then show ?thesis by blast
    qed (use r in simp)
  qed
qed

lemma first_submission_well:
  assumes "work_well db" and "pp_request p = wr_id q" and "pp_user p = wr_user q"
    and "first_submission W now gid q p db db'"
  shows "work_well db'"
proof -
  let ?rows = "wd_requests db" and ?rows' = "wd_requests db'"
  have rows: "?rows' = update_rows (submit_hit now gid q) (bump Returned now) ?rows"
    and props: "wd_proposals db' = wd_proposals db @ [p]"
    using assms(4) by (simp_all add: first_submission_def set_request_def)
  then have "requests_evolve id ?rows ?rows'"
    by (auto simp: submit_hit_def intro!: evolve_update request_step_bump edge_return)
  note ev = evolve_well [OF this] evolve_linked [OF this]
  have "\<exists>r \<in> set ?rows. submit_hit now gid q r"
    using assms(4) by (intro row_count_pos_exists [of _ _ 0]) (simp add: first_submission_def)
  then obtain r where r: "r \<in> set ?rows" "submit_hit now gid q r" by blast
  from update_rows_member [OF this(1), of "submit_hit now gid q" "bump Returned now"] r(2)
  have "bump Returned now r \<in> set ?rows'" by (simp add: rows)
  with r(2) assms(2,3) have "\<exists>r \<in> set ?rows'. wr_id r = pp_request p \<and> wr_user r = pp_user p \<and> wr_state r \<noteq> Queued"
    by (intro bexI [of _ "bump Returned now r"]) (simp_all add: bump_def submit_hit_def)
  moreover have "pp_request p \<notin> pp_request ` set (wd_proposals db)" "pp_id p \<notin> pp_id ` set (wd_proposals db)"
    using assms(2,4) by (auto simp: first_submission_def proposal_of_def select_first_None)
  ultimately show ?thesis
    using assms(1) ev(1) ev(2) [of "wd_proposals db"]
    by (simp add: work_well_def props unique_by_append1 linked_append1)
qed

lemma transition_keeps_proposals: "wd_proposals (snd (transition now uid rid n st db)) = wd_proposals db"
  by (simp add: transition_def Let_def set_request_def expire_stale_work_def split: option.split)

lemma create_keeps_proposals: "wd_proposals (snd (create_work_request W now rid uid c db)) = wd_proposals db"
  by (auto simp: create_work_request_def Let_def split: option.split sum.split)

lemma accept_keeps_proposals: "wd_proposals (snd (accept_work_proposal W now uid rid a db)) = wd_proposals db"
  by (auto simp: accept_work_proposal_def accept_first_def Let_def set_request_def
      split: option.split sum.split)

lemma work_apply_proposals:
  "wd_proposals (work_apply W e db) = wd_proposals db
   \<or> (\<exists>uid. e = EraseWork uid)
   \<or> (\<exists>now gid q p. q \<in> set (wd_requests db) \<and> pp_request p = wr_id q \<and> pp_user p = wr_user q
       \<and> first_submission W now gid q p db (work_apply W e db))"
proof (cases e)
  case (Submit now pid gid rid s)
  with submit_proposals [of W now pid gid rid s db] show ?thesis by auto
qed (simp_all add: create_keeps_proposals transition_keeps_proposals accept_keeps_proposals
    cancel_work_request_def reject_work_request_def expire_stale_work_def set_request_def)

lemma work_apply_well:
  assumes "work_well db"
  shows "work_well (work_apply W e db)"
proof -
  consider (erase) uid where "e = EraseWork uid"
    | (same) "\<forall>uid. e \<noteq> EraseWork uid" "wd_proposals (work_apply W e db) = wd_proposals db"
    | (first) now gid q p where "pp_request p = wr_id q" "pp_user p = wr_user q"
        "first_submission W now gid q p db (work_apply W e db)"
    using work_apply_proposals [of W e db] by blast
  then show ?thesis
  proof cases
    case erase
    with assms show ?thesis
      by (simp add: work_well_def erase_requests_well unique_by_delete erase_linked)
  next
    case same
    with work_apply_evolves [of e db W] have "requests_evolve (targets_after e) (wd_requests db) (wd_requests (work_apply W e db))"
      by blast
    from evolve_well [OF this] evolve_linked [OF this, of "wd_proposals db"] same assms show ?thesis
      by (simp add: work_well_def)
  next
    case first
    show ?thesis by (rule first_submission_well [OF assms first])
  qed
qed

subsection \<open>Facts that last\<close>

definition request_lives :: "('c, 'r, 'o) work_request \<Rightarrow> ('v, 'c, 'p, 'r, 'o) work_db \<Rightarrow> bool" where
  "request_lives q db \<longleftrightarrow> (\<exists>r \<in> set (wd_requests db). request_step\<^sup>*\<^sup>* q r)"

definition proposal_stored :: "'p proposal \<Rightarrow> ('v, 'c, 'p, 'r, 'o) work_db \<Rightarrow> bool" where
  "proposal_stored p db \<longleftrightarrow> p \<in> set (wd_proposals db)"

lemma request_steps_same: "request_step\<^sup>*\<^sup>* q r \<Longrightarrow> same_request q r"
  by (induction rule: rtranclp_induct) (auto simp: request_step_def same_request_def dest: targets_follow_trans)

lemma request_steps_edges: "request_step\<^sup>*\<^sup>* q r \<Longrightarrow> work_edge\<^sup>*\<^sup>* (wr_state q) (wr_state r)"
  by (induction rule: rtranclp_induct) (auto simp: request_step_def)

lemma request_steps_revision: "request_step\<^sup>*\<^sup>* q r \<Longrightarrow> wr_revision q \<le> wr_revision r"
  by (induction rule: rtranclp_induct) (auto simp: request_step_def)

lemma request_steps_terminal:
  "request_step\<^sup>*\<^sup>* q r \<Longrightarrow> terminal (wr_state q)
     \<Longrightarrow> wr_state r = wr_state q \<and> wr_revision r = wr_revision q \<and> wr_receipt r = wr_receipt q"
  by (induction rule: rtranclp_induct) (auto simp: request_step_def terminal_stuck)

lemma work_apply_request:
  assumes "request_lives q db" and "\<not> erases (wr_user q) e"
  shows "request_lives q (work_apply W e db)"
proof -
  from assms(1) obtain r where r: "r \<in> set (wd_requests db)" "request_step\<^sup>*\<^sup>* q r"
    by (auto simp: request_lives_def)
  show ?thesis
  proof (cases "\<exists>uid. e = EraseWork uid")
    case True
    with r assms(2) request_steps_same [OF r(2)] show ?thesis
      by (auto simp: request_lives_def same_request_def)
  next
    case False
    with work_apply_evolves [of e db W] have "requests_evolve (targets_after e) (wd_requests db) (wd_requests (work_apply W e db))"
      by blast
    from evolve_step [OF this r(1)] obtain r' where "r' \<in> set (wd_requests (work_apply W e db))"
      "request_step r r'" .
    with rtranclp.rtrancl_into_rtrancl [OF r(2)] show ?thesis unfolding request_lives_def by blast
  qed
qed

text \<open>A request keeps all its targets while no deletion names one of them.\<close>

definition targets_live :: "('c, 'r, 'o) work_request \<Rightarrow> ('v, 'c, 'p, 'r, 'o) work_db \<Rightarrow> bool" where
  "targets_live q db \<longleftrightarrow> (\<exists>r \<in> set (wd_requests db). request_step\<^sup>*\<^sup>* q r \<and> wr_targets r = wr_targets q)"

lemma work_apply_targets:
  assumes "targets_live q db" and "\<not> erases (wr_user q) e" and "\<not> forgets (wr_targets q) e"
  shows "targets_live q (work_apply W e db)"
proof -
  from assms(1) obtain r where r: "r \<in> set (wd_requests db)" "request_step\<^sup>*\<^sup>* q r" "wr_targets r = wr_targets q"
    by (auto simp: targets_live_def)
  show ?thesis
  proof (cases "\<exists>uid. e = EraseWork uid")
    case True
    with r assms(2) request_steps_same [OF r(2)] show ?thesis
      by (auto simp: targets_live_def same_request_def)
  next
    case False
    with work_apply_evolves [of e db W]
    have "requests_evolve (targets_after e) (wd_requests db) (wd_requests (work_apply W e db))" by blast
    from evolve_step [OF this r(1)] obtain r' where "r' \<in> set (wd_requests (work_apply W e db))"
      "request_step r r'" "wr_targets r' = targets_after e (wr_targets r)" .
    with rtranclp.rtrancl_into_rtrancl [OF r(2)] r(3) assms(3) show ?thesis
      unfolding targets_live_def by (auto simp: forgets_def)
  qed
qed

lemma work_apply_stored:
  assumes "proposal_stored p db" and "\<not> erases (pp_user p) e"
  shows "proposal_stored p (work_apply W e db)"
proof -
  consider "wd_proposals (work_apply W e db) = wd_proposals db" | uid where "e = EraseWork uid"
    | now gid q p' where "first_submission W now gid q p' db (work_apply W e db)"
    using work_apply_proposals [of W e db] by blast
  then show ?thesis using assms by cases (auto simp: proposal_stored_def first_submission_def)
qed

interpretation live_request: lasting_fact work_well request_lives "work_apply W" "\<lambda>q e. \<not> erases (wr_user q) e"
  for W :: "('v, 'c, 'p, 'r, 'o) work_env"
  by unfold_locales (auto intro: work_apply_well work_apply_request)

interpretation live_targets: lasting_fact work_well targets_live "work_apply W"
    "\<lambda>q e. \<not> erases (wr_user q) e \<and> \<not> forgets (wr_targets q) e"
  for W :: "('v, 'c, 'p, 'r, 'o) work_env"
  by unfold_locales (auto intro: work_apply_well work_apply_targets)

interpretation kept_proposal: lasting_fact work_well proposal_stored "work_apply W" "\<lambda>p e. \<not> erases (pp_user p) e"
  for W :: "('v, 'c, 'p, 'r, 'o) work_env"
  by unfold_locales (auto intro: work_apply_well work_apply_stored)

lemma work_run_well: "work_well db \<Longrightarrow> work_well (work_run W es db)"
  unfolding work_run_def by (rule live_request.good_run)

subsection \<open>What follows an acceptance\<close>

lemma work_run_request:
  assumes "work_well db" and "q \<in> set (wd_requests db)" and "\<forall>e \<in> set es. \<not> erases (wr_user q) e"
  obtains r where "r \<in> set (wd_requests (work_run W es db))" "request_step\<^sup>*\<^sup>* q r" "request_well r"
proof -
  have "request_lives q db" using assms(2) by (auto simp: request_lives_def)
  from live_request.lasts [OF assms(1) this assms(3), of W] work_run_well [OF assms(1), of W es] that
  show thesis by (auto simp: request_lives_def work_run_def work_well_def requests_well_def)
qed

lemma work_run_targets:
  assumes "work_well db" and "q \<in> set (wd_requests db)"
    and "\<forall>e \<in> set es. \<not> erases (wr_user q) e \<and> \<not> forgets (wr_targets q) e"
    and "r \<in> set (wd_requests (work_run W es db))" and "wr_id r = wr_id q"
  shows "wr_targets r = wr_targets q"
proof -
  have "targets_live q db" using assms(2) by (auto simp: targets_live_def)
  from live_targets.lasts [OF assms(1) this assms(3), of W] obtain s where
    s: "s \<in> set (wd_requests (work_run W es db))" "request_step\<^sup>*\<^sup>* q s" "wr_targets s = wr_targets q"
    by (auto simp: targets_live_def work_run_def)
  have "wr_id s = wr_id q" using request_steps_same [OF s(2)] by (simp add: same_request_def)
  then have "s = r"
    using work_run_well [OF assms(1), of W es] s(1) assms(4,5)
    by (auto simp: work_well_def requests_well_def intro: unique_byD)
  with s(3) show ?thesis by simp
qed

lemma request_well_revision: "request_well r \<Longrightarrow> 1 \<le> wr_revision r \<and> wr_revision r \<le> 3"
  by (cases "wr_state r") (auto simp: request_well_def)

lemma accepted_row:
  assumes "accept_work_proposal W now uid rid a db = (Inr rc, db')"
  obtains r where "r \<in> set (wd_requests db')" "wr_id r = rid" "wr_user r = uid" "wr_state r = Accepted"
    "wr_receipt r = Some rc"
proof (rule accept_facts [OF assms], elim disjE conjE)
  fix q
  assume q: "wr_id q = rid" "wr_user q = uid" and f: "first_acceptance W now uid a q rc db db'"
  have rows: "wd_requests db' = update_rows (accept_hit now uid (ac_revision a) q)
      (accept_row now (ac_revision a) rc) (wd_requests db)"
    using f by (auto simp: first_acceptance_def set_request_def)
  have "\<exists>r \<in> set (wd_requests db). accept_hit now uid (ac_revision a) q r"
    using f by (intro row_count_pos_exists [of _ _ 0]) (simp add: first_acceptance_def)
  then obtain r where r: "r \<in> set (wd_requests db)" "accept_hit now uid (ac_revision a) q r" by blast
  from update_rows_member [OF this(1), of "accept_hit now uid (ac_revision a) q" "accept_row now (ac_revision a) rc"] r(2)
  have "accept_row now (ac_revision a) rc r \<in> set (wd_requests db')" by (simp add: rows)
  from that [OF this] r(2) q show thesis by (simp add: accept_row_def accept_hit_def)
next
  fix q
  assume "q \<in> set (wd_requests db)" "wr_id q = rid" "wr_user q = uid" "was_accepted q" "wr_receipt q = Some rc" "db' = db"
  then show thesis using that [of q] by (simp add: was_accepted_def)
qed

text \<open>An accepted request keeps its receipt, and accepting it again only replays that receipt.\<close>

lemma accept_again:
  assumes "work_well db" and "r \<in> set (wd_requests db)" and "wr_state r = Accepted" and "wr_receipt r = Some rc"
  shows "snd (accept_work_proposal W now uid (wr_id r) a db) = db
    \<and> (\<forall>rc'. fst (accept_work_proposal W now uid (wr_id r) a db) = Inr rc' \<longrightarrow> rc' = rc)"
proof -
  obtain res db' where res: "accept_work_proposal W now uid (wr_id r) a db = (res, db')" by fastforce
  show ?thesis
  proof (cases res)
    case (Inl e)
    with res accept_refused [of W now uid "wr_id r" a db e db'] show ?thesis by simp
  next
    case (Inr rc')
    with res have ok: "accept_work_proposal W now uid (wr_id r) a db = (Inr rc', db')" by simp
    have only: "q = r" if "q \<in> set (wd_requests db)" "wr_id q = wr_id r" for q
      using assms(1,2) that by (auto simp: work_well_def requests_well_def intro: unique_byD)
    show ?thesis
    proof (rule accept_facts [OF ok])
      fix q
      assume "wr_id q = wr_id r" "q \<in> set (wd_requests db)"
        and cases: "(was_accepted q \<and> wr_receipt q = Some rc' \<and> replay_acceptance W a q rc' db = Inr rc' \<and> db' = db)
          \<or> (\<not> was_accepted q \<and> first_acceptance W now uid a q rc' db db')"
      then have "q = r" by (intro only)
      with cases assms(3,4) res Inr show ?thesis by (auto simp: was_accepted_def)
    qed
  qed
qed

lemma submitted_stored:
  assumes "submit_proposal W now pid gid rid s db = (Inr rc, db')"
  obtains p q payload where "proposal_stored p db'" "pp_request p = rid" "pp_id p = pc_proposal rc"
    "pp_digest p = pc_digest rc" "q \<in> set (wd_requests db)" "wr_id q = rid" "wr_grant q = Some gid"
    "we_validate W (wr_targets q) (wr_context q) (sb_result s) = Inr payload" "we_payload_digest W payload = pc_digest rc"
proof (rule submit_facts [OF assms], elim disjE exE conjE)
  fix q payload p
  assume q: "bound_request now gid rid (Some ''proposals:write'') db = Inr q"
    "we_validate W (wr_targets q) (wr_context q) (sb_result s) = Inr payload" "pp_digest p = we_payload_digest W payload"
    and p: "proposal_of rid (wd_proposals db) = Some p" and rc: "rc = receipt_of p (wr_state q)"
    and same: "db' = db"
  from p have "p \<in> set (wd_proposals db) \<and> pp_request p = rid"
    unfolding proposal_of_def by (rule select_first_Some)
  with q bound_request_facts [OF q(1)] show thesis
    by (intro that [of p q payload]) (simp_all add: proposal_stored_def rc same receipt_of_def)
next
  fix q payload
  let ?p = "new_proposal W now pid gid s q payload"
  assume q: "bound_request now gid rid (Some ''proposals:write'') db = Inr q"
    "we_validate W (wr_targets q) (wr_context q) (sb_result s) = Inr payload"
    and rc: "rc = receipt_of ?p Returned" and f: "first_submission W now gid q ?p db db'"
  have "proposal_stored ?p db'" using f by (simp add: first_submission_def proposal_stored_def)
  moreover have "pp_request ?p = rid" using bound_request_facts(2) [OF q(1)] by (simp add: new_proposal_def)
  ultimately show thesis using q(2) bound_request_facts [OF q(1)]
    by (intro that [of ?p q payload]) (simp_all add: rc receipt_of_def new_proposal_def)
qed

lemma only_proposal:
  assumes "work_well db" and "proposal_stored p db"
  shows "proposal_of (pp_request p) (wd_proposals db) = Some p"
  unfolding proposal_of_def
  by (rule select_first_unique) (use assms in \<open>simp_all add: work_well_def proposal_stored_def\<close>)

definition never_erased :: "('v, 'p, 'r) work_event list \<Rightarrow> bool" where
  "never_erased es \<longleftrightarrow> (\<forall>e \<in> set es. \<forall>uid. \<not> erases uid e)"

lemma run_keeps_proposal:
  assumes "work_well db" and "proposal_stored p db" and "never_erased es"
  shows "proposal_of (pp_request p) (wd_proposals (work_run W es db)) = Some p"
proof -
  have "proposal_stored p (work_run W es db)"
    using kept_proposal.lasts [OF assms(1,2), of es W] assms(3) by (simp add: never_erased_def work_run_def)
  then show ?thesis by (rule only_proposal [OF work_run_well [OF assms(1)]])
qed

lemma proposal_payload_facts:
  assumes "proposal_payload W q p = Inr payload"
  shows "we_payload_digest W payload = pp_digest p"
    "\<exists>raw. we_parse W (pp_payload p) = Some raw \<and> we_validate W (wr_targets q) (wr_context q) raw = Inr payload"
  using assms by (auto simp: proposal_payload_def split: option.splits sum.splits if_splits)

lemma require_grant_facts:
  assumes "require_grant now users grants gid (Some scope) (Some uid) = Inr g"
  shows "g \<in> set grants \<and> gid = Some (gr_id g) \<and> gr_user g = uid \<and> grant_live now g
    \<and> scope \<in> set (scope_set g) \<and> vault_ready uid users"
  using assms by (auto simp: require_grant_def grant_live_def split: option.splits if_splits dest!: select_first_Some)

subsection \<open>Properties\<close>

text \<open>C14: The tables of requests and proposals refine the abstract life of a request. Whatever events
  follow (submissions, acceptances, cancellations, expiry sweeps, revoked grants, edits of the vault), a
  request whose owner is not erased is still there, with the same kind, instruction, context, inputs and expiry; it
  has the same targets, of which it forgets a job, an application or a resume only when it was
  deleted; its state has moved along the edges of the machine, its revision never goes back and never
  passes three, a terminal request keeps its state, revision and receipt, and a request carries a receipt
  exactly when it is accepted.\<close>

theorem work_requests_refine_lifecycle:
  assumes "work_well db" and "q \<in> set (wd_requests db)" and "\<forall>e \<in> set es. \<not> erases (wr_user q) e"
  shows "\<exists>r \<in> set (wd_requests (work_run W es db)). same_request q r
    \<and> ((\<forall>e \<in> set es. \<not> forgets (wr_targets q) e) \<longrightarrow> wr_targets r = wr_targets q)
    \<and> work_edge\<^sup>*\<^sup>* (wr_state q) (wr_state r)
    \<and> wr_revision q \<le> wr_revision r \<and> wr_revision r \<le> 3
    \<and> (terminal (wr_state q) \<longrightarrow> wr_state r = wr_state q \<and> wr_revision r = wr_revision q \<and> wr_receipt r = wr_receipt q)
    \<and> (wr_receipt r \<noteq> None \<longleftrightarrow> wr_state r = Accepted)"
proof -
  obtain r where r: "r \<in> set (wd_requests (work_run W es db))" "request_step\<^sup>*\<^sup>* q r" "request_well r"
    by (rule work_run_request [OF assms])
  note path = request_steps_same [OF r(2)] request_steps_edges [OF r(2)] request_steps_revision [OF r(2)]
    request_steps_terminal [OF r(2)] request_well_revision [OF r(3)]
  have "wr_targets r = wr_targets q" if "\<forall>e \<in> set es. \<not> forgets (wr_targets q) e"
    by (rule work_run_targets [OF assms(1,2) _ r(1)]) (use assms(3) that path(1) in \<open>simp_all add: same_request_def\<close>)
  with path r(1,3) show ?thesis unfolding request_well_def by blast
qed

text \<open>C16: An acceptance writes the vault at most once. After a successful acceptance and any later
  history in which the owner is not erased, accepting the request again changes nothing at all, and if it
  succeeds it returns the receipt of the first acceptance.\<close>

theorem acceptance_writes_once:
  assumes "work_well db" and "accept_work_proposal W now uid rid a db = (Inr rc, db1)"
    and "\<forall>e \<in> set es. \<not> erases uid e" and "db2 = work_run W es db1"
  shows "snd (accept_work_proposal W later who rid b db2) = db2
    \<and> (\<forall>rc'. fst (accept_work_proposal W later who rid b db2) = Inr rc' \<longrightarrow> rc' = rc)"
proof -
  have well: "work_well db1"
    using work_apply_well [OF assms(1), of W "Accept now uid rid a"] assms(2) by simp
  obtain q where q: "q \<in> set (wd_requests db1)" "wr_id q = rid" "wr_user q = uid"
      "wr_state q = Accepted" "wr_receipt q = Some rc"
    by (rule accepted_row [OF assms(2)])
  with assms(3) obtain r where r: "r \<in> set (wd_requests db2)" "request_step\<^sup>*\<^sup>* q r"
    unfolding assms(4) by (blast elim: work_run_request [OF well q(1), of es W])
  have "terminal (wr_state q)" by (simp add: terminal_def q)
  from request_steps_terminal [OF r(2) this] request_steps_same [OF r(2)] q
  have "wr_state r = Accepted" "wr_receipt r = Some rc" "wr_id r = rid" by (simp_all add: same_request_def)
  with accept_again [OF work_run_well [OF well, of W es], of r rc W later who b] r(1) assms(4) show ?thesis by simp
qed

text \<open>C15: What an agent submitted is what the vault receives. If a submission was receipted and, after
  any history without an erasure, an acceptance of that request changes anything, then the request is a
  row of its owner, the grant that this row names is live and carries the scope to write proposals, the receipt
  names the submitted proposal, which is the stored proposal of the request, and the write of the vault was made
  from its payload, parsed and validated again; this payload has the digest of what the submission
  was validated to and, where digests do not collide, is the same payload.\<close>

theorem accepted_is_what_was_submitted:
  assumes "work_well db" and "submit_proposal W now pid gid rid s db = (Inr rc, db1)"
    and "never_erased es" and "db2 = work_run W es db1"
    and "accept_work_proposal W later uid rid a db2 = (Inr ac, db3)" and "db3 \<noteq> db2"
  shows "rt_proposal ac = pc_proposal rc
    \<and> (\<exists>q \<in> set (wd_requests db2). \<exists>p \<in> set (wd_proposals db2). \<exists>payload.
        wr_id q = rid \<and> wr_user q = uid \<and> pp_request p = rid \<and> pp_id p = pc_proposal rc
        \<and> (\<exists>g \<in> set (wd_grants db2). wr_grant q = Some (gr_id g) \<and> gr_user g = uid \<and> grant_live later g
            \<and> ''proposals:write'' \<in> set (scope_set g))
        \<and> (\<exists>raw. we_parse W (pp_payload p) = Some raw \<and> we_validate W (wr_targets q) (wr_context q) raw = Inr payload)
        \<and> we_write W (wd_vault db2) q p payload later = Inr (wd_vault db3, rt_outcome ac)
        \<and> (\<exists>q0 \<in> set (wd_requests db). \<exists>submitted. wr_id q0 = rid \<and> wr_grant q0 = Some gid
            \<and> we_validate W (wr_targets q0) (wr_context q0) (sb_result s) = Inr submitted
            \<and> we_payload_digest W payload = we_payload_digest W submitted
            \<and> (inj (we_payload_digest W) \<longrightarrow> payload = submitted)))"
proof -
  have well: "work_well db1"
    using work_apply_well [OF assms(1), of W "Submit now pid gid rid s"] assms(2) by simp
  obtain p q0 submitted where p: "proposal_stored p db1" "pp_request p = rid" "pp_id p = pc_proposal rc" "pp_digest p = pc_digest rc"
    and q0: "q0 \<in> set (wd_requests db)" "wr_id q0 = rid" "wr_grant q0 = Some gid"
      "we_validate W (wr_targets q0) (wr_context q0) (sb_result s) = Inr submitted" "we_payload_digest W submitted = pc_digest rc"
    by (rule submitted_stored [OF assms(2)])
  have found: "proposal_of rid (wd_proposals db2) = Some p"
    using run_keeps_proposal [OF well p(1) assms(3), of W] p(2) assms(4) by simp
  then have stored: "p \<in> set (wd_proposals db2)" by (auto simp: proposal_of_def dest: select_first_Some)
  show ?thesis
  proof (rule accept_facts [OF assms(5)])
    fix q g
    assume q: "wr_id q = rid" "wr_user q = uid" "q \<in> set (wd_requests db2)"
      and g: "require_grant later (wd_users db2) (wd_grants db2) (wr_grant q)
        (Some ''proposals:write'') (Some uid) = Inr g"
      and "(was_accepted q \<and> wr_receipt q = Some ac \<and> replay_acceptance W a q ac db2 = Inr ac \<and> db3 = db2)
        \<or> (\<not> was_accepted q \<and> first_acceptance W later uid a q ac db2 db3)"
    with assms(6) have "first_acceptance W later uid a q ac db2 db3" by blast
    with found q(1) obtain payload where
      w: "proposal_payload W q p = Inr payload" "rt_proposal ac = pp_id p"
        "we_write W (wd_vault db2) q p payload later = Inr (wd_vault db3, rt_outcome ac)"
      by (auto simp: first_acceptance_def)
    note pl = proposal_payload_facts [OF w(1)] and g = require_grant_facts [OF g]
    have digest: "we_payload_digest W payload = we_payload_digest W submitted" using pl(1) p(4) q0(5) by simp
    then have "inj (we_payload_digest W) \<longrightarrow> payload = submitted" by (auto dest: injD)
    with digest q0 have "\<exists>q0 \<in> set (wd_requests db). \<exists>submitted. wr_id q0 = rid \<and> wr_grant q0 = Some gid
            \<and> we_validate W (wr_targets q0) (wr_context q0) (sb_result s) = Inr submitted
            \<and> we_payload_digest W payload = we_payload_digest W submitted
            \<and> (inj (we_payload_digest W) \<longrightarrow> payload = submitted)" by blast
    moreover have "\<exists>g \<in> set (wd_grants db2). wr_grant q = Some (gr_id g) \<and> gr_user g = uid \<and> grant_live later g
            \<and> ''proposals:write'' \<in> set (scope_set g)" using g by blast
    ultimately show ?thesis
      using w p(2,3) q stored pl(2)
      by (intro conjI, simp) (rule bexI [OF _ q(3)], rule bexI [OF _ stored], rule exI [of _ payload], simp)
  qed
qed

text \<open>A request takes one proposal. After a receipted submission and any history without an erasure,
  a further submission to the same request never changes anything: it is refused, or (when key and digest
  are those of the stored proposal) it returns the same proposal again.\<close>

lemma one_proposal_per_request:
  assumes "work_well db" and "submit_proposal W now pid gid rid s db = (Inr rc, db1)"
    and "never_erased es" and "db2 = work_run W es db1"
  shows "snd (submit_proposal W later pid' gid' rid s' db2) = db2
    \<and> (\<forall>rc'. fst (submit_proposal W later pid' gid' rid s' db2) = Inr rc' \<longrightarrow>
          pc_proposal rc' = pc_proposal rc \<and> pc_digest rc' = pc_digest rc)"
proof -
  have well: "work_well db1"
    using work_apply_well [OF assms(1), of W "Submit now pid gid rid s"] assms(2) by simp
  obtain p where p: "proposal_stored p db1" "pp_request p = rid" "pp_id p = pc_proposal rc" "pp_digest p = pc_digest rc"
    by (rule submitted_stored [OF assms(2)]) blast
  have found: "proposal_of rid (wd_proposals db2) = Some p"
    using run_keeps_proposal [OF well p(1) assms(3), of W] p(2) assms(4) by simp
  obtain res db3 where res: "submit_proposal W later pid' gid' rid s' db2 = (res, db3)" by fastforce
  show ?thesis
  proof (cases res)
    case (Inl e)
    with res submit_refused [of W later pid' gid' rid s' db2 e db3] show ?thesis by simp
  next
    case (Inr rc')
    with res have ok: "submit_proposal W later pid' gid' rid s' db2 = (Inr rc', db3)" by simp
    show ?thesis
    proof (rule submit_facts [OF ok], elim disjE exE conjE)
      fix q p'
      assume "proposal_of rid (wd_proposals db2) = Some p'" "rc' = receipt_of p' (wr_state q)" "db3 = db2"
      with found p res Inr show ?thesis by (simp add: receipt_of_def)
    next
      fix q payload
      assume "bound_request later gid' rid (Some ''proposals:write'') db2 = Inr q"
        and "first_submission W later gid' q (new_proposal W later pid' gid' s' q payload) db2 db3"
      with found show ?thesis using bound_request_facts(2) by (fastforce simp: first_submission_def)
    qed
  qed
qed

subsection \<open>A concrete life\<close>

definition demo_work_env :: "(int, unit, int, nat, unit) work_env" where
  "demo_work_env = \<lparr>we_build = (\<lambda>v uid rid gid t. Inr ((), ''d'', 0)), we_owns_job = (\<lambda>v uid j. True),
     we_owns_application = (\<lambda>v uid a. True), we_owns_resume = (\<lambda>v uid r. True),
     we_resume_preset = (\<lambda>v r. None), we_validate = (\<lambda>t c p. Inr p), we_parse = Some,
     we_payload_digest = (\<lambda>p. if p = 7 then ''seven'' else ''other''),
     we_write = (\<lambda>v q p x now. Inr (v + x, ()))\<rparr>"

definition demo_grant :: grant where
  "demo_grant = \<lparr>gr_id = ''g1'', gr_user = 1, gr_label = ''cli'', gr_digest = ''k'',
     gr_scopes = Some [''context:read'', ''proposals:write''], gr_expires = 604800000000, gr_revoked = None,
     gr_created = 0\<rparr>"

definition demo_targets :: work_targets where
  "demo_targets = \<lparr>wt_kind = Discover, wt_instruction = ''find'', wt_job = None, wt_application = None,
     wt_resume = None, wt_preset = None, wt_facts = None\<rparr>"

definition demo_start :: "(int, unit, int, nat, unit) work_db" where
  "demo_start = \<lparr>wd_users = [\<lparr>us_id = 1, us_username = ''ada'', us_vault = Ready, us_fingerprint = None\<rparr>],
     wd_grants = [demo_grant], wd_requests = [], wd_proposals = [], wd_vault = 0\<rparr>"

definition demo_create :: "(int, int, nat) work_event" where
  "demo_create = CreateWork 0 ''r1'' 1 \<lparr>wc_grant = ''g1'', wc_targets = demo_targets, wc_lifetime_hours = 24\<rparr>"

definition demo_submission :: "int submission" where
  "demo_submission = \<lparr>sb_request = ''r1'', sb_digest = ''d'', sb_key = ''key'', sb_result = 7\<rparr>"

definition demo_accept :: "nat acceptance" where
  "demo_accept = \<lparr>ac_revision = 2, ac_targets = 0\<rparr>"

definition demo_queued :: "(int, unit, int, nat, unit) work_db" where
  "demo_queued = work_apply demo_work_env demo_create demo_start"

definition demo_returned :: "(int, unit, int, nat, unit) work_db" where
  "demo_returned = snd (submit_proposal demo_work_env 10 ''p1'' ''g1'' ''r1'' demo_submission demo_queued)"

definition demo_accepted :: "(int, unit, int, nat, unit) work_db" where
  "demo_accepted = snd (accept_work_proposal demo_work_env 20 1 ''r1'' demo_accept demo_returned)"

lemma demo_well: "work_well demo_start" "work_well demo_queued" "work_well demo_returned"
proof -
  show start: "work_well demo_start"
    by (simp add: work_well_def requests_well_def unique_by_def linked_def demo_start_def)
  show queued: "work_well demo_queued"
    unfolding demo_queued_def by (rule work_apply_well [OF start])
  show "work_well demo_returned"
    using work_apply_well [OF queued, of demo_work_env "Submit 10 ''p1'' ''g1'' ''r1'' demo_submission"]
    by (simp add: demo_returned_def)
qed

lemma demo_submitted:
  "\<exists>rc. submit_proposal demo_work_env 10 ''p1'' ''g1'' ''r1'' demo_submission demo_queued = (Inr rc, demo_returned)
    \<and> pc_proposal rc = ''p1'' \<and> pc_digest rc = ''seven''"
proof -
  have "case fst (submit_proposal demo_work_env 10 ''p1'' ''g1'' ''r1'' demo_submission demo_queued) of
      Inl _ \<Rightarrow> False | Inr rc \<Rightarrow> pc_proposal rc = ''p1'' \<and> pc_digest rc = ''seven''" by code_simp
  then show ?thesis by (auto simp: demo_returned_def prod_eq_iff split: sum.splits)
qed

lemma demo_acceptance:
  "\<exists>rc. accept_work_proposal demo_work_env 20 1 ''r1'' demo_accept demo_returned = (Inr rc, demo_accepted)
    \<and> rt_proposal rc = ''p1'' \<and> wd_vault demo_returned = 0 \<and> wd_vault demo_accepted = 7"
proof -
  have "(case fst (accept_work_proposal demo_work_env 20 1 ''r1'' demo_accept demo_returned) of
      Inl _ \<Rightarrow> False | Inr rc \<Rightarrow> rt_proposal rc = ''p1'') \<and> wd_vault demo_returned = 0 \<and> wd_vault demo_accepted = 7"
    by code_simp
  then show ?thesis by (auto simp: demo_accepted_def prod_eq_iff split: sum.splits)
qed

theorem work_requests_refine_lifecycle_witness:
  "\<exists>q. wd_requests demo_queued = [q] \<and> wr_state q = Queued
    \<and> (\<exists>r \<in> set (wd_requests (work_run demo_work_env [Submit 10 ''p1'' ''g1'' ''r1'' demo_submission, Accept 20 1 ''r1'' demo_accept]
          demo_queued)). same_request q r \<and> wr_revision r \<le> 3)"
proof -
  have "map wr_state (wd_requests demo_queued) = [Queued]" "map wr_user (wd_requests demo_queued) = [1]"
    by code_simp+
  then obtain q where q: "wd_requests demo_queued = [q]" "wr_state q = Queued" "wr_user q = 1" by auto
  then have "q \<in> set (wd_requests demo_queued)" by simp
  from work_requests_refine_lifecycle [OF demo_well(2) this,
      of "[Submit 10 ''p1'' ''g1'' ''r1'' demo_submission, Accept 20 1 ''r1'' demo_accept]" demo_work_env] q
  show ?thesis by auto
qed

theorem acceptance_writes_once_witness:
  "wd_vault demo_accepted = 7
    \<and> snd (accept_work_proposal demo_work_env 30 1 ''r1'' demo_accept (work_run demo_work_env [CancelWork 25 1 ''r1'' 3] demo_accepted))
        = work_run demo_work_env [CancelWork 25 1 ''r1'' 3] demo_accepted"
proof -
  obtain rc where rc: "accept_work_proposal demo_work_env 20 1 ''r1'' demo_accept demo_returned = (Inr rc, demo_accepted)"
    "wd_vault demo_accepted = 7" using demo_acceptance by blast
  from acceptance_writes_once [OF demo_well(3) rc(1), of "[CancelWork 25 1 ''r1'' 3]"] rc(2) show ?thesis by simp
qed

theorem accepted_is_what_was_submitted_witness:
  "\<exists>ac. accept_work_proposal demo_work_env 20 1 ''r1'' demo_accept demo_returned = (Inr ac, demo_accepted)
    \<and> rt_proposal ac = ''p1'' \<and> wd_vault demo_accepted = 7"
proof -
  obtain rc where rc: "submit_proposal demo_work_env 10 ''p1'' ''g1'' ''r1'' demo_submission demo_queued = (Inr rc, demo_returned)"
    "pc_proposal rc = ''p1''" using demo_submitted by blast
  obtain ac where ac: "accept_work_proposal demo_work_env 20 1 ''r1'' demo_accept demo_returned = (Inr ac, demo_accepted)"
    "wd_vault demo_returned = 0" "wd_vault demo_accepted = 7" using demo_acceptance by blast
  then have "demo_accepted \<noteq> demo_returned" by auto
  moreover have "never_erased ([] :: (int, int, nat) work_event list)" by (simp add: never_erased_def)
  moreover have "demo_returned = work_run demo_work_env [] demo_returned" by (simp add: work_run_def)
  ultimately show ?thesis
    using accepted_is_what_was_submitted [OF demo_well(2) rc(1), of "[]" demo_returned 20 1 demo_accept ac demo_accepted]
      ac rc(2) by auto
qed

theorem one_proposal_per_request_witness:
  "snd (submit_proposal demo_work_env 40 ''p2'' ''g1'' ''r1'' (demo_submission\<lparr>sb_result := 8\<rparr>)
      (work_run demo_work_env [Accept 20 1 ''r1'' demo_accept] demo_returned))
    = work_run demo_work_env [Accept 20 1 ''r1'' demo_accept] demo_returned"
proof -
  obtain rc where rc: "submit_proposal demo_work_env 10 ''p1'' ''g1'' ''r1'' demo_submission demo_queued = (Inr rc, demo_returned)"
    using demo_submitted by blast
  have "never_erased [Accept 20 1 ''r1'' demo_accept :: (int, int, nat) work_event]" by (simp add: never_erased_def)
  from one_proposal_per_request [OF demo_well(2) rc this refl] show ?thesis by blast
qed

end
