(* ===== verification/CrashIO.thy ===== *)
theory CrashIO
  imports Main
begin

text \<open>
  Programs that write durable storage step by step, with everything that may go
  wrong between two steps. Each durable step meets a fate: it works, it fails
  without effect, it takes effect and still reports a failure (a rename that
  succeeded before its \<open>fsync\<close> failed, a commit whose acknowledgement was lost), or
  the process dies before it. A triple says what holds when a program returns,
  when it raises and when it dies, so crash safety is a postcondition.
\<close>

datatype fate = Works | Faults | Lost | Dies

datatype ('e, 'a) io_result = Died | Failed 'e | Done 'a

type_synonym 'd world = "'d \<times> fate list"
type_synonym ('d, 'e, 'a) io = "'d world \<Rightarrow> ('e, 'a) io_result \<times> 'd world"

subsection \<open>Programs\<close>

definition io_return :: "'a \<Rightarrow> ('d, 'e, 'a) io" where
  "io_return x s = (Done x, s)"

definition io_fail :: "'e \<Rightarrow> ('d, 'e, 'a) io" where
  "io_fail e s = (Failed e, s)"

definition io_bind :: "('d, 'e, 'a) io \<Rightarrow> ('a \<Rightarrow> ('d, 'e, 'b) io) \<Rightarrow> ('d, 'e, 'b) io" where
  "io_bind m f s = (case m s of
      (Done x, t) \<Rightarrow> f x t
    | (Failed e, t) \<Rightarrow> (Failed e, t)
    | (Died, t) \<Rightarrow> (Died, t))"

definition io_then :: "('d, 'e, unit) io \<Rightarrow> ('d, 'e, 'b) io \<Rightarrow> ('d, 'e, 'b) io" where
  "io_then m n = io_bind m (\<lambda>_. n)"

definition io_catch :: "('d, 'e, 'a) io \<Rightarrow> ('e \<Rightarrow> ('d, 'f, 'a) io) \<Rightarrow> ('d, 'f, 'a) io" where
  "io_catch m h s = (case m s of
      (Done x, t) \<Rightarrow> (Done x, t)
    | (Failed e, t) \<Rightarrow> h e t
    | (Died, t) \<Rightarrow> (Died, t))"

definition io_read :: "('d \<Rightarrow> 'a) \<Rightarrow> ('d, 'e, 'a) io" where
  "io_read g s = (Done (g (fst s)), s)"

fun meet_fate :: "'e \<Rightarrow> ('d \<Rightarrow> 'd) \<Rightarrow> 'd \<Rightarrow> fate list \<Rightarrow> ('e, unit) io_result \<times> 'd world" where
  "meet_fate e f d [] = (Done (), f d, [])"
| "meet_fate e f d (Works # fs) = (Done (), f d, fs)"
| "meet_fate e f d (Faults # fs) = (Failed e, d, fs)"
| "meet_fate e f d (Lost # fs) = (Failed e, f d, fs)"
| "meet_fate e f d (Dies # fs) = (Died, d, fs)"

definition durable :: "'e \<Rightarrow> ('d \<Rightarrow> 'd) \<Rightarrow> ('d, 'e, unit) io" where
  "durable e f s = meet_fate e f (fst s) (snd s)"

fun io_each :: "('a \<Rightarrow> ('d, 'e, unit) io) \<Rightarrow> 'a list \<Rightarrow> ('d, 'e, unit) io" where
  "io_each f [] = io_return ()"
| "io_each f (x # xs) = io_then (f x) (io_each f xs)"

subsection \<open>Crash triples\<close>

text \<open>
  \<open>triple P m Q R X\<close>: from a world that satisfies \<open>P\<close>, a normal result satisfies
  \<open>Q\<close>, a raised error \<open>R\<close>, and the disk that a dying process leaves satisfies \<open>X\<close>.
\<close>

definition triple ::
  "('d world \<Rightarrow> bool) \<Rightarrow> ('d, 'e, 'a) io \<Rightarrow> ('a \<Rightarrow> 'd world \<Rightarrow> bool) \<Rightarrow> ('e \<Rightarrow> 'd world \<Rightarrow> bool)
     \<Rightarrow> ('d world \<Rightarrow> bool) \<Rightarrow> bool" where
  "triple P m Q R X \<longleftrightarrow> (\<forall>s. P s \<longrightarrow> (case m s of
      (Done x, t) \<Rightarrow> Q x t | (Failed e, t) \<Rightarrow> R e t | (Died, t) \<Rightarrow> X t))"

named_theorems crash_rules \<open>rules of the crash logic\<close>

lemma tripleI:
  "(\<And>s. P s \<Longrightarrow> (case m s of (Done x, t) \<Rightarrow> Q x t | (Failed e, t) \<Rightarrow> R e t | (Died, t) \<Rightarrow> X t)) \<Longrightarrow> triple P m Q R X"
  by (simp add: triple_def)

lemma tripleD:
  "triple P m Q R X \<Longrightarrow> P s \<Longrightarrow> (case m s of (Done x, t) \<Rightarrow> Q x t | (Failed e, t) \<Rightarrow> R e t | (Died, t) \<Rightarrow> X t)"
  unfolding triple_def by (drule spec [of _ s]) (rule mp)

lemma triple_Done: "triple P m Q R X \<Longrightarrow> P s \<Longrightarrow> m s = (Done x, t) \<Longrightarrow> Q x t"
  unfolding triple_def by (drule spec [of _ s]) simp

lemma triple_Failed: "triple P m Q R X \<Longrightarrow> P s \<Longrightarrow> m s = (Failed e, t) \<Longrightarrow> R e t"
  unfolding triple_def by (drule spec [of _ s]) simp

lemma triple_Died: "triple P m Q R X \<Longrightarrow> P s \<Longrightarrow> m s = (Died, t) \<Longrightarrow> X t"
  unfolding triple_def by (drule spec [of _ s]) simp

lemma triple_pre: "(\<And>s. P s \<Longrightarrow> P' s) \<Longrightarrow> triple P' m Q R X \<Longrightarrow> triple P m Q R X"
  by (auto simp: triple_def)

lemma triple_weaken:
  assumes "triple P' m Q' R' X'" and "\<And>s. P s \<Longrightarrow> P' s" and "\<And>x s. Q' x s \<Longrightarrow> Q x s"
    and "\<And>e s. R' e s \<Longrightarrow> R e s" and "\<And>s. X' s \<Longrightarrow> X s"
  shows "triple P m Q R X"
proof (rule tripleI)
  fix s
  assume "P s"
  with assms(2) have "P' s" .
  obtain r t where rt: "m s = (r, t)" by (cases "m s" rule: prod.exhaust)
  note facts = triple_Done [OF assms(1) \<open>P' s\<close>] triple_Failed [OF assms(1) \<open>P' s\<close>] triple_Died [OF assms(1) \<open>P' s\<close>]
  show "case m s of (Done x, t) \<Rightarrow> Q x t | (Failed e, t) \<Rightarrow> R e t | (Died, t) \<Rightarrow> X t"
    using rt facts by (cases r) (simp_all add: assms(3-5))
qed

lemma triple_return [crash_rules]: "triple (\<lambda>s. Q x s) (io_return x) Q R X"
  by (simp add: triple_def io_return_def)

lemma triple_fail [crash_rules]: "triple (\<lambda>s. R e s) (io_fail e) Q R X"
  by (simp add: triple_def io_fail_def)

lemma triple_read [crash_rules]: "triple (\<lambda>s. Q (g (fst s)) s) (io_read g) Q R X"
  by (simp add: triple_def io_read_def)

lemma triple_bind [crash_rules]:
  assumes "triple P m M R X" and "\<And>x. triple (M x) (f x) Q R X"
  shows "triple P (io_bind m f) Q R X"
proof (rule tripleI)
  fix s
  assume P: "P s"
  show "case io_bind m f s of (Done x, t) \<Rightarrow> Q x t | (Failed e, t) \<Rightarrow> R e t | (Died, t) \<Rightarrow> X t"
  proof (cases "m s" rule: prod.exhaust)
    case (Pair r t)
    show ?thesis
    proof (cases r)
      case (Done x)
      with Pair triple_Done [OF assms(1) P] have "M x t" by simp
      from tripleD [OF assms(2) this] Pair Done show ?thesis by (simp add: io_bind_def)
    qed (use Pair triple_Failed [OF assms(1) P] triple_Died [OF assms(1) P] in \<open>simp_all add: io_bind_def\<close>)
  qed
qed

lemma triple_then [crash_rules]:
  assumes "triple P m (\<lambda>_. M) R X" and "triple M n Q R X"
  shows "triple P (io_then m n) Q R X"
  unfolding io_then_def by (rule triple_bind [OF assms(1)]) (rule assms(2))

lemma triple_catch [crash_rules]:
  assumes "triple P m Q M X" and "\<And>e. triple (M e) (h e) Q R X"
  shows "triple P (io_catch m h) Q R X"
proof (rule tripleI)
  fix s
  assume P: "P s"
  show "case io_catch m h s of (Done x, t) \<Rightarrow> Q x t | (Failed e, t) \<Rightarrow> R e t | (Died, t) \<Rightarrow> X t"
  proof (cases "m s" rule: prod.exhaust)
    case (Pair r t)
    show ?thesis
    proof (cases r)
      case (Failed e)
      with Pair triple_Failed [OF assms(1) P] have "M e t" by simp
      from tripleD [OF assms(2) this] Pair Failed show ?thesis by (simp add: io_catch_def)
    qed (use Pair triple_Done [OF assms(1) P] triple_Died [OF assms(1) P] in \<open>simp_all add: io_catch_def\<close>)
  qed
qed

lemma triple_if:
  "(b \<Longrightarrow> triple P m Q R X) \<Longrightarrow> (\<not> b \<Longrightarrow> triple P n Q R X) \<Longrightarrow> triple P (if b then m else n) Q R X"
  by simp

text \<open>A durable step whatever its fate, and a durable step on healthy storage.\<close>

lemma triple_durable:
  assumes "\<And>d. P d \<Longrightarrow> X d" and "\<And>d. P d \<Longrightarrow> Q (f d)" and "\<And>d. P d \<Longrightarrow> R d" and "\<And>d. P d \<Longrightarrow> R (f d)"
  shows "triple (\<lambda>s. P (fst s)) (durable e f) (\<lambda>_ s. Q (fst s)) (\<lambda>e' s. e' = e \<and> R (fst s)) (\<lambda>s. X (fst s))"
proof (rule tripleI)
  fix s :: "'a world"
  assume "P (fst s)"
  moreover obtain d fs where "s = (d, fs)" by (cases s)
  ultimately show "case durable e f s of (Done x, t) \<Rightarrow> Q (fst t) | (Failed e', t) \<Rightarrow> e' = e \<and> R (fst t) | (Died, t) \<Rightarrow> X (fst t)"
    by (cases "(e, f, d, fs)" rule: meet_fate.cases) (simp_all add: durable_def assms)
qed

lemma triple_durable_healthy:
  "triple (\<lambda>s. snd s = [] \<and> Q (f (fst s))) (durable e f) (\<lambda>_ s. snd s = [] \<and> Q (fst s)) R X"
  by (auto simp: triple_def durable_def)

lemma triple_each:
  assumes "\<And>x. x \<in> set xs \<Longrightarrow> triple I (f x) (\<lambda>_. I) R X"
  shows "triple I (io_each f xs) (\<lambda>_. I) R X"
  using assms
proof (induction xs)
  case Nil
  then show ?case by (simp add: triple_return [of "\<lambda>_. I" "()", simplified])
next
  case (Cons x xs)
  then show ?case by (auto intro: triple_then)
qed

subsection \<open>Crash-safe programs\<close>

text \<open>
  The common case, over the disk alone. \<open>safe h P m Q I\<close>: a normal result
  satisfies \<open>Q\<close>, and the disk after an error and after a death satisfies \<open>I\<close>; on
  healthy storage (\<open>h\<close>, no fate is left to meet) the program returns. One proof of a
  program for both values of \<open>h\<close> gives its crash safety and its termination.
\<close>

definition safe :: "bool \<Rightarrow> ('d \<Rightarrow> bool) \<Rightarrow> ('d, 'e, 'a) io \<Rightarrow> ('a \<Rightarrow> 'd \<Rightarrow> bool) \<Rightarrow> ('d \<Rightarrow> bool) \<Rightarrow> bool" where
  "safe h P m Q I \<longleftrightarrow> triple (\<lambda>s. P (fst s) \<and> (h \<longrightarrow> snd s = [])) m (\<lambda>x s. Q x (fst s) \<and> (h \<longrightarrow> snd s = []))
     (\<lambda>_ s. \<not> h \<and> I (fst s)) (\<lambda>s. \<not> h \<and> I (fst s))"

lemma safe_step:
  assumes "\<And>d. P d \<Longrightarrow> I d" and "\<And>d. P d \<Longrightarrow> Q (f d)" and "\<And>d. P d \<Longrightarrow> I (f d)"
  shows "safe h P (durable e f) (\<lambda>_. Q) I"
  unfolding safe_def
proof (rule tripleI)
  fix s :: "'a world"
  assume s: "P (fst s) \<and> (h \<longrightarrow> snd s = [])"
  obtain d fs where "s = (d, fs)" by (cases s)
  with s show "case durable e f s of (Done x, t) \<Rightarrow> Q (fst t) \<and> (h \<longrightarrow> snd t = [])
      | (Failed e', t) \<Rightarrow> \<not> h \<and> I (fst t) | (Died, t) \<Rightarrow> \<not> h \<and> I (fst t)"
    by (cases "(e, f, d, fs)" rule: meet_fate.cases) (auto simp: durable_def assms)
qed

lemma safe_return: "(\<And>d. P d \<Longrightarrow> Q x d) \<Longrightarrow> safe h P (io_return x) Q I"
  by (simp add: safe_def triple_def io_return_def)

lemma safe_fail: "(\<And>d. P d \<Longrightarrow> \<not> h \<and> I d) \<Longrightarrow> safe h P (io_fail e) Q I"
  by (auto simp: safe_def triple_def io_fail_def)

lemma safe_bind: "safe h P m M I \<Longrightarrow> (\<And>x. safe h (M x) (f x) Q I) \<Longrightarrow> safe h P (io_bind m f) Q I"
  unfolding safe_def by (rule triple_bind)

lemma safe_then: "safe h P m (\<lambda>_. M) I \<Longrightarrow> safe h M n Q I \<Longrightarrow> safe h P (io_then m n) Q I"
  unfolding safe_def by (rule triple_then)

lemma safe_read_bind: "(\<And>x. safe h (\<lambda>d. P d \<and> g d = x) (f x) Q I) \<Longrightarrow> safe h P (io_bind (io_read g) f) Q I"
  by (rule safe_bind [where M = "\<lambda>x d. P d \<and> g d = x"]) (simp_all add: safe_def triple_def io_read_def)

lemma safe_weaken:
  assumes "safe h P' m Q' I'" and "\<And>d. P d \<Longrightarrow> P' d" and "\<And>x d. Q' x d \<Longrightarrow> Q x d" and "\<And>d. I' d \<Longrightarrow> I d"
  shows "safe h P m Q I"
  using assms(1) unfolding safe_def by (rule triple_weaken) (auto intro: assms(2-4))

lemma safe_pre: "safe h P' m Q I \<Longrightarrow> (\<And>d. P d \<Longrightarrow> P' d) \<Longrightarrow> safe h P m Q I"
  by (erule safe_weaken) auto

lemma safe_empty: "(\<And>d. \<not> P d) \<Longrightarrow> safe h P m Q I"
  by (simp add: safe_def triple_def)

lemma safe_cases:
  assumes "safe h (\<lambda>d. P d \<and> b d) m Q I" and "safe h (\<lambda>d. P d \<and> \<not> b d) m Q I"
  shows "safe h P m Q I"
  unfolding safe_def
proof (rule tripleI)
  fix s :: "'a world"
  assume s: "P (fst s) \<and> (h \<longrightarrow> snd s = [])"
  note facts = assms [unfolded safe_def, THEN tripleD, of s]
  show "case m s of (Done x, t) \<Rightarrow> Q x (fst t) \<and> (h \<longrightarrow> snd t = [])
      | (Failed e, t) \<Rightarrow> \<not> h \<and> I (fst t) | (Died, t) \<Rightarrow> \<not> h \<and> I (fst t)"
    using s facts by (cases "b (fst s)") simp_all
qed

lemma safe_unhealthy: "(\<not> h \<Longrightarrow> safe h P m Q I) \<Longrightarrow> safe h (\<lambda>d. \<not> h \<and> P d) m Q I"
  by (cases h) (auto simp: safe_def triple_def)

lemma safe_catch:
  assumes "safe h P m Q M" and "\<And>e. \<not> h \<Longrightarrow> safe h M (k e) Q I" and "\<And>d. M d \<Longrightarrow> I d"
  shows "safe h P (io_catch m k) Q I"
proof -
  have body: "triple (\<lambda>s. P (fst s) \<and> (h \<longrightarrow> snd s = [])) m (\<lambda>x s. Q x (fst s) \<and> (h \<longrightarrow> snd s = []))
      (\<lambda>_ s. \<not> h \<and> M (fst s)) (\<lambda>s. \<not> h \<and> I (fst s))"
    using assms(1) unfolding safe_def by (rule triple_weaken) (use assms(3) in auto)
  have handler: "triple (\<lambda>s. \<not> h \<and> M (fst s)) (k e) (\<lambda>x s. Q x (fst s) \<and> (h \<longrightarrow> snd s = []))
      (\<lambda>_ s. \<not> h \<and> I (fst s)) (\<lambda>s. \<not> h \<and> I (fst s))" for e
    using assms(2) [of e] by (cases h) (auto simp: safe_def triple_def)
  show ?thesis unfolding safe_def by (rule triple_catch [OF body handler])
qed

text \<open>What the two readings of \<open>safe\<close> say of a run.\<close>

lemma safe_run:
  assumes "safe False P m Q I" and "P d" and "m (d, fs) = (r, d', fs')"
  shows "(case r of Done x \<Rightarrow> Q x d' | Failed e \<Rightarrow> I d' | Died \<Rightarrow> I d')"
  using tripleD [OF assms(1) [unfolded safe_def], of "(d, fs)"] assms(2,3) by (cases r) auto

lemma safe_healthy:
  assumes "safe True P m Q I" and "P d"
  shows "\<exists>x d'. m (d, []) = (Done x, d', []) \<and> Q x d'"
proof (cases "m (d, [])" rule: prod.exhaust)
  case (Pair r t)
  then show ?thesis
    using tripleD [OF assms(1) [unfolded safe_def], of "(d, [])"] assms(2) by (cases r; cases t) auto
qed

text \<open>A program that handles every error itself.\<close>

definition quiet :: "('d \<Rightarrow> bool) \<Rightarrow> ('d, 'e, 'a) io \<Rightarrow> ('a \<Rightarrow> 'd \<Rightarrow> bool) \<Rightarrow> ('d \<Rightarrow> bool) \<Rightarrow> bool" where
  "quiet P m Q I \<longleftrightarrow> triple (\<lambda>s. P (fst s)) m (\<lambda>x s. Q x (fst s)) (\<lambda>_ _. False) (\<lambda>s. I (fst s))"

lemma quiet_return: "(\<And>d. P d \<Longrightarrow> Q x d) \<Longrightarrow> quiet P (io_return x) Q I"
  by (simp add: quiet_def triple_def io_return_def)

lemma quiet_bind: "quiet P m M I \<Longrightarrow> (\<And>x. quiet (M x) (f x) Q I) \<Longrightarrow> quiet P (io_bind m f) Q I"
  unfolding quiet_def by (rule triple_bind)

lemma quiet_read_bind: "(\<And>x. quiet (\<lambda>d. P d \<and> g d = x) (f x) Q I) \<Longrightarrow> quiet P (io_bind (io_read g) f) Q I"
  by (rule quiet_bind [where M = "\<lambda>x d. P d \<and> g d = x"]) (simp_all add: quiet_def triple_def io_read_def)

lemma quiet_pre: "quiet P' m Q I \<Longrightarrow> (\<And>d. P d \<Longrightarrow> P' d) \<Longrightarrow> quiet P m Q I"
  unfolding quiet_def by (erule triple_weaken) auto

lemma quiet_weaken:
  assumes "quiet P' m Q' I'" and "\<And>d. P d \<Longrightarrow> P' d" and "\<And>x d. Q' x d \<Longrightarrow> Q x d" and "\<And>d. I' d \<Longrightarrow> I d"
  shows "quiet P m Q I"
  using assms(1) unfolding quiet_def by (rule triple_weaken) (auto intro: assms(2-4))

lemma quiet_empty: "(\<And>d. \<not> P d) \<Longrightarrow> quiet P m Q I"
  by (simp add: quiet_def triple_def)

lemma quiet_catch:
  assumes "safe False P m Q M" and "\<And>e. quiet M (k e) Q I" and "\<And>d. M d \<Longrightarrow> I d"
  shows "quiet P (io_catch m k) Q I"
  unfolding quiet_def
proof (rule triple_catch)
  show "triple (\<lambda>s. P (fst s)) m (\<lambda>x s. Q x (fst s)) (\<lambda>_ s. M (fst s)) (\<lambda>s. I (fst s))"
    using assms(1) unfolding safe_def by (rule triple_weaken) (auto intro: assms(3))
qed (use assms(2) in \<open>simp add: quiet_def\<close>)

lemma quiet_run:
  assumes "quiet P m Q I" and "P d" and "m (d, fs) = (r, d', fs')"
  shows "(case r of Done x \<Rightarrow> Q x d' | Failed e \<Rightarrow> False | Died \<Rightarrow> I d')"
  using tripleD [OF assms(1) [unfolded quiet_def], of "(d, fs)"] assms(2,3) by (cases r) auto

lemma triple_quiet_bind:
  assumes "quiet P m M X" and "\<And>x. triple (\<lambda>s. M x (fst s)) (f x) Q R (\<lambda>s. X (fst s))"
  shows "triple (\<lambda>s. P (fst s)) (io_bind m f) Q R (\<lambda>s. X (fst s))"
proof (rule triple_bind [OF _ assms(2)])
  show "triple (\<lambda>s. P (fst s)) m (\<lambda>x s. M x (fst s)) R (\<lambda>s. X (fst s))"
    using assms(1) unfolding quiet_def by (rule triple_weaken) auto
qed

end
