(* ===== verification/RestoreJournal.thy ===== *)
theory RestoreJournal
  imports CrashIO "HOL-Library.Char_ord" "HOL-Library.List_Lexorder"
begin

text \<open>
  The restart-durable journal of a restore (\<open>portability/journal.py\<close>) and the
  restore transaction that relies on it (\<open>portability/restore.py\<close>). The disk of one
  account is the managed files, the two copies of the journal, the bytes left in
  the private staging directory, and whether the restore transaction of the
  database is committed. Every durable step meets a fate (\<open>CrashIO\<close>). Checksums,
  digests, the check that a path resolves inside the data directory and the files
  to which other accounts are bound are parameters (\<open>restore_env\<close>).
\<close>

subsection \<open>The journal\<close>

record journal_payload =
  jp_version :: int
  jp_generation :: int
  jp_user :: int
  jp_fingerprint :: string
  jp_paths :: "string list"

record restore_journal =
  rj_payload :: journal_payload
  rj_checksum :: string

datatype journal_copy = NoCopy | Damaged | Stored restore_journal

record disk =
  dk_files :: "string \<Rightarrow> string option"
  dk_primary :: journal_copy
  dk_backup :: journal_copy
  dk_staged :: "string list"
  dk_committed :: bool

datatype sweep = SweepPrimary | SweepBackup | SweepStaging

record restore_env =
  re_user :: int
  re_checksum :: "journal_payload \<Rightarrow> string"
  re_sha :: "string \<Rightarrow> string"
  re_contained :: "string \<Rightarrow> bool"  \<comment> \<open>no link on the way, and inside the data directory\<close>
  re_packet :: "string \<Rightarrow> bool"  \<comment> \<open>the canonical path of a packet artifact\<close>
  re_members :: nat
  re_foreign :: "string \<Rightarrow> bool"  \<comment> \<open>another account is bound to this file\<close>
  re_sweep :: "sweep list"  \<comment> \<open>the order in which a directory is removed\<close>

datatype restore_error =
    JournalError
  | ContentConflict
  | StorageFailed
  | RowsRejected
  | VaultNotEmpty
  | CleanupPending
  | RolledBack restore_error

type_synonym 'a rio = "(disk, restore_error, 'a) io"

fun split_slash :: "string \<Rightarrow> string list" where
  "split_slash [] = [[]]"
| "split_slash (c # cs) =
     (if c = CHR ''/'' then [] # split_slash cs
      else (case split_slash cs of [] \<Rightarrow> [[c]] | part # parts \<Rightarrow> (c # part) # parts))"

definition is_letter :: "char \<Rightarrow> bool" where
  "is_letter c \<longleftrightarrow> (let n = of_char c :: nat in (65 \<le> n \<and> n \<le> 90) \<or> (97 \<le> n \<and> n \<le> 122))"

definition drive_path :: "string \<Rightarrow> bool" where
  "drive_path p = (case p of c # d # _ \<Rightarrow> is_letter c \<and> d = CHR '':'' | _ \<Rightarrow> False)"

definition resolvable :: "restore_env \<Rightarrow> string \<Rightarrow> bool" where
  "resolvable E p \<longleftrightarrow> p \<noteq> [] \<and> CHR 0x00 \<notin> set p \<and> CHR 0x5C \<notin> set p
     \<and> hd p \<noteq> CHR ''/'' \<and> \<not> drive_path p
     \<and> list_all (\<lambda>part. part \<noteq> [] \<and> part \<noteq> ''.'' \<and> part \<noteq> ''..'') (split_slash p)
     \<and> re_contained E p"

definition has_prefix :: "string \<Rightarrow> string \<Rightarrow> bool" where
  "has_prefix pre s \<longleftrightarrow> take (length pre) s = pre"

definition normalized_paths :: "restore_env \<Rightarrow> string list \<Rightarrow> string list option" where
  "normalized_paths E paths =
     (if re_members E < length paths \<or> list_ex (\<lambda>p. p = [] \<or> 1024 < length p) paths then None
      else let normalized = sort (remdups paths) in
        if list_all (\<lambda>p. (has_prefix ''assets/'' p \<or> has_prefix ''resumes/'' p
             \<or> has_prefix ''applications/'' p \<and> re_packet E p) \<and> resolvable E p) normalized
        then Some normalized else None)"

definition hex_digit :: "char \<Rightarrow> bool" where
  "hex_digit c \<longleftrightarrow> c \<in> set ''0123456789abcdef''"

definition with_checksum :: "restore_env \<Rightarrow> journal_payload \<Rightarrow> restore_journal" where
  "with_checksum E p = \<lparr>rj_payload = p, rj_checksum = re_checksum E p\<rparr>"

definition decode_journal :: "restore_env \<Rightarrow> restore_journal \<Rightarrow> restore_journal option" where
  "decode_journal E raw =
     (let p = rj_payload raw in
      if jp_version p \<noteq> 1 \<or> jp_generation p < 1 \<or> jp_user p \<noteq> re_user E
         \<or> length (jp_fingerprint p) \<noteq> 64 \<or> \<not> list_all hex_digit (jp_fingerprint p)
      then None
      else (case normalized_paths E (jp_paths p) of
        None \<Rightarrow> None
      | Some paths \<Rightarrow>
          let q = p\<lparr>jp_paths := paths\<rparr> in
          if rj_checksum raw \<noteq> re_checksum E q then None
          else Some \<lparr>rj_payload = q, rj_checksum = rj_checksum raw\<rparr>))"

fun read_copy :: "restore_env \<Rightarrow> journal_copy \<Rightarrow> restore_journal option" where
  "read_copy E NoCopy = None"
| "read_copy E Damaged = None"
| "read_copy E (Stored raw) = decode_journal E raw"

abbreviation "rj_generation j \<equiv> jp_generation (rj_payload j)"
abbreviation "rj_paths j \<equiv> jp_paths (rj_payload j)"
abbreviation "rj_fingerprint j \<equiv> jp_fingerprint (rj_payload j)"

text \<open>\<open>Inl\<close> when the reader raises, \<open>Inr None\<close> when there is no journal.\<close>

definition read_restore_journal :: "restore_env \<Rightarrow> disk \<Rightarrow> unit + restore_journal option" where
  "read_restore_journal E d =
     (case (read_copy E (dk_primary d), read_copy E (dk_backup d)) of
        (Some primary, Some backup) \<Rightarrow>
          if primary = backup then Inr (Some primary)
          else if rj_fingerprint primary \<noteq> rj_fingerprint backup
             \<or> jp_user (rj_payload primary) \<noteq> jp_user (rj_payload backup)
             \<or> rj_generation primary = rj_generation backup then Inl ()
          else (let newer = (if rj_generation primary > rj_generation backup then primary else backup);
                    older = (if rj_generation primary > rj_generation backup then backup else primary) in
                if set (rj_paths older) \<subseteq> set (rj_paths newer) then Inr (Some newer) else Inl ())
      | (Some primary, None) \<Rightarrow> Inr (Some primary)
      | (None, Some backup) \<Rightarrow> Inr (Some backup)
      | (None, None) \<Rightarrow> if dk_primary d = NoCopy \<and> dk_backup d = NoCopy then Inr None else Inl ())"

subsection \<open>Writing and removing the journal\<close>

definition set_primary :: "journal_copy \<Rightarrow> disk \<Rightarrow> disk" where
  "set_primary c d = d\<lparr>dk_primary := c\<rparr>"

definition set_backup :: "journal_copy \<Rightarrow> disk \<Rightarrow> disk" where
  "set_backup c d = d\<lparr>dk_backup := c\<rparr>"

definition set_staged :: "string list \<Rightarrow> disk \<Rightarrow> disk" where
  "set_staged bs d = d\<lparr>dk_staged := bs\<rparr>"

definition read_or_raise :: "restore_env \<Rightarrow> restore_journal option rio" where
  "read_or_raise E = io_bind (io_read (read_restore_journal E))
     (\<lambda>r. case r of Inl _ \<Rightarrow> io_fail JournalError | Inr j \<Rightarrow> io_return j)"

text \<open>\<open>shutil.rmtree\<close> removes one entry after the other.\<close>

definition drop_staged :: "disk \<Rightarrow> disk" where
  "drop_staged d = d\<lparr>dk_staged := tl (dk_staged d)\<rparr>"

definition clear_staging :: "unit rio" where
  "clear_staging = io_bind (io_read (\<lambda>d. dk_staged d))
     (\<lambda>bs. io_each (\<lambda>_. durable JournalError drop_staged) bs)"

definition missing_paths :: "string list \<Rightarrow> disk \<Rightarrow> string list" where
  "missing_paths paths d = filter (\<lambda>p. dk_files d p = None) paths"

definition write_journal :: "restore_env \<Rightarrow> journal_payload \<Rightarrow> unit rio" where
  "write_journal E p =
     io_then (durable JournalError (\<lambda>d. d))
     (io_then (durable JournalError (set_primary (Stored (with_checksum E p))))
       (durable JournalError (set_backup (Stored (with_checksum E p)))))"

definition extend_journal :: "restore_env \<Rightarrow> string \<Rightarrow> string list \<Rightarrow> restore_journal \<Rightarrow> unit rio" where
  "extend_journal E fingerprint archive j =
     (if rj_fingerprint j \<noteq> fingerprint \<or> \<not> set (rj_paths j) \<subseteq> set archive then io_fail JournalError
      else io_bind (io_read (missing_paths archive)) (\<lambda>missing.
        io_then clear_staging
          (write_journal E ((rj_payload j)\<lparr>jp_generation := rj_generation j + 1,
             jp_paths := sort (remdups (rj_paths j @ missing))\<rparr>))))"

definition start_journal :: "restore_env \<Rightarrow> string \<Rightarrow> string list \<Rightarrow> unit rio" where
  "start_journal E fingerprint archive =
     io_bind (io_read (missing_paths archive)) (\<lambda>created.
       if created = [] then io_return ()
       else (case normalized_paths E created of
          None \<Rightarrow> io_fail JournalError
        | Some created' \<Rightarrow>
            write_journal E \<lparr>jp_version = 1, jp_generation = 1, jp_user = re_user E,
              jp_fingerprint = fingerprint, jp_paths = created'\<rparr>))"

definition prepare_restore_journal :: "restore_env \<Rightarrow> string \<Rightarrow> string list \<Rightarrow> unit rio" where
  "prepare_restore_journal E fingerprint paths =
     (case normalized_paths E paths of
        None \<Rightarrow> io_fail JournalError
      | Some archive \<Rightarrow>
          io_bind (read_or_raise E) (\<lambda>existing. case existing of
             Some j \<Rightarrow> extend_journal E fingerprint archive j
           | None \<Rightarrow> start_journal E fingerprint archive))"

fun sweep_step :: "sweep \<Rightarrow> unit rio" where
  "sweep_step SweepPrimary = durable JournalError (set_primary NoCopy)"
| "sweep_step SweepBackup = durable JournalError (set_backup NoCopy)"
| "sweep_step SweepStaging = clear_staging"

definition clear_restore_journal :: "restore_env \<Rightarrow> unit rio" where
  "clear_restore_journal E = io_each sweep_step (re_sweep E)"

subsection \<open>Publishing one file\<close>

definition same_content :: "restore_env \<Rightarrow> string \<Rightarrow> string \<Rightarrow> bool" where
  "same_content E existing data \<longleftrightarrow> length existing = length data \<and> re_sha E existing = re_sha E data"

definition stage_bytes :: "string \<Rightarrow> disk \<Rightarrow> disk" where
  "stage_bytes data d = d\<lparr>dk_staged := data # dk_staged d\<rparr>"

definition publish_file :: "string \<Rightarrow> string \<Rightarrow> disk \<Rightarrow> disk" where
  "publish_file p data d = d\<lparr>dk_files := (dk_files d)(p \<mapsto> data), dk_staged := tl (dk_staged d)\<rparr>"

text \<open>
  When the replacement fails, the staged file is unlinked; after a replacement
  that took effect there is none left to unlink.
\<close>

definition unstage :: "disk \<Rightarrow> disk \<Rightarrow> disk" where
  "unstage prior d = d\<lparr>dk_staged := dk_staged prior\<rparr>"

definition publish_staged :: "string \<Rightarrow> string \<Rightarrow> unit rio" where
  "publish_staged p data = io_bind (io_read id) (\<lambda>prior.
     io_catch
       (io_then (durable StorageFailed (stage_bytes data)) (durable StorageFailed (publish_file p data)))
       (\<lambda>e. io_then (io_catch (durable StorageFailed (unstage prior)) (\<lambda>_. io_return ())) (io_fail e)))"

definition atomic_restore_write :: "restore_env \<Rightarrow> string \<times> string \<Rightarrow> unit rio" where
  "atomic_restore_write E w = (case w of (p, data) \<Rightarrow>
     io_bind (io_read (\<lambda>d. dk_files d p)) (\<lambda>found.
     (case found of
        Some existing \<Rightarrow> if same_content E existing data then io_return () else io_fail ContentConflict
      | None \<Rightarrow>
          io_bind (read_or_raise E) (\<lambda>journal.
          (case journal of
             None \<Rightarrow> io_fail JournalError
           | Some j \<Rightarrow> if p \<notin> set (rj_paths j) then io_fail JournalError else publish_staged p data)))))"

subsection \<open>The restore transaction\<close>

definition exclusive_journal_paths :: "restore_env \<Rightarrow> restore_journal option \<Rightarrow> string list" where
  "exclusive_journal_paths E j =
     (case j of None \<Rightarrow> [] | Some j \<Rightarrow> filter (\<lambda>p. \<not> re_foreign E p) (rj_paths j))"

definition unlink_file :: "string \<Rightarrow> disk \<Rightarrow> disk" where
  "unlink_file p d = d\<lparr>dk_files := (dk_files d)(p := None)\<rparr>"

text \<open>Every path is tried; the result says whether all of them were removed.\<close>

fun unlink_all :: "string list \<Rightarrow> bool rio" where
  "unlink_all [] = io_return True"
| "unlink_all (p # ps) =
     io_bind (io_catch (io_then (durable StorageFailed (unlink_file p)) (io_return True)) (\<lambda>_. io_return False))
       (\<lambda>ok. io_bind (unlink_all ps) (\<lambda>rest. io_return (ok \<and> rest)))"

definition attempt_quietly :: "unit rio \<Rightarrow> bool rio" where
  "attempt_quietly m = io_catch (io_then m (io_return True)) (\<lambda>_. io_return False)"

definition rollback_failed_restore :: "restore_env \<Rightarrow> restore_error \<Rightarrow> unit rio" where
  "rollback_failed_restore E original =
     io_bind (io_read (read_restore_journal E)) (\<lambda>r.
     io_bind (case r of
         Inl _ \<Rightarrow> io_return False
       | Inr j \<Rightarrow> io_bind (unlink_all (exclusive_journal_paths E j)) (\<lambda>removed.
           if removed then attempt_quietly (clear_restore_journal E) else io_return False)) (\<lambda>clean.
     io_bind (attempt_quietly (durable StorageFailed (\<lambda>d. d))) (\<lambda>sanitized.
       if clean \<and> sanitized then io_fail (RolledBack original) else io_fail CleanupPending)))"

definition commit_rows :: "disk \<Rightarrow> disk" where
  "commit_rows d = d\<lparr>dk_committed := True\<rparr>"

text \<open>\<open>_file_destinations_available\<close>: a destination that does not exist is passed over.\<close>

definition file_destinations_available :: "restore_env \<Rightarrow> (string \<times> string) list \<Rightarrow> disk \<Rightarrow> bool" where
  "file_destinations_available E writes d =
     list_all (\<lambda>(p, data). case dk_files d p of None \<Rightarrow> True | Some existing \<Rightarrow> same_content E existing data) writes"

definition bindings_conflict :: "restore_env \<Rightarrow> (string \<times> string) list \<Rightarrow> bool" where
  "bindings_conflict E writes =
     list_ex (\<lambda>(p, a). list_ex (\<lambda>(q, b). p = q \<and> (re_sha E a, length a) \<noteq> (re_sha E b, length b)) writes) writes"

definition commit_published :: "restore_env \<Rightarrow> string \<Rightarrow> (string \<times> string) list \<Rightarrow> disk \<Rightarrow> bool option" where
  "commit_published E fingerprint writes d =
     (if \<not> dk_committed d then Some False
      else if bindings_conflict E writes \<or> \<not> file_destinations_available E writes d then None
      else (case read_restore_journal E d of
          Inl _ \<Rightarrow> None
        | Inr None \<Rightarrow> Some True
        | Inr (Some j) \<Rightarrow>
            if rj_fingerprint j \<noteq> fingerprint \<or> \<not> set (rj_paths j) \<subseteq> fst ` set writes
            then None else Some True))"

definition finish_commit :: "restore_env \<Rightarrow> unit rio" where
  "finish_commit E = io_catch (clear_restore_journal E) (\<lambda>_. io_return ())"

definition resolve_commit :: "restore_env \<Rightarrow> string \<Rightarrow> (string \<times> string) list \<Rightarrow> restore_error \<Rightarrow> unit rio" where
  "resolve_commit E fingerprint writes original =
     io_bind (io_read (commit_published E fingerprint writes)) (\<lambda>published.
     (case published of
        None \<Rightarrow> io_fail CleanupPending
      | Some True \<Rightarrow> finish_commit E
      | Some False \<Rightarrow> rollback_failed_restore E original))"

datatype progress = Before restore_error | AtCommit restore_error | Committed

text \<open>The body before the commit, then the commit; the handler distinguishes where it failed.\<close>

definition restore_body :: "restore_env \<Rightarrow> string \<Rightarrow> (string \<times> string) list \<Rightarrow> progress rio" where
  "restore_body E fingerprint writes =
     io_catch
       (io_then (durable RowsRejected (\<lambda>d. d))
         (io_then (prepare_restore_journal E fingerprint (map fst writes))
           (io_then (io_each (atomic_restore_write E) writes)
             (io_then (durable RowsRejected (\<lambda>d. d))
               (io_catch (io_then (durable RowsRejected commit_rows) (io_return Committed))
                 (\<lambda>e. io_return (AtCommit e)))))))
       (\<lambda>e. io_return (Before e))"

definition restore_transaction :: "restore_env \<Rightarrow> string \<Rightarrow> (string \<times> string) list \<Rightarrow> unit rio" where
  "restore_transaction E fingerprint writes =
     io_bind (restore_body E fingerprint writes) (\<lambda>p.
     (case p of
        Committed \<Rightarrow> finish_commit E
      | AtCommit e \<Rightarrow> resolve_commit E fingerprint writes e
      | Before e \<Rightarrow> rollback_failed_restore E e))"

definition restore_archive :: "restore_env \<Rightarrow> string \<Rightarrow> (string \<times> string) list \<Rightarrow> unit rio" where
  "restore_archive E fingerprint writes =
     io_bind (io_read dk_committed) (\<lambda>full.
       if full then io_fail VaultNotEmpty else restore_transaction E fingerprint writes)"

end
