(* ===== verification/RestoreRecovery.thy ===== *)
theory RestoreRecovery
  imports RestoreJournal
begin

text \<open>
  The crash logic of a restore: an invariant of the disk that every durable step
  keeps, whatever its fate, and the facts that a return and a rollback add to it.
\<close>

subsection \<open>Normalised paths\<close>

lemma normalized_props:
  assumes "normalized_paths E xs = Some ys"
  shows "ys = sort (remdups xs)" "length ys \<le> re_members E" "distinct ys" "sorted ys" "set ys = set xs"
proof -
  show ys: "ys = sort (remdups xs)"
    using assms by (auto simp: normalized_paths_def Let_def split: if_splits)
  have "length xs \<le> re_members E"
    using assms by (auto simp: normalized_paths_def not_less split: if_splits)
  moreover have "length ys \<le> length xs" by (simp add: ys)
  ultimately show "length ys \<le> re_members E" by simp
  show "distinct ys" "sorted ys" "set ys = set xs" by (simp_all add: ys)
qed

lemma normalized_sub:
  assumes "normalized_paths E xs = Some ys" and "set zs \<subseteq> set ys" and "distinct zs"
  shows "normalized_paths E zs = Some (sort zs)"
proof -
  note ys = normalized_props [OF assms(1)]
  have "length zs = card (set zs)" using assms(3) by (simp add: distinct_card)
  also have "\<dots> \<le> card (set ys)" using assms(2) by (simp add: card_mono)
  also have "\<dots> = length ys" using ys(3) by (simp add: distinct_card)
  finally have len: "length zs \<le> re_members E" using ys(2) by simp
  have "\<forall>p \<in> set ys. p \<noteq> [] \<and> length p \<le> 1024 \<and> (has_prefix ''assets/'' p \<or> has_prefix ''resumes/'' p
      \<or> has_prefix ''applications/'' p \<and> re_packet E p) \<and> resolvable E p"
    using assms(1) ys(5) by (auto simp: normalized_paths_def Let_def list_all_iff list_ex_iff not_less split: if_splits)
  with assms(2) have all: "\<forall>p \<in> set zs. p \<noteq> [] \<and> length p \<le> 1024 \<and> (has_prefix ''assets/'' p \<or> has_prefix ''resumes/'' p
      \<or> has_prefix ''applications/'' p \<and> re_packet E p) \<and> resolvable E p" by blast
  then have "list_all (\<lambda>p. (has_prefix ''assets/'' p \<or> has_prefix ''resumes/'' p
      \<or> has_prefix ''applications/'' p \<and> re_packet E p) \<and> resolvable E p) (sort zs)"
    by (simp add: list_all_iff)
  moreover have "\<not> list_ex (\<lambda>p. p = [] \<or> 1024 < length p) zs"
    using all by (auto simp: list_ex_iff)
  ultimately show ?thesis
    using len assms(3) by (simp add: normalized_paths_def Let_def distinct_remdups_id)
qed

subsection \<open>The invariant\<close>

text \<open>
  What one restore works on: its archive and the files that were on the disk when
  its first attempt began.
\<close>

record restore_job =
  jb_env :: restore_env
  jb_fingerprint :: string
  jb_writes :: "(string \<times> string) list"
  jb_before :: "string \<Rightarrow> string option"

definition job_ok :: "restore_job \<Rightarrow> bool" where
  "job_ok J \<longleftrightarrow> set (re_sweep (jb_env J)) = {SweepPrimary, SweepBackup, SweepStaging}
     \<and> length (jb_fingerprint J) = 64 \<and> list_all hex_digit (jb_fingerprint J)"

definition may_create :: "restore_job \<Rightarrow> string \<Rightarrow> bool" where
  "may_create J p \<longleftrightarrow> p \<in> fst ` set (jb_writes J) \<and> jb_before J p = None"

definition seal :: "restore_job \<Rightarrow> int \<Rightarrow> string list \<Rightarrow> restore_journal" where
  "seal J g ps = with_checksum (jb_env J) \<lparr>jp_version = 1, jp_generation = g, jp_user = re_user (jb_env J),
     jp_fingerprint = jb_fingerprint J, jp_paths = ps\<rparr>"

definition owned_paths :: "restore_job \<Rightarrow> int \<Rightarrow> string list \<Rightarrow> bool" where
  "owned_paths J g ps \<longleftrightarrow> 1 \<le> g \<and> normalized_paths (jb_env J) ps = Some ps
     \<and> (\<forall>p \<in> set ps. may_create J p) \<and> (\<forall>p. may_create J p \<longrightarrow> \<not> re_foreign (jb_env J) p \<longrightarrow> p \<in> set ps)"

definition copy_ok :: "restore_job \<Rightarrow> journal_copy \<Rightarrow> bool" where
  "copy_ok J c \<longleftrightarrow> c = NoCopy \<or> (\<exists>g ps. c = Stored (seal J g ps) \<and> owned_paths J g ps)"

text \<open>The second copy is a copy of the first, or an older one of a smaller set of paths.\<close>

definition copies_ok :: "restore_job \<Rightarrow> disk \<Rightarrow> bool" where
  "copies_ok J d \<longleftrightarrow> copy_ok J (dk_primary d) \<and> copy_ok J (dk_backup d)
     \<and> (dk_primary d = dk_backup d \<or> dk_primary d = NoCopy \<or> dk_backup d = NoCopy
        \<or> (\<exists>g ps h qs. dk_primary d = Stored (seal J g ps) \<and> dk_backup d = Stored (seal J h qs)
             \<and> h < g \<and> set qs \<subseteq> set ps))"

definition no_journal :: "disk \<Rightarrow> bool" where
  "no_journal d \<longleftrightarrow> dk_primary d = NoCopy \<and> dk_backup d = NoCopy"

definition files_ok :: "restore_job \<Rightarrow> disk \<Rightarrow> bool" where
  "files_ok J d \<longleftrightarrow> (\<forall>p. if may_create J p
       then dk_files d p = None \<or> (\<exists>data. (p, data) \<in> set (jb_writes J) \<and> dk_files d p = Some data)
       else dk_files d p = jb_before J p)"

definition none_left :: "restore_job \<Rightarrow> disk \<Rightarrow> bool" where
  "none_left J d \<longleftrightarrow> (\<forall>p. may_create J p \<longrightarrow> \<not> re_foreign (jb_env J) p \<longrightarrow> dk_files d p = None)"

definition pending :: "restore_job \<Rightarrow> disk \<Rightarrow> bool" where
  "pending J d \<longleftrightarrow> \<not> dk_committed d \<and> copies_ok J d \<and> files_ok J d \<and> (no_journal d \<longrightarrow> none_left J d)"

definition written :: "restore_job \<Rightarrow> disk \<Rightarrow> string \<times> string \<Rightarrow> bool" where
  "written J d w \<longleftrightarrow> (\<exists>e. dk_files d (fst w) = Some e \<and> same_content (jb_env J) e (snd w))"

definition complete :: "restore_job \<Rightarrow> disk \<Rightarrow> bool" where
  "complete J d \<longleftrightarrow> dk_committed d \<and> copies_ok J d \<and> files_ok J d \<and> (\<forall>w \<in> set (jb_writes J). written J d w)"

definition clean :: "disk \<Rightarrow> bool" where
  "clean d \<longleftrightarrow> no_journal d \<and> dk_staged d = []"

lemmas pending_simps = pending_def copies_ok_def files_ok_def none_left_def no_journal_def

subsection \<open>Reading the journal\<close>

lemma seal_inject [simp]: "seal J g ps = seal J h qs \<longleftrightarrow> g = h \<and> ps = qs"
  by (auto simp: seal_def with_checksum_def)

lemma seal_fields [simp]:
  "jp_paths (rj_payload (seal J g ps)) = ps" "jp_generation (rj_payload (seal J g ps)) = g"
  "jp_fingerprint (rj_payload (seal J g ps)) = jb_fingerprint J" "jp_user (rj_payload (seal J g ps)) = re_user (jb_env J)"
  by (simp_all add: seal_def with_checksum_def)

lemma decode_seal:
  assumes "job_ok J" and "owned_paths J g ps"
  shows "decode_journal (jb_env J) (seal J g ps) = Some (seal J g ps)"
  using assms by (simp add: decode_journal_def seal_def with_checksum_def job_ok_def owned_paths_def Let_def)

lemma read_copy_ok:
  assumes "job_ok J" and "copy_ok J c"
  shows "(c = NoCopy \<and> read_copy (jb_env J) c = None)
    \<or> (\<exists>g ps. c = Stored (seal J g ps) \<and> owned_paths J g ps \<and> read_copy (jb_env J) c = Some (seal J g ps))"
  using assms by (auto simp: copy_ok_def decode_seal)

text \<open>The generations and paths on the disk, seen from a newer journal.\<close>

definition below :: "restore_job \<Rightarrow> int \<Rightarrow> string list \<Rightarrow> journal_copy \<Rightarrow> bool" where
  "below J g ps c \<longleftrightarrow> c = NoCopy \<or> (\<exists>h qs. c = Stored (seal J h qs) \<and> h \<le> g \<and> set qs \<subseteq> set ps)"

lemma read_journal_ok:
  assumes "job_ok J" and "copies_ok J d"
  shows "(no_journal d \<and> read_restore_journal (jb_env J) d = Inr None)
    \<or> (\<exists>g ps. \<not> no_journal d \<and> read_restore_journal (jb_env J) d = Inr (Some (seal J g ps)) \<and> owned_paths J g ps
         \<and> below J g ps (dk_primary d) \<and> below J g ps (dk_backup d))"
proof -
  have p: "copy_ok J (dk_primary d)" and b: "copy_ok J (dk_backup d)"
    using assms(2) by (simp_all add: copies_ok_def)
  from read_copy_ok [OF assms(1) p] read_copy_ok [OF assms(1) b] assms(2)
  show ?thesis
    by (elim disjE conjE exE)
       (auto simp: read_restore_journal_def no_journal_def copies_ok_def below_def Let_def)
qed

subsection \<open>Staging and the journal\<close>

lemma set_fields [simp]:
  "dk_files (set_primary c d) = dk_files d" "dk_files (set_backup c d) = dk_files d"
  "dk_primary (set_primary c d) = c" "dk_primary (set_backup c d) = dk_primary d"
  "dk_backup (set_backup c d) = c" "dk_backup (set_primary c d) = dk_backup d"
  "dk_committed (set_primary c d) = dk_committed d" "dk_committed (set_backup c d) = dk_committed d"
  "dk_staged (set_primary c d) = dk_staged d" "dk_staged (set_backup c d) = dk_staged d"
  by (simp_all add: set_primary_def set_backup_def)

text \<open>A property of the disk that does not depend on the staged bytes.\<close>

definition stage_free :: "(disk \<Rightarrow> bool) \<Rightarrow> bool" where
  "stage_free I \<longleftrightarrow> (\<forall>d bs. I (d\<lparr>dk_staged := bs\<rparr>) = I d)"

lemma stage_freeD: "stage_free I \<Longrightarrow> I (d\<lparr>dk_staged := bs\<rparr>) = I d"
  by (simp add: stage_free_def)

lemma safe_clear_staging:
  assumes "stage_free I"
  shows "safe h I clear_staging (\<lambda>_ d. I d \<and> dk_staged d = []) I"
proof -
  have loop: "safe h (\<lambda>d. I d \<and> length (dk_staged d) = length bs)
      (io_each (\<lambda>_. durable JournalError drop_staged) bs) (\<lambda>_ d. I d \<and> dk_staged d = []) I" for bs :: "string list"
  proof (induction bs)
    case Nil
    show ?case by (auto intro: safe_return)
  next
    case (Cons b bs)
    show ?case
      unfolding io_each.simps
      by (rule safe_then [OF safe_step Cons]) (auto simp: drop_staged_def stage_freeD [OF assms])
  qed
  show ?thesis
    unfolding clear_staging_def by (rule safe_read_bind) (rule safe_pre [OF loop], simp)
qed

lemma stage_free_pending: "stage_free (pending J)"
  by (simp add: stage_free_def pending_simps)

lemma stage_free_complete: "stage_free (complete J)"
  by (simp add: stage_free_def complete_def copies_ok_def files_ok_def written_def)

definition journaled :: "restore_job \<Rightarrow> int \<Rightarrow> string list \<Rightarrow> disk \<Rightarrow> bool" where
  "journaled J g ps d \<longleftrightarrow> dk_primary d = Stored (seal J g ps) \<and> dk_backup d = Stored (seal J g ps)"

lemma safe_write_journal:
  assumes "owned_paths J g ps"
  shows "safe h (\<lambda>d. pending J d \<and> below J (g - 1) ps (dk_primary d) \<and> below J (g - 1) ps (dk_backup d) \<and> K (dk_files d))
    (write_journal (jb_env J) (rj_payload (seal J g ps)))
    (\<lambda>_ d. pending J d \<and> journaled J g ps d \<and> K (dk_files d)) (pending J)"
proof -
  let ?A = "\<lambda>d. pending J d \<and> below J (g - 1) ps (dk_primary d) \<and> below J (g - 1) ps (dk_backup d) \<and> K (dk_files d)"
  let ?B = "\<lambda>d. pending J d \<and> dk_primary d = Stored (seal J g ps) \<and> below J (g - 1) ps (dk_backup d) \<and> K (dk_files d)"
  let ?C = "\<lambda>d. pending J d \<and> journaled J g ps d \<and> K (dk_files d)"
  have same: "with_checksum (jb_env J) (rj_payload (seal J g ps)) = seal J g ps"
    by (simp add: seal_def with_checksum_def)
  have stored: "copy_ok J (Stored (seal J g ps))" using assms by (auto simp: copy_ok_def)
  have AB: "?B (set_primary (Stored (seal J g ps)) d)" if "?A d" for d
    using that stored by (auto simp: pending_simps below_def)
  have BC: "?C (set_backup (Stored (seal J g ps)) d)" if "?B d" for d
    using that stored by (auto simp: pending_simps journaled_def)
  have 1: "safe h ?A (durable JournalError (\<lambda>d. d)) (\<lambda>_. ?A) (pending J)" by (rule safe_step) blast+
  have 2: "safe h ?A (durable JournalError (set_primary (Stored (seal J g ps)))) (\<lambda>_. ?B) (pending J)"
    by (rule safe_step) (use AB in blast)+
  have 3: "safe h ?B (durable JournalError (set_backup (Stored (seal J g ps)))) (\<lambda>_. ?C) (pending J)"
    by (rule safe_step) (use BC in blast)+
  show ?thesis unfolding write_journal_def same by (rule safe_then [OF 1 safe_then [OF 2 3]])
qed

lemma safe_read_journal:
  assumes "job_ok J" and "\<And>d. P d \<Longrightarrow> copies_ok J d"
    and "safe h (\<lambda>d. P d \<and> no_journal d) (f None) Q I"
    and "\<And>g ps. owned_paths J g ps \<Longrightarrow>
      safe h (\<lambda>d. P d \<and> \<not> no_journal d \<and> below J g ps (dk_primary d) \<and> below J g ps (dk_backup d)
           \<and> read_restore_journal (jb_env J) d = Inr (Some (seal J g ps))) (f (Some (seal J g ps))) Q I"
  shows "safe h P (io_bind (read_or_raise (jb_env J)) f) Q I"
proof (rule safe_bind [where M = "\<lambda>j d. P d \<and> read_restore_journal (jb_env J) d = Inr j"])
  show "safe h P (read_or_raise (jb_env J)) (\<lambda>j d. P d \<and> read_restore_journal (jb_env J) d = Inr j) I"
    unfolding read_or_raise_def
  proof (rule safe_read_bind)
    fix r
    show "safe h (\<lambda>d. P d \<and> read_restore_journal (jb_env J) d = r) (case r of Inl _ \<Rightarrow> io_fail JournalError | Inr j \<Rightarrow> io_return j)
        (\<lambda>j d. P d \<and> read_restore_journal (jb_env J) d = Inr j) I"
    proof (cases r)
      case (Inl e)
      then show ?thesis using read_journal_ok [OF assms(1) assms(2)] by (intro safe_empty) force
    qed (auto intro: safe_return)
  qed
next
  fix j
  show "safe h (\<lambda>d. P d \<and> read_restore_journal (jb_env J) d = Inr j) (f j) Q I"
  proof (cases "\<exists>g ps. j = Some (seal J g ps) \<and> owned_paths J g ps")
    case True
    then obtain g ps where j: "j = Some (seal J g ps)" "owned_paths J g ps" by blast
    have pre: "P d \<and> \<not> no_journal d \<and> below J g ps (dk_primary d) \<and> below J g ps (dk_backup d)
        \<and> read_restore_journal (jb_env J) d = Inr j"
      if "P d \<and> read_restore_journal (jb_env J) d = Inr j" for d
      using read_journal_ok [OF assms(1) assms(2), of d] that j(1) by auto
    show ?thesis by (rule safe_pre [OF assms(4) [OF j(2), folded j(1)]]) (rule pre)
  next
    case False
    have "no_journal d \<and> j = None" if "P d" "read_restore_journal (jb_env J) d = Inr j" for d
      using read_journal_ok [OF assms(1) assms(2) [OF that(1)]] that(2) False by auto
    then show ?thesis using assms(3) by (cases j) (auto intro: safe_pre safe_empty)
  qed
qed

subsection \<open>Preparing the journal\<close>

definition covered :: "restore_job \<Rightarrow> disk \<Rightarrow> bool" where
  "covered J d \<longleftrightarrow> (\<forall>p \<in> fst ` set (jb_writes J). dk_files d p = None \<longrightarrow>
     (\<exists>g ps. journaled J g ps d \<and> owned_paths J g ps \<and> p \<in> set ps))"

lemma missing_may_create:
  assumes "files_ok J d" and "p \<in> fst ` set (jb_writes J)" and "dk_files d p = None"
  shows "may_create J p"
  using assms by (auto simp: files_ok_def may_create_def split: if_splits)

lemma owned_next:
  assumes "normalized_paths (jb_env J) (map fst (jb_writes J)) = Some archive" and "files_ok J d"
    and "\<forall>p \<in> set ps. may_create J p" and "0 \<le> g"
    and "\<forall>p. may_create J p \<longrightarrow> \<not> re_foreign (jb_env J) p \<longrightarrow> p \<in> set ps \<or> dk_files d p = None"
  shows "owned_paths J (g + 1) (sort (remdups (ps @ missing_paths archive d)))"
proof -
  let ?next = "sort (remdups (ps @ missing_paths archive d))"
  have archive: "set archive = fst ` set (jb_writes J)" using normalized_props(5) [OF assms(1)] by simp
  have create: "\<forall>p \<in> set ?next. may_create J p"
    using assms(3) missing_may_create [OF assms(2)] archive by (auto simp: missing_paths_def)
  then have "set ?next \<subseteq> set archive" by (auto simp: archive may_create_def)
  from normalized_sub [OF assms(1) this] have norm: "normalized_paths (jb_env J) ?next = Some ?next"
    by (simp add: sorted_sort_id)
  have "p \<in> set ?next" if "may_create J p" "\<not> re_foreign (jb_env J) p" for p
    using assms(5) that archive by (auto simp: missing_paths_def may_create_def)
  with norm create assms(4) show ?thesis by (auto simp: owned_paths_def)
qed

lemma covered_by:
  assumes "normalized_paths (jb_env J) (map fst (jb_writes J)) = Some archive"
    and "journaled J g ps d" and "owned_paths J g ps" and "set (missing_paths archive d) \<subseteq> set ps"
  shows "covered J d"
  using assms(2-4) normalized_props(5) [OF assms(1)] by (fastforce simp: covered_def missing_paths_def)

lemma safe_start_journal:
  assumes arch: "normalized_paths (jb_env J) (map fst (jb_writes J)) = Some archive"
  shows "safe h (\<lambda>d. pending J d \<and> no_journal d) (start_journal (jb_env J) (jb_fingerprint J) archive)
    (\<lambda>_ d. pending J d \<and> covered J d) (pending J)"
  unfolding start_journal_def
proof (rule safe_read_bind)
  fix created
  let ?P = "\<lambda>d. (pending J d \<and> no_journal d) \<and> missing_paths archive d = created"
  note archive = normalized_props(5) [OF arch]
  show "safe h ?P (if created = [] then io_return () else (case normalized_paths (jb_env J) created of
        None \<Rightarrow> io_fail JournalError
      | Some created' \<Rightarrow> write_journal (jb_env J) \<lparr>jp_version = 1, jp_generation = 1, jp_user = re_user (jb_env J),
          jp_fingerprint = jb_fingerprint J, jp_paths = created'\<rparr>)) (\<lambda>_ d. pending J d \<and> covered J d) (pending J)"
  proof (cases "\<exists>d. ?P d")
    case False
    then show ?thesis by (intro safe_empty) blast
  next
    case True
    then obtain d where d: "pending J d" "no_journal d" "created = missing_paths archive d" by blast
    then have n: "normalized_paths (jb_env J) created = Some (sort created)"
      using normalized_props(3) [OF arch] by (intro normalized_sub [OF arch]) (auto simp: missing_paths_def)
    have o: "owned_paths J 1 (sort created)"
      using owned_next [OF arch, of d "[]" 0] d normalized_props(3) [OF arch]
      by (auto simp: pending_simps missing_paths_def distinct_remdups_id)
    have "safe h ?P (write_journal (jb_env J) (rj_payload (seal J 1 (sort created)))) (\<lambda>_ d. pending J d \<and> covered J d) (pending J)"
    proof (rule safe_weaken [OF safe_write_journal [OF o, where K = "\<lambda>fs. filter (\<lambda>p. fs p = None) archive = created"]])
      fix d
      assume "pending J d \<and> journaled J 1 (sort created) d \<and> filter (\<lambda>p. dk_files d p = None) archive = created"
      then show "pending J d \<and> covered J d"
        using covered_by [OF arch _ o, of d] by (simp add: missing_paths_def)
    qed (auto simp: no_journal_def below_def missing_paths_def)
    then show ?thesis
      by (auto simp: n seal_def with_checksum_def covered_def archive missing_paths_def filter_empty_conv
          intro!: safe_return)
  qed
qed

lemma safe_extend_journal:
  assumes arch: "normalized_paths (jb_env J) (map fst (jb_writes J)) = Some archive" and o: "owned_paths J g ps"
  shows "safe h (\<lambda>d. pending J d \<and> below J g ps (dk_primary d) \<and> below J g ps (dk_backup d))
    (extend_journal (jb_env J) (jb_fingerprint J) archive (seal J g ps))
    (\<lambda>_ d. pending J d \<and> covered J d) (pending J)"
proof -
  note archive = normalized_props(5) [OF arch]
  have sub: "set ps \<subseteq> set archive" using o by (auto simp: owned_paths_def may_create_def archive)
  let ?P = "\<lambda>d. pending J d \<and> below J g ps (dk_primary d) \<and> below J g ps (dk_backup d)"
  have payload: "(rj_payload (seal J g ps))\<lparr>jp_generation := g + 1, jp_paths := next'\<rparr> = rj_payload (seal J (g + 1) next')"
    for next' by (simp add: seal_def with_checksum_def)
  have "safe h ?P (io_bind (io_read (missing_paths archive)) (\<lambda>missing. io_then clear_staging
       (write_journal (jb_env J) (rj_payload (seal J (g + 1) (sort (remdups (ps @ missing))))))))
       (\<lambda>_ d. pending J d \<and> covered J d) (pending J)"
  proof (rule safe_read_bind)
    fix missing
    let ?next = "sort (remdups (ps @ missing))"
    let ?R = "\<lambda>d. ?P d \<and> missing_paths archive d = missing"
    have free: "stage_free ?R" by (simp add: stage_free_def pending_simps missing_paths_def)
    have clear: "safe h ?R clear_staging (\<lambda>_. ?R) (pending J)"
      by (rule safe_weaken [OF safe_clear_staging [OF free]]) auto
    show "safe h ?R (io_then clear_staging (write_journal (jb_env J) (rj_payload (seal J (g + 1) ?next))))
        (\<lambda>_ d. pending J d \<and> covered J d) (pending J)"
    proof (rule safe_then [OF clear], cases "\<exists>d. ?R d")
      case False
      then show "safe h ?R (write_journal (jb_env J) (rj_payload (seal J (g + 1) ?next)))
          (\<lambda>_ d. pending J d \<and> covered J d) (pending J)" by (intro safe_empty) blast
    next
      case True
      then obtain d where d: "?R d" by blast
      then have "files_ok J d" by (simp add: pending_def)
      from owned_next [OF arch this, of ps g] o d have o': "owned_paths J (g + 1) ?next"
        by (simp add: owned_paths_def)
      show "safe h ?R (write_journal (jb_env J) (rj_payload (seal J (g + 1) ?next)))
          (\<lambda>_ d. pending J d \<and> covered J d) (pending J)"
      proof (rule safe_weaken [OF safe_write_journal [OF o', where K = "\<lambda>fs. filter (\<lambda>p. fs p = None) archive = missing"]])
        fix d
        assume "pending J d \<and> journaled J (g + 1) ?next d \<and> filter (\<lambda>p. dk_files d p = None) archive = missing"
        then show "pending J d \<and> covered J d"
          using covered_by [OF arch _ o', of d] by (auto simp: missing_paths_def)
      qed (auto simp: below_def missing_paths_def)
    qed
  qed
  with sub show ?thesis by (simp add: extend_journal_def payload)
qed

lemma safe_prepare:
  assumes "job_ok J" and "h \<Longrightarrow> normalized_paths (jb_env J) (map fst (jb_writes J)) \<noteq> None"
  shows "safe h (pending J) (prepare_restore_journal (jb_env J) (jb_fingerprint J) (map fst (jb_writes J)))
    (\<lambda>_ d. pending J d \<and> covered J d) (pending J)"
proof (cases "normalized_paths (jb_env J) (map fst (jb_writes J))")
  case None
  with assms(2) show ?thesis unfolding prepare_restore_journal_def by (auto intro: safe_fail)
next
  case (Some archive)
  show ?thesis
    unfolding prepare_restore_journal_def Some option.case
  proof (rule safe_read_journal [OF assms(1)])
    fix g ps
    assume "owned_paths J g ps"
    from safe_extend_journal [OF Some this]
    show "safe h (\<lambda>d. pending J d \<and> \<not> no_journal d \<and> below J g ps (dk_primary d) \<and> below J g ps (dk_backup d)
          \<and> read_restore_journal (jb_env J) d = Inr (Some (seal J g ps)))
        (case Some (seal J g ps) of Some j \<Rightarrow> extend_journal (jb_env J) (jb_fingerprint J) archive j
          | None \<Rightarrow> start_journal (jb_env J) (jb_fingerprint J) archive) (\<lambda>_ d. pending J d \<and> covered J d) (pending J)"
      unfolding option.case by (rule safe_pre) simp
  next
    show "safe h (\<lambda>d. pending J d \<and> no_journal d)
        (case None of Some j \<Rightarrow> extend_journal (jb_env J) (jb_fingerprint J) archive j
          | None \<Rightarrow> start_journal (jb_env J) (jb_fingerprint J) archive) (\<lambda>_ d. pending J d \<and> covered J d) (pending J)"
      unfolding option.case by (rule safe_start_journal [OF Some])
  qed (simp add: pending_def)
qed

subsection \<open>Writing the files\<close>

text \<open>An archive that agrees with itself and with the files that were there before.\<close>

definition consistent_job :: "restore_job \<Rightarrow> bool" where
  "consistent_job J \<longleftrightarrow> normalized_paths (jb_env J) (map fst (jb_writes J)) \<noteq> None
     \<and> (\<forall>(p, a) \<in> set (jb_writes J). (\<forall>(q, b) \<in> set (jb_writes J). p = q \<longrightarrow> same_content (jb_env J) b a)
          \<and> (\<forall>e. jb_before J p = Some e \<longrightarrow> same_content (jb_env J) e a))"

definition filling :: "restore_job \<Rightarrow> (string \<times> string) set \<Rightarrow> disk \<Rightarrow> bool" where
  "filling J W d \<longleftrightarrow> pending J d \<and> covered J d \<and> (\<forall>w \<in> W. written J d w)"

lemma stage_free_filling: "stage_free (filling J W)"
  by (simp add: stage_free_def filling_def pending_simps covered_def journaled_def written_def)

lemma files_ok_created:
  "files_ok J d \<Longrightarrow> may_create J p \<Longrightarrow> dk_files d p = None \<or> (\<exists>data. (p, data) \<in> set (jb_writes J) \<and> dk_files d p = Some data)"
  unfolding files_ok_def by (drule spec [of _ p]) simp

lemma consistent_content:
  assumes "consistent_job J" and "files_ok J d" and "(p, data) \<in> set (jb_writes J)" and "dk_files d p = Some e"
  shows "same_content (jb_env J) e data"
proof (cases "may_create J p")
  case True
  from files_ok_created [OF assms(2) this] assms(4) have "(p, e) \<in> set (jb_writes J)" by simp
  with assms(1,3) show ?thesis unfolding consistent_job_def by fast
next
  case False
  with assms(2,4) have "jb_before J p = Some e" by (auto simp: files_ok_def)
  with assms(1,3) show ?thesis unfolding consistent_job_def by fast
qed

lemma publish_keeps:
  assumes "filling J W d" and "dk_files d p = None" and "(p, data) \<in> set (jb_writes J)"
  shows "filling J (insert (p, data) W) (publish_file p data d)"
proof -
  have p: "p \<in> fst ` set (jb_writes J)" using assms(3) by force
  have files: "files_ok J d" using assms(1) by (simp add: filling_def pending_def)
  have m: "may_create J p" by (rule missing_may_create [OF files p assms(2)])
  obtain g ps where "journaled J g ps d" using assms(1,2) p by (auto simp: filling_def covered_def)
  then have j: "\<not> no_journal d" by (simp add: journaled_def no_journal_def)
  have "pending J (publish_file p data d)"
    using assms(1,3) m j files by (auto simp: filling_def pending_simps publish_file_def)
  moreover have "covered J (publish_file p data d)"
    using assms(1) by (auto simp: filling_def covered_def publish_file_def journaled_def split: if_splits)
  moreover have "written J (publish_file p data d) w" if "w \<in> insert (p, data) W" for w
    using assms(1,2) that by (auto simp: filling_def written_def publish_file_def same_content_def)
  ultimately show ?thesis by (simp add: filling_def)
qed

lemma safe_publish:
  assumes "(p, data) \<in> set (jb_writes J)"
  shows "safe h (\<lambda>d. filling J W d \<and> dk_files d p = None) (publish_staged p data)
    (\<lambda>_ d. filling J (insert (p, data) W) d) (pending J)"
proof -
  let ?P = "\<lambda>d. filling J W d \<and> dk_files d p = None" and ?Q = "filling J (insert (p, data) W)"
  have free: "stage_free ?P"
    by (simp add: stage_free_def filling_def pending_simps covered_def journaled_def written_def)
  have pend: "pending J d" if "filling J V d" for V d using that by (simp add: filling_def)
  have 1: "safe h ?P (durable StorageFailed (stage_bytes data)) (\<lambda>_. ?P) (pending J)"
    by (rule safe_step) (use pend in \<open>auto simp: stage_bytes_def stage_freeD [OF stage_free_filling] stage_freeD [OF stage_free_pending]\<close>)
  have 2: "safe h ?P (durable StorageFailed (publish_file p data)) (\<lambda>_. ?Q) (pending J)"
    by (rule safe_step) (use pend publish_keeps [OF _ _ assms] in blast)+
  have unstage: "safe h (pending J) (io_catch (durable StorageFailed (unstage b)) (\<lambda>_. io_return ())) (\<lambda>_. pending J) (pending J)" for b
    by (rule safe_catch [OF safe_step]) (auto simp: unstage_def stage_freeD [OF stage_free_pending] intro: safe_return)
  show ?thesis
    unfolding publish_staged_def
  proof (rule safe_read_bind)
    fix b
    have "safe h ?P (io_then (durable StorageFailed (stage_bytes data)) (durable StorageFailed (publish_file p data)))
        (\<lambda>_. ?Q) (pending J)" by (rule safe_then [OF 1 2])
    then have "safe h ?P (io_catch (io_then (durable StorageFailed (stage_bytes data)) (durable StorageFailed (publish_file p data)))
        (\<lambda>e. io_then (io_catch (durable StorageFailed (unstage b)) (\<lambda>_. io_return ())) (io_fail e)))
        (\<lambda>_. ?Q) (pending J)"
    proof (rule safe_catch)
      fix e
      assume "\<not> h"
      then show "safe h (pending J) (io_then (io_catch (durable StorageFailed (unstage b)) (\<lambda>_. io_return ())) (io_fail e))
          (\<lambda>_. ?Q) (pending J)"
        by (intro safe_then [OF unstage] safe_fail) simp
    qed simp
    then show "safe h (\<lambda>d. ?P d \<and> id d = b) (io_catch (io_then (durable StorageFailed (stage_bytes data)) (durable StorageFailed (publish_file p data)))
        (\<lambda>e. io_then (io_catch (durable StorageFailed (unstage b)) (\<lambda>_. io_return ())) (io_fail e)))
        (\<lambda>_. ?Q) (pending J)" by (rule safe_pre) simp
  qed
qed

lemma journaled_read:
  assumes "job_ok J" and "owned_paths J g ps" and "journaled J g ps d"
  shows "read_restore_journal (jb_env J) d = Inr (Some (seal J g ps))"
  using assms by (simp add: read_restore_journal_def journaled_def decode_seal)

lemma safe_write_file:
  assumes "job_ok J" and w: "(p, data) \<in> set (jb_writes J)" and "h \<Longrightarrow> consistent_job J"
  shows "safe h (filling J W) (atomic_restore_write (jb_env J) (p, data))
    (\<lambda>_ d. filling J (insert (p, data) W) d) (pending J)"
  unfolding atomic_restore_write_def prod.case
proof (rule safe_read_bind)
  fix found
  have pend: "pending J d" if "filling J V d" for V d using that by (simp add: filling_def)
  show "safe h (\<lambda>d. filling J W d \<and> dk_files d p = found)
      (case found of Some existing \<Rightarrow> if same_content (jb_env J) existing data then io_return () else io_fail ContentConflict
       | None \<Rightarrow> io_bind (read_or_raise (jb_env J)) (\<lambda>journal. case journal of None \<Rightarrow> io_fail JournalError
           | Some j \<Rightarrow> if p \<notin> set (rj_paths j) then io_fail JournalError else publish_staged p data))
      (\<lambda>_ d. filling J (insert (p, data) W) d) (pending J)"
  proof (cases found)
    case (Some e)
    have "\<not> h" if "filling J W d" "dk_files d p = Some e" "\<not> same_content (jb_env J) e data" for d
      using consistent_content [OF assms(3) _ w that(2)] that by (auto simp: filling_def pending_def)
    then show ?thesis
      by (auto simp: Some filling_def written_def intro!: safe_return safe_fail)
  next
    case None
    have cov: "\<exists>g ps. journaled J g ps d \<and> owned_paths J g ps \<and> p \<in> set ps"
      if "filling J W d" "dk_files d p = None" for d
      using that w by (force simp: filling_def covered_def)
    let ?P = "\<lambda>d. filling J W d \<and> dk_files d p = None"
    have "safe h ?P (io_bind (read_or_raise (jb_env J)) (\<lambda>journal. case journal of None \<Rightarrow> io_fail JournalError
           | Some j \<Rightarrow> if p \<notin> set (rj_paths j) then io_fail JournalError else publish_staged p data))
      (\<lambda>_ d. filling J (insert (p, data) W) d) (pending J)"
    proof (rule safe_read_journal [OF assms(1)])
      fix d
      assume "?P d"
      then show "copies_ok J d" by (simp add: filling_def pending_def)
    next
      have "\<not> (?P d \<and> no_journal d)" for d using cov [of d] by (auto simp: journaled_def no_journal_def)
      then show "safe h (\<lambda>d. ?P d \<and> no_journal d) (case None of None \<Rightarrow> io_fail JournalError
           | Some j \<Rightarrow> if p \<notin> set (rj_paths j) then io_fail JournalError else publish_staged p data)
        (\<lambda>_ d. filling J (insert (p, data) W) d) (pending J)" by (rule safe_empty)
    next
      fix g ps
      let ?R = "\<lambda>d. ?P d \<and> \<not> no_journal d \<and> below J g ps (dk_primary d) \<and> below J g ps (dk_backup d)
           \<and> read_restore_journal (jb_env J) d = Inr (Some (seal J g ps))"
      have "\<not> ?R d" if "p \<notin> set ps" for d
        using cov [of d] journaled_read [OF assms(1), of _ _ d] that by force
      then show "safe h ?R (case Some (seal J g ps) of None \<Rightarrow> io_fail JournalError
           | Some j \<Rightarrow> if p \<notin> set (rj_paths j) then io_fail JournalError else publish_staged p data)
        (\<lambda>_ d. filling J (insert (p, data) W) d) (pending J)"
      proof (cases "p \<in> set ps")
        case True
        have "safe h ?R (publish_staged p data) (\<lambda>_ d. filling J (insert (p, data) W) d) (pending J)"
          by (rule safe_pre [OF safe_publish [OF w]]) simp
        with True show ?thesis by simp
      qed (rule safe_empty, blast)
    qed
    then show ?thesis by (simp add: None)
  qed
qed

lemma safe_write_files:
  assumes "job_ok J" and "h \<Longrightarrow> consistent_job J" and "set ws \<subseteq> set (jb_writes J)"
  shows "safe h (filling J W) (io_each (atomic_restore_write (jb_env J)) ws) (\<lambda>_. filling J (W \<union> set ws)) (pending J)"
  using assms(3)
proof (induction ws arbitrary: W)
  case Nil
  show ?case by (auto intro: safe_return)
next
  case (Cons w ws)
  obtain p data where w: "w = (p, data)" by (cases w)
  have "safe h (filling J W) (atomic_restore_write (jb_env J) w) (\<lambda>_. filling J (insert w W)) (pending J)"
    unfolding w by (rule safe_write_file) (use assms(1,2) Cons.prems w in auto)
  from safe_then [OF this Cons.IH] Cons.prems show ?case by simp
qed

end
