(* ===== verification/RestoreClaims.thy ===== *)
theory RestoreClaims
  imports RestoreRecovery
begin

text \<open>
  A restore is all or nothing under crashes and faults: what a rollback and the
  resolution of a commit leave on the disk, histories of attempts, and the
  convergence of a retry on healthy storage.
\<close>

subsection \<open>Removing the journal\<close>

definition drops_copies :: "(disk \<Rightarrow> bool) \<Rightarrow> bool" where
  "drops_copies I \<longleftrightarrow> (\<forall>d. I d \<longrightarrow> I (set_primary NoCopy d) \<and> I (set_backup NoCopy d))"

fun swept :: "sweep \<Rightarrow> disk \<Rightarrow> bool" where
  "swept SweepPrimary d = (dk_primary d = NoCopy)"
| "swept SweepBackup d = (dk_backup d = NoCopy)"
| "swept SweepStaging d = (dk_staged d = [])"

lemma safe_sweep_step:
  assumes "stage_free I" and "drops_copies I"
  shows "safe h (\<lambda>d. I d \<and> (\<forall>x \<in> S. swept x d)) (sweep_step y) (\<lambda>_ d. I d \<and> (\<forall>x \<in> insert y S. swept x d)) I"
proof (cases y)
  case SweepStaging
  let ?I = "\<lambda>d. I d \<and> (\<forall>x \<in> S - {SweepStaging}. swept x d)"
  have "swept x (d\<lparr>dk_staged := bs\<rparr>) = swept x d" if "x \<noteq> SweepStaging" for x d bs
    using that by (cases x) auto
  then have "stage_free ?I" using assms(1) by (simp add: stage_free_def)
  from safe_clear_staging [OF this, of h] show ?thesis
    unfolding SweepStaging sweep_step.simps by (rule safe_weaken) auto
next
  case SweepPrimary
  have "swept x (set_primary NoCopy d)" if "swept x d" for x d using that by (cases x) auto
  then show ?thesis
    unfolding SweepPrimary sweep_step.simps using assms(2) by (intro safe_step) (auto simp: drops_copies_def)
next
  case SweepBackup
  have "swept x (set_backup NoCopy d)" if "swept x d" for x d using that by (cases x) auto
  then show ?thesis
    unfolding SweepBackup sweep_step.simps using assms(2) by (intro safe_step) (auto simp: drops_copies_def)
qed

lemma safe_clear_journal:
  assumes "job_ok J" and "stage_free I" and "drops_copies I"
  shows "safe h I (clear_restore_journal (jb_env J)) (\<lambda>_ d. I d \<and> clean d) I"
proof -
  have loop: "safe h (\<lambda>d. I d \<and> (\<forall>x \<in> S. swept x d)) (io_each sweep_step ys)
      (\<lambda>_ d. I d \<and> (\<forall>x \<in> S \<union> set ys. swept x d)) I" for S ys
  proof (induction ys arbitrary: S)
    case Nil
    show ?case by (auto intro: safe_return)
  next
    case (Cons y ys)
    from safe_then [OF safe_sweep_step [OF assms(2,3)] Cons.IH] show ?case by simp
  qed
  have "set (re_sweep (jb_env J)) = {SweepPrimary, SweepBackup, SweepStaging}"
    using assms(1) by (simp add: job_ok_def)
  with loop [of "{}" "re_sweep (jb_env J)"] show ?thesis
    unfolding clear_restore_journal_def by (auto simp: clean_def no_journal_def elim: safe_weaken)
qed

lemma drops_pending: "drops_copies (\<lambda>d. pending J d \<and> none_left J d)"
  by (auto simp: drops_copies_def pending_simps copy_ok_def)

lemma drops_complete: "drops_copies (complete J)"
  by (auto simp: drops_copies_def complete_def copies_ok_def files_ok_def written_def copy_ok_def)

lemma stage_free_none_left: "stage_free (\<lambda>d. pending J d \<and> none_left J d)"
  by (simp add: stage_free_def pending_simps)

subsection \<open>Rolling back\<close>

lemma unlink_keeps:
  assumes "pending J d" and "may_create J p"
  shows "pending J (unlink_file p d)"
  using assms by (auto simp: pending_simps unlink_file_def)

lemma quiet_unlink:
  assumes "\<forall>p \<in> set ps. may_create J p"
  shows "quiet (\<lambda>d. pending J d \<and> (\<forall>p \<in> D. dk_files d p = None)) (unlink_all ps)
    (\<lambda>ok d. pending J d \<and> (\<forall>p \<in> D. dk_files d p = None) \<and> (ok \<longrightarrow> (\<forall>p \<in> set ps. dk_files d p = None))) (pending J)"
  using assms
proof (induction ps arbitrary: D)
  case Nil
  show ?case by (auto intro: quiet_return)
next
  case (Cons p ps)
  let ?P = "\<lambda>d. pending J d \<and> (\<forall>p \<in> D. dk_files d p = None)"
  have p: "may_create J p" using Cons.prems by simp
  have "safe False ?P (io_then (durable StorageFailed (unlink_file p)) (io_return True))
      (\<lambda>ok d. ?P d \<and> (ok \<longrightarrow> dk_files d p = None)) ?P"
    by (rule safe_then [where M = "\<lambda>d. ?P d \<and> dk_files d p = None"], rule safe_step)
       (use unlink_keeps [OF _ p] in \<open>auto simp: unlink_file_def intro: safe_return\<close>)
  then have first: "quiet ?P (io_catch (io_then (durable StorageFailed (unlink_file p)) (io_return True)) (\<lambda>_. io_return False))
      (\<lambda>ok d. ?P d \<and> (ok \<longrightarrow> dk_files d p = None)) (pending J)"
    by (rule quiet_catch) (auto intro: quiet_return)
  show ?case
    unfolding unlink_all.simps
  proof (rule quiet_bind [OF first])
    fix ok
    have rest: "quiet (\<lambda>d. pending J d \<and> (\<forall>q \<in> (if ok then insert p D else D). dk_files d q = None)) (unlink_all ps)
        (\<lambda>k d. pending J d \<and> (\<forall>q \<in> (if ok then insert p D else D). dk_files d q = None)
           \<and> (k \<longrightarrow> (\<forall>q \<in> set ps. dk_files d q = None))) (pending J)"
      using Cons.prems by (intro Cons.IH) simp
    have "quiet (\<lambda>d. pending J d \<and> (\<forall>q \<in> (if ok then insert p D else D). dk_files d q = None))
        (io_bind (unlink_all ps) (\<lambda>rest. io_return (ok \<and> rest)))
        (\<lambda>k d. ?P d \<and> (k \<longrightarrow> (\<forall>q \<in> set (p # ps). dk_files d q = None))) (pending J)"
      by (rule quiet_bind [OF rest]) (auto intro!: quiet_return split: if_splits)
    then show "quiet (\<lambda>d. ?P d \<and> (ok \<longrightarrow> dk_files d p = None)) (io_bind (unlink_all ps) (\<lambda>rest. io_return (ok \<and> rest)))
        (\<lambda>k d. pending J d \<and> (\<forall>p \<in> D. dk_files d p = None) \<and> (k \<longrightarrow> (\<forall>q \<in> set (p # ps). dk_files d q = None))) (pending J)"
      by (rule quiet_weaken) auto
  qed
qed

lemma quiet_attempt:
  assumes "safe False P m (\<lambda>_. Q) P" and "\<And>d. P d \<Longrightarrow> I d"
  shows "quiet P (attempt_quietly m) (\<lambda>ok d. if ok then Q d else P d) I"
proof -
  have "safe False P (io_then m (io_return True)) (\<lambda>ok d. if ok then Q d else P d) P"
    by (rule safe_then [OF assms(1)]) (simp add: safe_return)
  then show ?thesis unfolding attempt_quietly_def by (rule quiet_catch) (auto intro: quiet_return assms(2))
qed

definition rolled_back :: "restore_job \<Rightarrow> disk \<Rightarrow> bool" where
  "rolled_back J d \<longleftrightarrow> pending J d \<and> none_left J d \<and> clean d"

lemma exclusive_seal:
  assumes "owned_paths J g ps"
  shows "(\<forall>p \<in> set (exclusive_journal_paths (jb_env J) (Some (seal J g ps))). may_create J p)
    \<and> ((\<forall>p \<in> set (exclusive_journal_paths (jb_env J) (Some (seal J g ps))). dk_files d p = None) \<longrightarrow> none_left J d)"
  using assms by (auto simp: exclusive_journal_paths_def owned_paths_def none_left_def)

lemma quiet_cleanup:
  assumes "job_ok J"
  shows "quiet (\<lambda>d. pending J d \<and> read_restore_journal (jb_env J) d = r)
    (case r of
         Inl _ \<Rightarrow> io_return False
       | Inr j \<Rightarrow> io_bind (unlink_all (exclusive_journal_paths (jb_env J) j)) (\<lambda>removed.
           if removed then attempt_quietly (clear_restore_journal (jb_env J)) else io_return False))
    (\<lambda>ok d. pending J d \<and> (ok \<longrightarrow> rolled_back J d)) (pending J)"
proof (cases "\<exists>d. pending J d \<and> read_restore_journal (jb_env J) d = r")
  case False
  then show ?thesis by (intro quiet_empty) blast
next
  case True
  then obtain d where d: "pending J d" "read_restore_journal (jb_env J) d = r" by blast
  then have "copies_ok J d" by (simp add: pending_def)
  from read_journal_ok [OF assms this] d obtain j where r: "r = Inr j"
    and j: "j = None \<or> (\<exists>g ps. j = Some (seal J g ps) \<and> owned_paths J g ps)" by force
  let ?ps = "exclusive_journal_paths (jb_env J) j"
  have create: "\<forall>p \<in> set ?ps. may_create J p"
    using j exclusive_seal by (auto simp: exclusive_journal_paths_def [of _ None])
  have left: "none_left J d'" if "pending J d'" "\<forall>p \<in> set ?ps. dk_files d' p = None" "j = None \<Longrightarrow> no_journal d'" for d'
    using j that exclusive_seal [of J _ _ d'] by (auto simp: pending_def)
  have keep: "quiet (\<lambda>d. pending J d \<and> none_left J d) (attempt_quietly (clear_restore_journal (jb_env J)))
      (\<lambda>ok d. pending J d \<and> (ok \<longrightarrow> rolled_back J d)) (pending J)"
    by (rule quiet_weaken [OF quiet_attempt [OF safe_clear_journal [OF assms stage_free_none_left drops_pending]]])
       (auto simp: rolled_back_def split: if_splits)
  show ?thesis
  proof (cases "j = None")
    case None: True
    have pre: "pending J d' \<and> none_left J d'" if "pending J d' \<and> read_restore_journal (jb_env J) d' = r" for d'
      using that read_journal_ok [OF assms, of d'] by (auto simp: pending_def r None)
    have "io_bind (unlink_all (exclusive_journal_paths (jb_env J) None)) (\<lambda>removed.
        if removed then attempt_quietly (clear_restore_journal (jb_env J)) else io_return False)
      = attempt_quietly (clear_restore_journal (jb_env J))"
      by (simp add: exclusive_journal_paths_def io_bind_def io_return_def fun_eq_iff)
    then show ?thesis using quiet_pre [OF keep pre] by (simp add: r None)
  next
    case False
    have "quiet (\<lambda>d. pending J d \<and> (\<forall>p \<in> {}. dk_files d p = None)) (io_bind (unlink_all ?ps) (\<lambda>removed.
           if removed then attempt_quietly (clear_restore_journal (jb_env J)) else io_return False))
        (\<lambda>ok d. pending J d \<and> (ok \<longrightarrow> rolled_back J d)) (pending J)"
    proof (rule quiet_bind [OF quiet_unlink [OF create]])
      fix removed
      let ?P = "\<lambda>d. pending J d \<and> (\<forall>p \<in> {}. dk_files d p = None) \<and> (removed \<longrightarrow> (\<forall>p \<in> set ?ps. dk_files d p = None))"
      show "quiet ?P (if removed then attempt_quietly (clear_restore_journal (jb_env J)) else io_return False)
          (\<lambda>ok d. pending J d \<and> (ok \<longrightarrow> rolled_back J d)) (pending J)"
      proof (cases removed)
        case True
        have "quiet ?P (attempt_quietly (clear_restore_journal (jb_env J)))
            (\<lambda>ok d. pending J d \<and> (ok \<longrightarrow> rolled_back J d)) (pending J)"
          by (rule quiet_pre [OF keep]) (use left False True in simp)
        with True show ?thesis by simp
      next
        case False
        then show ?thesis by (simp add: quiet_return)
      qed
    qed
    then show ?thesis unfolding r sum.case by (rule quiet_pre) simp
  qed
qed

definition failed_as :: "restore_job \<Rightarrow> restore_error \<Rightarrow> disk \<Rightarrow> bool" where
  "failed_as J e d \<longleftrightarrow> (case e of RolledBack _ \<Rightarrow> rolled_back J d | _ \<Rightarrow> True)"

lemma triple_rollback:
  assumes "job_ok J"
  shows "triple (\<lambda>s. pending J (fst s)) (rollback_failed_restore (jb_env J) original) Q
    (\<lambda>e s. pending J (fst s) \<and> failed_as J e (fst s)) (\<lambda>s. pending J (fst s))"
  unfolding rollback_failed_restore_def
proof (rule triple_bind [where M = "\<lambda>r s. pending J (fst s) \<and> read_restore_journal (jb_env J) (fst s) = r"])
  fix r
  show "triple (\<lambda>s. pending J (fst s) \<and> read_restore_journal (jb_env J) (fst s) = r)
      (io_bind (case r of Inl _ \<Rightarrow> io_return False
         | Inr j \<Rightarrow> io_bind (unlink_all (exclusive_journal_paths (jb_env J) j)) (\<lambda>removed.
             if removed then attempt_quietly (clear_restore_journal (jb_env J)) else io_return False))
       (\<lambda>cl. io_bind (attempt_quietly (durable StorageFailed (\<lambda>d. d)))
         (\<lambda>sanitized. if cl \<and> sanitized then io_fail (RolledBack original) else io_fail CleanupPending)))
      Q (\<lambda>e s. pending J (fst s) \<and> failed_as J e (fst s)) (\<lambda>s. pending J (fst s))"
  proof (rule triple_quiet_bind [OF quiet_cleanup [OF assms]])
    fix ok
    let ?P = "\<lambda>d. pending J d \<and> (ok \<longrightarrow> rolled_back J d)"
    have step: "safe False ?P (durable StorageFailed (\<lambda>d. d)) (\<lambda>_. ?P) ?P" by (rule safe_step) auto
    have "quiet ?P (attempt_quietly (durable StorageFailed (\<lambda>d. d))) (\<lambda>x d. if x then ?P d else ?P d) (pending J)"
      by (rule quiet_attempt [OF step]) simp
    then have san: "quiet ?P (attempt_quietly (durable StorageFailed (\<lambda>d. d))) (\<lambda>_. ?P) (pending J)" by simp
    show "triple (\<lambda>s. ?P (fst s)) (io_bind (attempt_quietly (durable StorageFailed (\<lambda>d. d)))
         (\<lambda>sanitized. if ok \<and> sanitized then io_fail (RolledBack original) else io_fail CleanupPending))
      Q (\<lambda>e s. pending J (fst s) \<and> failed_as J e (fst s)) (\<lambda>s. pending J (fst s))"
      by (rule triple_quiet_bind [OF san]) (auto simp: triple_def io_fail_def failed_as_def)
  qed
qed (simp add: triple_def io_read_def)

subsection \<open>The transaction\<close>

lemma complete_published:
  assumes "job_ok J" and "complete J d"
  shows "commit_published (jb_env J) (jb_fingerprint J) (jb_writes J) d = Some True"
proof -
  have w: "written J d (p, a)" if "(p, a) \<in> set (jb_writes J)" for p a using assms(2) that by (simp add: complete_def)
  have "(re_sha (jb_env J) a, length a) = (re_sha (jb_env J) b, length b)"
    if "(p, a) \<in> set (jb_writes J)" "(p, b) \<in> set (jb_writes J)" for p a b
    using w [OF that(1)] w [OF that(2)] by (auto simp: written_def same_content_def)
  then have "\<not> bindings_conflict (jb_env J) (jb_writes J)"
    by (auto simp: bindings_conflict_def list_ex_iff)
  moreover have "file_destinations_available (jb_env J) (jb_writes J) d"
    using w by (fastforce simp: file_destinations_available_def list_all_iff written_def split: option.splits)
  moreover have "set ps \<subseteq> fst ` set (jb_writes J)" if "owned_paths J g ps" for g ps
    using that by (auto simp: owned_paths_def may_create_def)
  ultimately show ?thesis
    using assms(2) read_journal_ok [OF assms(1), of d] by (auto simp: commit_published_def complete_def)
qed

lemma safe_finish:
  assumes "job_ok J"
  shows "safe h (complete J) (finish_commit (jb_env J)) (\<lambda>_ d. complete J d \<and> (h \<longrightarrow> clean d)) (complete J)"
  unfolding finish_commit_def
  by (rule safe_catch [OF safe_weaken [OF safe_clear_journal [OF assms stage_free_complete drops_complete]]])
     (auto intro: safe_return)

lemma quiet_finish:
  assumes "job_ok J"
  shows "quiet (complete J) (finish_commit (jb_env J)) (\<lambda>_. complete J) (complete J)"
  unfolding finish_commit_def
  by (rule quiet_catch [OF safe_weaken [OF safe_clear_journal [OF assms stage_free_complete drops_complete]]])
     (auto intro: quiet_return)

definition progress_ok :: "restore_job \<Rightarrow> progress \<Rightarrow> disk \<Rightarrow> bool" where
  "progress_ok J p d \<longleftrightarrow> (case p of
       Committed \<Rightarrow> complete J d
     | AtCommit _ \<Rightarrow> pending J d \<or> complete J d
     | Before _ \<Rightarrow> pending J d)"

lemma commit_completes:
  "filling J (set (jb_writes J)) d \<Longrightarrow> complete J (commit_rows d)"
  by (auto simp: filling_def complete_def commit_rows_def pending_simps written_def)

text \<open>The body as one crash-safe program: it stops before the commit with an error, or it reaches the commit.\<close>

definition restore_steps :: "restore_job \<Rightarrow> progress rio" where
  "restore_steps J =
     io_then (durable RowsRejected (\<lambda>d. d))
       (io_then (prepare_restore_journal (jb_env J) (jb_fingerprint J) (map fst (jb_writes J)))
         (io_then (io_each (atomic_restore_write (jb_env J)) (jb_writes J))
           (io_then (durable RowsRejected (\<lambda>d. d))
             (io_catch (io_then (durable RowsRejected commit_rows) (io_return Committed))
               (\<lambda>e. io_return (AtCommit e))))))"

lemma safe_steps:
  assumes "job_ok J" and "h \<Longrightarrow> consistent_job J"
  shows "safe h (pending J) (restore_steps J) (\<lambda>p d. progress_ok J p d \<and> (h \<longrightarrow> p = Committed)) (pending J)"
proof -
  let ?F = "filling J (set (jb_writes J))" and ?G = "\<lambda>p d. progress_ok J p d \<and> (h \<longrightarrow> p = Committed)"
  have 1: "safe h (pending J) (durable RowsRejected (\<lambda>d. d)) (\<lambda>_. pending J) (pending J)" by (rule safe_step) auto
  have 2: "safe h (pending J) (prepare_restore_journal (jb_env J) (jb_fingerprint J) (map fst (jb_writes J)))
      (\<lambda>_. filling J {}) (pending J)"
    by (rule safe_weaken [OF safe_prepare [OF assms(1)]]) (use assms(2) in \<open>auto simp: filling_def consistent_job_def\<close>)
  have 3: "safe h (filling J {}) (io_each (atomic_restore_write (jb_env J)) (jb_writes J)) (\<lambda>_. ?F) (pending J)"
    by (rule safe_weaken [OF safe_write_files [OF assms(1,2), of h "jb_writes J" "{}"]]) auto
  have 4: "safe h ?F (durable RowsRejected (\<lambda>d. d)) (\<lambda>_. ?F) (pending J)"
    by (rule safe_step) (auto simp: filling_def)
  have commit: "safe h ?F (io_then (durable RowsRejected commit_rows) (io_return Committed)) ?G (\<lambda>d. pending J d \<or> complete J d)"
    by (rule safe_then [where M = "complete J"], rule safe_step)
       (auto simp: commit_completes progress_ok_def filling_def intro: safe_return)
  have died: "triple (\<lambda>s. ?F (fst s) \<and> (h \<longrightarrow> snd s = []))
      (io_catch (io_then (durable RowsRejected commit_rows) (io_return Committed)) (\<lambda>e. io_return (AtCommit e)))
      (\<lambda>x s. ?G x (fst s) \<and> (h \<longrightarrow> snd s = [])) (\<lambda>_ s. \<not> h \<and> pending J (fst s)) (\<lambda>s. \<not> h \<and> pending J (fst s))"
  proof (rule tripleI)
    fix s :: "disk world"
    assume s: "?F (fst s) \<and> (h \<longrightarrow> snd s = [])"
    obtain d fs where w: "s = (d, fs)" by (cases s)
    with s commit_completes [of J d] show "case io_catch (io_then (durable RowsRejected commit_rows) (io_return Committed))
          (\<lambda>e. io_return (AtCommit e)) s of
        (Done x, t) \<Rightarrow> ?G x (fst t) \<and> (h \<longrightarrow> snd t = []) | (Failed e, t) \<Rightarrow> \<not> h \<and> pending J (fst t)
      | (Died, t) \<Rightarrow> \<not> h \<and> pending J (fst t)"
      by (cases "(RowsRejected, commit_rows, d, fs)" rule: meet_fate.cases)
         (auto simp: io_catch_def io_then_def io_bind_def durable_def io_return_def progress_ok_def filling_def)
  qed
  then have 5: "safe h ?F (io_catch (io_then (durable RowsRejected commit_rows) (io_return Committed))
      (\<lambda>e. io_return (AtCommit e))) ?G (pending J)" by (simp add: safe_def)
  show ?thesis
    unfolding restore_steps_def
    by (rule safe_then [OF 1 safe_then [OF 2 safe_then [OF 3 safe_then [OF 4 5]]]])
qed

lemma restore_body_steps:
  "restore_body (jb_env J) (jb_fingerprint J) (jb_writes J) = io_catch (restore_steps J) (\<lambda>e. io_return (Before e))"
  by (simp add: restore_body_def restore_steps_def)

definition recoverable :: "restore_job \<Rightarrow> disk \<Rightarrow> bool" where
  "recoverable J d \<longleftrightarrow> pending J d \<or> complete J d"

lemma quiet_body:
  assumes "job_ok J"
  shows "quiet (pending J) (restore_body (jb_env J) (jb_fingerprint J) (jb_writes J)) (progress_ok J) (recoverable J)"
proof -
  have "safe False (pending J) (restore_steps J) (progress_ok J) (pending J)"
    by (rule safe_weaken [OF safe_steps [OF assms]]) simp_all
  then show ?thesis
    unfolding restore_body_steps
    by (rule quiet_catch) (auto simp: progress_ok_def recoverable_def intro: quiet_return)
qed

lemma triple_finish:
  assumes "job_ok J"
  shows "triple (\<lambda>s. complete J (fst s)) (finish_commit (jb_env J)) (\<lambda>_ s. complete J (fst s)) R (\<lambda>s. recoverable J (fst s))"
  using quiet_finish [OF assms] unfolding quiet_def
  by (rule triple_weaken) (auto simp: recoverable_def)

lemma triple_rolling_back:
  assumes "job_ok J"
  shows "triple (\<lambda>s. pending J (fst s)) (rollback_failed_restore (jb_env J) e) Q
    (\<lambda>e s. recoverable J (fst s) \<and> failed_as J e (fst s)) (\<lambda>s. recoverable J (fst s))"
  by (rule triple_weaken [OF triple_rollback [OF assms]]) (auto simp: recoverable_def)

lemma triple_resolve:
  assumes "job_ok J"
  shows "triple (\<lambda>s. recoverable J (fst s)) (resolve_commit (jb_env J) (jb_fingerprint J) (jb_writes J) e)
    (\<lambda>_ s. complete J (fst s)) (\<lambda>e s. recoverable J (fst s) \<and> failed_as J e (fst s)) (\<lambda>s. recoverable J (fst s))"
  unfolding resolve_commit_def
proof (rule triple_bind [where M = "\<lambda>p s. (p = Some True \<and> complete J (fst s)) \<or> (p = Some False \<and> pending J (fst s))"])
  have "commit_published (jb_env J) (jb_fingerprint J) (jb_writes J) d = Some False" if "pending J d" for d
    using that by (simp add: commit_published_def pending_def)
  then show "triple (\<lambda>s. recoverable J (fst s)) (io_read (commit_published (jb_env J) (jb_fingerprint J) (jb_writes J)))
      (\<lambda>p s. (p = Some True \<and> complete J (fst s)) \<or> (p = Some False \<and> pending J (fst s)))
      (\<lambda>e s. recoverable J (fst s) \<and> failed_as J e (fst s)) (\<lambda>s. recoverable J (fst s))"
    using complete_published [OF assms] by (auto simp: triple_def io_read_def recoverable_def)
next
  fix p
  consider "p = Some True" | "p = Some False" | "p = None" by (cases p) auto
  then show "triple (\<lambda>s. (p = Some True \<and> complete J (fst s)) \<or> (p = Some False \<and> pending J (fst s)))
      (case p of None \<Rightarrow> io_fail CleanupPending | Some True \<Rightarrow> finish_commit (jb_env J)
        | Some False \<Rightarrow> rollback_failed_restore (jb_env J) e)
      (\<lambda>_ s. complete J (fst s)) (\<lambda>e s. recoverable J (fst s) \<and> failed_as J e (fst s)) (\<lambda>s. recoverable J (fst s))"
    by cases (use triple_finish [OF assms] triple_rolling_back [OF assms] in \<open>simp_all add: triple_def\<close>)
qed

lemma triple_transaction:
  assumes "job_ok J"
  shows "triple (\<lambda>s. pending J (fst s)) (restore_transaction (jb_env J) (jb_fingerprint J) (jb_writes J))
    (\<lambda>_ s. complete J (fst s)) (\<lambda>e s. recoverable J (fst s) \<and> failed_as J e (fst s)) (\<lambda>s. recoverable J (fst s))"
  unfolding restore_transaction_def
proof (rule triple_quiet_bind [OF quiet_body [OF assms]])
  fix p
  show "triple (\<lambda>s. progress_ok J p (fst s))
      (case p of Committed \<Rightarrow> finish_commit (jb_env J)
       | AtCommit e \<Rightarrow> resolve_commit (jb_env J) (jb_fingerprint J) (jb_writes J) e
       | Before e \<Rightarrow> rollback_failed_restore (jb_env J) e)
      (\<lambda>_ s. complete J (fst s)) (\<lambda>e s. recoverable J (fst s) \<and> failed_as J e (fst s)) (\<lambda>s. recoverable J (fst s))"
    using triple_finish [OF assms] triple_resolve [OF assms] triple_rolling_back [OF assms]
    by (cases p) (simp_all add: progress_ok_def recoverable_def)
qed

lemma safe_healthy_transaction:
  assumes "job_ok J" and "consistent_job J"
  shows "safe True (pending J) (restore_transaction (jb_env J) (jb_fingerprint J) (jb_writes J))
    (\<lambda>_ d. complete J d \<and> clean d) (\<lambda>_. True)"
  unfolding restore_transaction_def restore_body_steps
proof (rule safe_bind)
  have "safe True (pending J) (restore_steps J) (\<lambda>p d. progress_ok J p d \<and> p = Committed) (\<lambda>_. True)"
    by (rule safe_weaken [OF safe_steps [OF assms]]) simp_all
  then show "safe True (pending J) (io_catch (restore_steps J) (\<lambda>e. io_return (Before e)))
      (\<lambda>p d. progress_ok J p d \<and> p = Committed) (\<lambda>_. True)"
    by (rule safe_catch) simp_all
next
  fix p
  have "safe True (complete J) (finish_commit (jb_env J)) (\<lambda>_ d. complete J d \<and> clean d) (\<lambda>_. True)"
    by (rule safe_weaken [OF safe_finish [OF assms(1)]]) simp_all
  then show "safe True (\<lambda>d. progress_ok J p d \<and> p = Committed)
      (case p of Committed \<Rightarrow> finish_commit (jb_env J)
       | AtCommit e \<Rightarrow> resolve_commit (jb_env J) (jb_fingerprint J) (jb_writes J) e
       | Before e \<Rightarrow> rollback_failed_restore (jb_env J) e) (\<lambda>_ d. complete J d \<and> clean d) (\<lambda>_. True)"
    by (cases p) (auto simp: progress_ok_def intro: safe_empty elim: safe_pre)
qed

subsection \<open>Histories of attempts\<close>

definition restore_attempt :: "restore_job \<Rightarrow> unit rio" where
  "restore_attempt J = restore_archive (jb_env J) (jb_fingerprint J) (jb_writes J)"

fun attempts :: "restore_job \<Rightarrow> fate list list \<Rightarrow> disk \<Rightarrow> disk" where
  "attempts J [] d = d"
| "attempts J (fs # fss) d = attempts J fss (fst (snd (restore_attempt J (d, fs))))"

definition untouched :: "restore_job \<Rightarrow> disk \<Rightarrow> bool" where
  "untouched J d \<longleftrightarrow> \<not> dk_committed d \<and> clean d \<and> dk_files d = jb_before J"

lemma untouched_pending: "untouched J d \<Longrightarrow> pending J d"
  by (auto simp: untouched_def clean_def pending_simps copy_ok_def may_create_def)

lemma attempt_cases:
  assumes "job_ok J" and "recoverable J d" and "restore_attempt J (d, fs) = (r, d', fs')"
  shows "recoverable J d' \<and> (r = Done () \<longrightarrow> complete J d') \<and> (\<forall>e. r = Failed e \<longrightarrow> failed_as J e d')"
proof (cases "dk_committed d")
  case True
  with assms(3) have "r = Failed VaultNotEmpty" "d' = d"
    by (auto simp: restore_attempt_def restore_archive_def io_bind_def io_read_def io_fail_def)
  with assms(2) show ?thesis by (simp add: failed_as_def)
next
  case False
  with assms(2) have p: "pending J (fst (d, fs))" by (simp add: recoverable_def complete_def)
  have run: "restore_transaction (jb_env J) (jb_fingerprint J) (jb_writes J) (d, fs) = (r, d', fs')"
    using False assms(3) by (simp add: restore_attempt_def restore_archive_def io_bind_def io_read_def)
  note t = triple_transaction [OF assms(1)]
  show ?thesis
    using triple_Done [OF t p] triple_Failed [OF t p] triple_Died [OF t p] run
    by (cases r) (auto simp: recoverable_def)
qed

lemma attempts_recoverable:
  "job_ok J \<Longrightarrow> recoverable J d \<Longrightarrow> recoverable J (attempts J fss d)"
proof (induction fss arbitrary: d)
  case (Cons fs fss)
  obtain r d' fs' where "restore_attempt J (d, fs) = (r, d', fs')" by (metis prod.collapse)
  with attempt_cases [OF Cons.prems this] Cons show ?case by simp
qed simp

lemma recoverable_facts:
  assumes "job_ok J" and "recoverable J d"
  shows "files_ok J d" "\<exists>j. read_restore_journal (jb_env J) d = Inr j"
    "dk_committed d \<longrightarrow> (\<forall>w \<in> set (jb_writes J). written J d w)"
  using assms read_journal_ok [OF assms(1), of d]
  by (auto simp: recoverable_def pending_def complete_def)

lemma rolled_back_files:
  assumes "rolled_back J d" and "\<not> re_foreign (jb_env J) p"
  shows "dk_files d p = jb_before J p"
  using assms by (cases "may_create J p") (auto simp: rolled_back_def pending_def none_left_def files_ok_def may_create_def)

subsection \<open>Properties\<close>

text \<open>C4: A restore is all or nothing, whatever fails. Take any history of attempts with one archive on
  one disk, each of them hit by any sequence of faults, lost acknowledgements and deaths, and one more
  attempt. If it returns, the rows are committed and every file of the archive is there. If it reports a
  rollback, nothing is committed, both copies of the journal and all staged bytes are gone, and every file
  that no other account is bound to is as it was before the first attempt. In every case, also after a
  death, no earlier file was lost or changed, a committed vault has all its files, and the journal can be
  read for the next attempt.\<close>

theorem restore_all_or_nothing:
  assumes "job_ok J" and "untouched J d0" and "restore_attempt J (attempts J history d0, fates) = (r, d, rest)"
  shows "(r = Done () \<longrightarrow> dk_committed d \<and> (\<forall>w \<in> set (jb_writes J). written J d w))
    \<and> (\<forall>e. r = Failed (RolledBack e) \<longrightarrow> \<not> dk_committed d \<and> clean d
          \<and> (\<forall>p. \<not> re_foreign (jb_env J) p \<longrightarrow> dk_files d p = dk_files d0 p))
    \<and> (\<forall>p x. dk_files d0 p = Some x \<longrightarrow> dk_files d p = Some x)
    \<and> (dk_committed d \<longrightarrow> (\<forall>w \<in> set (jb_writes J). written J d w))
    \<and> (\<exists>j. read_restore_journal (jb_env J) d = Inr j)"
proof -
  have before: "dk_files d0 = jb_before J" using assms(2) by (simp add: untouched_def)
  have "recoverable J (attempts J history d0)"
    by (rule attempts_recoverable [OF assms(1)]) (simp add: recoverable_def untouched_pending [OF assms(2)])
  note after = attempt_cases [OF assms(1) this assms(3)]
  then have d: "recoverable J d" by blast
  have keep: "dk_files d p = Some x" if "jb_before J p = Some x" for p x
    using recoverable_facts(1) [OF assms(1) d] that by (simp add: files_ok_def may_create_def)
  have fin: "dk_committed d \<and> (\<forall>w \<in> set (jb_writes J). written J d w)" if "r = Done ()"
    using after that by (simp add: complete_def)
  have undone: "\<not> dk_committed d \<and> clean d \<and> (\<forall>p. \<not> re_foreign (jb_env J) p \<longrightarrow> dk_files d p = jb_before J p)"
    if "r = Failed (RolledBack e)" for e
  proof -
    have b: "rolled_back J d" using after that by (simp add: failed_as_def)
    with rolled_back_files [OF b] show ?thesis by (simp add: rolled_back_def pending_def)
  qed
  show ?thesis
    unfolding before using fin undone keep recoverable_facts(2,3) [OF assms(1) d] by blast
qed

text \<open>C5: A retry converges. After any history of failed and killed attempts, if nothing is committed yet
  and the archive agrees with itself and with the files that were there before, one attempt on healthy
  storage returns: rows and files are published, and no journal and no staged bytes are left.\<close>

theorem healthy_retry_completes:
  assumes "job_ok J" and "consistent_job J" and "untouched J d0" and "\<not> dk_committed (attempts J history d0)"
  shows "\<exists>d. restore_attempt J (attempts J history d0, []) = (Done (), d, [])
    \<and> dk_committed d \<and> clean d \<and> (\<forall>w \<in> set (jb_writes J). written J d w)"
proof -
  have "recoverable J (attempts J history d0)"
    by (rule attempts_recoverable [OF assms(1)]) (simp add: recoverable_def untouched_pending [OF assms(3)])
  with assms(4) have "pending J (attempts J history d0)" by (simp add: recoverable_def complete_def)
  from safe_healthy [OF safe_healthy_transaction [OF assms(1,2)] this] assms(4)
  show ?thesis by (auto simp: restore_attempt_def restore_archive_def io_bind_def io_read_def complete_def)
qed

text \<open>C38: The check that follows a lost commit acknowledgement does not see missing files. When the rows
  are committed and no file of the archive exists any more, the restore is still taken for published,
  because a destination that cannot be found counts as available.\<close>

theorem verification_passes_over_missing_files:
  assumes "dk_committed d" and "clean d" and "\<not> bindings_conflict E writes"
    and "\<forall>w \<in> set writes. dk_files d (fst w) = None"
  shows "commit_published E fingerprint writes d = Some True"
proof -
  have "file_destinations_available E writes d"
    using assms(4) by (auto simp: file_destinations_available_def list_all_iff split: option.splits)
  with assms(1-3) show ?thesis
    by (simp add: commit_published_def read_restore_journal_def clean_def no_journal_def)
qed

subsection \<open>A concrete restore\<close>

definition demo_restore_env :: restore_env where
  "demo_restore_env = \<lparr>re_user = 1, re_checksum = (\<lambda>p. jp_fingerprint p), re_sha = (\<lambda>s. s),
     re_contained = (\<lambda>p. True), re_packet = (\<lambda>p. False), re_members = 10, re_foreign = (\<lambda>p. False),
     re_sweep = [SweepBackup, SweepPrimary, SweepStaging]\<rparr>"

definition demo_job :: restore_job where
  "demo_job = \<lparr>jb_env = demo_restore_env, jb_fingerprint = replicate 64 CHR ''a'',
     jb_writes = [(''assets/a'', ''A''), (''assets/b'', ''B'')], jb_before = (\<lambda>p. if p = ''assets/b'' then Some ''B'' else None)\<rparr>"

definition demo_disk :: disk where
  "demo_disk = \<lparr>dk_files = jb_before demo_job, dk_primary = NoCopy, dk_backup = NoCopy, dk_staged = [], dk_committed = False\<rparr>"

text \<open>The first attempt dies between the two copies of the journal, the second one after staging a file.\<close>

definition demo_history :: "fate list list" where
  "demo_history = [[Works, Works, Works, Dies], replicate 5 Works @ [Dies]]"

lemma demo_job_ok: "job_ok demo_job" "consistent_job demo_job" "untouched demo_job demo_disk"
proof -
  show "job_ok demo_job" by (auto simp: job_ok_def demo_job_def demo_restore_env_def hex_digit_def list_all_iff)
  have "normalized_paths (jb_env demo_job) (map fst (jb_writes demo_job)) = Some [''assets/a'', ''assets/b'']"
    by code_simp
  then show "consistent_job demo_job"
    by (simp add: consistent_job_def) (simp add: demo_job_def same_content_def)
  show "untouched demo_job demo_disk"
    by (simp add: untouched_def demo_disk_def clean_def no_journal_def)
qed

theorem restore_all_or_nothing_witness:
  "\<exists>d rest. restore_attempt demo_job (attempts demo_job demo_history demo_disk, replicate 6 Works @ [Faults]) = (Failed (RolledBack StorageFailed), d, rest)
    \<and> clean d \<and> dk_files d ''assets/a'' = None \<and> dk_files d ''assets/b'' = Some ''B''"
proof -
  let ?run = "restore_attempt demo_job (attempts demo_job demo_history demo_disk, replicate 6 Works @ [Faults])"
  have "(case fst ?run of Failed (RolledBack StorageFailed) \<Rightarrow> True | _ \<Rightarrow> False)" by code_simp
  then have "fst ?run = Failed (RolledBack StorageFailed)"
    by (auto split: io_result.splits restore_error.splits)
  then obtain d rest where run: "?run = (Failed (RolledBack StorageFailed), d, rest)" by (metis prod.collapse)
  have free: "\<not> re_foreign (jb_env demo_job) p" for p by (simp add: demo_job_def demo_restore_env_def)
  have files: "dk_files demo_disk ''assets/a'' = None" "dk_files demo_disk ''assets/b'' = Some ''B''"
    by (simp_all add: demo_disk_def demo_job_def)
  from restore_all_or_nothing [OF demo_job_ok(1,3) run] free files
  have "clean d \<and> dk_files d ''assets/a'' = None \<and> dk_files d ''assets/b'' = Some ''B''" by simp
  with run show ?thesis by blast
qed

theorem healthy_retry_completes_witness:
  "\<exists>d. restore_attempt demo_job (attempts demo_job demo_history demo_disk, []) = (Done (), d, []) \<and> clean d
    \<and> (\<exists>e. dk_files d ''assets/a'' = Some e)"
proof -
  have "\<not> dk_committed (attempts demo_job demo_history demo_disk)" by code_simp
  from healthy_retry_completes [OF demo_job_ok this] show ?thesis
    by (auto simp: demo_job_def written_def)
qed

theorem verification_passes_over_missing_files_witness:
  "commit_published demo_restore_env (replicate 64 CHR ''a'') [(''assets/a'', ''A'')]
     \<lparr>dk_files = (\<lambda>p. None), dk_primary = NoCopy, dk_backup = NoCopy, dk_staged = [], dk_committed = True\<rparr> = Some True"
  by (rule verification_passes_over_missing_files) (simp_all add: clean_def no_journal_def bindings_conflict_def)

end
