(* ===== verification/VaultErasure.thy ===== *)
theory VaultErasure
  imports CrashIO "HOL-Library.Char_ord" "HOL-Library.List_Lexorder"
begin

text \<open>
  The deletion of a vault, \<open>delete_complete_vault\<close> of \<open>career/deletion.py\<close>: the
  exclusive files of the account are moved into its trash, the rows are deleted in
  one commit, and only then are the trash and the restore journal removed and the
  pending state cleared. Every durable step meets a fate (\<open>CrashIO\<close>). Every attempt
  computes the exclusive paths again, from the rows, from the publication journals of
  resumes that are in their place on the disk and from the restore journal. What the
  rows say is an argument, \<open>deletion_job\<close>, as no operation on a vault in maintenance
  changes them; whether they exist is one flag. Crash-left publications of assets and
  packets are reconciled first by programs of their own, on other files.
\<close>

subsection \<open>State and steps\<close>

record vault_disk =
  vd_files :: "string \<Rightarrow> string option"
  vd_trash :: "(string \<times> string \<times> string) list"  \<comment> \<open>operation, path, bytes\<close>
  vd_rows :: bool
  vd_journal :: "string list"
  vd_pending :: bool

datatype deletion_error = NotPrepared | InconsistentPackets | JournalUnreadable | JournalMismatch | StagingConflict | StagingFailed | RowsFailed | CommitUnverified | CleanupFailed

type_synonym 'a dio = "(vault_disk, deletion_error, 'a) io"

text \<open>
  A file of the directory of publication journals: its path, whether the loader accepts
  it, the draft and the artifacts that it names.
\<close>

record publication_journal =
  pj_path :: string
  pj_readable :: bool
  pj_draft :: string
  pj_artifacts :: "string list"

record deletion_job =
  dj_profile :: "(string \<times> string list) option"  \<comment> \<open>the profile and its drafts\<close>
  dj_storage :: "string list"  \<comment> \<open>paths of its assets and resume artifacts\<close>
  dj_packets :: "(string \<times> string) list"  \<comment> \<open>stored path and path by identity\<close>
  dj_foreign :: "string \<Rightarrow> bool"  \<comment> \<open>a row of another account refers to the path\<close>
  dj_journals :: "publication_journal list"

definition move_to_trash :: "string \<Rightarrow> string \<Rightarrow> vault_disk \<Rightarrow> vault_disk" where
  "move_to_trash op p d = (case vd_files d p of
      None \<Rightarrow> d
    | Some x \<Rightarrow> d\<lparr>vd_files := (vd_files d)(p := None), vd_trash := (op, p, x) # vd_trash d\<rparr>)"

definition in_trash :: "string \<Rightarrow> string \<Rightarrow> vault_disk \<Rightarrow> string option" where
  "in_trash op p d = map_option (\<lambda>(_, _, x). x) (List.find (\<lambda>(o', q, _). o' = op \<and> q = p) (vd_trash d))"

definition move_back :: "string \<Rightarrow> string \<Rightarrow> vault_disk \<Rightarrow> vault_disk" where
  "move_back op p d = (case in_trash op p d of
      None \<Rightarrow> d
    | Some x \<Rightarrow> d\<lparr>vd_files := (vd_files d)(p \<mapsto> x),
                   vd_trash := filter (\<lambda>(o', q, _). \<not> (o' = op \<and> q = p)) (vd_trash d)\<rparr>)"

definition flush :: "unit dio" where
  "flush = durable StagingFailed (\<lambda>d. d)"

definition stage_one :: "string \<Rightarrow> string \<Rightarrow> bool dio" where
  "stage_one op p =
     io_bind (io_read (\<lambda>d. (vd_files d p, in_trash op p d))) (\<lambda>(source, destination).
       if source = None then io_return False
       else io_then flush
         (if destination \<noteq> None then io_fail StagingConflict
          else io_then (durable StagingFailed (move_to_trash op p))
            (io_then flush (io_then flush (io_return True)))))"

definition restore_one :: "string \<Rightarrow> string \<Rightarrow> unit dio" where
  "restore_one op p =
     io_bind (io_read (in_trash op p)) (\<lambda>destination.
       if destination = None then io_return ()
       else io_then flush (io_then (durable StagingFailed (move_back op p)) (io_then flush flush)))"

definition restore_files :: "string \<Rightarrow> string list \<Rightarrow> unit dio" where
  "restore_files op staged = io_each (restore_one op) staged"

text \<open>The staged paths are collected with the latest one first, the order in which they are restored.\<close>

fun stage_files :: "string \<Rightarrow> string list \<Rightarrow> string list \<Rightarrow> string list dio" where
  "stage_files op [] staged = io_return staged"
| "stage_files op (p # ps) staged =
     io_bind (io_catch (stage_one op p) (\<lambda>e. io_then (restore_files op staged) (io_fail e)))
       (\<lambda>moved. stage_files op ps (if moved then p # staged else staged))"

definition delete_rows_commit :: "vault_disk \<Rightarrow> vault_disk" where
  "delete_rows_commit d = d\<lparr>vd_rows := False\<rparr>"

subsection \<open>The exclusive paths\<close>

definition row_paths :: "deletion_job \<Rightarrow> string list" where
  "row_paths J = filter (\<lambda>p. \<not> dj_foreign J p)
     ((case dj_profile J of None \<Rightarrow> [] | Some _ \<Rightarrow> dj_storage J) @ map fst (dj_packets J))"

definition restore_paths :: "deletion_job \<Rightarrow> vault_disk \<Rightarrow> string list" where
  "restore_paths J d = filter (\<lambda>p. \<not> dj_foreign J p) (vd_journal d)"

definition journals_in_place :: "deletion_job \<Rightarrow> vault_disk \<Rightarrow> publication_journal list" where
  "journals_in_place J d = filter (\<lambda>j. vd_files d (pj_path j) \<noteq> None) (dj_journals J)"

definition owned_journals :: "deletion_job \<Rightarrow> string list \<Rightarrow> vault_disk \<Rightarrow> publication_journal list" where
  "owned_journals J drafts d = filter (\<lambda>j. pj_draft j \<in> set drafts) (journals_in_place J d)"

definition foreign_claims :: "deletion_job \<Rightarrow> string list \<Rightarrow> vault_disk \<Rightarrow> string list" where
  "foreign_claims J drafts d =
     concat (map pj_artifacts (filter (\<lambda>j. pj_draft j \<notin> set drafts) (journals_in_place J d)))"

fun split_path :: "string \<Rightarrow> string list" where
  "split_path [] = [[]]"
| "split_path (c # s) =
     (if c = CHR ''/'' then [] # split_path s
      else (case split_path s of [] \<Rightarrow> [[c]] | part # parts \<Rightarrow> (c # part) # parts))"

definition path_of_profile :: "string \<Rightarrow> string \<Rightarrow> bool" where
  "path_of_profile pid p \<longleftrightarrow> length (split_path p) = 4 \<and> split_path p ! 1 = pid"

definition exclusive_publication_paths ::
  "deletion_job \<Rightarrow> string \<Rightarrow> string list \<Rightarrow> vault_disk \<Rightarrow> deletion_error + (string list \<times> string list)" where
  "exclusive_publication_paths J pid drafts d =
     (let foreign = foreign_claims J drafts d; artifacts = concat (map pj_artifacts (owned_journals J drafts d))
      in if list_ex (\<lambda>j. \<not> pj_readable j) (journals_in_place J d) then Inl JournalUnreadable
         else if list_ex (\<lambda>p. \<not> path_of_profile pid p) artifacts then Inl JournalMismatch
         else Inr (map pj_path (owned_journals J drafts d)
           @ filter (\<lambda>p. p \<notin> set foreign \<and> \<not> dj_foreign J p) artifacts, foreign))"

definition deletion_paths :: "deletion_job \<Rightarrow> vault_disk \<Rightarrow> deletion_error + string list" where
  "deletion_paths J d =
     (if \<not> vd_rows d then Inr (sort (remdups (restore_paths J d)))
      else if list_ex (\<lambda>(stored, identity). stored \<noteq> identity) (dj_packets J) then Inl InconsistentPackets
      else (case dj_profile J of
          None \<Rightarrow> Inr (sort (remdups (row_paths J @ restore_paths J d)))
        | Some (pid, drafts) \<Rightarrow> (case exclusive_publication_paths J pid drafts d of
            Inl e \<Rightarrow> Inl e
          | Inr (publication, foreign) \<Rightarrow> Inr (sort (remdups
              (filter (\<lambda>p. p \<notin> set foreign) (row_paths J) @ publication @ restore_paths J d))))))"

subsection \<open>The deletion\<close>

text \<open>
  When the verification of a failed commit fails itself, the outcome stays unknown
  and the staged files are left in the trash for the retry.
\<close>

definition commit_deletion :: "string \<Rightarrow> string list \<Rightarrow> unit dio" where
  "commit_deletion op staged =
     io_then (io_catch (durable RowsFailed (\<lambda>d. d)) (\<lambda>e. io_then (restore_files op staged) (io_fail e)))
       (io_catch (durable RowsFailed delete_rows_commit)
         (\<lambda>e. io_then (durable CommitUnverified (\<lambda>d. d)) (io_bind (io_read (\<lambda>d. \<not> vd_rows d)) (\<lambda>published.
           if published then io_return () else io_then (restore_files op staged) (io_fail e)))))"

definition drop_trash :: "vault_disk \<Rightarrow> vault_disk" where
  "drop_trash d = d\<lparr>vd_trash := tl (vd_trash d)\<rparr>"

definition remove_staged_files :: "unit dio" where
  "remove_staged_files = io_bind (io_read vd_trash) (\<lambda>ts. io_each (\<lambda>_. durable CleanupFailed drop_trash) ts)"

text \<open>Both cleanups are tried before a failure is reported.\<close>

definition finish_committed_deletion :: "unit dio" where
  "finish_committed_deletion =
     io_bind (io_catch (io_then (durable CleanupFailed (\<lambda>d. d)) (io_return True)) (\<lambda>_. io_return False)) (\<lambda>sanitized.
     io_bind (io_catch (io_then remove_staged_files (io_return True)) (\<lambda>_. io_return False)) (\<lambda>removed.
       if sanitized \<and> removed then io_return () else io_fail CleanupFailed))"

definition drop_journal :: "vault_disk \<Rightarrow> vault_disk" where
  "drop_journal d = d\<lparr>vd_journal := []\<rparr>"

definition clear_pending :: "vault_disk \<Rightarrow> vault_disk" where
  "clear_pending d = d\<lparr>vd_pending := False\<rparr>"

definition delete_complete_vault :: "deletion_job \<Rightarrow> string \<Rightarrow> unit dio" where
  "delete_complete_vault J op =
     io_bind (io_read (\<lambda>d. (vd_pending d, deletion_paths J d))) (\<lambda>(prepared, computed).
       if \<not> prepared then io_fail NotPrepared
       else (case computed of Inl e \<Rightarrow> io_fail e | Inr paths \<Rightarrow>
         io_bind (stage_files op paths []) (\<lambda>staged.
         io_then (commit_deletion op staged)
         (io_then finish_committed_deletion
         (io_then (durable CleanupFailed drop_journal)
           (durable CleanupFailed clear_pending))))))"

subsection \<open>The invariant of a deletion\<close>

text \<open>
  The targets are the paths that the first attempt computes. As long as the rows exist,
  every target is in its place or in the trash. Of the targets, the paths that must be
  gone with the rows are those that every attempt computes for itself: the paths of the
  rows and of the restore journal, and the publication journals in their place. The
  artifacts that only a publication journal names are not among them: an attempt that
  finds the journal moved does not see them.
\<close>

record deletion_view =
  dv_job :: deletion_job
  dv_before :: "string \<Rightarrow> string option"
  dv_targets :: "string list"
  dv_must :: "string list"
  dv_journal :: "string list"

definition lasting_paths :: "deletion_job \<Rightarrow> vault_disk \<Rightarrow> string list" where
  "lasting_paths J d = (case dj_profile J of
       None \<Rightarrow> row_paths J
     | Some (pid, drafts) \<Rightarrow> filter (\<lambda>p. p \<notin> set (foreign_claims J drafts d)) (row_paths J)
         @ map pj_path (owned_journals J drafts d)) @ restore_paths J d"

definition kept_somewhere :: "deletion_view \<Rightarrow> vault_disk \<Rightarrow> bool" where
  "kept_somewhere V d \<longleftrightarrow> (\<forall>p \<in> set (dv_targets V). \<forall>x. dv_before V p = Some x \<longrightarrow>
     vd_files d p = Some x \<or> (\<exists>op. (op, p, x) \<in> set (vd_trash d)))"

definition deletion_inv :: "deletion_view \<Rightarrow> vault_disk \<Rightarrow> bool" where
  "deletion_inv V d \<longleftrightarrow>
     (\<forall>p. p \<notin> set (dv_targets V) \<longrightarrow> vd_files d p = dv_before V p)
     \<and> (\<forall>p \<in> set (dv_targets V). vd_files d p = None \<or> vd_files d p = dv_before V p)
     \<and> (\<forall>(op, p, x) \<in> set (vd_trash d). p \<in> set (dv_targets V) \<and> dv_before V p = Some x)
     \<and> (if vd_rows d then kept_somewhere V d else \<forall>p \<in> set (dv_must V). vd_files d p = None)
     \<and> (if vd_rows d then vd_journal d = dv_journal V else set (vd_journal d) \<subseteq> set (dv_journal V))
     \<and> (\<not> vd_pending d \<longrightarrow> \<not> vd_rows d \<and> vd_trash d = [] \<and> vd_journal d = [])"

end
