(* ===== verification/ErasureClaims.thy ===== *)
theory ErasureClaims
  imports VaultErasure
begin

text \<open>
  A deletion destroys nothing before the rows are gone, and a retry completes it:
  the crash logic of \<open>delete_complete_vault\<close>.
\<close>

subsection \<open>Moving files\<close>

definition deleting :: "deletion_view \<Rightarrow> bool \<Rightarrow> vault_disk \<Rightarrow> bool" where
  "deleting V b d \<longleftrightarrow> deletion_inv V d \<and> vd_pending d \<and> vd_rows d = b"

definition all_gone :: "deletion_view \<Rightarrow> vault_disk \<Rightarrow> bool" where
  "all_gone V d \<longleftrightarrow> (\<forall>p \<in> set (dv_must V). vd_files d p = None)"

lemma in_trash_Some: "in_trash op p d = Some x \<Longrightarrow> (op, p, x) \<in> set (vd_trash d)"
  by (auto simp: in_trash_def find_Some_iff in_set_conv_nth)

lemma deletingD:
  assumes "deleting V b d"
  shows "p \<notin> set (dv_targets V) \<Longrightarrow> vd_files d p = dv_before V p"
    and "p \<in> set (dv_targets V) \<Longrightarrow> vd_files d p = None \<or> vd_files d p = dv_before V p"
    and "(op, p, x) \<in> set (vd_trash d) \<Longrightarrow> p \<in> set (dv_targets V) \<and> dv_before V p = Some x"
    and "b \<Longrightarrow> kept_somewhere V d" and "\<not> b \<Longrightarrow> all_gone V d"
  using assms by (auto simp: deleting_def deletion_inv_def all_gone_def split: if_splits)

lemma move_to_trash_keeps:
  assumes "deleting V True d" and "p \<in> set (dv_targets V)"
  shows "deleting V True (move_to_trash op p d)"
proof (cases "vd_files d p")
  case None
  with assms(1) show ?thesis by (simp add: move_to_trash_def)
next
  case (Some x)
  with deletingD(2) [OF assms] have x: "dv_before V p = Some x" by auto
  have "kept_somewhere V d" by (rule deletingD(4) [OF assms(1)]) simp
  then have "kept_somewhere V (move_to_trash op p d)"
    using x Some by (fastforce simp: kept_somewhere_def move_to_trash_def)
  with assms x Some show ?thesis
    by (auto simp: deleting_def deletion_inv_def move_to_trash_def split: if_splits)
qed

lemma move_back_keeps:
  assumes "deleting V True d"
  shows "deleting V True (move_back op p d)"
proof (cases "in_trash op p d")
  case None
  with assms show ?thesis by (simp add: move_back_def)
next
  case (Some x)
  from deletingD(3) [OF assms in_trash_Some [OF this]] have x: "p \<in> set (dv_targets V)" "dv_before V p = Some x" by auto
  have "kept_somewhere V d" by (rule deletingD(4) [OF assms]) simp
  then have "kept_somewhere V (move_back op p d)"
    using x Some by (fastforce simp: kept_somewhere_def move_back_def)
  with assms x Some show ?thesis
    by (auto simp: deleting_def deletion_inv_def move_back_def split: if_splits)
qed

lemma safe_flush: "(\<And>d. P d \<Longrightarrow> I d) \<Longrightarrow> safe h P flush (\<lambda>_. P) I"
  unfolding flush_def by (rule safe_step) auto

lemma safe_restore_files:
  "safe h (\<lambda>d. deleting V True d) (restore_files op staged) (\<lambda>_. deleting V True) (deleting V True)"
proof (induction staged)
  case Nil
  show ?case by (auto simp: restore_files_def intro: safe_return)
next
  case (Cons p staged)
  let ?A = "deleting V True"
  have f: "safe h ?A flush (\<lambda>_. ?A) ?A" by (rule safe_flush)
  have undo: "safe h ?A (durable StagingFailed (move_back op p)) (\<lambda>_. ?A) ?A"
    by (rule safe_step) (auto intro: move_back_keeps)
  have "safe h ?A (restore_one op p) (\<lambda>_. ?A) ?A"
    unfolding restore_one_def
  proof (rule safe_read_bind)
    fix destination
    have "safe h ?A (io_then flush (io_then (durable StagingFailed (move_back op p)) (io_then flush flush))) (\<lambda>_. ?A) ?A"
      by (rule safe_then [OF f safe_then [OF undo safe_then [OF f f]]])
    then show "safe h (\<lambda>d. ?A d \<and> in_trash op p d = destination) (if destination = None then io_return ()
        else io_then flush (io_then (durable StagingFailed (move_back op p)) (io_then flush flush))) (\<lambda>_. ?A) ?A"
      by (cases "destination = None") (auto intro: safe_return elim: safe_pre)
  qed
  from safe_then [OF this Cons [unfolded restore_files_def]] show ?case by (simp add: restore_files_def)
qed

text \<open>Where a failure occurs after staging began, the staged files are put back before the error goes on.\<close>

lemma safe_put_back:
  assumes "\<not> h"
  shows "safe h (deleting V True) (io_then (restore_files op staged) (io_fail e)) Q (deleting V True)"
  by (rule safe_then [OF safe_restore_files]) (use assms in \<open>auto intro: safe_fail\<close>)

subsection \<open>Staging\<close>

definition staging :: "deletion_view \<Rightarrow> bool \<Rightarrow> string \<Rightarrow> string set \<Rightarrow> string set \<Rightarrow> vault_disk \<Rightarrow> bool" where
  "staging V h op D R d \<longleftrightarrow> deleting V True d \<and> (\<forall>q \<in> D. vd_files d q = None)
     \<and> (h \<longrightarrow> (\<forall>q \<in> R. in_trash op q d = None))"

lemma safe_stage_one:
  assumes "p \<in> set (dv_targets V)" and "p \<notin> R"
  shows "safe h (staging V h op D (insert p R)) (stage_one op p) (\<lambda>_. staging V h op (insert p D) R) (deleting V True)"
  unfolding stage_one_def
proof (rule safe_read_bind)
  fix r :: "string option \<times> string option"
  obtain source destination where r: "r = (source, destination)" by (cases r)
  let ?P = "\<lambda>d. staging V h op D (insert p R) d \<and> (vd_files d p, in_trash op p d) = r"
  let ?Q = "staging V h op (insert p D) R"
  have inv: "deleting V True d" if "staging V h op D' R' d" for D' R' d using that by (simp add: staging_def)
  have move: "?Q (move_to_trash op p d)" if "?P d" for d
    using that move_to_trash_keeps [OF inv assms(1), of D "insert p R" d op] assms(2)
    by (auto simp: staging_def move_to_trash_def in_trash_def r split: option.splits)
  have 1: "safe h ?P flush (\<lambda>_. ?P) (deleting V True)" by (rule safe_flush) (simp add: staging_def)
  have 2: "safe h ?P (durable StagingFailed (move_to_trash op p)) (\<lambda>_. ?Q) (deleting V True)"
    by (rule safe_step) (use move inv in blast)+
  have 3: "safe h ?Q flush (\<lambda>_. ?Q) (deleting V True)" by (rule safe_flush) (simp add: staging_def)
  have 4: "safe h ?Q (io_then flush (io_then flush (io_return True))) (\<lambda>_. ?Q) (deleting V True)"
    by (rule safe_then [OF 3 safe_then [OF 3]]) (simp add: safe_return)
  have 5: "safe h ?P (if destination \<noteq> None then io_fail StagingConflict
      else io_then (durable StagingFailed (move_to_trash op p)) (io_then flush (io_then flush (io_return True))))
      (\<lambda>_. ?Q) (deleting V True)"
    using safe_then [OF 2 4] by (auto simp: staging_def r intro: safe_fail)
  have "?Q d" if "?P d" "source = None" for d using that by (auto simp: staging_def r)
  then show "safe h ?P (case r of (source, destination) \<Rightarrow> if source = None then io_return False
      else io_then flush (if destination \<noteq> None then io_fail StagingConflict
        else io_then (durable StagingFailed (move_to_trash op p)) (io_then flush (io_then flush (io_return True)))))
      (\<lambda>_. ?Q) (deleting V True)"
    using safe_then [OF 1 5] by (cases "source = None") (auto simp: r intro: safe_return)
qed

lemma safe_stage_files:
  assumes "set ps \<subseteq> set (dv_targets V)" and "distinct ps"
  shows "safe h (staging V h op D (set ps)) (stage_files op ps staged)
    (\<lambda>_ d. deleting V True d \<and> (\<forall>q \<in> D \<union> set ps. vd_files d q = None)) (deleting V True)"
  using assms
proof (induction ps arbitrary: D staged)
  case Nil
  show ?case by (auto simp: staging_def intro: safe_return)
next
  case (Cons p ps)
  have one: "safe h (staging V h op D (set (p # ps))) (stage_one op p) (\<lambda>_. staging V h op (insert p D) (set ps)) (deleting V True)"
    using safe_stage_one [of p V "set ps"] Cons.prems by simp
  have "safe h (staging V h op D (set (p # ps)))
      (io_catch (stage_one op p) (\<lambda>e. io_then (restore_files op staged) (io_fail e)))
      (\<lambda>_. staging V h op (insert p D) (set ps)) (deleting V True)"
    by (rule safe_catch [OF one safe_put_back]) auto
  from safe_bind [OF this Cons.IH] Cons.prems show ?case by simp
qed

lemma stage_nothing:
  assumes "\<forall>p \<in> set ps. vd_files d p = None"
  shows "stage_files op ps staged (d, fs) = (Done staged, d, fs)"
  using assms
  by (induction ps) (simp_all add: io_return_def stage_one_def io_bind_def io_catch_def io_read_def)

lemma safe_stage_nothing:
  assumes "set ps \<subseteq> set (dv_must V)"
  shows "safe h (deleting V False) (stage_files op ps []) (\<lambda>st d. deleting V False d \<and> st = []) I"
proof -
  have "stage_files op ps [] (d, fs) = (Done [], d, fs)" if "deleting V False d" for d fs
    using deletingD(5) [OF that] assms by (intro stage_nothing) (auto simp: all_gone_def)
  then show ?thesis by (auto simp: safe_def triple_def)
qed

subsection \<open>Committing and cleaning up\<close>

definition staged_all :: "deletion_view \<Rightarrow> string list \<Rightarrow> vault_disk \<Rightarrow> bool" where
  "staged_all V st d \<longleftrightarrow> (deleting V True d \<and> all_gone V d) \<or> (deleting V False d \<and> st = [])"

lemma commit_row_deletion:
  "staged_all V st d \<Longrightarrow> deleting V False (delete_rows_commit d)"
  by (auto simp: staged_all_def deleting_def deletion_inv_def delete_rows_commit_def all_gone_def)

lemma staged_inv: "staged_all V st d \<Longrightarrow> deletion_inv V d"
  by (auto simp: staged_all_def deleting_def)

lemma safe_fallback:
  assumes "\<not> h"
  shows "safe h (\<lambda>d. deleting V True d \<or> (deleting V False d \<and> st = []))
    (io_then (restore_files op st) (io_fail e)) Q (deletion_inv V)"
proof (cases "st = []")
  case True
  then show ?thesis
    using assms by (auto simp: restore_files_def io_then_def io_bind_def io_return_def io_fail_def safe_def triple_def deleting_def)
next
  case False
  show ?thesis
    by (rule safe_weaken [OF safe_put_back [OF assms, of V op st e Q]]) (use False in \<open>auto simp: deleting_def\<close>)
qed

lemma safe_commit_deletion:
  "safe h (staged_all V st) (commit_deletion op st) (\<lambda>_. deleting V False) (deletion_inv V)"
proof -
  let ?E = "\<lambda>d. deleting V True d \<or> (deleting V False d \<and> st = [])"
  let ?R = "\<lambda>d. staged_all V st d \<or> deleting V False d"
  have E: "?E d" if "staged_all V st d" for d using that by (auto simp: staged_all_def)
  have "safe h (staged_all V st) (durable RowsFailed (\<lambda>d. d)) (\<lambda>_. staged_all V st) ?E"
    by (rule safe_step) (auto simp: staged_all_def)
  then have 1: "safe h (staged_all V st) (io_catch (durable RowsFailed (\<lambda>d. d)) (\<lambda>e. io_then (restore_files op st) (io_fail e)))
      (\<lambda>_. staged_all V st) (deletion_inv V)"
    by (rule safe_catch [OF _ safe_fallback]) (auto simp: deleting_def)
  have commit: "safe h (staged_all V st) (durable RowsFailed delete_rows_commit) (\<lambda>_. deleting V False) ?R"
    by (rule safe_step) (auto intro: commit_row_deletion)
  have known: "safe h ?R (io_bind (io_read (\<lambda>d. \<not> vd_rows d)) (\<lambda>published.
      if published then io_return () else io_then (restore_files op st) (io_fail e))) (\<lambda>_. deleting V False) (deletion_inv V)"
    if "\<not> h" for e
  proof (rule safe_read_bind)
    fix published
    show "safe h (\<lambda>d. ?R d \<and> (\<not> vd_rows d) = published)
        (if published then io_return () else io_then (restore_files op st) (io_fail e)) (\<lambda>_. deleting V False) (deletion_inv V)"
    proof (cases published)
      case True
      then show ?thesis by (auto simp: staged_all_def deleting_def intro: safe_return)
    next
      case False
      have "safe h (\<lambda>d. ?R d \<and> (\<not> vd_rows d) = published) (io_then (restore_files op st) (io_fail e))
          (\<lambda>_. deleting V False) (deletion_inv V)"
        by (rule safe_pre [OF safe_fallback [OF that]]) (use False in \<open>auto simp: staged_all_def deleting_def\<close>)
      with False show ?thesis by simp
    qed
  qed
  have verify: "safe h ?R (durable CommitUnverified (\<lambda>d. d)) (\<lambda>_. ?R) (deletion_inv V)"
    by (rule safe_step) (auto simp: deleting_def dest: staged_inv)
  have handler: "safe h ?R (io_then (durable CommitUnverified (\<lambda>d. d)) (io_bind (io_read (\<lambda>d. \<not> vd_rows d)) (\<lambda>published.
      if published then io_return () else io_then (restore_files op st) (io_fail e)))) (\<lambda>_. deleting V False) (deletion_inv V)"
    if "\<not> h" for e
    by (rule safe_then [OF verify known [OF that]])
  have 2: "safe h (staged_all V st) (io_catch (durable RowsFailed delete_rows_commit)
      (\<lambda>e. io_then (durable CommitUnverified (\<lambda>d. d)) (io_bind (io_read (\<lambda>d. \<not> vd_rows d)) (\<lambda>published.
        if published then io_return () else io_then (restore_files op st) (io_fail e))))) (\<lambda>_. deleting V False) (deletion_inv V)"
    by (rule safe_catch [OF commit handler]) (auto simp: deleting_def dest: staged_inv)
  show ?thesis unfolding commit_deletion_def by (rule safe_then [OF 1 2])
qed

lemma safe_remove_staged:
  "safe h (deleting V False) remove_staged_files (\<lambda>_ d. deleting V False d \<and> vd_trash d = []) (deleting V False)"
proof -
  let ?C = "deleting V False"
  have drop: "?C (drop_trash d)" if "?C d" for d
  proof -
    have "set (vd_trash (drop_trash d)) \<subseteq> set (vd_trash d)" by (cases "vd_trash d") (auto simp: drop_trash_def)
    with that show ?thesis
      by (cases "vd_trash d") (auto simp: deleting_def deletion_inv_def drop_trash_def)
  qed
  have loop: "safe h (\<lambda>d. ?C d \<and> length (vd_trash d) = length ts) (io_each (\<lambda>_. durable CleanupFailed drop_trash) ts)
      (\<lambda>_ d. ?C d \<and> vd_trash d = []) ?C" for ts :: "(string \<times> string \<times> string) list"
  proof (induction ts)
    case Nil
    show ?case by (auto intro: safe_return)
  next
    case (Cons t ts)
    have "safe h (\<lambda>d. ?C d \<and> length (vd_trash d) = length (t # ts)) (durable CleanupFailed drop_trash)
        (\<lambda>_ d. ?C d \<and> length (vd_trash d) = length ts) ?C"
      by (rule safe_step) (use drop in \<open>auto simp: drop_trash_def\<close>)
    from safe_then [OF this Cons] show ?case by simp
  qed
  show ?thesis
    unfolding remove_staged_files_def by (rule safe_read_bind) (rule safe_pre [OF loop], simp)
qed

lemma safe_tried:
  assumes "safe h P m (\<lambda>_. Q) P" and "\<And>d. P d \<Longrightarrow> I d"
  shows "safe h P (io_catch (io_then m (io_return True)) (\<lambda>_. io_return False))
    (\<lambda>ok d. (if ok then Q d else P d) \<and> (h \<longrightarrow> ok)) I"
proof -
  have "safe h P (io_then m (io_return True)) (\<lambda>ok d. (if ok then Q d else P d) \<and> (h \<longrightarrow> ok)) P"
    by (rule safe_then [OF assms(1)]) (simp add: safe_return)
  then show ?thesis by (rule safe_catch) (auto intro: safe_return assms(2))
qed

lemma safe_finish_deletion:
  "safe h (deleting V False) finish_committed_deletion (\<lambda>_ d. deleting V False d \<and> vd_trash d = []) (deletion_inv V)"
  unfolding finish_committed_deletion_def
proof (rule safe_bind)
  let ?C = "deleting V False"
  have inv: "deletion_inv V d" if "?C d" for d using that by (simp add: deleting_def)
  have step: "safe h ?C (durable CleanupFailed (\<lambda>d. d)) (\<lambda>_. ?C) ?C" by (rule safe_step) auto
  have "safe h ?C (io_catch (io_then (durable CleanupFailed (\<lambda>d. d)) (io_return True)) (\<lambda>_. io_return False))
      (\<lambda>ok d. (if ok then ?C d else ?C d) \<and> (h \<longrightarrow> ok)) (deletion_inv V)"
    by (rule safe_tried [OF step inv])
  then show "safe h ?C (io_catch (io_then (durable CleanupFailed (\<lambda>d. d)) (io_return True)) (\<lambda>_. io_return False))
      (\<lambda>ok d. ?C d \<and> (h \<longrightarrow> ok)) (deletion_inv V)" by simp
  fix sanitized
  let ?D = "\<lambda>d. ?C d \<and> vd_trash d = []"
  have tried: "safe h ?C (io_catch (io_then remove_staged_files (io_return True)) (\<lambda>_. io_return False))
      (\<lambda>ok d. (if ok then ?D d else ?C d) \<and> (h \<longrightarrow> ok)) (deletion_inv V)"
    by (rule safe_tried [OF safe_remove_staged inv])
  have "safe h (\<lambda>d. ?C d \<and> (h \<longrightarrow> sanitized)) (io_bind (io_catch (io_then remove_staged_files (io_return True)) (\<lambda>_. io_return False))
      (\<lambda>removed. if sanitized \<and> removed then io_return () else io_fail CleanupFailed)) (\<lambda>_. ?D) (deletion_inv V)"
  proof (cases "h \<longrightarrow> sanitized")
    case True
    have "safe h ?C (io_bind (io_catch (io_then remove_staged_files (io_return True)) (\<lambda>_. io_return False))
        (\<lambda>removed. if sanitized \<and> removed then io_return () else io_fail CleanupFailed)) (\<lambda>_. ?D) (deletion_inv V)"
      by (rule safe_bind [OF tried]) (use True inv in \<open>auto intro!: safe_return safe_fail split: if_splits\<close>)
    then show ?thesis by (rule safe_pre) simp
  qed (auto intro: safe_empty)
  then show "safe h (\<lambda>d. ?C d \<and> (h \<longrightarrow> sanitized)) (io_bind (io_catch (io_then remove_staged_files (io_return True)) (\<lambda>_. io_return False))
      (\<lambda>removed. if sanitized \<and> removed then io_return () else io_fail CleanupFailed)) (\<lambda>_. ?D) (deletion_inv V)" .
qed

subsection \<open>The whole deletion\<close>

definition finished :: "deletion_view \<Rightarrow> vault_disk \<Rightarrow> bool" where
  "finished V d \<longleftrightarrow> deletion_inv V d \<and> \<not> vd_rows d \<and> all_gone V d \<and> vd_trash d = [] \<and> vd_journal d = [] \<and> \<not> vd_pending d"

definition unused_operation :: "string \<Rightarrow> vault_disk \<Rightarrow> bool" where
  "unused_operation op d \<longleftrightarrow> (\<forall>(o', q, x) \<in> set (vd_trash d). o' \<noteq> op)"

lemma unused_in_trash: "unused_operation op d \<Longrightarrow> in_trash op q d = None"
  by (auto simp: unused_operation_def in_trash_def find_None_iff)

text \<open>The paths of an attempt, relative to a view: all of them are targets, and what must be gone is gone or among them.\<close>

definition paths_ready :: "deletion_view \<Rightarrow> string list \<Rightarrow> vault_disk \<Rightarrow> bool" where
  "paths_ready V ps d \<longleftrightarrow> set ps \<subseteq> set (dv_targets V) \<and> distinct ps
     \<and> (if vd_rows d then \<forall>p \<in> set (dv_must V). p \<in> set ps \<or> vd_files d p = None else set ps \<subseteq> set (dv_must V))"

lemma safe_stage_all:
  "safe h (\<lambda>d. deletion_inv V d \<and> vd_pending d \<and> (h \<longrightarrow> unused_operation op d) \<and> paths_ready V ps d)
     (stage_files op ps []) (\<lambda>st. staged_all V st) (deletion_inv V)"
proof -
  let ?P = "\<lambda>b d. deletion_inv V d \<and> vd_pending d \<and> (h \<longrightarrow> unused_operation op d) \<and> paths_ready V ps d \<and> vd_rows d = b"
  have "safe h (?P b) (stage_files op ps []) (\<lambda>st. staged_all V st) (deletion_inv V)" for b
  proof (cases "\<exists>d. ?P b d")
    case False
    then show ?thesis by (intro safe_empty) blast
  next
    case True
    then have sub: "set ps \<subseteq> set (dv_targets V)" and dist: "distinct ps"
      by (auto simp: paths_ready_def)
    show ?thesis
    proof (cases b)
      case True
      show ?thesis
        by (rule safe_weaken [OF safe_stage_files [OF sub dist, of h op "set (dv_must V) - set ps" "[]"]])
           (use True in \<open>auto simp: staging_def deleting_def staged_all_def all_gone_def paths_ready_def intro: unused_in_trash\<close>)
    next
      case False
      with \<open>\<exists>d. ?P b d\<close> have "set ps \<subseteq> set (dv_must V)" by (auto simp: paths_ready_def)
      from safe_stage_nothing [OF this] show ?thesis
        by (rule safe_weaken) (use False in \<open>auto simp: deleting_def staged_all_def\<close>)
    qed
  qed
  note both = this
  show ?thesis
    by (rule safe_cases [where b = vd_rows])
       (rule safe_pre [OF both [of True]], simp, rule safe_pre [OF both [of False]], simp)
qed

lemma safe_delete:
  "safe h (\<lambda>d. deletion_inv V d \<and> (\<forall>ps. deletion_paths (dv_job V) d = Inr ps \<longrightarrow> paths_ready V ps d)
       \<and> (h \<longrightarrow> vd_pending d \<and> unused_operation op d \<and> (\<exists>ps. deletion_paths (dv_job V) d = Inr ps)))
     (delete_complete_vault (dv_job V) op) (\<lambda>_. finished V) (deletion_inv V)"
  unfolding delete_complete_vault_def
proof (rule safe_read_bind)
  fix r :: "bool \<times> (deletion_error + string list)"
  obtain prepared computed where r: "r = (prepared, computed)" by (cases r)
  let ?P = "\<lambda>d. (deletion_inv V d \<and> (\<forall>ps. deletion_paths (dv_job V) d = Inr ps \<longrightarrow> paths_ready V ps d)
       \<and> (h \<longrightarrow> vd_pending d \<and> unused_operation op d \<and> (\<exists>ps. deletion_paths (dv_job V) d = Inr ps)))
     \<and> (vd_pending d, deletion_paths (dv_job V) d) = r"
  let ?D = "\<lambda>d. deleting V False d \<and> vd_trash d = []"
  have 1: "safe h ?D (durable CleanupFailed drop_journal) (\<lambda>_ d. ?D d \<and> vd_journal d = []) (deletion_inv V)"
    by (rule safe_step) (auto simp: deleting_def deletion_inv_def drop_journal_def)
  have 2: "safe h (\<lambda>d. ?D d \<and> vd_journal d = []) (durable CleanupFailed clear_pending) (\<lambda>_. finished V) (deletion_inv V)"
    by (rule safe_step) (auto simp: deleting_def deletion_inv_def clear_pending_def finished_def all_gone_def)
  have rest: "safe h (staged_all V st) (io_then (commit_deletion op st) (io_then finish_committed_deletion
      (io_then (durable CleanupFailed drop_journal) (durable CleanupFailed clear_pending)))) (\<lambda>_. finished V) (deletion_inv V)" for st
    by (rule safe_then [OF safe_commit_deletion safe_then [OF safe_finish_deletion safe_then [OF 1 2]]])
  have body: "safe h ?P (io_bind (stage_files op ps []) (\<lambda>staged. io_then (commit_deletion op staged)
      (io_then finish_committed_deletion (io_then (durable CleanupFailed drop_journal) (durable CleanupFailed clear_pending)))))
      (\<lambda>_. finished V) (deletion_inv V)" if prepared "computed = Inr ps" for ps
    by (rule safe_bind [OF safe_pre [OF safe_stage_all] rest]) (use that in \<open>auto simp: r\<close>)
  have "safe h ?P (case computed of Inl e \<Rightarrow> io_fail e | Inr paths \<Rightarrow> io_bind (stage_files op paths []) (\<lambda>staged. io_then (commit_deletion op staged)
      (io_then finish_committed_deletion (io_then (durable CleanupFailed drop_journal) (durable CleanupFailed clear_pending)))))
      (\<lambda>_. finished V) (deletion_inv V)" if prepared
    using body [OF that] by (cases computed) (auto simp: r intro: safe_fail)
  then show "safe h ?P (case r of (prepared, computed) \<Rightarrow> if \<not> prepared then io_fail NotPrepared
      else (case computed of Inl e \<Rightarrow> io_fail e | Inr paths \<Rightarrow> io_bind (stage_files op paths []) (\<lambda>staged. io_then (commit_deletion op staged)
        (io_then finish_committed_deletion (io_then (durable CleanupFailed drop_journal) (durable CleanupFailed clear_pending))))))
      (\<lambda>_. finished V) (deletion_inv V)"
    by (cases prepared) (auto simp: r intro: safe_fail)
qed

subsection \<open>The paths of later attempts\<close>

text \<open>
  Journals have their own directory: no path of a row, of a restore journal or of an
  artifact is the path of a publication journal.
\<close>

definition journals_apart :: "deletion_job \<Rightarrow> vault_disk \<Rightarrow> bool" where
  "journals_apart J d \<longleftrightarrow> distinct (map pj_path (dj_journals J))
     \<and> list_all (\<lambda>j. pj_path j \<notin> set (row_paths J) \<and> pj_path j \<notin> set (vd_journal d)
         \<and> list_all (\<lambda>k. pj_path j \<notin> set (pj_artifacts k)) (dj_journals J)) (dj_journals J)"

definition prepared_vault :: "vault_disk \<Rightarrow> bool" where
  "prepared_vault d \<longleftrightarrow> vd_rows d \<and> vd_pending d \<and> vd_trash d = []"

definition view_of :: "deletion_job \<Rightarrow> vault_disk \<Rightarrow> string list \<Rightarrow> deletion_view" where
  "view_of J d targets = \<lparr>dv_job = J, dv_before = vd_files d, dv_targets = targets,
     dv_must = lasting_paths J d, dv_journal = vd_journal d\<rparr>"

lemmas path_defs = deletion_paths_def exclusive_publication_paths_def

lemma deletion_paths_Inr:
  assumes "deletion_paths J d = Inr ps" and "vd_rows d"
  shows "distinct ps" and "dj_profile J = None \<Longrightarrow> set ps = set (row_paths J) \<union> set (restore_paths J d)"
    and "dj_profile J = Some (pid, drafts) \<Longrightarrow> set ps = {p \<in> set (row_paths J). p \<notin> set (foreign_claims J drafts d)}
      \<union> pj_path ` set (owned_journals J drafts d)
      \<union> {p. (\<exists>j \<in> set (owned_journals J drafts d). p \<in> set (pj_artifacts j)) \<and> p \<notin> set (foreign_claims J drafts d) \<and> \<not> dj_foreign J p}
      \<union> set (restore_paths J d)"
  using assms by (auto simp: path_defs Let_def split: option.splits sum.splits if_splits prod.splits)

lemma lasting_subset:
  assumes "deletion_paths J d = Inr ps" and "vd_rows d"
  shows "set (lasting_paths J d) \<subseteq> set ps"
proof (cases "dj_profile J")
  case None
  with deletion_paths_Inr(2) [OF assms] show ?thesis by (simp add: lasting_paths_def)
next
  case (Some x)
  obtain pid drafts where "x = (pid, drafts)" by (cases x)
  with Some deletion_paths_Inr(3) [OF assms, of pid drafts] show ?thesis by (auto simp: lasting_paths_def)
qed

lemma foreign_not_target:
  assumes apart: "journals_apart J d" and paths: "deletion_paths J d = Inr ps" and rows: "vd_rows d"
    and prof: "dj_profile J = Some (pid, drafts)" and j: "j \<in> set (dj_journals J)" "pj_draft j \<notin> set drafts"
  shows "pj_path j \<notin> set ps"
proof
  assume "pj_path j \<in> set ps"
  with deletion_paths_Inr(3) [OF paths rows prof] apart j(1)
  have "pj_path j \<in> pj_path ` set (owned_journals J drafts d)"
    by (auto simp: journals_apart_def restore_paths_def owned_journals_def journals_in_place_def list_all_iff)
  then obtain k where k: "k \<in> set (dj_journals J)" "pj_draft k \<in> set drafts" "pj_path j = pj_path k"
    by (auto simp: owned_journals_def journals_in_place_def)
  with apart j(1) have "j = k" by (auto simp: journals_apart_def distinct_map dest: inj_onD)
  with k j show False by simp
qed

text \<open>What a later attempt reads, compared with the first one.\<close>

lemma later_journals:
  assumes apart: "journals_apart J d0" and paths: "deletion_paths J d0 = Inr ps0" and rows0: "vd_rows d0"
    and inv: "deletion_inv (view_of J d0 ps0) d" and prof: "dj_profile J = Some (pid, drafts)"
  shows "foreign_claims J drafts d = foreign_claims J drafts d0"
    and "set (journals_in_place J d) \<subseteq> set (journals_in_place J d0)"
    and "set (owned_journals J drafts d) \<subseteq> set (owned_journals J drafts d0)"
proof -
  have files: "p \<notin> set ps0 \<Longrightarrow> vd_files d p = vd_files d0 p"
    "p \<in> set ps0 \<Longrightarrow> vd_files d p = None \<or> vd_files d p = vd_files d0 p" for p
    using inv by (auto simp: deletion_inv_def view_of_def)
  have "filter (\<lambda>j. pj_draft j \<notin> set drafts) (journals_in_place J d)
      = filter (\<lambda>j. pj_draft j \<notin> set drafts) (journals_in_place J d0)"
    unfolding journals_in_place_def filter_filter
    by (rule filter_cong [OF refl]) (use files(1) foreign_not_target [OF apart paths rows0 prof] in auto)
  then show "foreign_claims J drafts d = foreign_claims J drafts d0" by (simp add: foreign_claims_def)
  have "vd_files d p \<noteq> None \<Longrightarrow> vd_files d0 p \<noteq> None" for p using files [of p] by (cases "p \<in> set ps0") auto
  then show "set (journals_in_place J d) \<subseteq> set (journals_in_place J d0)"
    by (auto simp: journals_in_place_def)
  then show "set (owned_journals J drafts d) \<subseteq> set (owned_journals J drafts d0)"
    by (auto simp: owned_journals_def)
qed

lemma later_restore_paths:
  assumes "deletion_inv (view_of J d0 ps0) d"
  shows "vd_rows d \<Longrightarrow> restore_paths J d = restore_paths J d0"
    and "set (restore_paths J d) \<subseteq> set (restore_paths J d0)"
  using assms by (auto simp: deletion_inv_def view_of_def restore_paths_def split: if_splits)

lemma later_paths:
  assumes apart: "journals_apart J d0" and paths: "deletion_paths J d0 = Inr ps0" and rows0: "vd_rows d0"
    and inv: "deletion_inv (view_of J d0 ps0) d"
  shows "\<exists>ps. deletion_paths J d = Inr ps" and "deletion_paths J d = Inr ps \<Longrightarrow> paths_ready (view_of J d0 ps0) ps d"
proof -
  note restore = later_restore_paths [OF inv]
  have lasting: "set (lasting_paths J d0) \<subseteq> set ps0" by (rule lasting_subset [OF paths rows0])
  have packets: "\<not> list_ex (\<lambda>(stored, identity). stored \<noteq> identity) (dj_packets J)"
    using paths rows0 by (simp add: deletion_paths_def split: if_splits)
  show "\<exists>ps. deletion_paths J d = Inr ps"
  proof (cases "vd_rows d")
    case True
    show ?thesis
    proof (cases "dj_profile J")
      case None
      with packets show ?thesis by (simp add: deletion_paths_def)
    next
      case (Some x)
      obtain pid drafts where x: "x = (pid, drafts)" by (cases x)
      note later = later_journals [OF apart paths rows0 inv Some [unfolded x]]
      have "\<not> list_ex (\<lambda>j. \<not> pj_readable j) (journals_in_place J d0)"
        "\<not> list_ex (\<lambda>p. \<not> path_of_profile pid p) (concat (map pj_artifacts (owned_journals J drafts d0)))"
        using paths rows0 packets Some x by (auto simp: path_defs Let_def split: if_splits)
      then have "\<not> list_ex (\<lambda>j. \<not> pj_readable j) (journals_in_place J d)"
        "\<not> list_ex (\<lambda>p. \<not> path_of_profile pid p) (concat (map pj_artifacts (owned_journals J drafts d)))"
        using later(2,3) unfolding list_ex_iff set_concat set_map by blast+
      with packets Some x show ?thesis by (simp add: path_defs Let_def)
    qed
  qed (simp add: deletion_paths_def)
  assume ps: "deletion_paths J d = Inr ps"
  show "paths_ready (view_of J d0 ps0) ps d"
  proof (cases "vd_rows d")
    case False
    with ps have "distinct ps" "set ps = set (restore_paths J d)" by (auto simp: deletion_paths_def)
    with False restore(2) lasting show ?thesis
      by (auto simp: paths_ready_def view_of_def lasting_paths_def)
  next
    case True
    note now = deletion_paths_Inr [OF ps True] and first = deletion_paths_Inr [OF paths rows0]
    show ?thesis
    proof (cases "dj_profile J")
      case None
      with True now first restore(1) show ?thesis
        by (simp add: paths_ready_def view_of_def lasting_paths_def)
    next
      case (Some x)
      obtain pid drafts where x: "x = (pid, drafts)" by (cases x)
      note prof = Some [unfolded x]
      note later = later_journals [OF apart paths rows0 inv prof]
      have "set ps \<subseteq> set ps0"
        unfolding now(3) [OF prof] first(3) [OF prof] later(1) restore(1) [OF True]
        using later(3) by (intro Un_mono subset_refl) blast+
      moreover have "p \<in> set ps \<or> vd_files d p = None" if "p \<in> set (lasting_paths J d0)" for p
      proof (cases "p \<in> pj_path ` set (owned_journals J drafts d0)")
        case False
        with that prof have "p \<in> {p \<in> set (row_paths J). p \<notin> set (foreign_claims J drafts d0)} \<union> set (restore_paths J d0)"
          by (auto simp: lasting_paths_def)
        then show ?thesis unfolding now(3) [OF prof] later(1) restore(1) [OF True] by blast
      next
        case j: True
        then obtain j where j: "j \<in> set (owned_journals J drafts d0)" "p = pj_path j" by blast
        then have "j \<in> set (owned_journals J drafts d) \<or> vd_files d p = None"
          by (auto simp: owned_journals_def journals_in_place_def)
        with j(2) show ?thesis unfolding now(3) [OF prof] by auto
      qed
      ultimately show ?thesis using True now(1) by (simp add: paths_ready_def view_of_def)
    qed
  qed
qed

lemma undisturbed_paths:
  assumes rows0: "vd_rows d0" and inv: "deletion_inv (view_of J d0 ps0) d"
    and paths: "deletion_paths J d0 = Inr ps0" and now: "deletion_paths J d = Inr ps"
    and same: "journals_in_place J d = journals_in_place J d0"
  shows "set ps0 \<subseteq> set (lasting_paths J d0) \<union> set ps"
proof (cases "dj_profile J")
  case None
  with deletion_paths_Inr(2) [OF paths rows0] show ?thesis by (auto simp: lasting_paths_def)
next
  case (Some x)
  obtain pid drafts where "x = (pid, drafts)" by (cases x)
  note prof = Some [unfolded this]
  have owned: "owned_journals J drafts d = owned_journals J drafts d0"
    and foreign: "foreign_claims J drafts d = foreign_claims J drafts d0"
    using same by (simp_all add: owned_journals_def foreign_claims_def)
  show ?thesis
  proof (cases "vd_rows d")
    case True
    note now' = deletion_paths_Inr(3) [OF now True prof] and first = deletion_paths_Inr(3) [OF paths rows0 prof]
    show ?thesis
      unfolding first now' owned foreign later_restore_paths(1) [OF inv True] by blast
  next
    case False
    have "False" if "j \<in> set (owned_journals J drafts d0)" for j
    proof -
      from that prof have "pj_path j \<in> set (lasting_paths J d0)" by (auto simp: lasting_paths_def)
      with inv False have "vd_files d (pj_path j) = None" by (simp add: deletion_inv_def view_of_def)
      moreover from that have "j \<in> set (owned_journals J drafts d)" unfolding owned .
      ultimately show False by (simp add: owned_journals_def journals_in_place_def)
    qed
    then have none: "owned_journals J drafts d0 = []" by (cases "owned_journals J drafts d0") auto
    show ?thesis
      using deletion_paths_Inr(3) [OF paths rows0 prof] prof by (auto simp: none lasting_paths_def)
  qed
qed

subsection \<open>Histories of attempts\<close>

fun deletions :: "deletion_job \<Rightarrow> (string \<times> fate list) list \<Rightarrow> vault_disk \<Rightarrow> vault_disk" where
  "deletions J [] d = d"
| "deletions J ((op, fs) # es) d = deletions J es (fst (snd (delete_complete_vault J op (d, fs))))"

lemma view_job [simp]: "dv_job (view_of J d ps) = J" by (simp add: view_of_def)

lemma prepared_inv: "prepared_vault d \<Longrightarrow> deletion_inv (view_of J d ps) d"
  by (auto simp: prepared_vault_def deletion_inv_def view_of_def kept_somewhere_def)

lemma attempt_inv:
  assumes apart: "journals_apart J d0" and paths: "deletion_paths J d0 = Inr ps0" and rows0: "vd_rows d0"
    and inv: "deletion_inv (view_of J d0 ps0) d"
  shows "deletion_inv (view_of J d0 ps0) (fst (snd (delete_complete_vault J op (d, fs))))"
proof -
  let ?V = "view_of J d0 ps0"
  obtain r d' fs' where run: "delete_complete_vault J op (d, fs) = (r, d', fs')" by (metis prod.collapse)
  have "case r of Done x \<Rightarrow> finished ?V d' | Failed e \<Rightarrow> deletion_inv ?V d' | Died \<Rightarrow> deletion_inv ?V d'"
    by (rule safe_run [OF safe_delete])
      (use run inv later_paths(2) [OF apart paths rows0 inv] in simp_all)
  then show ?thesis using run by (cases r) (simp_all add: finished_def)
qed

lemma deletions_inv:
  assumes apart: "journals_apart J d0" and paths: "deletion_paths J d0 = Inr ps0" and rows0: "vd_rows d0"
  shows "deletion_inv (view_of J d0 ps0) d \<Longrightarrow> deletion_inv (view_of J d0 ps0) (deletions J es d)"
proof (induction es arbitrary: d)
  case (Cons e es)
  obtain op fs where e: "e = (op, fs)" by (cases e)
  from Cons.IH [OF attempt_inv [OF apart paths rows0 Cons.prems]] show ?case by (simp add: e)
qed simp

lemma history_inv:
  assumes "prepared_vault d0" and "journals_apart J d0" and "deletion_paths J d0 = Inr ps0"
  shows "deletion_inv (view_of J d0 ps0) (deletions J es d0)"
  using deletions_inv [OF assms(2,3) _ prepared_inv [OF assms(1)]] assms(1) by (simp add: prepared_vault_def)

text \<open>C6: Whatever faults and crashes interrupt the attempts to delete a prepared vault, files that are
  not among the paths that the first attempt computes keep their bytes; while the rows exist every one of
  these paths still has its bytes, in its place or in the trash; once the rows are gone no file that they or the
  restore journal name, and no publication journal of the vault, is left in place; and the pending
  state is only left when the rows, the trash and the restore journal are gone.\<close>

theorem deletion_destroys_only_after_commit:
  fixes J :: deletion_job and history :: "(string \<times> fate list) list" and d0 :: vault_disk
  assumes "prepared_vault d0" and "journals_apart J d0" and "deletion_paths J d0 = Inr targets"
  defines "d \<equiv> deletions J history d0"
  shows "(\<forall>p. p \<notin> set targets \<longrightarrow> vd_files d p = vd_files d0 p)
    \<and> (vd_rows d \<longrightarrow> (\<forall>p x. p \<in> set targets \<and> vd_files d0 p = Some x \<longrightarrow>
         vd_files d p = Some x \<or> (\<exists>op. (op, p, x) \<in> set (vd_trash d))))
    \<and> (\<not> vd_rows d \<longrightarrow> (\<forall>p \<in> set (lasting_paths J d0). vd_files d p = None))
    \<and> (\<not> vd_pending d \<longrightarrow> \<not> vd_rows d \<and> vd_trash d = [] \<and> vd_journal d = [])"
proof -
  have "deletion_inv (view_of J d0 targets) d"
    unfolding d_def by (rule history_inv [OF assms(1-3)])
  then show ?thesis
    by (cases "vd_rows d"; cases "vd_pending d") (simp_all add: deletion_inv_def view_of_def kept_somewhere_def)
qed

lemma ready_with_must:
  assumes "paths_ready V ps d"
  shows "paths_ready (V\<lparr>dv_must := dv_must V @ ps\<rparr>) ps d"
  using assms unfolding paths_ready_def by (simp add: ball_Un split: if_splits)

lemma healthy_run:
  assumes "dv_job V = J" and "deletion_inv V d" and "deletion_paths J d = Inr ps" and "paths_ready V ps d"
    and "vd_pending d" and "unused_operation op d"
  shows "\<exists>d'. delete_complete_vault J op (d, []) = (Done (), d', []) \<and> finished V d'"
proof -
  have "deletion_inv V d \<and> (\<forall>ps. deletion_paths (dv_job V) d = Inr ps \<longrightarrow> paths_ready V ps d)
      \<and> (True \<longrightarrow> vd_pending d \<and> unused_operation op d \<and> (\<exists>ps. deletion_paths (dv_job V) d = Inr ps))"
    using assms by simp
  from safe_healthy [OF safe_delete this] show ?thesis by (simp add: assms(1))
qed

text \<open>One attempt on healthy storage, with what its own paths cover.\<close>

lemma healthy_attempt:
  assumes prep: "prepared_vault d0" and apart: "journals_apart J d0" and paths: "deletion_paths J d0 = Inr ps0"
    and pend: "vd_pending (deletions J history d0)" and op: "unused_operation op (deletions J history d0)"
    and now: "deletion_paths J (deletions J history d0) = Inr ps"
  shows "\<exists>d. delete_complete_vault J op (deletions J history d0, []) = (Done (), d, [])
    \<and> \<not> vd_rows d \<and> (\<forall>p \<in> set (lasting_paths J d0) \<union> set ps. vd_files d p = None)
    \<and> vd_trash d = [] \<and> vd_journal d = [] \<and> \<not> vd_pending d"
proof -
  let ?d = "deletions J history d0"
  let ?V = "(view_of J d0 ps0)\<lparr>dv_must := lasting_paths J d0 @ ps\<rparr>"
  have rows0: "vd_rows d0" using prep by (simp add: prepared_vault_def)
  have inv: "deletion_inv (view_of J d0 ps0) ?d" by (rule history_inv [OF prep apart paths])
  have ready: "paths_ready (view_of J d0 ps0) ps ?d" by (rule later_paths(2) [OF apart paths rows0 inv now])
  have must: "vd_rows ?d \<or> set ps \<subseteq> set (lasting_paths J d0)"
    using ready by (auto simp: paths_ready_def view_of_def)
  then have "deletion_inv ?V ?d"
    using inv by (auto simp: deletion_inv_def view_of_def kept_somewhere_def split: if_splits)
  moreover have "paths_ready ?V ps ?d"
    using ready_with_must [OF ready] by (simp add: view_of_def)
  ultimately obtain d where "delete_complete_vault J op (?d, []) = (Done (), d, [])" "finished ?V d"
    using healthy_run [of ?V J, OF _ _ now _ pend op] by auto
  then show ?thesis by (intro exI [of _ d]) (simp add: finished_def all_gone_def ball_Un)
qed

text \<open>C7: A deletion that is still pending after any history of interrupted attempts is finished by one
  attempt on healthy storage with an operation id of its own: the attempt returns, the rows, every file that they
  or the restore journal named and every publication journal of the vault are gone, nothing is left in the
  trash and the journal, and the vault is ready again. When no earlier attempt has left a publication
  journal out of its place, every path that the first attempt computed is gone.\<close>

theorem healthy_deletion_completes:
  assumes "prepared_vault d0" and "journals_apart J d0" and "deletion_paths J d0 = Inr targets"
    and "vd_pending (deletions J history d0)" and "unused_operation op (deletions J history d0)"
  shows "\<exists>d. delete_complete_vault J op (deletions J history d0, []) = (Done (), d, [])
    \<and> \<not> vd_rows d \<and> (\<forall>p \<in> set (lasting_paths J d0). vd_files d p = None)
    \<and> (journals_in_place J (deletions J history d0) = journals_in_place J d0 \<longrightarrow> (\<forall>p \<in> set targets. vd_files d p = None))
    \<and> vd_trash d = [] \<and> vd_journal d = [] \<and> \<not> vd_pending d"
proof -
  let ?d = "deletions J history d0"
  have rows0: "vd_rows d0" using assms(1) by (simp add: prepared_vault_def)
  have inv: "deletion_inv (view_of J d0 targets) ?d" by (rule history_inv [OF assms(1-3)])
  obtain ps where now: "deletion_paths J ?d = Inr ps" using later_paths(1) [OF assms(2,3) rows0 inv] ..
  have "set targets \<subseteq> set (lasting_paths J d0) \<union> set ps" if "journals_in_place J ?d = journals_in_place J d0"
    by (rule undisturbed_paths [OF rows0 inv assms(3) now that])
  with healthy_attempt [OF assms now] show ?thesis by blast
qed

text \<open>The artifacts that only a publication journal names. An attempt that died after it had moved the journal
  into the trash leaves them in place; the next attempt does not compute their paths, empties the trash with the
  journal and reports success.\<close>

theorem interrupted_deletion_forgets_artifacts:
  assumes "prepared_vault d0" and "journals_apart J d0" and "deletion_paths J d0 = Inr targets"
    and "vd_pending (deletions J history d0)" and "unused_operation op (deletions J history d0)"
    and "deletion_paths J (deletions J history d0) = Inr ps"
    and "p \<notin> set ps" and "p \<notin> set (lasting_paths J d0)"
    and "vd_files (deletions J history d0) p = Some x" and "\<forall>(o', q, y) \<in> set (vd_trash (deletions J history d0)). q \<noteq> p"
  shows "\<exists>d. delete_complete_vault J op (deletions J history d0, []) = (Done (), d, [])
    \<and> \<not> vd_rows d \<and> vd_trash d = [] \<and> vd_journal d = [] \<and> \<not> vd_pending d \<and> vd_files d p = Some x"
proof -
  let ?d = "deletions J history d0"
  let ?V = "(view_of J d0 targets)\<lparr>dv_targets := filter (\<lambda>q. q \<noteq> p) targets, dv_before := (vd_files d0)(p := Some x)\<rparr>"
  have rows0: "vd_rows d0" using assms(1) by (simp add: prepared_vault_def)
  have inv: "deletion_inv (view_of J d0 targets) ?d" by (rule history_inv [OF assms(1-3)])
  have ready: "paths_ready (view_of J d0 targets) ps ?d" by (rule later_paths(2) [OF assms(2,3) rows0 inv assms(6)])
  have "deletion_inv ?V ?d"
    using inv assms(9,10) by (fastforce simp: deletion_inv_def view_of_def kept_somewhere_def)
  moreover have "paths_ready ?V ps ?d" using ready assms(7,8) by (auto simp: paths_ready_def view_of_def split: if_splits)
  ultimately obtain d where run: "delete_complete_vault J op (?d, []) = (Done (), d, [])" and fin: "finished ?V d"
    using healthy_run [of ?V J, OF _ _ assms(6) _ assms(4,5)] by auto
  from fin have "deletion_inv ?V d" by (simp add: finished_def)
  then have "vd_files d p = Some x" by (simp add: deletion_inv_def)
  with run fin show ?thesis by (simp add: finished_def)
qed

subsection \<open>A concrete deletion\<close>

text \<open>A vault with a committed asset, a shared file, an interrupted restore and an interrupted publication.\<close>

definition demo_publication :: publication_journal where
  "demo_publication = \<lparr>pj_path = ''resumes/.publication-journal/v9.json'', pj_readable = True, pj_draft = ''r1'',
     pj_artifacts = [''resumes/p1/v9/ab.pdf'']\<rparr>"

definition demo_vault_job :: deletion_job where
  "demo_vault_job = \<lparr>dj_profile = Some (''p1'', [''r1'']), dj_storage = [''assets/cv'', ''assets/old''],
     dj_packets = [(''packets/a'', ''packets/a'')], dj_foreign = (\<lambda>p. p = ''assets/shared''),
     dj_journals = [demo_publication]\<rparr>"

definition demo_vault :: vault_disk where
  "demo_vault = \<lparr>vd_files = (\<lambda>p. None)(''assets/cv'' \<mapsto> ''CV'', ''assets/shared'' \<mapsto> ''S'', ''assets/part'' \<mapsto> ''P'',
       ''resumes/.publication-journal/v9.json'' \<mapsto> ''{}'', ''resumes/p1/v9/ab.pdf'' \<mapsto> ''PDF''),
     vd_trash = [], vd_rows = True, vd_journal = [''assets/part'', ''assets/shared''], vd_pending = True\<rparr>"

definition demo_targets :: "string list" where
  "demo_targets = [''assets/cv'', ''assets/old'', ''assets/part'', ''packets/a'', ''resumes/.publication-journal/v9.json'',
     ''resumes/p1/v9/ab.pdf'']"

text \<open>A process that dies after the first rename, and a commit whose acknowledgement and verification are lost.\<close>

definition demo_deletions :: "(string \<times> fate list) list" where
  "demo_deletions = [(''user-1/a'', [Works, Works, Dies]),
     (''user-1/b'', replicate 17 Works @ [Lost, Faults])]"

text \<open>A process that dies between the move of the journal and the move of its artifact.\<close>

definition demo_interruption :: "(string \<times> fate list) list" where
  "demo_interruption = [(''user-1/a'', replicate 13 Works @ [Dies])]"

lemma demo_vault_facts:
  "prepared_vault demo_vault" "journals_apart demo_vault_job demo_vault"
  "deletion_paths demo_vault_job demo_vault = Inr demo_targets"
proof -
  show "prepared_vault demo_vault" by (simp add: prepared_vault_def demo_vault_def)
  show "journals_apart demo_vault_job demo_vault" by code_simp
  have "(case deletion_paths demo_vault_job demo_vault of Inl _ \<Rightarrow> [] | Inr ps \<Rightarrow> ps) = demo_targets"
    by code_simp
  then show "deletion_paths demo_vault_job demo_vault = Inr demo_targets"
    by (cases "deletion_paths demo_vault_job demo_vault") (simp_all add: demo_targets_def)
qed

theorem deletion_destroys_only_after_commit_witness:
  "vd_files (deletions demo_vault_job demo_deletions demo_vault) ''assets/shared'' = Some ''S''"
  using deletion_destroys_only_after_commit [OF demo_vault_facts, where history = demo_deletions,
      THEN conjunct1, THEN spec, of "''assets/shared''"]
  by (simp add: demo_targets_def demo_vault_def)

theorem healthy_deletion_completes_witness:
  "\<exists>d. delete_complete_vault demo_vault_job ''user-1/c'' (deletions demo_vault_job demo_deletions demo_vault, []) = (Done (), d, [])
    \<and> \<not> vd_pending d"
proof -
  have "vd_pending (deletions demo_vault_job demo_deletions demo_vault)" by code_simp
  moreover have "unused_operation ''user-1/c'' (deletions demo_vault_job demo_deletions demo_vault)"
    by (simp add: unused_operation_def) code_simp
  ultimately show ?thesis using healthy_deletion_completes [OF demo_vault_facts] by blast
qed

theorem interrupted_deletion_forgets_artifacts_witness:
  "\<exists>d. delete_complete_vault demo_vault_job ''user-1/b'' (deletions demo_vault_job demo_interruption demo_vault, []) = (Done (), d, [])
    \<and> \<not> vd_rows d \<and> \<not> vd_pending d \<and> vd_files d ''resumes/p1/v9/ab.pdf'' = Some ''PDF''"
proof -
  let ?d = "deletions demo_vault_job demo_interruption demo_vault"
  have 1: "vd_pending ?d" by code_simp
  have 2: "unused_operation ''user-1/b'' ?d" by (simp add: unused_operation_def) code_simp
  have "(case deletion_paths demo_vault_job ?d of Inl _ \<Rightarrow> False
      | Inr ps \<Rightarrow> \<not> List.member ps ''resumes/p1/v9/ab.pdf'')" by code_simp
  then obtain ps where 3: "deletion_paths demo_vault_job ?d = Inr ps" "''resumes/p1/v9/ab.pdf'' \<notin> set ps"
    by (cases "deletion_paths demo_vault_job ?d") auto
  have 4: "''resumes/p1/v9/ab.pdf'' \<notin> set (lasting_paths demo_vault_job demo_vault)" by code_simp
  have 5: "vd_files ?d ''resumes/p1/v9/ab.pdf'' = Some ''PDF''" by code_simp
  have 6: "\<forall>(o', q, y) \<in> set (vd_trash ?d). q \<noteq> ''resumes/p1/v9/ab.pdf''" by code_simp
  from interrupted_deletion_forgets_artifacts [OF demo_vault_facts 1 2 3 4 5 6] show ?thesis by blast
qed

end
