(* ===== verification/Readiness.thy ===== *)
theory Readiness
  imports AppModel Float64
begin

text \<open>
  The preflight report of an application: the completeness score of the career
  profile (\<open>backend/career/completeness.py\<close>) and the nine checks that
  \<open>backend/applications/readiness.py\<close> derives from the job snapshot, the profile and
  the linked resume version, with the schema that the report has to satisfy.

  A JSON object is the list of its fields with a truthy value where the code only
  asks for truthiness. Python's \<open>round\<close> of a quotient is \<open>round_div\<close>: the quotients
  here have denominators far below the 53 bits of a float, so the float quotient
  lies on the same side of a tie as the exact one.
\<close>

subsection \<open>The career profile\<close>

record career_fact =
  cf_type :: string
  cf_status :: string
  cf_truthy :: "string list"

record career_goal =
  cg_primary :: bool
  cg_truthy :: "string list"

record career_profile =
  cv_id :: string
  cv_user :: int
  cv_revision :: int
  cv_display_name :: "string option"
  cv_headline :: "string option"
  cv_summary :: "string option"
  cv_email :: "string option"
  cv_phone :: "string option"
  cv_location :: "string list"
  cv_preferences :: "string list"
  cv_facts :: "career_fact list"
  cv_goals :: "career_goal list"

definition truthy :: "string option \<Rightarrow> bool" where
  "truthy v \<longleftrightarrow> (case v of None \<Rightarrow> False | Some s \<Rightarrow> s \<noteq> [])"

definition any_field :: "string list \<Rightarrow> string list \<Rightarrow> bool" where
  "any_field wanted present \<longleftrightarrow> list_ex (\<lambda>f. f \<in> set present) wanted"

definition count_of :: "('a \<Rightarrow> bool) \<Rightarrow> 'a list \<Rightarrow> int" where
  "count_of p xs = int (length (filter p xs))"

definition fact_score :: "career_fact list \<Rightarrow> string list \<Rightarrow> int" where
  "fact_score facts rich_fields =
     (if facts = [] then 0
      else let n = int (length facts);
               confirmed = count_of (\<lambda>f. cf_status f = ''confirmed'') facts;
               rich = count_of (\<lambda>f. any_field rich_fields (cf_truthy f)) facts;
               score = 50 + round_div (25 * confirmed) n
           in min 100 (if rich_fields \<noteq> [] then score + round_div (25 * rich) n else score + 25))"

definition checks_score :: "bool list \<Rightarrow> int" where
  "checks_score checks = round_div (100 * count_of id checks) (int (length checks))"

definition identity_score :: "career_profile \<Rightarrow> int" where
  "identity_score p = checks_score
     [truthy (cv_display_name p), truthy (cv_headline p), truthy (cv_summary p),
      truthy (cv_email p) \<or> truthy (cv_phone p),
      any_field [''name'', ''city'', ''country''] (cv_location p)]"

definition preference_score :: "career_profile \<Rightarrow> int" where
  "preference_score p = (let has = (\<lambda>fs. any_field fs (cv_preferences p)) in checks_score
     [has [''target_roles''], has [''target_industries'', ''preferred_locations''],
      has [''preferred_work_modes'', ''remote_only''], has [''salary'', ''salary_min_chf'']])"

definition goal_score :: "career_goal list \<Rightarrow> int" where
  "goal_score goals = (case goals of [] \<Rightarrow> 0 | g0 # _ \<Rightarrow>
     let g = or_else (List.find cg_primary goals) g0;
         has = (\<lambda>f. f \<in> set (cg_truthy g))
     in checks_score [cg_primary g, has ''target_roles'', has ''target_date'',
          has ''success_criteria'', has ''milestones'', has ''actions''])"

definition section_scores :: "career_profile \<Rightarrow> (string \<times> int) list" where
  "section_scores p =
     (let of_type = (\<lambda>kind. filter (\<lambda>f. cf_type f = kind) (cv_facts p)) in
      [(''identity'', identity_score p),
       (''experience'', fact_score (of_type ''experience'') [''achievements'', ''metrics'', ''description'']),
       (''skills'', fact_score (of_type ''skill'') [''evidence_fact_ids'']),
       (''education'', fact_score (of_type ''education'') [''field'', ''description'']),
       (''achievements'', fact_score (of_type ''achievement'') [''metric_value'', ''details'', ''description'']),
       (''projects'', fact_score (of_type ''project'') [''achievements'', ''description'', ''url'']),
       (''credentials_activities'', fact_score (concat (map of_type [''certification'', ''language'', ''award'',
          ''membership'', ''volunteering'', ''publication'', ''portfolio''])) []),
       (''preferences'', preference_score p),
       (''goals'', goal_score (cv_goals p))])"

definition section_weights :: "(string \<times> int) list" where
  "section_weights =
     [(''identity'', 15), (''experience'', 20), (''skills'', 15), (''education'', 10),
      (''achievements'', 10), (''projects'', 10), (''credentials_activities'', 5),
      (''preferences'', 5), (''goals'', 10)]"

definition weighted_completeness_score :: "(string \<times> int) list \<Rightarrow> int" where
  "weighted_completeness_score sections =
     round_div (sum_list (map (\<lambda>(name, weight). or_else (map_of sections name) 0 * weight) section_weights)) 100"

definition calculate_completeness_score :: "career_profile \<Rightarrow> int" where
  "calculate_completeness_score p = weighted_completeness_score (section_scores p)"

subsection \<open>Bounds of the score\<close>

lemma count_of_bounds: "0 \<le> count_of p xs" "count_of p xs \<le> int (length xs)"
  by (simp_all add: count_of_def)

lemma checks_score_bounds: "checks \<noteq> [] \<Longrightarrow> checks_score checks \<in> {0..100}"
  unfolding checks_score_def
  using round_div_bounds [of "int (length checks)" 0 "100 * count_of id checks" 100] count_of_bounds [of id checks]
  by simp

lemma fact_score_bounds: "fact_score facts wanted \<in> {0..100}" and fact_score_low: "facts \<noteq> [] \<Longrightarrow> 50 \<le> fact_score facts wanted"
proof -
  have "0 \<le> round_div (25 * count_of p facts) (int (length facts))" if "facts \<noteq> []" for p
    using that round_div_bounds(1) [of "int (length facts)" 0 "25 * count_of p facts" 25] count_of_bounds [of p facts]
    by simp
  note low = this [of "\<lambda>f. cf_status f = ''confirmed''"] this [of "\<lambda>f. any_field wanted (cf_truthy f)"]
  show "fact_score facts wanted \<in> {0..100}" "facts \<noteq> [] \<Longrightarrow> 50 \<le> fact_score facts wanted"
    using low by (auto simp: fact_score_def Let_def)
qed

lemma goal_score_bounds: "goal_score goals \<in> {0..100}"
  by (cases goals) (auto simp: goal_score_def Let_def intro!: checks_score_bounds [simplified])

lemma identity_score_bounds: "identity_score p \<in> {0..100}"
  unfolding identity_score_def by (rule checks_score_bounds) simp

lemma preference_score_bounds: "preference_score p \<in> {0..100}"
  unfolding preference_score_def Let_def by (rule checks_score_bounds) simp

lemma section_scores_bounds: "(name, s) \<in> set (section_scores p) \<Longrightarrow> s \<in> {0..100}"
  using identity_score_bounds preference_score_bounds goal_score_bounds fact_score_bounds
  unfolding section_scores_def Let_def by auto

text \<open>The weights add up to a hundred, so the score is a percentage.\<close>

lemma weighted_bounds:
  assumes "\<And>name. or_else (map_of sections name) 0 \<in> {0..100}"
  shows "weighted_completeness_score sections \<in> {0..100}"
proof -
  let ?s = "\<lambda>name. or_else (map_of sections name) 0"
  have b: "0 \<le> ?s n" "?s n \<le> 100" for n using assms [of n] by simp_all
  have "100 * 0 \<le> sum_list (map (\<lambda>(name, weight). ?s name * weight) section_weights)"
    "sum_list (map (\<lambda>(name, weight). ?s name * weight) section_weights) \<le> 100 * 100"
    using b [of "''identity''"] b [of "''experience''"] b [of "''skills''"] b [of "''education''"]
      b [of "''achievements''"] b [of "''projects''"] b [of "''credentials_activities''"]
      b [of "''preferences''"] b [of "''goals''"]
    by (simp_all add: section_weights_def)
  from round_div_bounds [OF _ this] show ?thesis by (simp add: weighted_completeness_score_def)
qed

lemma completeness_bounds: "calculate_completeness_score p \<in> {0..100}"
  unfolding calculate_completeness_score_def
proof (rule weighted_bounds)
  fix name
  show "or_else (map_of (section_scores p) name) 0 \<in> {0..100}"
  proof (cases "map_of (section_scores p) name")
    case (Some s)
    with section_scores_bounds [OF map_of_SomeD [OF Some]] show ?thesis by simp
  qed simp
qed

text \<open>Identity, preferences and goals alone reach 30 of the 60 points that the preflight asks for.\<close>

lemma completeness_without_facts:
  assumes "cv_facts p = []"
  shows "calculate_completeness_score p \<le> 30"
proof -
  have "identity_score p \<le> 100" "preference_score p \<le> 100" "goal_score (cv_goals p) \<le> 100"
    using identity_score_bounds preference_score_bounds goal_score_bounds by auto
  then have "sum_list (map (\<lambda>(name, weight). or_else (map_of (section_scores p) name) 0 * weight) section_weights) \<le> 100 * 30"
    using assms by (simp add: section_weights_def section_scores_def fact_score_def)
  from round_div_mono [OF _ this, of 100] show ?thesis
    by (simp add: calculate_completeness_score_def weighted_completeness_score_def round_div_def [of 3000])
qed

subsection \<open>Published resume versions\<close>

record resume_artifact =
  ra_format :: string
  ra_media_type :: string
  ra_path :: string
  ra_sha256 :: string
  ra_size :: int

record published_version =
  pv_id :: string
  pv_draft :: string
  pv_semantic :: string
  pv_profile_revision :: int
  pv_draft_revision :: "int option" \<comment> \<open>\<open>snapshot.resume.draft_revision\<close>\<close>
  pv_selected :: "string list"
  pv_facts :: "(string \<times> string) list" \<comment> \<open>id and verification status\<close>
  pv_quality_passed :: bool
  pv_renderer :: string
  pv_artifacts :: "resume_artifact list"

text \<open>The files of the vault and the digest of their bytes are arguments.\<close>

record storage_env =
  se_read :: "string \<Rightarrow> string option"
  se_sha256 :: "string \<Rightarrow> string"

definition max_resume_artifact_bytes :: int where
  "max_resume_artifact_bytes = 16 * 1024 * 1024"

definition sha256_shape :: "string \<Rightarrow> bool" where
  "sha256_shape s \<longleftrightarrow> length s = 64 \<and> list_all is_hex_lower s"

definition read_verified_resume_artifact :: "storage_env \<Rightarrow> resume_artifact \<Rightarrow> string option" where
  "read_verified_resume_artifact S a =
     (if ra_size a \<le> 0 \<or> ra_size a > max_resume_artifact_bytes \<or> \<not> sha256_shape (ra_sha256 a) then None
      else case se_read S (ra_path a) of
          None \<Rightarrow> None
        | Some bytes \<Rightarrow>
            if int (length bytes) = ra_size a \<and> se_sha256 S bytes = ra_sha256 a then Some bytes else None)"

definition required_formats :: "string list" where
  "required_formats = [''docx'', ''pdf'']"

definition artifact_media_type :: "string \<Rightarrow> string" where
  "artifact_media_type format = (if format = ''docx''
     then ''application/vnd.openxmlformats-officedocument.wordprocessingml.document'' else ''application/pdf'')"

definition artifact_ok :: "storage_env \<Rightarrow> resume_artifact \<Rightarrow> bool" where
  "artifact_ok S a \<longleftrightarrow> ra_media_type a = artifact_media_type (ascii_lower (ra_format a))
     \<and> read_verified_resume_artifact S a \<noteq> None"

text \<open>Sets of formats are sublists of the two required formats, in sorted order.\<close>

definition formats_with :: "(resume_artifact \<Rightarrow> bool) \<Rightarrow> published_version \<Rightarrow> string list" where
  "formats_with p v = filter (\<lambda>f. list_ex (\<lambda>a. ascii_lower (ra_format a) = f \<and> p a) (pv_artifacts v)) required_formats"

definition artifact_availability :: "storage_env \<Rightarrow> published_version \<Rightarrow> string list \<times> string list \<times> string list" where
  "artifact_availability S v =
     (formats_with (\<lambda>_. True) v, formats_with (artifact_ok S) v, formats_with (\<lambda>a. \<not> artifact_ok S a) v)"

definition verified_facts :: "published_version \<Rightarrow> string list" where
  "verified_facts v = remdups (map fst (filter (\<lambda>(fid, status). fid \<in> set (pv_selected v) \<and> status = ''confirmed'') (pv_facts v)))"

subsection \<open>Checks\<close>

datatype check_status = Passes | Warns | Blocks

datatype evidence_value = Flag bool | Count int | Percent int | Words "string list" | Quoted string

record readiness_check =
  rc_id :: string
  rc_status :: check_status
  rc_awarded :: int
  rc_available :: int
  rc_evidence :: "(string \<times> evidence_value) list"
  rc_action :: "string option"

definition check ::
  "string \<Rightarrow> check_status \<Rightarrow> int \<Rightarrow> (string \<times> evidence_value) list \<Rightarrow> string option \<Rightarrow> readiness_check" where
  "check cid status weight evidence action =
     \<lparr>rc_id = cid, rc_status = status,
      rc_awarded = (if status = Passes then weight else if status = Warns then weight div 2 else 0),
      rc_available = weight, rc_evidence = evidence, rc_action = action\<rparr>"

definition pass_if :: "bool \<Rightarrow> string \<Rightarrow> int \<Rightarrow> (string \<times> evidence_value) list \<Rightarrow> check_status \<Rightarrow> string \<Rightarrow> readiness_check" where
  "pass_if ok cid weight evidence otherwise action =
     check cid (if ok then Passes else otherwise) weight evidence (if ok then None else Some action)"

text \<open>\<open>re.sub(r"\\s+", " ", text).strip()\<close>.\<close>

fun collapse_space :: "string \<Rightarrow> string" where
  "collapse_space [] = []"
| "collapse_space (c # s) =
     (if py_isspace c then (case s of [] \<Rightarrow> '' '' | d # _ \<Rightarrow> if py_isspace d then collapse_space s else CHR '' '' # collapse_space s)
      else c # collapse_space s)"

definition clean_text :: "string option \<Rightarrow> string" where
  "clean_text v = py_strip (collapse_space (text_or v []))"

definition words_or_none :: "string list \<Rightarrow> evidence_value" where
  "words_or_none ws = (if ws = [] then Quoted ''none'' else Words ws)"

definition snapshot_checks :: "snapshot \<Rightarrow> readiness_check list" where
  "snapshot_checks s =
     (let title = clean_text (snap_get s ''title''); company = clean_text (snap_get s ''company'');
          description = clean_text (snap_get s ''description'');
          routes = filter (\<lambda>key. clean_text (snap_get s key) \<noteq> [])
            [''application_email'', ''application_url'', ''external_url'']
      in [pass_if (title \<noteq> [] \<and> company \<noteq> []) ''role_identity'' 10
            [(''title_present'', Flag (title \<noteq> [])), (''company_present'', Flag (company \<noteq> []))]
            Blocks ''capture_role_identity'',
          pass_if (120 \<le> length description) ''role_description'' 14
            [(''description_characters'', Count (int (length description))), (''minimum_characters'', Count 120)]
            Blocks ''capture_role_description'',
          pass_if (routes \<noteq> []) ''application_route'' 10 [(''route_types'', words_or_none routes)]
            Blocks ''capture_application_route''])"

definition profile_check :: "career_profile option \<Rightarrow> readiness_check" where
  "profile_check profile =
     (let score = (case profile of None \<Rightarrow> 0 | Some p \<Rightarrow> calculate_completeness_score p);
          revision = (case profile of None \<Rightarrow> Quoted ''none'' | Some p \<Rightarrow> Count (cv_revision p));
          evidence = [(''profile_revision'', revision), (''profile_completeness'', Percent score)]
      in if profile = None then check ''career_profile'' Blocks 14 evidence (Some ''complete_career_profile'')
         else pass_if (60 \<le> score) ''career_profile'' 14 evidence Warns ''strengthen_career_profile'')"

definition no_resume_checks :: "career_profile option \<Rightarrow> readiness_check list" where
  "no_resume_checks profile =
     [check ''resume_linked'' Blocks 16 [(''resume_version'', Quoted ''none'')] (Some ''link_published_resume''),
      check ''resume_artifacts'' Blocks 10
        [(''recorded_formats'', Quoted ''none''), (''verified_formats'', Quoted ''none''),
         (''unavailable_formats'', Words required_formats)] (Some ''export_resume_files''),
      check ''resume_quality'' Blocks 10 [(''quality_passed'', Flag False), (''renderer_version'', Quoted ''none'')]
        (Some ''republish_valid_resume''),
      check ''resume_freshness'' Blocks 6 [(''resume_profile_revision'', Quoted ''none''),
        (''current_profile_revision'', case profile of None \<Rightarrow> Quoted ''none'' | Some p \<Rightarrow> Count (cv_revision p))]
        (Some ''refresh_resume''),
      check ''fact_verification'' Blocks 10 [(''selected_facts'', Count 0), (''verified_facts'', Count 0)]
        (Some ''verify_resume_facts'')]"

definition artifact_status :: "storage_env \<Rightarrow> published_version \<Rightarrow> check_status" where
  "artifact_status S v = (case artifact_availability S v of (recorded, verified, failed) \<Rightarrow>
     if verified = required_formats \<and> failed = [] then Passes
     else if verified \<noteq> [] \<and> failed = [] then Warns else Blocks)"

definition fact_status :: "published_version \<Rightarrow> check_status" where
  "fact_status v = (let selected = remdups (pv_selected v) in
     if selected \<noteq> [] \<and> length (verified_facts v) = length selected then Passes
     else if verified_facts v \<noteq> [] then Warns else Blocks)"

definition version_checks :: "storage_env \<Rightarrow> career_profile option \<Rightarrow> published_version \<Rightarrow> readiness_check list" where
  "version_checks S profile v =
     (case artifact_availability S v of (recorded, verified, failed) \<Rightarrow>
      let unavailable = filter (\<lambda>f. f \<notin> set verified) required_formats;
          current = (case profile of None \<Rightarrow> False | Some p \<Rightarrow> pv_profile_revision v = cv_revision p)
      in [check ''resume_linked'' Passes 16 [(''resume_version'', Quoted (pv_semantic v))] None,
          check ''resume_artifacts'' (artifact_status S v) 10
            [(''recorded_formats'', words_or_none recorded), (''verified_formats'', words_or_none verified),
             (''unavailable_formats'', words_or_none unavailable)]
            (if artifact_status S v = Passes then None
             else if failed \<noteq> [] then Some ''republish_resume_artifacts'' else Some ''export_resume_files''),
          pass_if (pv_quality_passed v) ''resume_quality'' 10
            [(''quality_passed'', Flag (pv_quality_passed v)), (''renderer_version'', Quoted (pv_renderer v))]
            Blocks ''republish_valid_resume'',
          pass_if current ''resume_freshness'' 6 [(''resume_profile_revision'', Count (pv_profile_revision v)),
            (''current_profile_revision'', case profile of None \<Rightarrow> Quoted ''none'' | Some p \<Rightarrow> Count (cv_revision p))]
            Warns ''refresh_resume'',
          check ''fact_verification'' (fact_status v) 10
            [(''selected_facts'', Count (int (length (remdups (pv_selected v))))),
             (''verified_facts'', Count (int (length (verified_facts v))))]
            (if fact_status v = Passes then None else Some ''verify_resume_facts'')])"

definition resume_checks :: "storage_env \<Rightarrow> career_profile option \<Rightarrow> published_version option \<Rightarrow> readiness_check list" where
  "resume_checks S profile version = (case version of
      None \<Rightarrow> no_resume_checks profile | Some v \<Rightarrow> version_checks S profile v)"

subsection \<open>The report\<close>

datatype report_status = Ready | ActionNeeded | Blocked

record readiness_report =
  rr_application_id :: string
  rr_application_revision :: int
  rr_role_title :: string
  rr_company :: string
  rr_status :: report_status
  rr_score :: int
  rr_blockers :: int
  rr_warnings :: int
  rr_checks :: "readiness_check list"

text \<open>The bounds that the schema of the report enforces; a violation is an unhandled validation error.\<close>

definition valid_evidence :: "string \<times> evidence_value \<Rightarrow> bool" where
  "valid_evidence e \<longleftrightarrow> 1 \<le> length (fst e) \<and> length (fst e) \<le> 80 \<and> (case snd e of Quoted q \<Rightarrow> length q \<le> 500 | _ \<Rightarrow> True)"

definition valid_check :: "readiness_check \<Rightarrow> bool" where
  "valid_check c \<longleftrightarrow> 1 \<le> length (rc_id c) \<and> length (rc_id c) \<le> 80 \<and> 0 \<le> rc_awarded c \<and> rc_awarded c \<le> 100 \<and> 1 \<le> rc_available c \<and> rc_available c \<le> 100
     \<and> length (rc_evidence c) \<le> 50 \<and> list_all valid_evidence (rc_evidence c) \<and> (case rc_action c of None \<Rightarrow> True | Some a \<Rightarrow> length a \<le> 80)"

definition valid_report :: "readiness_report \<Rightarrow> bool" where
  "valid_report r \<longleftrightarrow> canonical_uuid (rr_application_id r) \<and> 1 \<le> rr_application_revision r
     \<and> 1 \<le> length (rr_role_title r) \<and> length (rr_role_title r) \<le> 240 \<and> 1 \<le> length (rr_company r) \<and> length (rr_company r) \<le> 240
     \<and> 0 \<le> rr_score r \<and> rr_score r \<le> 100 \<and> 0 \<le> rr_blockers r \<and> 0 \<le> rr_warnings r
     \<and> 1 \<le> length (rr_checks r) \<and> length (rr_checks r) \<le> 100 \<and> list_all valid_check (rr_checks r)"

definition report_of :: "storage_env \<Rightarrow> career_profile option \<Rightarrow> published_version option \<Rightarrow> app_row \<Rightarrow> readiness_report" where
  "report_of S profile version a =
     (let s = ap_job_snapshot a;
          checks = snapshot_checks s @ [profile_check profile] @ resume_checks S profile version;
          blockers = count_of (\<lambda>c. rc_status c = Blocks) checks;
          warnings = count_of (\<lambda>c. rc_status c = Warns) checks
      in \<lparr>rr_application_id = ap_id a, rr_application_revision = ap_revision a,
          rr_role_title = text_or (Some (clean_text (snap_get s ''title''))) ''Untitled role'',
          rr_company = text_or (Some (clean_text (snap_get s ''company''))) ''Unknown company'',
          rr_status = (if blockers \<noteq> 0 then Blocked else if warnings \<noteq> 0 then ActionNeeded else Ready),
          rr_score = sum_list (map rc_awarded checks), rr_blockers = blockers, rr_warnings = warnings,
          rr_checks = checks\<rparr>)"

definition build_readiness ::
  "storage_env \<Rightarrow> career_profile option \<Rightarrow> published_version option \<Rightarrow> app_row \<Rightarrow> readiness_report outcome" where
  "build_readiness S profile version a =
     (let r = report_of S profile version a in
      if valid_report r then Inr r else Inl (UnhandledError ''ValidationError''))"

subsection \<open>The nine checks\<close>

definition check_ids :: "string list" where
  "check_ids = [''role_identity'', ''role_description'', ''application_route'', ''career_profile'', ''resume_linked'',
     ''resume_artifacts'', ''resume_quality'', ''resume_freshness'', ''fact_verification'']"

definition check_weights :: "int list" where
  "check_weights = [10, 14, 10, 14, 16, 10, 10, 6, 10]"

definition check_sound :: "readiness_check \<Rightarrow> bool" where
  "check_sound c \<longleftrightarrow> (\<exists>cid st w e act. c = check cid st w e act \<and> w \<in> {2..100} \<and> (st = Passes \<longleftrightarrow> act = None))"

lemma check_soundI: "(st = Passes) = (act = None) \<Longrightarrow> w \<in> {2..100} \<Longrightarrow> check_sound (check cid st w e act)"
  unfolding check_sound_def by blast

lemma pass_if_sound: "other \<noteq> Passes \<Longrightarrow> w \<in> {2..100} \<Longrightarrow> check_sound (pass_if ok cid w e other act)"
  unfolding pass_if_def by (rule check_soundI) auto

lemma check_sound_facts:
  assumes "check_sound c"
  shows "0 \<le> rc_awarded c" "rc_awarded c \<le> rc_available c" "rc_awarded c = rc_available c \<longleftrightarrow> rc_status c = Passes"
    "rc_awarded c = 0 \<longleftrightarrow> rc_status c = Blocks" "rc_action c = None \<longleftrightarrow> rc_status c = Passes"
    "rc_status c = Warns \<Longrightarrow> rc_awarded c = rc_available c div 2"
proof -
  from assms obtain cid st w e act where c: "c = check cid st w e act" "w \<in> {2..100}" "st = Passes \<longleftrightarrow> act = None"
    by (auto simp: check_sound_def)
  have half: "0 < w div 2" "w div 2 < w" "0 < w" using c(2) by auto
  have st: "rc_action c = act" "rc_status c = st" "rc_available c = w"
    "rc_awarded c = (if st = Passes then w else if st = Warns then w div 2 else 0)"
    by (simp_all add: c(1) check_def)
  show "0 \<le> rc_awarded c" "rc_awarded c \<le> rc_available c" "rc_awarded c = rc_available c \<longleftrightarrow> rc_status c = Passes"
    "rc_awarded c = 0 \<longleftrightarrow> rc_status c = Blocks" "rc_action c = None \<longleftrightarrow> rc_status c = Passes"
    "rc_status c = Warns \<Longrightarrow> rc_awarded c = rc_available c div 2"
    unfolding st using half c(3) by (cases st; auto)+
qed

abbreviation (input) checks_of where
  "checks_of S p v s \<equiv> snapshot_checks s @ [profile_check p] @ resume_checks S p v"

lemma checks_of_sound: "list_all check_sound (checks_of S p v s)"
  by (simp add: snapshot_checks_def profile_check_def resume_checks_def no_resume_checks_def version_checks_def
      Let_def pass_if_sound check_soundI split: option.split prod.split)

lemma check_proj [simp]: "rc_id (check i st w e a) = i" "rc_available (check i st w e a) = w" "rc_status (check i st w e a) = st"
  "rc_id (pass_if ok i w e ot b) = i" "rc_available (pass_if ok i w e ot b) = w"
  "rc_status (pass_if ok i w e ot b) = (if ok then Passes else ot)"
  by (simp_all add: check_def pass_if_def)

lemma checks_of_shape: "map rc_id (checks_of S p v s) = check_ids" "map rc_available (checks_of S p v s) = check_weights"
  by (simp_all add: snapshot_checks_def profile_check_def resume_checks_def no_resume_checks_def version_checks_def
      Let_def check_ids_def check_weights_def split: option.split prod.split)

subsection \<open>What the score says\<close>

text \<open>The points a list of checks loses, and the range that the statuses leave for it.\<close>

definition lost :: "readiness_check list \<Rightarrow> int" where
  "lost cs = sum_list (map rc_available cs) - sum_list (map rc_awarded cs)"

lemma lost_append [simp]: "lost [] = 0" "lost (c # cs) = rc_available c - rc_awarded c + lost cs" "lost (cs @ ds) = lost cs + lost ds"
  by (simp_all add: lost_def)

definition some_status :: "check_status \<Rightarrow> readiness_check list \<Rightarrow> bool" where
  "some_status st cs \<longleftrightarrow> list_ex (\<lambda>c. rc_status c = st) cs"

definition loss_range :: "int \<Rightarrow> readiness_check list \<Rightarrow> bool" where
  "loss_range k cs \<longleftrightarrow> 0 \<le> lost cs \<and> (some_status Blocks cs \<longrightarrow> 10 \<le> lost cs)
     \<and> (\<not> some_status Blocks cs \<longrightarrow> lost cs \<le> k \<and> (if some_status Warns cs then 3 \<le> lost cs else lost cs = 0))"

lemma loss_range_append: "loss_range k cs \<Longrightarrow> loss_range l ds \<Longrightarrow> loss_range (k + l) (cs @ ds)"
  by (auto simp: loss_range_def some_status_def split: if_splits)

lemma rc_loss [simp]:
  "rc_awarded (check i st w e a) = (if st = Passes then w else if st = Warns then w div 2 else 0)"
  "rc_awarded (pass_if ok i w e ot b) = (if ok then w else if ot = Passes then w else if ot = Warns then w div 2 else 0)"
  by (simp_all add: check_def pass_if_def)

lemma snapshot_loss: "loss_range 0 (snapshot_checks s)"
  by (simp add: loss_range_def snapshot_checks_def Let_def some_status_def)

lemma profile_loss: "loss_range 7 [profile_check p]"
  by (simp add: loss_range_def profile_check_def Let_def some_status_def)

lemma resume_loss: "loss_range 13 (resume_checks S p v)"
proof (cases v)
  case None
  then show ?thesis by (simp add: loss_range_def resume_checks_def no_resume_checks_def some_status_def)
next
  case (Some w)
  obtain a f where af: "artifact_status S w = a" "fact_status w = f" by blast
  show ?thesis
    by (cases a; cases f)
       (simp_all add: Some af loss_range_def resume_checks_def version_checks_def Let_def some_status_def split: prod.split option.split)
qed

lemma checks_loss: "loss_range 20 (checks_of S p v s)"
  using loss_range_append [OF snapshot_loss loss_range_append [OF profile_loss resume_loss]] by simp

lemma count_of_0 [simp]: "count_of p xs = 0 \<longleftrightarrow> list_all (\<lambda>x. \<not> p x) xs"
  by (auto simp: count_of_def filter_empty_conv list_all_iff)

lemma awarded_sum: "sum_list (map rc_awarded (checks_of S p v s)) = 100 - lost (checks_of S p v s)"
  unfolding lost_def checks_of_shape by (simp add: check_weights_def)

subsection \<open>What an unblocked report requires\<close>

definition resume_usable :: "storage_env \<Rightarrow> published_version \<Rightarrow> bool" where
  "resume_usable S v \<longleftrightarrow> pv_quality_passed v
     \<and> (\<exists>a \<in> set (pv_artifacts v). ascii_lower (ra_format a) \<in> set required_formats)
     \<and> (\<forall>a \<in> set (pv_artifacts v). ascii_lower (ra_format a) \<in> set required_formats \<longrightarrow> artifact_ok S a)
     \<and> (\<exists>fid \<in> set (pv_selected v). (fid, ''confirmed'') \<in> set (pv_facts v))"

definition preflight_met :: "storage_env \<Rightarrow> career_profile option \<Rightarrow> published_version option \<Rightarrow> snapshot \<Rightarrow> bool" where
  "preflight_met S profile version s \<longleftrightarrow>
     clean_text (snap_get s ''title'') \<noteq> [] \<and> clean_text (snap_get s ''company'') \<noteq> []
     \<and> 120 \<le> length (clean_text (snap_get s ''description''))
     \<and> (\<exists>key \<in> {''application_email'', ''application_url'', ''external_url''}. clean_text (snap_get s key) \<noteq> [])
     \<and> profile \<noteq> None \<and> (case version of None \<Rightarrow> False | Some v \<Rightarrow> resume_usable S v)"

lemma formats_with_Nil: "formats_with p v = [] \<longleftrightarrow>
    (\<forall>a \<in> set (pv_artifacts v). ascii_lower (ra_format a) \<in> set required_formats \<longrightarrow> \<not> p a)"
  by (auto simp: formats_with_def filter_empty_conv list_ex_iff)

lemma artifact_blocks: "artifact_status S v = Blocks \<longleftrightarrow>
    \<not> ((\<exists>a \<in> set (pv_artifacts v). ascii_lower (ra_format a) \<in> set required_formats)
      \<and> (\<forall>a \<in> set (pv_artifacts v). ascii_lower (ra_format a) \<in> set required_formats \<longrightarrow> artifact_ok S a))"
proof -
  have "formats_with (artifact_ok S) v = required_formats \<Longrightarrow> formats_with (artifact_ok S) v \<noteq> []"
    by (simp add: required_formats_def)
  then have "artifact_status S v = Blocks \<longleftrightarrow>
      \<not> (formats_with (artifact_ok S) v \<noteq> [] \<and> formats_with (\<lambda>a. \<not> artifact_ok S a) v = [])"
    by (auto simp: artifact_status_def artifact_availability_def)
  then show ?thesis unfolding formats_with_Nil by blast
qed

lemma fact_blocks: "fact_status v = Blocks \<longleftrightarrow> \<not> (\<exists>fid \<in> set (pv_selected v). (fid, ''confirmed'') \<in> set (pv_facts v))"
proof -
  have "remdups (pv_selected v) \<noteq> [] \<and> length (verified_facts v) = length (remdups (pv_selected v)) \<Longrightarrow> verified_facts v \<noteq> []"
    by (metis length_0_conv)
  then have "fact_status v = Blocks \<longleftrightarrow> verified_facts v = []" by (auto simp: fact_status_def Let_def)
  also have "\<dots> \<longleftrightarrow> \<not> (\<exists>fid \<in> set (pv_selected v). (fid, ''confirmed'') \<in> set (pv_facts v))"
    by (auto simp: verified_facts_def filter_empty_conv)
  finally show ?thesis .
qed

lemma some_status_append [simp]: "some_status st (xs @ ys) \<longleftrightarrow> some_status st xs \<or> some_status st ys"
  by (simp add: some_status_def)

lemma blocked_iff: "\<not> some_status Blocks (checks_of S p v s) \<longleftrightarrow> preflight_met S p v s"
proof -
  have "\<not> some_status Blocks (snapshot_checks s) \<longleftrightarrow> clean_text (snap_get s ''title'') \<noteq> [] \<and> clean_text (snap_get s ''company'') \<noteq> []
     \<and> 120 \<le> length (clean_text (snap_get s ''description''))
     \<and> (\<exists>key \<in> {''application_email'', ''application_url'', ''external_url''}. clean_text (snap_get s key) \<noteq> [])"
    by (auto simp: snapshot_checks_def Let_def some_status_def)
  moreover have "\<not> some_status Blocks [profile_check p] \<longleftrightarrow> p \<noteq> None"
    by (simp add: profile_check_def Let_def some_status_def)
  moreover have "\<not> some_status Blocks (resume_checks S p v) \<longleftrightarrow> (case v of None \<Rightarrow> False | Some w \<Rightarrow> resume_usable S w)"
  proof (cases v)
    case None
    then show ?thesis by (simp add: resume_checks_def no_resume_checks_def some_status_def)
  next
    case (Some w)
    have "\<not> some_status Blocks (resume_checks S p v) \<longleftrightarrow> pv_quality_passed w \<and> artifact_status S w \<noteq> Blocks \<and> fact_status w \<noteq> Blocks"
      by (auto simp: Some resume_checks_def version_checks_def Let_def some_status_def split: prod.split)
    with Some show ?thesis unfolding artifact_blocks fact_blocks resume_usable_def by simp
  qed
  ultimately show ?thesis unfolding some_status_append preflight_met_def by blast
qed

lemma report_of_facts:
  "rr_checks (report_of S p v a) = checks_of S p v (ap_job_snapshot a)"
  "rr_score (report_of S p v a) = 100 - lost (checks_of S p v (ap_job_snapshot a))"
  "rr_status (report_of S p v a) =
     (if some_status Blocks (checks_of S p v (ap_job_snapshot a)) then Blocked
      else if some_status Warns (checks_of S p v (ap_job_snapshot a)) then ActionNeeded else Ready)"
  unfolding report_of_def Let_def readiness_report.simps awarded_sum
  by (auto simp: some_status_def list_all_iff list_ex_iff)

lemma build_readiness_Inr: "build_readiness S p v a = Inr r \<Longrightarrow> r = report_of S p v a \<and> valid_report r"
  by (auto simp: build_readiness_def Let_def split: if_splits)

end
