(* ===== verification/Dossiers.thy ===== *)
theory Dossiers
  imports Readiness Applications
begin

text \<open>
  The workspace of the next dossier of an application and its publication:
  \<open>dossier_drafts.py\<close>, \<open>dossier_content.py\<close>, \<open>dossier_queries.py\<close>, the guards of
  \<open>dossier_publication.py\<close> and the evidence checks of \<open>dossier_materials.py\<close>, all in
  \<open>backend/applications\<close>. Each operation runs in one write transaction (SQLite has one
  writer, and the first statement of each reserves it), so it is a function of the
  tables. Rendering letters, e-mails and the archive is an argument.
\<close>

subsection \<open>Tables\<close>

record resume_draft_row =
  rd_id :: string
  rd_profile :: string
  rd_revision :: int
  rd_profile_revision :: int

text \<open>JSON objects that the service copies without looking into them are their canonical text.\<close>

record evidence_claim =
  ec_id :: string
  ec_text :: string
  ec_fact_ids :: "string list"

record draft_content =
  dc_cover_letter :: "string option"
  dc_answers :: "(string \<times> string \<times> string) list" \<comment> \<open>client id, question, answer\<close>
  dc_checklist :: "(string \<times> string \<times> bool) list"
  dc_requirements :: "(string \<times> string \<times> string list) list"
  dc_letter_options :: "string option"
  dc_email_draft :: "string option"
  dc_provenance :: "string option"
  dc_claims :: "evidence_claim list"

record publishable =
  pb_cover_letter :: "string option"
  pb_answers :: "(string \<times> string) list"
  pb_checklist :: "(string \<times> bool) list"
  pb_requirements :: "(string \<times> string list) list"
  pb_letter_options :: "string option"
  pb_email_draft :: "string option"
  pb_provenance :: "string option"
  pb_claims :: "evidence_claim list"

record dossier_draft =
  dr_id :: string
  dr_application :: string
  dr_resume_version :: "string option"
  dr_resume_draft :: "string option"
  dr_resume_draft_revision :: "int option"
  dr_application_revision :: int
  dr_revision :: int
  dr_content :: draft_content
  dr_created_at :: instant
  dr_updated_at :: instant

record packet_row =
  pk_application :: string
  pk_dossier :: string
  pk_path :: string
  pk_sha256 :: string
  pk_size :: int
  pk_created_at :: instant

record dossier_db =
  dd_app :: app_db
  dd_drafts :: "dossier_draft table"
  dd_resumes :: "resume_draft_row table"
  dd_versions :: "published_version table"
  dd_profiles :: "career_profile table"
  dd_packets :: "packet_row table"

subsection \<open>Queries\<close>

definition owns_resume :: "dossier_db \<Rightarrow> int \<Rightarrow> resume_draft_row \<Rightarrow> bool" where
  "owns_resume D uid d \<longleftrightarrow> list_ex (\<lambda>p. cv_id p = rd_profile d \<and> cv_user p = uid) (dd_profiles D)"

definition resume_draft_of :: "dossier_db \<Rightarrow> int \<Rightarrow> string option \<Rightarrow> resume_draft_row option" where
  "resume_draft_of D uid did = (case did of None \<Rightarrow> None | Some i \<Rightarrow>
     if i = [] then None else select_first (\<lambda>d. rd_id d = i \<and> owns_resume D uid d) (dd_resumes D))"

definition resume_version_of :: "dossier_db \<Rightarrow> int \<Rightarrow> string option \<Rightarrow> published_version option" where
  "resume_version_of D uid vid = (case vid of None \<Rightarrow> None | Some i \<Rightarrow>
     if i = [] then None
     else select_first (\<lambda>v. pv_id v = i
       \<and> list_ex (\<lambda>d. rd_id d = pv_draft v \<and> owns_resume D uid d) (dd_resumes D)) (dd_versions D))"

definition profile_of :: "dossier_db \<Rightarrow> int \<Rightarrow> career_profile option" where
  "profile_of D uid = select_first (\<lambda>p. cv_user p = uid) (dd_profiles D)"

definition draft_of :: "dossier_db \<Rightarrow> string \<Rightarrow> dossier_draft option" where
  "draft_of D aid = select_first (\<lambda>d. dr_application d = aid) (dd_drafts D)"

subsection \<open>Content\<close>

definition unique_ids :: "string list \<Rightarrow> bool" where
  "unique_ids ids \<longleftrightarrow> distinct ids"

definition evidence_bounds :: "(string list) list \<Rightarrow> bool" where
  "evidence_bounds rows \<longleftrightarrow> list_all (\<lambda>ids. distinct ids \<and> length ids \<le> 10) rows
     \<and> length (concat rows) \<le> 100 \<and> card (set (concat rows)) \<le> 50"

definition valid_claims :: "evidence_claim list \<Rightarrow> bool" where
  "valid_claims cs \<longleftrightarrow> length cs \<le> 100 \<and> unique_ids (map ec_id cs)
     \<and> list_all (\<lambda>c. 1 \<le> length (ec_text c) \<and> length (ec_text c) \<le> 4000 \<and> 1 \<le> length (ec_fact_ids c) \<and> length (ec_fact_ids c) \<le> 20 \<and> distinct (ec_fact_ids c)) cs"

definition short_text :: "nat \<Rightarrow> string option \<Rightarrow> bool" where
  "short_text n t \<longleftrightarrow> (case t of None \<Rightarrow> True | Some s \<Rightarrow> length s \<le> n)"

text \<open>The schemas, without the bound on the size of the encoded JSON.\<close>

definition valid_draft_content :: "draft_content \<Rightarrow> bool" where
  "valid_draft_content c \<longleftrightarrow> short_text 30000 (dc_cover_letter c)
     \<and> length (dc_answers c) \<le> 25 \<and> length (dc_checklist c) \<le> 50 \<and> 1 \<le> length (dc_requirements c) \<and> length (dc_requirements c) \<le> 25
     \<and> list_all (\<lambda>(_, q, a). length q \<le> 1000 \<and> length a \<le> 20000) (dc_answers c)
     \<and> list_all (\<lambda>(_, l, _). length l \<le> 500) (dc_checklist c)
     \<and> list_all (\<lambda>(_, r, _). length r \<le> 2000) (dc_requirements c)
     \<and> unique_ids (map fst (dc_answers c)) \<and> unique_ids (map fst (dc_checklist c))
     \<and> unique_ids (map fst (dc_requirements c))
     \<and> evidence_bounds (map (snd \<circ> snd) (dc_requirements c)) \<and> valid_claims (dc_claims c)"

definition strip_or_none :: "string option \<Rightarrow> string option" where
  "strip_or_none t = (let s = py_strip (text_or t []) in if s = [] then None else Some s)"

fun collect_answers :: "(string \<times> string \<times> string) list \<Rightarrow> (string \<times> string) list outcome" where
  "collect_answers [] = Inr []"
| "collect_answers ((_, q, a) # rows) =
     and_then (ensure ((py_strip q = []) = (py_strip a = []))
       (ValidationError ''Complete both fields in every dossier answer before publishing'')) (\<lambda>_.
     and_then (collect_answers rows) (\<lambda>rest.
       Inr (if py_strip q \<noteq> [] then (py_strip q, py_strip a) # rest else rest)))"

fun collect_checklist :: "(string \<times> string \<times> bool) list \<Rightarrow> (string \<times> bool) list outcome" where
  "collect_checklist [] = Inr []"
| "collect_checklist ((_, label, completed) # rows) =
     and_then (ensure (completed \<longrightarrow> py_strip label \<noteq> [])
       (ValidationError ''Completed dossier checklist items require a label'')) (\<lambda>_.
     and_then (collect_checklist rows) (\<lambda>rest.
       Inr (if py_strip label \<noteq> [] then (py_strip label, completed) # rest else rest)))"

fun collect_requirements :: "(string \<times> string \<times> string list) list \<Rightarrow> (string \<times> string list) list outcome" where
  "collect_requirements [] = Inr []"
| "collect_requirements ((_, requirement, ids) # rows) =
     and_then (ensure (py_strip requirement \<noteq> [] \<and> ids \<noteq> [])
       (ValidationError ''Every dossier requirement needs text and confirmed evidence'')) (\<lambda>_.
     and_then (collect_requirements rows) (\<lambda>rest. Inr ((py_strip requirement, ids) # rest)))"

definition publishable_draft_content :: "draft_content \<Rightarrow> publishable outcome" where
  "publishable_draft_content c =
     and_then (ensure (valid_draft_content c) (ValidationError ''The stored dossier draft is invalid'')) (\<lambda>_.
     and_then (collect_answers (dc_answers c)) (\<lambda>answers.
     and_then (collect_checklist (dc_checklist c)) (\<lambda>checklist.
     and_then (collect_requirements (dc_requirements c)) (\<lambda>requirements.
       Inr \<lparr>pb_cover_letter = strip_or_none (dc_cover_letter c), pb_answers = answers, pb_checklist = checklist,
            pb_requirements = requirements, pb_letter_options = dc_letter_options c,
            pb_email_draft = dc_email_draft c, pb_provenance = dc_provenance c, pb_claims = dc_claims c\<rparr>))))"

record dossier_create =
  dq_expected_revision :: int
  dq_expected_draft_revision :: "int option"
  dq_resume_version :: "string option"
  dq_content :: publishable

definition requested_dossier_content :: "dossier_create \<Rightarrow> publishable" where
  "requested_dossier_content q =
     (dq_content q)\<lparr>pb_cover_letter := strip_or_none (pb_cover_letter (dq_content q))\<rparr>"

subsection \<open>Drafts\<close>

record draft_put =
  dp_expected_revision :: "int option"
  dp_expected_application_revision :: int
  dp_resume_version :: "string option"
  dp_resume_draft :: "string option"
  dp_expected_resume_draft_revision :: "int option"
  dp_content :: draft_content

definition valid_draft_put :: "draft_put \<Rightarrow> bool" where
  "valid_draft_put p \<longleftrightarrow> (case dp_expected_revision p of None \<Rightarrow> True | Some r \<Rightarrow> 1 \<le> r) \<and> 1 \<le> dp_expected_application_revision p
     \<and> (dp_resume_version p = None) \<noteq> (dp_resume_draft p = None)
     \<and> (dp_resume_draft p \<noteq> None \<longleftrightarrow> dp_expected_resume_draft_revision p \<noteq> None)
     \<and> valid_draft_content (dp_content p)"

definition ensure_current_binding :: "dossier_db \<Rightarrow> int \<Rightarrow> string \<Rightarrow> int \<Rightarrow> string option \<Rightarrow> unit outcome" where
  "ensure_current_binding D uid aid revision version =
     (case select_first (\<lambda>a. ap_id a = aid \<and> ap_user a = uid) (db_applications (dd_app D)) of
        None \<Rightarrow> Inl (ConflictError ''The application or linked resume changed while saving'')
      | Some a \<Rightarrow> ensure (ap_revision a = revision \<and> (version = None \<or> ap_resume_version_id a = version))
          (ConflictError ''The application or linked resume changed while saving''))"

text \<open>The columns that bind a draft: a published version, or a resume draft at a revision.\<close>

definition version_binding ::
  "dossier_db \<Rightarrow> int \<Rightarrow> app_row \<Rightarrow> string \<Rightarrow> (string option \<times> string option \<times> int option) outcome" where
  "version_binding D uid a vid =
     and_then (ensure (resume_version_of D uid (Some vid) \<noteq> None)
       (ValidationError ''The linked resume version is unavailable'')) (\<lambda>_.
     and_then (ensure (\<not> truthy (ap_resume_version_id a) \<or> ap_resume_version_id a = Some vid)
       (ConflictError ''The linked resume changed while this dossier draft was being edited'')) (\<lambda>_.
       Inr (Some vid, None, None)))"

definition draft_binding ::
  "dossier_db \<Rightarrow> int \<Rightarrow> string \<Rightarrow> int option \<Rightarrow> (string option \<times> string option \<times> int option) outcome" where
  "draft_binding D uid did expected =
     (case resume_draft_of D uid (Some did) of
        None \<Rightarrow> Inl (ValidationError ''The linked resume draft is unavailable'')
      | Some r \<Rightarrow>
          and_then (ensure (expected = None \<or> Some (rd_revision r) = expected)
            (ConflictError ''The linked resume draft changed in another editor; reload before saving'')) (\<lambda>_.
          and_then (ensure (row_count (\<lambda>x. rd_id x = did \<and> Some (rd_revision x) = expected) (dd_resumes D) = 1)
            (ConflictError ''The linked resume draft changed while saving'')) (\<lambda>_.
            Inr (None, Some did, expected))))"

definition store_draft ::
  "instant \<Rightarrow> string \<Rightarrow> dossier_db \<Rightarrow> app_row \<Rightarrow> draft_put \<Rightarrow> string option \<times> string option \<times> int option
     \<Rightarrow> dossier_db outcome" where
  "store_draft now new_id D a p binding =
     (case binding of (version, rdraft, rdraft_revision) \<Rightarrow>
      case (dp_expected_revision p, draft_of D (ap_id a)) of
        (None, Some _) \<Rightarrow> Inl (ConflictError ''The dossier draft already exists; reload before saving'')
      | (None, None) \<Rightarrow>
          Inr (D\<lparr>dd_drafts := dd_drafts D @
            [\<lparr>dr_id = new_id, dr_application = ap_id a, dr_resume_version = version, dr_resume_draft = rdraft,
              dr_resume_draft_revision = rdraft_revision, dr_application_revision = ap_revision a, dr_revision = 1,
              dr_content = dp_content p, dr_created_at = now, dr_updated_at = now\<rparr>]\<rparr>)
      | (Some _, None) \<Rightarrow> Inl (ConflictError ''The dossier draft no longer exists'')
      | (Some e, Some d) \<Rightarrow>
          if dr_revision d \<noteq> e
          then Inl (ConflictError ''The dossier draft changed in another editor; reload before saving'')
          else let same = (\<lambda>x. dr_id x = dr_id d \<and> dr_revision x = e) in
            and_then (ensure (row_count same (dd_drafts D) = 1)
              (ConflictError ''The dossier draft changed while saving'')) (\<lambda>_.
              Inr (D\<lparr>dd_drafts := update_rows same (\<lambda>x. x\<lparr>dr_resume_version := version, dr_resume_draft := rdraft,
                dr_resume_draft_revision := rdraft_revision,
                dr_application_revision := dp_expected_application_revision p, dr_revision := e + 1,
                dr_content := dp_content p, dr_updated_at := now\<rparr>) (dd_drafts D)\<rparr>)))"

definition mutate_dossier_draft ::
  "instant \<Rightarrow> string \<Rightarrow> dossier_db \<Rightarrow> int \<Rightarrow> string \<Rightarrow> draft_put \<Rightarrow> dossier_db outcome" where
  "mutate_dossier_draft now new_id D uid aid p =
     and_then (get_application (dd_app D) uid aid) (\<lambda>a.
     and_then (ensure (row_count (\<lambda>x. ap_id x = aid \<and> ap_user x = uid
           \<and> ap_revision x = dp_expected_application_revision p) (db_applications (dd_app D)) = 1)
       (ConflictError ''The application changed while saving the dossier'')) (\<lambda>_.
     and_then (ensure (ap_revision a = dp_expected_application_revision p)
       (ConflictError ''The application changed while this dossier draft was being edited'')) (\<lambda>_.
     and_then (case (dp_resume_version p, dp_resume_draft p) of
         (Some v, None) \<Rightarrow> version_binding D uid a v
       | (None, Some d) \<Rightarrow> draft_binding D uid d (dp_expected_resume_draft_revision p)
       | _ \<Rightarrow> Inl (ValidationError ''Dossier draft must bind exactly one of resume_draft_id or resume_version_id'')) (\<lambda>binding.
     and_then (store_draft now new_id D a p binding) (\<lambda>D'.
     and_then (ensure_current_binding D' uid aid (dp_expected_application_revision p) (fst binding)) (\<lambda>_.
       Inr D'))))))"

definition delete_dossier_draft :: "dossier_db \<Rightarrow> int \<Rightarrow> string \<Rightarrow> int \<Rightarrow> dossier_db outcome" where
  "delete_dossier_draft D uid aid expected =
     and_then (get_application (dd_app D) uid aid) (\<lambda>a.
       let same = (\<lambda>d. dr_application d = ap_id a \<and> dr_revision d = expected) in
       if row_count same (dd_drafts D) = 1 then Inr (D\<lparr>dd_drafts := delete_rows same (dd_drafts D)\<rparr>)
       else if draft_of D (ap_id a) = None then Inl (NotFoundError ''Application dossier draft not found'')
       else Inl (ConflictError ''The dossier draft changed in another editor; reload before deleting''))"

subsection \<open>The materials of a packet\<close>

fun words_of :: "string \<Rightarrow> string \<Rightarrow> string list" where
  "words_of acc [] = (if acc = [] then [] else [acc])"
| "words_of acc (c # s) =
     (if py_isspace c then (if acc = [] then words_of [] s else acc # words_of [] s) else words_of (acc @ [c]) s)"

fun join_words :: "string list \<Rightarrow> string" where
  "join_words [] = []"
| "join_words [w] = w"
| "join_words (w # ws) = w @ '' '' @ join_words ws"

definition squeeze :: "string \<Rightarrow> string" where
  "squeeze s = join_words (words_of [] s)"

fun contains_text :: "string \<Rightarrow> string \<Rightarrow> bool" where
  "contains_text needle [] = (needle = [])"
| "contains_text needle (c # s) = (take (length needle) (c # s) = needle \<or> contains_text needle s)"

text \<open>\<open>pe_body\<close> reads the body of an e-mail draft; \<open>pe_render\<close> is the rendering of letters, e-mails and archive.\<close>

record packet_env =
  pe_ready :: bool \<comment> \<open>no vault maintenance is pending\<close>
  pe_storage :: storage_env
  pe_body :: "string \<Rightarrow> string"
  pe_render :: "app_row \<Rightarrow> publishable \<Rightarrow> published_version \<Rightarrow> readiness_report \<Rightarrow> (string \<times> string) list \<Rightarrow> (string \<times> string) outcome"

definition material_text :: "packet_env \<Rightarrow> publishable \<Rightarrow> string" where
  "material_text E c = join_words (map squeeze
     ([text_or (pb_cover_letter c) [], (case pb_email_draft c of None \<Rightarrow> [] | Some e \<Rightarrow> pe_body E e)] @ map snd (pb_answers c)))"

definition confirmed_fact :: "published_version \<Rightarrow> string \<Rightarrow> bool" where
  "confirmed_fact v fid \<longleftrightarrow> fid \<in> set (pv_selected v) \<and> (fid, ''confirmed'') \<in> set (pv_facts v)"

definition evidence_ids :: "publishable \<Rightarrow> string list" where
  "evidence_ids c = concat (map snd (pb_requirements c)) @ concat (map ec_fact_ids (pb_claims c))"

definition check_evidence :: "packet_env \<Rightarrow> publishable \<Rightarrow> published_version \<Rightarrow> unit outcome" where
  "check_evidence E c v =
     and_then (ensure (list_all (\<lambda>cl. contains_text (squeeze (ec_text cl)) (material_text E c)) (pb_claims c))
       (ValidationError ''A cited material claim is absent from the approved text'')) (\<lambda>_.
       ensure (list_all (confirmed_fact v) (evidence_ids c))
         (ValidationError ''Every dossier evidence reference must be a confirmed fact in the linked resume''))"

definition max_dossier_artifact_bytes :: int where
  "max_dossier_artifact_bytes = 16 * 1024 * 1024"

fun verified_artifacts :: "storage_env \<Rightarrow> resume_artifact list \<Rightarrow> (string \<times> string) list outcome" where
  "verified_artifacts S [] = Inr []"
| "verified_artifacts S (a # as) =
     (if ra_format a \<notin> set required_formats then verified_artifacts S as
      else and_then (ensure (0 < ra_size a \<and> ra_size a \<le> max_dossier_artifact_bytes)
          (ValidationError ''The stored resume artifact exceeds the dossier limit'')) (\<lambda>_.
        case read_verified_resume_artifact S a of
          None \<Rightarrow> Inl (ValidationError ''The stored resume artifact failed verification'')
        | Some bytes \<Rightarrow> and_then (verified_artifacts S as) (\<lambda>rest. Inr ((ra_format a, bytes) # rest))))"

definition build_packet_materials ::
  "packet_env \<Rightarrow> app_row \<Rightarrow> publishable \<Rightarrow> published_version \<Rightarrow> readiness_report \<Rightarrow> (string \<times> string) outcome" where
  "build_packet_materials E a c v r =
     and_then (check_evidence E c v) (\<lambda>_.
     and_then (verified_artifacts (pe_storage E) (pv_artifacts v)) (\<lambda>artifacts.
     and_then (ensure (artifacts \<noteq> []) (ValidationError ''The linked resume has no verified export artifact'')) (\<lambda>_.
       pe_render E a c v r artifacts)))"

subsection \<open>Publication\<close>

text \<open>The version that a saved draft allows, with the checks of its binding.\<close>

definition bound_to_draft ::
  "dossier_db \<Rightarrow> int \<Rightarrow> dossier_draft \<Rightarrow> string \<Rightarrow> string option \<Rightarrow> string outcome" where
  "bound_to_draft D uid d did requested =
     (case requested of
        None \<Rightarrow> Inl (ValidationError ''Publishing an unpublished-draft-bound packet requires an explicit verified version of the same draft'')
      | Some vid \<Rightarrow>
          (case resume_version_of D uid (Some vid) of
             None \<Rightarrow> Inl (ValidationError ''The linked resume version is unavailable'')
           | Some v \<Rightarrow>
               and_then (ensure (pv_draft v = did)
                 (ValidationError ''The specified resume version was not published from the bound resume draft'')) (\<lambda>_.
               case profile_of D uid of
                 None \<Rightarrow> Inl (UnhandledError ''NoResultFound'')
               | Some profile \<Rightarrow>
                   (let stale = ConflictError ''Publish the current approved resume draft before publishing its packet'' in
                    case resume_draft_of D uid (Some did) of
                      None \<Rightarrow> Inl stale
                    | Some rd \<Rightarrow>
                        and_then (ensure (pv_draft_revision v = dr_resume_draft_revision d
                          \<and> Some (rd_revision rd) = dr_resume_draft_revision d
                          \<and> rd_profile_revision rd = cv_revision profile
                          \<and> pv_profile_revision v = cv_revision profile) stale) (\<lambda>_. Inr (pv_id v))))))"

definition bound_to_version :: "app_row \<Rightarrow> dossier_draft \<Rightarrow> string option \<Rightarrow> string option outcome" where
  "bound_to_version a d requested =
     and_then (ensure (requested = None \<or> requested = dr_resume_version d)
       (ConflictError ''The selected resume differs from the saved dossier binding'')) (\<lambda>_.
     and_then (ensure (dr_resume_version d = ap_resume_version_id a)
       (ConflictError ''Save the dossier draft against the current application before publishing'')) (\<lambda>_.
       Inr (dr_resume_version d)))"

definition check_draft :: "dossier_db \<Rightarrow> int \<Rightarrow> app_row \<Rightarrow> dossier_draft \<Rightarrow> dossier_create \<Rightarrow> string option outcome" where
  "check_draft D uid a d q =
     and_then (ensure (dq_expected_draft_revision q = Some (dr_revision d))
       (ConflictError ''The dossier draft changed in another editor; reload before publishing'')) (\<lambda>_.
     and_then (ensure (dr_application_revision d = ap_revision a)
       (ConflictError ''Save the dossier draft against the current application before publishing'')) (\<lambda>_.
     and_then (case dr_resume_draft d of
         Some did \<Rightarrow> and_then (bound_to_draft D uid d did (dq_resume_version q)) (\<lambda>v. Inr (Some v))
       | None \<Rightarrow> bound_to_version a d (dq_resume_version q)) (\<lambda>effective.
     and_then (publishable_draft_content (dr_content d)) (\<lambda>saved.
     and_then (ensure (saved = requested_dossier_content q)
       (ConflictError ''The published dossier does not match the saved draft'')) (\<lambda>_. Inr effective)))))"

definition effective_version :: "dossier_db \<Rightarrow> int \<Rightarrow> app_row \<Rightarrow> dossier_create \<Rightarrow> string option outcome" where
  "effective_version D uid a q =
     (case draft_of D (ap_id a) of
        Some d \<Rightarrow> check_draft D uid a d q
      | None \<Rightarrow>
          and_then (ensure (dq_expected_draft_revision q = None)
            (ConflictError ''The dossier draft no longer exists'')) (\<lambda>_.
            Inr (if dq_resume_version q \<noteq> None then dq_resume_version q else ap_resume_version_id a)))"

definition max_dossier_bundle_bytes :: nat where
  "max_dossier_bundle_bytes = 32 * 1024 * 1024"

definition packet_path :: "string \<Rightarrow> string \<Rightarrow> string \<Rightarrow> string" where
  "packet_path aid did sha = ''applications/'' @ aid @ ''/packets/'' @ did @ ''/'' @ sha @ ''.zip''"

text \<open>
  The checks under the writer lock and the bytes of the packet; then, after the
  bytes are stored, the one transaction that records it.
\<close>

definition prepare_packet ::
  "packet_env \<Rightarrow> dossier_db \<Rightarrow> int \<Rightarrow> string \<Rightarrow> dossier_create \<Rightarrow> (published_version \<times> string \<times> string) outcome" where
  "prepare_packet E D uid aid q =
     and_then (ensure (pe_ready E) (ConflictError ''Vault maintenance is pending'')) (\<lambda>_.
     and_then (get_application (dd_app D) uid aid) (\<lambda>a.
     and_then (ensure (ap_revision a = dq_expected_revision q)
       (RevisionConflict (dq_expected_revision q) (ap_revision a))) (\<lambda>_.
     and_then (effective_version D uid a q) (\<lambda>effective.
     and_then (ensure (truthy effective) (ValidationError ''Link a published resume before creating a dossier'')) (\<lambda>_.
     case resume_version_of D uid effective of
       None \<Rightarrow> Inl (ValidationError ''Link a published resume before creating a dossier'')
     | Some v \<Rightarrow>
         and_then (ensure (pv_quality_passed v)
           (ValidationError ''The linked resume did not pass its quality checks'')) (\<lambda>_.
         and_then (build_readiness (pe_storage E) (profile_of D uid) (Some v) (a\<lparr>ap_resume_version_id := effective\<rparr>)) (\<lambda>r.
         and_then (ensure (rr_blockers r = 0)
           (ValidationError ''Resolve the application readiness blockers before publishing a dossier'')) (\<lambda>_.
         and_then (build_packet_materials E a (dq_content q) v r) (\<lambda>(bundle, payload).
           Inr (v, bundle, payload))))))))))"

definition packet_of :: "(string \<Rightarrow> string) \<Rightarrow> instant \<Rightarrow> string \<Rightarrow> string \<Rightarrow> string \<Rightarrow> packet_row" where
  "packet_of sha256 now aid dossier_id bundle =
     \<lparr>pk_application = aid, pk_dossier = dossier_id, pk_path = packet_path aid dossier_id (sha256 bundle),
      pk_sha256 = sha256 bundle, pk_size = int (length bundle), pk_created_at = now\<rparr>"

definition packet_size_ok :: "string \<Rightarrow> bool" where
  "packet_size_ok bundle \<longleftrightarrow> bundle \<noteq> [] \<and> length bundle \<le> max_dossier_bundle_bytes"

definition consume_draft :: "dossier_db \<Rightarrow> string \<Rightarrow> dossier_draft table" where
  "consume_draft D aid = (case draft_of D aid of
      None \<Rightarrow> dd_drafts D
    | Some d \<Rightarrow> delete_rows (\<lambda>x. dr_id x = dr_id d \<and> dr_revision x = dr_revision d
        \<and> dr_application_revision x = dr_application_revision d) (dd_drafts D))"

definition commit_packet ::
  "instant \<Rightarrow> dossier_db \<Rightarrow> int \<Rightarrow> string \<Rightarrow> dossier_create \<Rightarrow> published_version \<Rightarrow> string \<Rightarrow> packet_row \<Rightarrow> dossier_db outcome" where
  "commit_packet now D uid aid q v payload packet =
     and_then (publish_dossier_write now (dd_app D) (dd_app D) uid aid (dq_expected_revision q) (pv_id v) payload) (\<lambda>app.
       Inr (D\<lparr>dd_app := app, dd_drafts := consume_draft D aid, dd_packets := dd_packets D @ [packet]\<rparr>))"

definition publish_dossier ::
  "packet_env \<Rightarrow> instant \<Rightarrow> string \<Rightarrow> dossier_db \<Rightarrow> int \<Rightarrow> string \<Rightarrow> dossier_create \<Rightarrow> dossier_db outcome" where
  "publish_dossier E now dossier_id D uid aid q =
     and_then (prepare_packet E D uid aid q) (\<lambda>(v, bundle, payload).
     and_then (ensure (packet_size_ok bundle) (UnhandledError ''ValueError'')) (\<lambda>_.
       commit_packet now D uid aid q v payload (packet_of (se_sha256 (pe_storage E)) now aid dossier_id bundle)))"

lemmas publication_defs = publish_dossier_def prepare_packet_def packet_of_def packet_size_ok_def
  consume_draft_def commit_packet_def

end
