(* ===== verification/DossierClaims.thy ===== *)
theory DossierClaims
  imports Dossiers ApplicationClaims
begin

text \<open>
  What the preflight report and the dossier operations guarantee: the report is
  well formed and its verdict and score mean what they say; a published packet
  passed the preflight, cites confirmed facts and is the saved draft; a publication
  is one more commit of the application history; saves of a draft compare and swap.
\<close>

subsection \<open>A publication, step by step\<close>

lemma publish_dossier_Inr:
  assumes "publish_dossier E now did D uid aid q = Inr D'"
  obtains a effective v r bytes content app where "get_application (dd_app D) uid aid = Inr a"
    "ap_revision a = dq_expected_revision q" "effective_version D uid a q = Inr effective"
    "resume_version_of D uid effective = Some v" "pv_quality_passed v"
    "build_readiness (pe_storage E) (profile_of D uid) (Some v) (a\<lparr>ap_resume_version_id := effective\<rparr>) = Inr r"
    "rr_blockers r = 0" "build_packet_materials E a (dq_content q) v r = Inr (bytes, content)"
    "publish_dossier_write now (dd_app D) (dd_app D) uid aid (dq_expected_revision q) (pv_id v) content = Inr app"
    "dd_app D' = app" "dd_versions D' = dd_versions D" "dd_resumes D' = dd_resumes D" "dd_profiles D' = dd_profiles D"
    "dd_drafts D' = (case draft_of D aid of None \<Rightarrow> dd_drafts D
       | Some d \<Rightarrow> delete_rows (\<lambda>x. dr_id x = dr_id d \<and> dr_revision x = dr_revision d
           \<and> dr_application_revision x = dr_application_revision d) (dd_drafts D))"
    "dd_packets D' = dd_packets D @ [\<lparr>pk_application = aid, pk_dossier = did,
       pk_path = packet_path aid did (se_sha256 (pe_storage E) bytes),
       pk_sha256 = se_sha256 (pe_storage E) bytes, pk_size = int (length bytes), pk_created_at = now\<rparr>]"
proof -
  from assms obtain a effective where a: "get_application (dd_app D) uid aid = Inr a"
    "ap_revision a = dq_expected_revision q" and eff: "effective_version D uid a q = Inr effective"
    by (auto simp: publication_defs and_then_Inr)
  from get_application_Inr [OF a(1)] have id: "ap_id a = aid" by simp
  note unfolded = assms [unfolded publication_defs, simplified and_then_Inr a eff]
  from unfolded obtain v where v: "resume_version_of D uid effective = Some v"
    by (auto simp: eff a and_then_Inr split: option.splits)
  from unfolded v show thesis
    by (auto simp: eff a id and_then_Inr Let_def intro!: that [of a effective v])
qed

subsection \<open>The report\<close>

text \<open>C24: Every preflight report is well formed. It lists the nine checks in their order with weights that
  add up to a hundred; each check awards all its points exactly when it passes, none exactly when it
  blocks, and names an action exactly when it does not pass; the score is the sum of the points and
  stays within a hundred, and the title and the company fit their bounds.\<close>

theorem readiness_report_typed:
  assumes "build_readiness S profile version a = Inr r"
  shows "map rc_id (rr_checks r) = check_ids \<and> sum_list (map rc_available (rr_checks r)) = 100
    \<and> rr_score r = sum_list (map rc_awarded (rr_checks r)) \<and> rr_score r \<in> {0..100}
    \<and> list_all (\<lambda>c. 0 \<le> rc_awarded c \<and> rc_awarded c \<le> rc_available c
        \<and> (rc_status c = Passes \<longleftrightarrow> rc_awarded c = rc_available c) \<and> (rc_status c = Blocks \<longleftrightarrow> rc_awarded c = 0)
        \<and> (rc_status c = Passes \<longleftrightarrow> rc_action c = None)) (rr_checks r)
    \<and> length (rr_role_title r) \<in> {1..240} \<and> length (rr_company r) \<in> {1..240}"
proof -
  from build_readiness_Inr [OF assms] have r: "r = report_of S profile version a" and ok: "valid_report r" by blast+
  have "list_all check_sound (rr_checks r)" unfolding r report_of_facts by (rule checks_of_sound)
  then have "list_all (\<lambda>c. 0 \<le> rc_awarded c \<and> rc_awarded c \<le> rc_available c
        \<and> (rc_status c = Passes \<longleftrightarrow> rc_awarded c = rc_available c) \<and> (rc_status c = Blocks \<longleftrightarrow> rc_awarded c = 0)
        \<and> (rc_status c = Passes \<longleftrightarrow> rc_action c = None)) (rr_checks r)"
    by (rule list.pred_mono_strong) (auto simp: check_sound_facts)
  moreover have "map rc_id (rr_checks r) = check_ids" "sum_list (map rc_available (rr_checks r)) = 100"
    unfolding r report_of_facts checks_of_shape by (simp_all add: check_weights_def)
  moreover have "rr_score r = sum_list (map rc_awarded (rr_checks r))"
    unfolding r report_of_facts awarded_sum ..
  ultimately show ?thesis using ok unfolding valid_report_def atLeastAtMost_iff by blast
qed

text \<open>C23: The verdict and the score of a report say the same. The report is not blocked exactly when the
  role has a title, a company, a description of 120 characters and a route, there is a profile and a
  linked version that passed its quality check, has artifacts, all verified, and cites a confirmed
  fact; it is ready exactly when the score is a hundred; an unblocked report that still asks for action scores
  from 80 to 97 and a blocked one at most 90.\<close>

theorem readiness_verdict:
  assumes "build_readiness S profile version a = Inr r"
  shows "(rr_status r \<noteq> Blocked \<longleftrightarrow> preflight_met S profile version (ap_job_snapshot a))
    \<and> (rr_status r = Ready \<longleftrightarrow> rr_score r = 100)
    \<and> (rr_status r = ActionNeeded \<longrightarrow> 80 \<le> rr_score r \<and> rr_score r \<le> 97)
    \<and> (rr_status r = Blocked \<longrightarrow> rr_score r \<le> 90)
    \<and> (rr_status r = Blocked \<longleftrightarrow> rr_blockers r \<noteq> 0)"
proof -
  from build_readiness_Inr [OF assms] have r: "r = report_of S profile version a" by blast
  have "rr_status r = Blocked \<longleftrightarrow> rr_blockers r \<noteq> 0"
    unfolding r report_of_def Let_def by simp
  with checks_loss [where S = S and p = profile and v = version and s = "ap_job_snapshot a"]
    blocked_iff [where S = S and p = profile and v = version and s = "ap_job_snapshot a"]
  show ?thesis unfolding r report_of_facts loss_range_def by (auto split: if_splits)
qed

text \<open>A title above the bound of the schema: the application exists, its report does not.\<close>

lemma long_title_has_no_report:
  assumes "240 < length (clean_text (snap_get (ap_job_snapshot a) ''title''))"
  shows "build_readiness S profile version a = Inl (UnhandledError ''ValidationError'')
    \<and> length (title_projection (ap_job_snapshot a)) \<le> 240"
  using assms by (cases "clean_text (snap_get (ap_job_snapshot a) ''title'')")
    (auto simp: build_readiness_def Let_def valid_report_def report_of_def title_projection_def)

subsection \<open>Publication\<close>

lemma check_evidence_Inr: "build_packet_materials E a c v r = Inr b \<Longrightarrow> list_all (confirmed_fact v) (evidence_ids c)"
  by (auto simp: build_packet_materials_def check_evidence_def and_then_Inr)

lemma resume_version_of_in: "resume_version_of D uid vid = Some v \<Longrightarrow> v \<in> set (dd_versions D) \<and> Some (pv_id v) = vid
    \<and> (\<exists>d \<in> set (dd_resumes D). rd_id d = pv_draft v \<and> (\<exists>p \<in> set (dd_profiles D). cv_id p = rd_profile d \<and> cv_user p = uid))"
  by (auto simp: resume_version_of_def owns_resume_def list_ex_iff dest!: select_first_Some split: option.splits if_splits)

text \<open>C21: What is published has passed the preflight. A publication that succeeds met the current revision of
  an application of the user and used a version of a resume in the profile of the user, which passed its quality check and whose
  stored files verify; the readiness report for that version has no blocker and scores at least 80;
  every fact that the packet cites is a confirmed fact selected in that version; and exactly one
  packet is added, whose digest and size are those of the archive.\<close>

theorem published_packet_is_verified:
  assumes "publish_dossier E now did D uid aid q = Inr D'"
  shows "\<exists>a v r bytes. get_application (dd_app D) uid aid = Inr a \<and> ap_revision a = dq_expected_revision q
    \<and> v \<in> set (dd_versions D) \<and> resume_usable (pe_storage E) v
    \<and> (\<exists>d \<in> set (dd_resumes D). rd_id d = pv_draft v \<and> (\<exists>p \<in> set (dd_profiles D). cv_id p = rd_profile d \<and> cv_user p = uid))
    \<and> build_readiness (pe_storage E) (profile_of D uid) (Some v) (a\<lparr>ap_resume_version_id := Some (pv_id v)\<rparr>) = Inr r
    \<and> rr_status r \<noteq> Blocked \<and> 80 \<le> rr_score r
    \<and> list_all (confirmed_fact v) (evidence_ids (dq_content q))
    \<and> dd_packets D' = dd_packets D @ [\<lparr>pk_application = aid, pk_dossier = did,
         pk_path = packet_path aid did (se_sha256 (pe_storage E) bytes), pk_sha256 = se_sha256 (pe_storage E) bytes,
         pk_size = int (length bytes), pk_created_at = now\<rparr>]"
  using assms
proof (rule publish_dossier_Inr)
  fix a effective v r bytes content app
  assume a: "get_application (dd_app D) uid aid = Inr a" "ap_revision a = dq_expected_revision q"
    and v: "resume_version_of D uid effective = Some v"
    and r: "build_readiness (pe_storage E) (profile_of D uid) (Some v) (a\<lparr>ap_resume_version_id := effective\<rparr>) = Inr r"
    and b: "rr_blockers r = 0" and m: "build_packet_materials E a (dq_content q) v r = Inr (bytes, content)"
    and k: "dd_packets D' = dd_packets D @ [\<lparr>pk_application = aid, pk_dossier = did,
       pk_path = packet_path aid did (se_sha256 (pe_storage E) bytes),
       pk_sha256 = se_sha256 (pe_storage E) bytes, pk_size = int (length bytes), pk_created_at = now\<rparr>]"
  from build_readiness_Inr [OF r] have rep: "r = report_of (pe_storage E) (profile_of D uid) (Some v) (a\<lparr>ap_resume_version_id := effective\<rparr>)"
    by blast
  have "rr_status r \<noteq> Blocked" using b unfolding rep report_of_def Let_def by simp
  moreover from this have "80 \<le> rr_score r" "resume_usable (pe_storage E) v"
    using checks_loss [where S = "pe_storage E" and p = "profile_of D uid" and v = "Some v" and s = "ap_job_snapshot a"]
      blocked_iff [where S = "pe_storage E" and p = "profile_of D uid" and v = "Some v" and s = "ap_job_snapshot a"]
    unfolding rep report_of_facts loss_range_def by (auto simp: preflight_met_def split: if_splits)
  ultimately show ?thesis
    using a r m k resume_version_of_in [OF v] check_evidence_Inr [OF m] by blast
qed

definition drafts_ok :: "dossier_db \<Rightarrow> bool" where
  "drafts_ok D \<longleftrightarrow> unique_by dr_application (dd_drafts D) \<and> unique_by dr_id (dd_drafts D)"

lemma draft_of_Some: "draft_of D aid = Some d \<Longrightarrow> d \<in> set (dd_drafts D) \<and> dr_application d = aid"
  unfolding draft_of_def by (rule select_first_Some)

lemma delete_only_draft:
  assumes "drafts_ok D" and "draft_of D aid = Some d"
  shows "delete_rows (\<lambda>x. dr_id x = dr_id d \<and> dr_revision x = dr_revision d
      \<and> dr_application_revision x = dr_application_revision d) (dd_drafts D)
    = delete_rows (\<lambda>x. dr_application x = aid) (dd_drafts D)"
  unfolding delete_rows_def
proof (rule filter_cong [OF refl])
  fix x
  assume x: "x \<in> set (dd_drafts D)"
  from draft_of_Some [OF assms(2)] have d: "d \<in> set (dd_drafts D)" "dr_application d = aid" by simp_all
  have "dr_id x = dr_id d \<Longrightarrow> x = d" "dr_application x = dr_application d \<Longrightarrow> x = d"
    using assms(1) x d(1) unfolding drafts_ok_def by (blast dest: unique_byD)+
  with d show "(\<not> (dr_id x = dr_id d \<and> dr_revision x = dr_revision d
      \<and> dr_application_revision x = dr_application_revision d)) = (dr_application x \<noteq> aid)" by auto
qed

text \<open>C22: A publication consumes exactly the draft that it publishes. When the application has a draft, a
  publication that succeeds named its current revision, the draft was saved against the current revision of the
  application, what is published is the saved content, the draft is gone and every other
  draft is kept; and when the draft was bound to a resume draft, the published version comes from the
  revision of it that was bound, which is still the current one and built on the current profile.\<close>

theorem publication_consumes_saved_draft:
  assumes "publish_dossier E now did D uid aid q = Inr D'" and "drafts_ok D" and "draft_of D aid = Some d"
  shows "dq_expected_draft_revision q = Some (dr_revision d) \<and> dr_application_revision d = dq_expected_revision q
    \<and> publishable_draft_content (dr_content d) = Inr (requested_dossier_content q)
    \<and> dd_drafts D' = filter (\<lambda>x. dr_application x \<noteq> aid) (dd_drafts D)
    \<and> (\<forall>rid. dr_resume_draft d = Some rid \<longrightarrow> (\<exists>v rd p. resume_version_of D uid (dq_resume_version q) = Some v
         \<and> resume_draft_of D uid (Some rid) = Some rd \<and> profile_of D uid = Some p \<and> pv_draft v = rid
         \<and> pv_draft_revision v = Some (rd_revision rd) \<and> dr_resume_draft_revision d = Some (rd_revision rd)
         \<and> rd_profile_revision rd = cv_revision p \<and> pv_profile_revision v = cv_revision p))"
  using assms(1)
proof (rule publish_dossier_Inr)
  fix a effective
  assume a: "get_application (dd_app D) uid aid = Inr a" "ap_revision a = dq_expected_revision q"
    and eff: "effective_version D uid a q = Inr effective"
    and dr: "dd_drafts D' = (case draft_of D aid of None \<Rightarrow> dd_drafts D
       | Some d \<Rightarrow> delete_rows (\<lambda>x. dr_id x = dr_id d \<and> dr_revision x = dr_revision d
           \<and> dr_application_revision x = dr_application_revision d) (dd_drafts D))"
  have "ap_id a = aid" using get_application_Inr [OF a(1)] by simp
  with eff assms(3) have "check_draft D uid a d q = Inr effective" by (simp add: effective_version_def)
  then have c: "dq_expected_draft_revision q = Some (dr_revision d)" "dr_application_revision d = ap_revision a"
    "publishable_draft_content (dr_content d) = Inr (requested_dossier_content q)"
    and bound: "dr_resume_draft d = Some rid \<Longrightarrow> \<exists>v. bound_to_draft D uid d rid (dq_resume_version q) = Inr v" for rid
    by (auto simp: check_draft_def and_then_Inr)
  have "dd_drafts D' = filter (\<lambda>x. dr_application x \<noteq> aid) (dd_drafts D)"
    using dr assms(3) delete_only_draft [OF assms(2,3)] by (simp add: delete_rows_def)
  moreover have "\<exists>v rd p. resume_version_of D uid (dq_resume_version q) = Some v
         \<and> resume_draft_of D uid (Some rid) = Some rd \<and> profile_of D uid = Some p \<and> pv_draft v = rid
         \<and> pv_draft_revision v = Some (rd_revision rd) \<and> dr_resume_draft_revision d = Some (rd_revision rd)
         \<and> rd_profile_revision rd = cv_revision p \<and> pv_profile_revision v = cv_revision p"
    if "dr_resume_draft d = Some rid" for rid
    using bound [OF that] by (auto simp: bound_to_draft_def and_then_Inr Let_def split: option.splits)
  ultimately show ?thesis using c a(2) by simp
qed

text \<open>A publication is a commit of the application history. On the latest state of any history of the
  application service a publication that succeeds yields a longer history, so everything that holds of all
  histories holds after it; the application then stands at the next revision.\<close>

lemma publication_extends_history:
  assumes "timeline ((clock, dd_app D) # h)" and "clock_monotone ((clock, dd_app D) # h)" and "1 \<le> dq_expected_revision q"
    and "publish_dossier E now did D uid aid q = Inr D'"
  shows "timeline ((now, dd_app D') # (clock, dd_app D) # h)
    \<and> app_revision (dd_app D') (aid, uid) = Some (dq_expected_revision q + 1)"
  using assms(4)
proof (rule publish_dossier_Inr)
  fix v content app
  assume w: "publish_dossier_write now (dd_app D) (dd_app D) uid aid (dq_expected_revision q) (pv_id v) content = Inr app"
    and app: "dd_app D' = app"
  let ?cmd = "PublishDossier uid aid (dq_expected_revision q) (pv_id v) content"
  have cmd: "write_command (\<lambda>_. True) now (dd_app D) (dd_app D) ?cmd = Inr app" using w by simp
  have "timeline ((now, app) # (clock, dd_app D) # h)"
    by (rule timeline_commit [OF assms(1) _ _ _ cmd]) (use assms(3) in auto)
  moreover have "ids_unique (dd_app D)"
    using timeline_ok [OF assms(1,2)] by (simp add: app_ok_def ids_unique_def)
  from app_writes.cas_advances [OF this, of "(aid, uid)" "dq_expected_revision q"
      "(\<lambda>_. True, now, dd_app D, ?cmd)" app] cmd
  have "app_revision app (aid, uid) = Some (dq_expected_revision q + 1)" by (simp add: command_cas_def)
  ultimately show ?thesis using app by simp
qed

subsection \<open>Saves of a draft\<close>

definition draft_revision :: "dossier_db \<Rightarrow> string \<Rightarrow> int option" where
  "draft_revision D aid = map_option dr_revision (draft_of D aid)"

type_synonym save = "instant \<times> string \<times> int \<times> draft_put"

definition save_cas :: "dossier_db \<Rightarrow> string \<Rightarrow> int \<Rightarrow> save \<Rightarrow> dossier_db option" where
  "save_cas D aid e w = (case w of (now, new_id, uid, p) \<Rightarrow>
     if dp_expected_revision p = Some e
     then (case mutate_dossier_draft now new_id D uid aid p of Inl _ \<Rightarrow> None | Inr D' \<Rightarrow> Some D') else None)"

text \<open>The saves of a sequence that commit, as application and revision.\<close>

fun saves :: "dossier_db \<Rightarrow> (string \<times> save) list \<Rightarrow> (string \<times> int) list" where
  "saves D [] = []"
| "saves D ((aid, now, new_id, uid, p) # ws) =
     (case mutate_dossier_draft now new_id D uid aid p of
        Inl _ \<Rightarrow> saves D ws
      | Inr D' \<Rightarrow> (case dp_expected_revision p of None \<Rightarrow> saves D' ws | Some e \<Rightarrow> (aid, e) # saves D' ws))"

lemma mutate_update:
  assumes "mutate_dossier_draft now new_id D uid aid p = Inr D'" and e: "dp_expected_revision p = Some e" and ok: "drafts_ok D"
  obtains d f where "draft_of D aid = Some d" "dr_revision d = e"
    "dd_drafts D' = update_rows (\<lambda>x. dr_application x = aid) f (dd_drafts D)"
    "\<forall>x. dr_application (f x) = dr_application x \<and> dr_id (f x) = dr_id x \<and> dr_revision (f x) = e + 1
      \<and> dr_content (f x) = dp_content p"
proof -
  from assms(1) obtain a binding where a: "get_application (dd_app D) uid aid = Inr a"
    and st: "store_draft now new_id D a p binding = Inr D'"
    unfolding mutate_dossier_draft_def and_then_Inr by blast
  have aid: "ap_id a = aid" using get_application_Inr [OF a] by simp
  obtain v rd rr where b: "binding = (v, rd, rr)" by (rule prod_cases3)
  from st e aid obtain d where d: "draft_of D aid = Some d" "dr_revision d = e"
    and D': "D' = D\<lparr>dd_drafts := update_rows (\<lambda>x. dr_id x = dr_id d \<and> dr_revision x = e)
      (\<lambda>x. x\<lparr>dr_resume_version := v, dr_resume_draft := rd, dr_resume_draft_revision := rr,
        dr_application_revision := dp_expected_application_revision p, dr_revision := e + 1,
        dr_content := dp_content p, dr_updated_at := now\<rparr>) (dd_drafts D)\<rparr>"
    unfolding store_draft_def b
    by (cases "draft_of D aid") (auto simp: and_then_Inr Let_def split: if_splits)
  have same: "(dr_id x = dr_id d \<and> dr_revision x = e) = (dr_application x = aid)" if x: "x \<in> set (dd_drafts D)" for x
  proof -
    from draft_of_Some [OF d(1)] have in_d: "d \<in> set (dd_drafts D)" "dr_application d = aid" by simp_all
    have "dr_id x = dr_id d \<Longrightarrow> x = d" "dr_application x = dr_application d \<Longrightarrow> x = d"
      using ok x in_d(1) unfolding drafts_ok_def by (blast dest: unique_byD)+
    with in_d d(2) show ?thesis by auto
  qed
  show thesis
  proof (rule that [OF d])
    show "dd_drafts D' = update_rows (\<lambda>x. dr_application x = aid)
      (\<lambda>x. x\<lparr>dr_resume_version := v, dr_resume_draft := rd, dr_resume_draft_revision := rr,
        dr_application_revision := dp_expected_application_revision p, dr_revision := e + 1,
        dr_content := dp_content p, dr_updated_at := now\<rparr>) (dd_drafts D)"
      unfolding D' update_rows_def by (simp add: same cong: map_cong)
  qed simp
qed

lemma draft_of_update:
  assumes "dd_drafts D' = update_rows (\<lambda>x. dr_application x = aid) f (dd_drafts D)"
    and "\<And>x. dr_application (f x) = dr_application x"
  shows "draft_of D' k = map_option (\<lambda>x. if dr_application x = aid then f x else x) (draft_of D k)"
  unfolding draft_of_def assms(1) by (rule select_first_update) (simp add: assms(2))

interpretation draft_saves: revision_cas draft_revision save_cas drafts_ok
proof
  fix D k e w D'
  assume ok: "drafts_ok D" and c: "save_cas D k e w = Some D'"
  obtain now new_id uid p where w: "w = (now, new_id, uid, p)" by (rule prod_cases4)
  with c have m: "mutate_dossier_draft now new_id D uid k p = Inr D'" "dp_expected_revision p = Some e"
    by (auto simp: save_cas_def split: if_splits sum.splits)
  obtain d f where d: "draft_of D k = Some d" "dr_revision d = e"
    and u: "dd_drafts D' = update_rows (\<lambda>x. dr_application x = k) f (dd_drafts D)"
    and f: "\<forall>x. dr_application (f x) = dr_application x \<and> dr_id (f x) = dr_id x \<and> dr_revision (f x) = e + 1
      \<and> dr_content (f x) = dp_content p"
    using mutate_update [OF m ok] by blast
  have at: "draft_of D' j = map_option (\<lambda>x. if dr_application x = k then f x else x) (draft_of D j)" for j
    by (rule draft_of_update [OF u]) (simp add: f)
  show "draft_revision D k = Some e" using d by (simp add: draft_revision_def)
  show "draft_revision D' k = Some (e + 1)"
    using d draft_of_Some [OF d(1)] f by (simp add: draft_revision_def at)
  show "draft_revision D' j = draft_revision D j" if "j \<noteq> k" for j
    using that draft_of_Some [of D j] by (cases "draft_of D j") (auto simp: draft_revision_def at)
  show "drafts_ok D'" using ok f unfolding drafts_ok_def u by (simp add: unique_by_update)
qed

lemma saves_wins:
  "\<forall>(aid, now, new_id, uid, p) \<in> set ws. dp_expected_revision p \<noteq> None \<Longrightarrow>
   saves D ws = draft_saves.wins D (map (\<lambda>(aid, now, new_id, uid, p). (aid, the (dp_expected_revision p), now, new_id, uid, p)) ws)"
proof (induction D ws rule: saves.induct)
  case (2 D aid now new_id uid p ws)
  then obtain e where e: "dp_expected_revision p = Some e" by auto
  have "save_cas D aid e (now, new_id, uid, p) =
      (case mutate_dossier_draft now new_id D uid aid p of Inl _ \<Rightarrow> None | Inr D' \<Rightarrow> Some D')"
    by (simp add: save_cas_def e)
  with 2 e show ?case by (cases "mutate_dossier_draft now new_id D uid aid p") simp_all
qed simp

text \<open>C25: Autosaves do not overwrite each other. Of all the saves that name the same revision of the draft of an
  application, in any order and with any contents, at most one commits.\<close>

theorem one_save_per_draft_revision:
  assumes "drafts_ok D" and "\<forall>(aid, now, new_id, uid, p) \<in> set ws. dp_expected_revision p \<noteq> None"
  shows "distinct (saves D ws)"
  unfolding saves_wins [OF assms(2)] by (rule draft_saves.at_most_one_winner [OF assms(1)])

text \<open>
  A draft that was deleted and created again starts at revision 1 again, so a save that
  was prepared against the deleted draft meets the revision it expects.
\<close>

lemma draft_of_appended:
  "draft_of D aid = None \<Longrightarrow> dr_application d = aid \<Longrightarrow>
    draft_of (D\<lparr>dd_drafts := dd_drafts D @ [d]\<rparr>) aid = Some d"
  unfolding draft_of_def by (auto simp: select_first_None intro!: select_first_appended)

lemma drafts_irrelevant [simp]:
  "version_binding (D\<lparr>dd_drafts := ds\<rparr>) uid a v = version_binding D uid a v"
  "draft_binding (D\<lparr>dd_drafts := ds\<rparr>) uid r e = draft_binding D uid r e"
  "ensure_current_binding (D\<lparr>dd_drafts := ds\<rparr>) uid aid n u = ensure_current_binding D uid aid n u"
  by (simp_all add: version_binding_def draft_binding_def ensure_current_binding_def resume_version_of_def
      resume_draft_of_def owns_resume_def split: option.split)

text \<open>C39: The revision of a draft does not identify the draft. When a draft is deleted and created again, a save
  of another editor that still names revision 1 of the deleted draft is accepted and replaces the
  content of the new draft, which that editor has never seen.\<close>

theorem recreated_draft_is_overwritten:
  assumes "delete_dossier_draft D uid aid 1 = Inr D1"
    and "mutate_dossier_draft now1 new1 D1 uid aid p = Inr D2" and "dp_expected_revision p = None"
    and "new1 \<notin> dr_id ` set (dd_drafts D1)"
  shows "\<exists>D3 d. mutate_dossier_draft now2 new2 D2 uid aid (p\<lparr>dp_expected_revision := Some 1, dp_content := c\<rparr>) = Inr D3
    \<and> draft_of D3 aid = Some d \<and> dr_content d = c"
proof -
  let ?p = "p\<lparr>dp_expected_revision := Some 1, dp_content := c\<rparr>"
  from assms(2) obtain a binding where a: "get_application (dd_app D1) uid aid = Inr a"
    and locked: "row_count (\<lambda>x. ap_id x = aid \<and> ap_user x = uid
           \<and> ap_revision x = dp_expected_application_revision p) (db_applications (dd_app D1)) = 1"
    and rev: "ap_revision a = dp_expected_application_revision p"
    and b: "(case (dp_resume_version p, dp_resume_draft p) of
         (Some v, None) \<Rightarrow> version_binding D1 uid a v
       | (None, Some d) \<Rightarrow> draft_binding D1 uid d (dp_expected_resume_draft_revision p)
       | _ \<Rightarrow> Inl (ValidationError ''Dossier draft must bind exactly one of resume_draft_id or resume_version_id''))
       = Inr binding"
    and st: "store_draft now1 new1 D1 a p binding = Inr D2"
    and fin: "ensure_current_binding D2 uid aid (dp_expected_application_revision p) (fst binding) = Inr ()"
    by (auto simp: mutate_dossier_draft_def and_then_Inr)
  have aid: "ap_id a = aid" using get_application_Inr [OF a] by simp
  obtain v rd rr where bind: "binding = (v, rd, rr)" by (rule prod_cases3)
  define d where "d = \<lparr>dr_id = new1, dr_application = aid, dr_resume_version = v, dr_resume_draft = rd,
      dr_resume_draft_revision = rr, dr_application_revision = ap_revision a, dr_revision = 1,
      dr_content = dp_content p, dr_created_at = now1, dr_updated_at = now1\<rparr>"
  from st assms(3) have none: "draft_of D1 aid = None" and D2: "D2 = D1\<lparr>dd_drafts := dd_drafts D1 @ [d]\<rparr>"
    by (auto simp: store_draft_def bind aid d_def split: option.splits)
  have at: "draft_of D2 aid = Some d"
    unfolding D2 by (rule draft_of_appended [OF none]) (simp add: d_def)
  have "row_count (\<lambda>x. dr_id x = new1 \<and> dr_revision x = 1) (dd_drafts D1) = 0"
    using assms(4) by (auto simp: row_count_0)
  then have one: "row_count (\<lambda>x. dr_id x = dr_id d \<and> dr_revision x = 1) (dd_drafts D2) = 1"
    by (simp add: D2 d_def)
  define g :: "dossier_draft \<Rightarrow> dossier_draft" where "g = (\<lambda>x. x\<lparr>dr_resume_version := v, dr_resume_draft := rd,
      dr_resume_draft_revision := rr, dr_application_revision := dp_expected_application_revision p,
      dr_revision := 2, dr_content := c, dr_updated_at := now2\<rparr>)"
  have keep: "\<And>x. dr_application (g x) = dr_application x" by (simp add: g_def)
  define D3 where "D3 = D2\<lparr>dd_drafts := update_rows (\<lambda>x. dr_id x = dr_id d \<and> dr_revision x = 1) g (dd_drafts D2)\<rparr>"
  have st3: "store_draft now2 new2 D2 a ?p binding = Inr D3"
    using one at by (simp add: store_draft_def bind aid d_def D3_def g_def ensure_def)
  have "draft_of D3 aid = map_option (\<lambda>x. if dr_id x = dr_id d \<and> dr_revision x = 1 then g x else x) (draft_of D2 aid)"
    unfolding draft_of_def D3_def using keep by (simp add: select_first_update)
  then have dr3: "\<exists>x. draft_of D3 aid = Some x \<and> dr_content x = c" by (simp add: at d_def g_def)
  have "mutate_dossier_draft now2 new2 D2 uid aid ?p = Inr D3"
    using a locked rev b st3 fin by (cases "dp_resume_version p"; cases "dp_resume_draft p")
      (simp_all add: mutate_dossier_draft_def D2 D3_def ensure_def)
  with dr3 show ?thesis by blast
qed

text \<open>
  A draft may be bound to a version while the application has no linked resume, as far
  as the first check goes; the last check then refuses every such save.
\<close>

lemma unlinked_version_binding_refused:
  assumes "get_application (dd_app D) uid aid = Inr a" and "ap_resume_version_id a = None"
    and "dp_resume_version p = Some v" and "resume_version_of D uid (Some v) \<noteq> None"
  shows "version_binding D uid a v = Inr (Some v, None, None)"
    and "mutate_dossier_draft now new_id D uid aid p \<noteq> Inr D'"
proof -
  show b: "version_binding D uid a v = Inr (Some v, None, None)"
    using assms by (simp add: version_binding_def truthy_def ensure_def)
  show "mutate_dossier_draft now new_id D uid aid p \<noteq> Inr D'"
  proof
    assume "mutate_dossier_draft now new_id D uid aid p = Inr D'"
    then obtain binding where st: "store_draft now new_id D a p binding = Inr D'" and f: "fst binding = Some v"
      and fin: "ensure_current_binding D' uid aid (dp_expected_application_revision p) (fst binding) = Inr ()"
      using assms(1,3) b by (auto simp: mutate_dossier_draft_def and_then_Inr split: option.splits)
    have "dd_app D' = dd_app D" using st
      by (cases binding) (auto simp: store_draft_def and_then_Inr Let_def split: option.splits if_splits)
    with fin f assms(1,2) show False
      by (auto simp: ensure_current_binding_def get_application_def split: option.splits)
  qed
qed

subsection \<open>A concrete publication\<close>

definition demo_files :: storage_env where
  "demo_files = \<lparr>se_read = (\<lambda>p. if p = ''resumes/cv.pdf'' then Some ''%PDF'' else None), se_sha256 = (\<lambda>_. replicate 64 CHR ''a'')\<rparr>"

definition demo_packets :: packet_env where
  "demo_packets = \<lparr>pe_ready = True, pe_storage = demo_files, pe_body = (\<lambda>e. e), pe_render = (\<lambda>_ _ _ _ _. Inr (''ZIP'', ''{}''))\<rparr>"

definition demo_profile :: career_profile where
  "demo_profile = \<lparr>cv_id = ''p'', cv_user = 7, cv_revision = 3, cv_display_name = Some ''Ada'', cv_headline = None,
     cv_summary = None, cv_email = Some ''ada@example.org'', cv_phone = None, cv_location = [''city''],
     cv_preferences = [''target_roles''], cv_facts = [\<lparr>cf_type = ''skill'', cf_status = ''confirmed'', cf_truthy = []\<rparr>],
     cv_goals = []\<rparr>"

definition demo_version :: published_version where
  "demo_version = \<lparr>pv_id = ''v1'', pv_draft = ''r1'', pv_semantic = ''1.0'', pv_profile_revision = 3,
     pv_draft_revision = Some 2, pv_selected = [''f1''], pv_facts = [(''f1'', ''confirmed'')],
     pv_quality_passed = True, pv_renderer = ''2'',
     pv_artifacts = [\<lparr>ra_format = ''pdf'', ra_media_type = ''application/pdf'', ra_path = ''resumes/cv.pdf'',
       ra_sha256 = replicate 64 CHR ''a'', ra_size = 4\<rparr>]\<rparr>"

definition demo_role :: manual_job where
  "demo_role = \<lparr>mj_title = ''Engineer'', mj_company = ''Acme'', mj_description = Some (replicate 120 CHR ''x''),
     mj_location = None, mj_external_url = Some ''https://acme.example'', mj_application_url = None,
     mj_application_email = None, mj_workload = None\<rparr>"

definition demo_create :: application_create where
  "demo_create = \<lparr>ac_job_id = None, ac_manual_job = Some demo_role, ac_resume_version_id = None,
     ac_initial_stage = Preparing, ac_note = None\<rparr>"

definition demo_empty :: app_db where
  "demo_empty = \<lparr>db_applications = [], db_events = [], db_jobs = [], db_scraped = [], db_versions = [], db_profiles = []\<rparr>"

definition demo_apps :: app_db where
  "demo_apps = demo_empty\<lparr>
     db_applications := [new_application 10 sample_id 7 demo_create None (manual_snapshot demo_role)],
     db_events := [\<lparr>ev_application_id = sample_id, ev_type = StageEvent, ev_stage = Some Preparing, ev_occurred_at = 10,
       ev_note = None, ev_payload = InitialMarker, ev_created_at = 10\<rparr>]\<rparr>"

lemma demo_timeline: "timeline [(10, demo_apps), (0, demo_empty)]"
proof -
  have "timeline [(0, demo_empty)]" by (rule timeline_start) (simp_all add: demo_empty_def)
  then show ?thesis
  proof (rule timeline_commit)
    show "fresh_command demo_empty (CreateApplication sample_id 7 demo_create)"
      by code_simp
    show "write_command (\<lambda>_. True) 10 demo_empty demo_empty (CreateApplication sample_id 7 demo_create) = Inr demo_apps"
      by (simp add: create_write_def source_job_def check_resume_version_def source_snapshot_def insert_application_def
          new_application_def violates_unique_def sync_legacy_applied_markers_def application_reached_applied_def
          milestone_stages_def terminal_stages_def append_row_def demo_create_def demo_apps_def demo_empty_def)
  qed (auto simp: demo_create_def valid_create_def)
qed

definition demo_content :: draft_content where
  "demo_content = \<lparr>dc_cover_letter = Some '' I led  Ada '', dc_answers = [(''a'', '' Why? '', ''Because'')], dc_checklist = [],
     dc_requirements = [(''q'', ''Leads '', [''f1''])], dc_letter_options = None, dc_email_draft = None,
     dc_provenance = None, dc_claims = [\<lparr>ec_id = ''c'', ec_text = ''led Ada'', ec_fact_ids = [''f1'']\<rparr>]\<rparr>"

definition demo_put :: draft_put where
  "demo_put = \<lparr>dp_expected_revision = None, dp_expected_application_revision = 1, dp_resume_version = None,
     dp_resume_draft = Some ''r1'', dp_expected_resume_draft_revision = Some 2, dp_content = demo_content\<rparr>"

definition demo_tables :: dossier_db where
  "demo_tables = \<lparr>dd_app = demo_apps, dd_drafts = [],
     dd_resumes = [\<lparr>rd_id = ''r1'', rd_profile = ''p'', rd_revision = 2, rd_profile_revision = 3\<rparr>],
     dd_versions = [demo_version], dd_profiles = [demo_profile], dd_packets = []\<rparr>"

definition demo_draft :: dossier_draft where
  "demo_draft = \<lparr>dr_id = ''d1'', dr_application = sample_id, dr_resume_version = None, dr_resume_draft = Some ''r1'',
     dr_resume_draft_revision = Some 2, dr_application_revision = 1, dr_revision = 1, dr_content = demo_content,
     dr_created_at = 20, dr_updated_at = 20\<rparr>"

definition demo_saved :: dossier_db where
  "demo_saved = demo_tables\<lparr>dd_drafts := [demo_draft]\<rparr>"

definition demo_request :: dossier_create where
  "demo_request = \<lparr>dq_expected_revision = 1, dq_expected_draft_revision = Some 1, dq_resume_version = Some ''v1'',
     dq_content = \<lparr>pb_cover_letter = Some ''I led  Ada'', pb_answers = [(''Why?'', ''Because'')], pb_checklist = [],
       pb_requirements = [(''Leads'', [''f1''])], pb_letter_options = None, pb_email_draft = None, pb_provenance = None,
       pb_claims = dc_claims demo_content\<rparr>\<rparr>"

fun outcome_value :: "'a outcome \<Rightarrow> 'a option" where
  "outcome_value (Inl e) = None"
| "outcome_value (Inr x) = Some x"

definition demo_row :: app_row where
  "demo_row = new_application 10 sample_id 7 demo_create None (manual_snapshot demo_role)"

lemma demo_steps:
  "get_application (dd_app demo_saved) 7 sample_id = Inr demo_row"
  "draft_of demo_saved sample_id = Some demo_draft"
  "effective_version demo_saved 7 demo_row demo_request = Inr (Some ''v1'')"
  "resume_version_of demo_saved 7 (Some ''v1'') = Some demo_version"
  "profile_of demo_saved 7 = Some demo_profile"
proof -
  show "get_application (dd_app demo_saved) 7 sample_id = Inr demo_row"
    by (simp add: get_application_def demo_saved_def demo_tables_def demo_apps_def demo_row_def new_application_def)
  show "draft_of demo_saved sample_id = Some demo_draft"
    by (simp add: draft_of_def demo_saved_def demo_draft_def)
  show "effective_version demo_saved 7 demo_row demo_request = Inr (Some ''v1'')"
    by code_simp
  show "resume_version_of demo_saved 7 (Some ''v1'') = Some demo_version"
    by (simp add: resume_version_of_def demo_saved_def demo_tables_def demo_version_def demo_profile_def owns_resume_def)
  show "profile_of demo_saved 7 = Some demo_profile"
    by (simp add: profile_of_def demo_saved_def demo_tables_def demo_profile_def)
qed

lemma demo_fields: "ap_id demo_row = sample_id" "ap_revision demo_row = 1" "dq_expected_revision demo_request = 1"
  "pv_quality_passed demo_version" "pv_id demo_version = ''v1''" "pe_ready demo_packets" "pe_storage demo_packets = demo_files"
  by (simp_all add: demo_row_def new_application_def demo_request_def demo_version_def demo_packets_def)

lemma demo_report: "map_option rr_blockers (outcome_value (build_readiness demo_files (Some demo_profile) (Some demo_version)
    (demo_row\<lparr>ap_resume_version_id := Some ''v1''\<rparr>))) = Some 0"
  by code_simp

lemma demo_reports: "\<exists>r. build_readiness demo_files (Some demo_profile) (Some demo_version)
    (demo_row\<lparr>ap_resume_version_id := Some ''v1''\<rparr>) = Inr r \<and> rr_blockers r = 0"
  using demo_report
  by (cases "build_readiness demo_files (Some demo_profile) (Some demo_version) (demo_row\<lparr>ap_resume_version_id := Some ''v1''\<rparr>)") auto

lemma demo_materials: "build_packet_materials demo_packets demo_row (dq_content demo_request) demo_version r = Inr (''ZIP'', ''{}'')"
proof -
  have "check_evidence demo_packets (dq_content demo_request) demo_version = Inr ()" by code_simp
  moreover have "verified_artifacts demo_files (pv_artifacts demo_version) = Inr [(''pdf'', ''%PDF'')]" by code_simp
  ultimately show ?thesis by (simp add: build_packet_materials_def demo_packets_def ensure_def)
qed

lemma demo_publishes: "\<exists>D'. publish_dossier demo_packets 30 sample_uuid demo_saved 7 sample_id demo_request = Inr D'"
proof -
  from demo_reports obtain r where r: "build_readiness demo_files (Some demo_profile) (Some demo_version)
      (demo_row\<lparr>ap_resume_version_id := Some ''v1''\<rparr>) = Inr r" "rr_blockers r = 0" by blast
  have "\<exists>app. publish_dossier_write 30 (dd_app demo_saved) (dd_app demo_saved) 7 sample_id 1 ''v1'' ''{}'' = Inr app"
    by (simp add: publish_dossier_write_def get_application_def advance_revision_def write_application_def new_application_def
        demo_saved_def demo_tables_def demo_apps_def)
  then obtain app where app: "publish_dossier_write 30 (dd_app demo_saved) (dd_app demo_saved) 7 sample_id 1 ''v1'' ''{}'' = Inr app" ..
  show ?thesis
    using r app by (simp add: publication_defs demo_steps demo_materials demo_fields ensure_def truthy_def Let_def
        max_dossier_bundle_bytes_def)
qed

lemma demo_saves: "mutate_dossier_draft 20 ''d1'' demo_tables 7 sample_id demo_put = Inr demo_saved"
  "delete_dossier_draft demo_saved 7 sample_id 1 = Inr demo_tables" "drafts_ok demo_saved"
proof -
  note data = demo_saved_def demo_tables_def demo_apps_def demo_draft_def demo_put_def new_application_def
  show "mutate_dossier_draft 20 ''d1'' demo_tables 7 sample_id demo_put = Inr demo_saved"
    by (simp add: mutate_dossier_draft_def get_application_def draft_binding_def resume_draft_of_def owns_resume_def
        store_draft_def draft_of_def ensure_current_binding_def ensure_def data demo_profile_def)
  show "delete_dossier_draft demo_saved 7 sample_id 1 = Inr demo_tables"
    by (simp add: delete_dossier_draft_def get_application_def data)
  show "drafts_ok demo_saved" by (simp add: drafts_ok_def unique_by_def data)
qed

theorem readiness_report_typed_witness:
  "\<exists>r. build_readiness demo_files (Some demo_profile) (Some demo_version)
      (demo_row\<lparr>ap_resume_version_id := Some ''v1''\<rparr>) = Inr r \<and> rr_score r \<in> {0..100}"
proof -
  from demo_reports obtain r where r: "build_readiness demo_files (Some demo_profile) (Some demo_version)
      (demo_row\<lparr>ap_resume_version_id := Some ''v1''\<rparr>) = Inr r" "rr_blockers r = 0" by blast
  with readiness_report_typed [OF r(1)] show ?thesis by blast
qed

theorem readiness_verdict_witness:
  "preflight_met demo_files (Some demo_profile) (Some demo_version) (ap_job_snapshot demo_row)"
proof -
  from demo_reports obtain r where r: "build_readiness demo_files (Some demo_profile) (Some demo_version)
      (demo_row\<lparr>ap_resume_version_id := Some ''v1''\<rparr>) = Inr r" "rr_blockers r = 0" by blast
  with readiness_verdict [OF r(1)] show ?thesis by auto
qed

theorem published_packet_is_verified_witness:
  "\<exists>D'. publish_dossier demo_packets 30 sample_uuid demo_saved 7 sample_id demo_request = Inr D'
    \<and> (\<exists>v r. build_readiness demo_files (profile_of demo_saved 7) (Some v)
        (demo_row\<lparr>ap_resume_version_id := Some (pv_id v)\<rparr>) = Inr r \<and> 80 \<le> rr_score r)"
proof -
  from demo_publishes obtain D' where D': "publish_dossier demo_packets 30 sample_uuid demo_saved 7 sample_id demo_request = Inr D'" ..
  from published_packet_is_verified [OF this] demo_steps(1) show ?thesis using D' by (auto simp: demo_fields)
qed

theorem publication_consumes_saved_draft_witness:
  "\<exists>D'. publish_dossier demo_packets 30 sample_uuid demo_saved 7 sample_id demo_request = Inr D' \<and> dd_drafts D' = []"
proof -
  from demo_publishes obtain D' where D': "publish_dossier demo_packets 30 sample_uuid demo_saved 7 sample_id demo_request = Inr D'" ..
  from publication_consumes_saved_draft [OF this demo_saves(3) demo_steps(2)] D' show ?thesis
    by (simp add: demo_saved_def demo_draft_def)
qed

theorem publication_extends_history_witness:
  "\<exists>D' :: dossier_db. timeline [(30, dd_app D'), (10, demo_apps), (0, demo_empty)] \<and> app_revision (dd_app D') (sample_id, 7) = Some 2"
proof -
  from demo_publishes obtain D' where D': "publish_dossier demo_packets 30 sample_uuid demo_saved 7 sample_id demo_request = Inr D'" ..
  have "timeline [(10, dd_app demo_saved), (0, demo_empty)]"
    using demo_timeline by (simp add: demo_saved_def demo_tables_def)
  from publication_extends_history [OF this _ _ D']
  have "timeline [(30, dd_app D'), (10, dd_app demo_saved), (0, demo_empty)] \<and> app_revision (dd_app D') (sample_id, 7) = Some 2"
    by (simp add: demo_fields)
  moreover have "dd_app demo_saved = demo_apps" by (simp add: demo_saved_def demo_tables_def)
  ultimately show ?thesis by metis
qed

definition demo_race :: "(string \<times> save) list" where
  "demo_race = [(sample_id, 40, ''x'', 7, demo_put\<lparr>dp_expected_revision := Some 1\<rparr>),
     (sample_id, 41, ''y'', 7, demo_put\<lparr>dp_expected_revision := Some 1\<rparr>)]"

theorem one_save_per_draft_revision_witness: "distinct (saves demo_saved demo_race)"
  by (rule one_save_per_draft_revision [OF demo_saves(3)]) (simp add: demo_race_def)

theorem recreated_draft_is_overwritten_witness:
  "\<exists>D3 d. mutate_dossier_draft 50 ''z'' demo_saved 7 sample_id
      (demo_put\<lparr>dp_expected_revision := Some 1, dp_content := demo_content\<lparr>dc_cover_letter := None\<rparr>\<rparr>) = Inr D3
    \<and> draft_of D3 sample_id = Some d \<and> dc_cover_letter (dr_content d) = None"
proof -
  have "dp_expected_revision demo_put = None" "''d1'' \<notin> dr_id ` set (dd_drafts demo_tables)"
    by (simp_all add: demo_put_def demo_tables_def)
  from recreated_draft_is_overwritten [OF demo_saves(2,1) this, of 50 "''z''" "demo_content\<lparr>dc_cover_letter := None\<rparr>"]
  show ?thesis by auto
qed

end
