(* ===== verification/Workflows.thy ===== *)
theory Workflows
  imports AppModel
begin

text \<open>
  The durable work queue of \<open>backend/workflows\<close>: runs are enqueued under an
  idempotency key, claimed by workers under a lease, checkpointed, completed,
  failed, cancelled and retried. A claim is one transaction of updates. The other
  operations are not: they select a row, decide on what they read and update the
  row when they commit, and nothing reserves the writer in between. They take two
  tables, the one that they read and the one that they commit to. The update sets
  the columns whose new value differs from the value that was read, and is not
  conditional (\<open>write_changes\<close>). Digests of payloads are an argument.

  A history is the list of the committed tables, the latest first; an operation
  may have read any of them, and one that raises changes nothing.
\<close>

subsection \<open>Runs\<close>

datatype run_status = Queued | Running | Succeeded | RunFailed | RunCancelled

record workflow_run =
  wf_id :: string
  wf_user :: int
  wf_type :: string
  wf_key :: string
  wf_status :: run_status
  wf_payload :: string
  wf_checkpoint :: string
  wf_result :: string
  wf_progress :: rat
  wf_attempts :: int
  wf_max :: int
  wf_error :: "string option"
  wf_owner :: "string option"
  wf_lease :: "instant option"
  wf_cancel :: "instant option"
  wf_started :: "instant option"
  wf_finished :: "instant option"
  wf_created :: instant

type_synonym runs = "workflow_run table"

datatype workflow_error =
    RunNotFound | RunConflict | LeaseError | CancelledError | BadArgument | InvalidRequest | IntegrityError

definition terminal_status :: "run_status list" where
  "terminal_status = [Succeeded, RunFailed, RunCancelled]"

definition run_is :: "string \<Rightarrow> workflow_run \<Rightarrow> bool" where
  "run_is rid r \<longleftrightarrow> wf_id r = rid"

definition put_run :: "string \<Rightarrow> (workflow_run \<Rightarrow> workflow_run) \<Rightarrow> runs \<Rightarrow> runs" where
  "put_run rid f T = update_rows (run_is rid) f T"

text \<open>
  The update of a mapped object at commit: the columns that were assigned a value other than the
  one that was loaded.
\<close>

definition changed :: "'a \<Rightarrow> 'a \<Rightarrow> 'a \<Rightarrow> 'a" where
  "changed loaded assigned current = (if assigned = loaded then current else assigned)"

definition write_changes :: "workflow_run \<Rightarrow> workflow_run \<Rightarrow> workflow_run \<Rightarrow> workflow_run" where
  "write_changes r s x = x\<lparr>
     wf_status := changed (wf_status r) (wf_status s) (wf_status x),
     wf_checkpoint := changed (wf_checkpoint r) (wf_checkpoint s) (wf_checkpoint x),
     wf_result := changed (wf_result r) (wf_result s) (wf_result x),
     wf_progress := changed (wf_progress r) (wf_progress s) (wf_progress x),
     wf_attempts := changed (wf_attempts r) (wf_attempts s) (wf_attempts x),
     wf_error := changed (wf_error r) (wf_error s) (wf_error x),
     wf_owner := changed (wf_owner r) (wf_owner s) (wf_owner x),
     wf_lease := changed (wf_lease r) (wf_lease s) (wf_lease x),
     wf_cancel := changed (wf_cancel r) (wf_cancel s) (wf_cancel x),
     wf_started := changed (wf_started r) (wf_started s) (wf_started x),
     wf_finished := changed (wf_finished r) (wf_finished s) (wf_finished x)\<rparr>"

definition flush_run :: "workflow_run \<Rightarrow> workflow_run \<Rightarrow> runs \<Rightarrow> runs" where
  "flush_run r s T = put_run (wf_id r) (write_changes r s) T"

text \<open>\<open>re.sub(r"[^a-z0-9_.-]+", "_", value.lower()).strip("_")\<close>, cut to 80 characters.\<close>

definition code_char :: "char \<Rightarrow> bool" where
  "code_char c \<longleftrightarrow> (CHR ''a'' \<le> c \<and> c \<le> CHR ''z'') \<or> (CHR ''0'' \<le> c \<and> c \<le> CHR ''9'') \<or> c \<in> set ''_.-''"

fun squash_code :: "bool \<Rightarrow> string \<Rightarrow> string" where
  "squash_code open_run [] = []"
| "squash_code open_run (c # s) =
     (if code_char c then c # squash_code False s
      else if open_run then squash_code True s else CHR ''_'' # squash_code True s)"

definition error_code :: "string \<Rightarrow> string" where
  "error_code v =
     (let strip = (\<lambda>s. rev (dropWhile (\<lambda>c. c = CHR ''_'') (rev (dropWhile (\<lambda>c. c = CHR ''_'') s))));
          normalized = strip (squash_code False (ascii_lower v))
      in take 80 (if normalized = [] then ''workflow_error'' else normalized))"

definition seconds :: "int \<Rightarrow> instant" where
  "seconds n = n * 1000000"

subsection \<open>Enqueueing\<close>

text \<open>
  The request carries the constraints of its schema. The table has the primary
  key \<open>id\<close> and is unique in user, type and idempotency key, so an insertion that
  has lost a race for its key is refused.
\<close>

record enqueue_request =
  eq_type :: string
  eq_key :: string
  eq_payload :: string
  eq_max :: int

definition valid_enqueue :: "enqueue_request \<Rightarrow> bool" where
  "valid_enqueue q \<longleftrightarrow> length (eq_type q) \<le> 60
     \<and> (case eq_type q of [] \<Rightarrow> False | c # s \<Rightarrow> CHR ''a'' \<le> c \<and> c \<le> CHR ''z'' \<and> list_all code_char s)
     \<and> eq_key q \<noteq> [] \<and> length (eq_key q) \<le> 160 \<and> 1 \<le> eq_max q \<and> eq_max q \<le> 20"

definition same_key :: "int \<Rightarrow> enqueue_request \<Rightarrow> workflow_run \<Rightarrow> bool" where
  "same_key uid q r \<longleftrightarrow> wf_user r = uid \<and> wf_type r = eq_type q \<and> wf_key r = eq_key q"

definition new_run :: "instant \<Rightarrow> string \<Rightarrow> int \<Rightarrow> enqueue_request \<Rightarrow> workflow_run" where
  "new_run now new_id uid q =
     \<lparr>wf_id = new_id, wf_user = uid, wf_type = eq_type q, wf_key = eq_key q, wf_status = Queued,
      wf_payload = eq_payload q, wf_checkpoint = ''{}'', wf_result = ''{}'', wf_progress = 0, wf_attempts = 0,
      wf_max = eq_max q, wf_error = None, wf_owner = None, wf_lease = None, wf_cancel = None,
      wf_started = None, wf_finished = None, wf_created = now\<rparr>"

definition enqueue ::
  "(string \<Rightarrow> string) \<Rightarrow> instant \<Rightarrow> string \<Rightarrow> runs \<Rightarrow> runs \<Rightarrow> int \<Rightarrow> enqueue_request
     \<Rightarrow> workflow_error + (runs \<times> string)" where
  "enqueue digest now new_id Tr T uid q =
     (case select_first (same_key uid q) Tr of
        Some r \<Rightarrow> if digest (wf_payload r) \<noteq> digest (eq_payload q) then Inl RunConflict else Inr (T, wf_id r)
      | None \<Rightarrow>
          if select_first (\<lambda>r. run_is new_id r \<or> same_key uid q r) T \<noteq> None then Inl IntegrityError
          else Inr (T @ [new_run now new_id uid q], new_id))"

subsection \<open>Claims\<close>

definition lease_over :: "instant \<Rightarrow> workflow_run \<Rightarrow> bool" where
  "lease_over now r \<longleftrightarrow> (case wf_lease r of None \<Rightarrow> False | Some t \<Rightarrow> t < now)"

definition reap_terminal_leases :: "instant \<Rightarrow> runs \<Rightarrow> runs" where
  "reap_terminal_leases now T =
     update_rows (\<lambda>r. wf_status r = Running \<and> lease_over now r \<and> wf_attempts r \<ge> wf_max r)
       (\<lambda>r. r\<lparr>wf_status := RunFailed, wf_owner := None, wf_lease := None, wf_finished := Some now,
               wf_error := Some ''lease_expired''\<rparr>)
     (update_rows (\<lambda>r. wf_status r = Running \<and> lease_over now r \<and> wf_cancel r \<noteq> None)
       (\<lambda>r. r\<lparr>wf_status := RunCancelled, wf_owner := None, wf_lease := None, wf_finished := Some now,
               wf_error := None\<rparr>) T)"

definition eligible :: "instant \<Rightarrow> string list \<Rightarrow> workflow_run \<Rightarrow> bool" where
  "eligible now types r \<longleftrightarrow> wf_cancel r = None \<and> wf_attempts r < wf_max r
     \<and> (wf_status r = Queued \<or> (wf_status r = Running \<and> lease_over now r))
     \<and> (types = [] \<or> wf_type r \<in> set types)"

definition claim_order :: "workflow_run \<Rightarrow> instant \<times> string" where
  "claim_order r = (wf_created r, wf_id r)"

definition claim_candidate :: "instant \<Rightarrow> string list \<Rightarrow> runs \<Rightarrow> workflow_run option" where
  "claim_candidate now types T =
     (case sort_key claim_order (filter (eligible now types) T) of [] \<Rightarrow> None | r # _ \<Rightarrow> Some r)"

definition take_lease :: "instant \<Rightarrow> string \<Rightarrow> int \<Rightarrow> workflow_run \<Rightarrow> workflow_run" where
  "take_lease now worker lease_seconds r =
     r\<lparr>wf_status := Running, wf_owner := Some worker, wf_lease := Some (now + seconds lease_seconds),
       wf_attempts := wf_attempts r + 1, wf_started := Some (or_else (wf_started r) now),
       wf_finished := None, wf_error := None\<rparr>"

definition claim ::
  "instant \<Rightarrow> runs \<Rightarrow> string \<Rightarrow> string list \<Rightarrow> int \<Rightarrow> workflow_error + (runs \<times> string option)" where
  "claim now T worker types lease_seconds =
     (if py_strip worker = [] \<or> lease_seconds < 1 then Inl BadArgument
      else let T1 = reap_terminal_leases now T in
        case claim_candidate now types T1 of
          None \<Rightarrow> Inr (T1, None)
        | Some r \<Rightarrow> Inr (put_run (wf_id r) (take_lease now worker lease_seconds) T1, Some (wf_id r)))"

subsection \<open>The owner of a lease\<close>

definition leased :: "instant \<Rightarrow> runs \<Rightarrow> string \<Rightarrow> string \<Rightarrow> workflow_error + workflow_run" where
  "leased now Tr rid worker =
     (case select_first (run_is rid) Tr of
        None \<Rightarrow> Inl RunNotFound
      | Some r \<Rightarrow>
          if wf_status r \<noteq> Running \<or> wf_owner r \<noteq> Some worker then Inl LeaseError
          else if wf_cancel r \<noteq> None then Inl CancelledError
          else if wf_lease r = None \<or> lease_over now r then Inl LeaseError
          else Inr r)"

definition checkpoint ::
  "instant \<Rightarrow> instant \<Rightarrow> runs \<Rightarrow> runs \<Rightarrow> string \<Rightarrow> string \<Rightarrow> string \<Rightarrow> rat \<Rightarrow> int \<Rightarrow> workflow_error + runs" where
  "checkpoint now later Tr T rid worker state progress lease_seconds =
     and_then (leased now Tr rid worker) (\<lambda>r.
     and_then (ensure (0 \<le> progress \<and> progress \<le> 1) BadArgument) (\<lambda>_.
       Inr (flush_run r (r\<lparr>wf_checkpoint := state, wf_progress := progress,
         wf_lease := Some (later + seconds lease_seconds)\<rparr>) T)))"

definition complete ::
  "instant \<Rightarrow> instant \<Rightarrow> runs \<Rightarrow> runs \<Rightarrow> string \<Rightarrow> string \<Rightarrow> string \<Rightarrow> workflow_error + runs" where
  "complete now later Tr T rid worker result_reference =
     and_then (leased now Tr rid worker) (\<lambda>r.
       Inr (flush_run r (r\<lparr>wf_status := Succeeded, wf_progress := 1, wf_result := result_reference,
         wf_owner := None, wf_lease := None, wf_finished := Some later, wf_error := None\<rparr>) T))"

definition fail_run ::
  "instant \<Rightarrow> instant \<Rightarrow> runs \<Rightarrow> runs \<Rightarrow> string \<Rightarrow> string \<Rightarrow> string \<Rightarrow> bool \<Rightarrow> workflow_error + runs" where
  "fail_run now later Tr T rid worker code retryable =
     and_then (leased now Tr rid worker) (\<lambda>r.
       let retry = (retryable \<and> wf_attempts r < wf_max r) in
       Inr (flush_run r (r\<lparr>wf_status := (if retry then Queued else RunFailed), wf_error := Some (error_code code),
         wf_owner := None, wf_lease := None, wf_finished := (if retry then None else Some later)\<rparr>) T))"

subsection \<open>Cancellation and retry\<close>

definition owned_run :: "runs \<Rightarrow> int \<Rightarrow> string \<Rightarrow> workflow_error + workflow_run" where
  "owned_run Tr uid rid = (case select_first (\<lambda>r. run_is rid r \<and> wf_user r = uid) Tr of
      None \<Rightarrow> Inl RunNotFound | Some r \<Rightarrow> Inr r)"

definition request_cancel :: "instant \<Rightarrow> runs \<Rightarrow> runs \<Rightarrow> int \<Rightarrow> string \<Rightarrow> workflow_error + runs" where
  "request_cancel now Tr T uid rid =
     and_then (owned_run Tr uid rid) (\<lambda>r.
       if wf_status r \<in> set terminal_status then Inr T
       else Inr (flush_run r (if wf_status r = Queued
           then r\<lparr>wf_cancel := Some now, wf_status := RunCancelled, wf_finished := Some now\<rparr>
           else r\<lparr>wf_cancel := Some now\<rparr>) T))"

definition acknowledge_cancellation :: "instant \<Rightarrow> runs \<Rightarrow> runs \<Rightarrow> string \<Rightarrow> string \<Rightarrow> workflow_error + runs" where
  "acknowledge_cancellation now Tr T rid worker =
     (case select_first (run_is rid) Tr of
        None \<Rightarrow> Inl RunNotFound
      | Some r \<Rightarrow>
          if wf_status r \<noteq> Running \<or> wf_owner r \<noteq> Some worker then Inl LeaseError
          else if wf_cancel r = None then Inl RunConflict
          else Inr (flush_run r (r\<lparr>wf_status := RunCancelled, wf_owner := None, wf_lease := None,
                 wf_finished := Some now\<rparr>) T))"

definition retry :: "runs \<Rightarrow> runs \<Rightarrow> int \<Rightarrow> string \<Rightarrow> workflow_error + runs" where
  "retry Tr T uid rid =
     and_then (owned_run Tr uid rid) (\<lambda>r.
     and_then (ensure (wf_status r \<in> {RunFailed, RunCancelled}) RunConflict) (\<lambda>_.
       Inr (flush_run r (r\<lparr>wf_status := Queued, wf_attempts := 0, wf_error := None, wf_cancel := None,
         wf_finished := None, wf_owner := None, wf_lease := None\<rparr>) T)))"

text \<open>The runs that the interface lists, the newest first.\<close>

definition list_runs :: "runs \<Rightarrow> int \<Rightarrow> workflow_run list" where
  "list_runs T uid = take 200 (sort_key (\<lambda>r. - wf_created r) (filter (\<lambda>r. wf_user r = uid) T))"

lemma list_runs_owned: "r \<in> set (list_runs T uid) \<Longrightarrow> r \<in> set T \<and> wf_user r = uid"
  by (auto simp: list_runs_def dest: in_set_takeD)

subsection \<open>Histories of the queue\<close>

datatype workflow_event =
    Enqueue instant string int enqueue_request
  | Claim instant string "string list" int
  | Checkpoint instant instant string string string rat int
  | Complete instant instant string string string
  | FailRun instant instant string string string bool
  | RequestCancel instant int string
  | AcknowledgeCancellation instant string string
  | Retry int string

fun workflow_result :: "(string \<Rightarrow> string) \<Rightarrow> workflow_event \<Rightarrow> runs \<Rightarrow> runs \<Rightarrow> workflow_error + runs" where
  "workflow_result digest (Enqueue now new_id uid q) Tr T =
     and_then (ensure (valid_enqueue q) InvalidRequest) (\<lambda>_.
     and_then (enqueue digest now new_id Tr T uid q) (\<lambda>(T', _). Inr T'))"
| "workflow_result digest (Claim now worker types n) Tr T = and_then (claim now T worker types n) (\<lambda>(T', _). Inr T')"
| "workflow_result digest (Checkpoint now later rid worker state progress n) Tr T =
     checkpoint now later Tr T rid worker state progress n"
| "workflow_result digest (Complete now later rid worker res) Tr T = complete now later Tr T rid worker res"
| "workflow_result digest (FailRun now later rid worker code retryable) Tr T =
     fail_run now later Tr T rid worker code retryable"
| "workflow_result digest (RequestCancel now uid rid) Tr T = request_cancel now Tr T uid rid"
| "workflow_result digest (AcknowledgeCancellation now rid worker) Tr T = acknowledge_cancellation now Tr T rid worker"
| "workflow_result digest (Retry uid rid) Tr T = retry Tr T uid rid"

text \<open>A call names its operation and how many commits before the latest its read was.\<close>

definition read_of :: "nat \<Rightarrow> runs list \<Rightarrow> runs" where
  "read_of age H = H ! min age (length H - 1)"

definition workflow_step :: "(string \<Rightarrow> string) \<Rightarrow> nat \<times> workflow_event \<Rightarrow> runs list \<Rightarrow> runs list" where
  "workflow_step digest = (\<lambda>(age, e) H.
     case workflow_result digest e (read_of age H) (hd H) of Inl _ \<Rightarrow> H | Inr T \<Rightarrow> T # H)"

end
