(* ===== verification/WorkflowClaims.thy ===== *)
theory WorkflowClaims
  imports Workflows
begin

text \<open>
  The durable work queue over its histories: the rows that enqueueing, claims,
  checkpoints, completions, failures, cancellations and retries may leave, when
  the selections of the service may be older than its updates and when they are
  not; the identity that no operation changes; the lease, which only its owner can
  use while nobody acts on what was read before it; the budget of attempts; the
  order in which runs are handed out; and what stale reads destroy.
\<close>

subsection \<open>The rows that a history may leave\<close>

definition enqueue_key :: "workflow_run \<Rightarrow> int \<times> string \<times> string" where
  "enqueue_key r = (wf_user r, wf_type r, wf_key r)"

definition rows_ok :: "(workflow_run \<Rightarrow> bool) \<Rightarrow> runs \<Rightarrow> bool" where
  "rows_ok ok T \<longleftrightarrow> unique_by wf_id T \<and> unique_by enqueue_key T \<and> list_all ok T"

text \<open>What every interleaving keeps, and what operations keep that act on the latest table.\<close>

definition run_sound :: "workflow_run \<Rightarrow> bool" where
  "run_sound r \<longleftrightarrow> 0 \<le> wf_attempts r \<and> wf_attempts r \<le> wf_max r \<and> 1 \<le> wf_max r \<and> wf_max r \<le> 20
     \<and> 0 \<le> wf_progress r \<and> wf_progress r \<le> 1
     \<and> (case wf_error r of None \<Rightarrow> True | Some c \<Rightarrow> c \<noteq> [] \<and> length c \<le> 80)
     \<and> (1 \<le> wf_attempts r \<longrightarrow> wf_started r \<noteq> None)
     \<and> (wf_status r = Running \<longrightarrow> wf_owner r \<noteq> None \<and> wf_lease r \<noteq> None \<and> wf_finished r = None \<and> 1 \<le> wf_attempts r)"

definition run_ok :: "workflow_run \<Rightarrow> bool" where
  "run_ok r \<longleftrightarrow> 0 \<le> wf_attempts r \<and> wf_attempts r \<le> wf_max r \<and> 1 \<le> wf_max r \<and> wf_max r \<le> 20
     \<and> 0 \<le> wf_progress r \<and> wf_progress r \<le> 1
     \<and> (wf_owner r \<noteq> None \<longleftrightarrow> wf_status r = Running) \<and> (wf_lease r \<noteq> None \<longleftrightarrow> wf_status r = Running)
     \<and> (wf_finished r \<noteq> None \<longleftrightarrow> wf_status r \<in> set terminal_status)
     \<and> (case wf_error r of None \<Rightarrow> True | Some c \<Rightarrow> c \<noteq> [] \<and> length c \<le> 80)
     \<and> (1 \<le> wf_attempts r \<longrightarrow> wf_started r \<noteq> None)
     \<and> (case wf_status r of
          Queued \<Rightarrow> wf_cancel r = None
        | Running \<Rightarrow> 1 \<le> wf_attempts r
        | Succeeded \<Rightarrow> wf_cancel r = None \<and> wf_progress r = 1 \<and> wf_error r = None
        | RunFailed \<Rightarrow> wf_cancel r = None \<and> wf_error r \<noteq> None
        | RunCancelled \<Rightarrow> wf_cancel r \<noteq> None)"

abbreviation queue_ok :: "runs \<Rightarrow> bool" where
  "queue_ok \<equiv> rows_ok run_sound"

abbreviation workflow_ok :: "runs \<Rightarrow> bool" where
  "workflow_ok \<equiv> rows_ok run_ok"

lemma length_strip_le: "length (rev (dropWhile p (rev (dropWhile p s)))) \<le> length s"
  by (metis length_dropWhile_le length_rev order_trans)

lemma error_code_bounds: "error_code v \<noteq> []" "length (error_code v) \<le> 80"
  by (auto simp: error_code_def Let_def)

text \<open>One pass over a row has the effect of the two updates.\<close>

definition reap_row :: "instant \<Rightarrow> workflow_run \<Rightarrow> workflow_run" where
  "reap_row now r =
     (if wf_status r = Running \<and> lease_over now r \<and> wf_cancel r \<noteq> None
      then r\<lparr>wf_status := RunCancelled, wf_owner := None, wf_lease := None, wf_finished := Some now, wf_error := None\<rparr>
      else if wf_status r = Running \<and> lease_over now r \<and> wf_attempts r \<ge> wf_max r
      then r\<lparr>wf_status := RunFailed, wf_owner := None, wf_lease := None, wf_finished := Some now,
             wf_error := Some ''lease_expired''\<rparr>
      else r)"

lemma reap_is_map: "reap_terminal_leases now T = map (reap_row now) T"
  by (auto simp: reap_terminal_leases_def update_rows_def reap_row_def)

lemma reap_row_keys [simp]:
  "wf_id (reap_row now r) = wf_id r" "wf_user (reap_row now r) = wf_user r"
  "wf_type (reap_row now r) = wf_type r" "wf_key (reap_row now r) = wf_key r"
  "wf_payload (reap_row now r) = wf_payload r" "wf_created (reap_row now r) = wf_created r"
  "wf_max (reap_row now r) = wf_max r" "wf_attempts (reap_row now r) = wf_attempts r"
  by (simp_all add: reap_row_def)

text \<open>The columns that no operation changes.\<close>

definition same_identity :: "workflow_run \<Rightarrow> workflow_run \<Rightarrow> bool" where
  "same_identity r s \<longleftrightarrow> wf_id s = wf_id r \<and> wf_user s = wf_user r \<and> wf_type s = wf_type r
     \<and> wf_key s = wf_key r \<and> wf_payload s = wf_payload r \<and> wf_max s = wf_max r \<and> wf_created s = wf_created r"

lemma same_identity_refl [simp]: "same_identity r r"
  by (simp add: same_identity_def)

lemma same_identityD: "same_identity r s \<Longrightarrow> wf_id s = wf_id r \<and> enqueue_key s = enqueue_key r"
  by (simp add: same_identity_def enqueue_key_def)

lemma same_identity_trans: "same_identity x y \<Longrightarrow> same_identity y z \<Longrightarrow> same_identity x z"
  by (simp add: same_identity_def)

lemma select_member:
  assumes "rows_ok ok T" "r \<in> set T"
  shows "select_first (run_is (wf_id r)) T = Some r"
  using assms select_first_unique [of wf_id T r] by (simp add: rows_ok_def run_is_def [abs_def])

lemma selected_row:
  assumes "rows_ok ok T" "select_first (run_is rid) T = Some r"
  shows "ok r" "wf_id r = rid" "r \<in> set T"
  using assms select_first_Some [OF assms(2)] by (auto simp: rows_ok_def list_all_iff run_is_def)

text \<open>An update keeps a row predicate when it keeps it of the row that it hits.\<close>

lemma rows_put_run:
  assumes T: "rows_ok ok T" and f: "\<And>x. same_identity x (f x)"
    and new: "\<And>x. x \<in> set T \<Longrightarrow> wf_id x = rid \<Longrightarrow> ok x \<Longrightarrow> ok (f x)"
  shows "rows_ok ok (put_run rid f T)"
proof -
  have "list_all ok (put_run rid f T)"
    using T new by (auto simp: rows_ok_def list_all_iff put_run_def set_update_rows run_is_def)
  moreover have "unique_by wf_id (put_run rid f T)" "unique_by enqueue_key (put_run rid f T)"
    using T f same_identityD unfolding rows_ok_def put_run_def by (auto intro!: unique_by_update)
  ultimately show ?thesis by (simp add: rows_ok_def)
qed

lemma claim_candidate_facts:
  assumes "claim_candidate now types T = Some r"
  shows "r \<in> set T" "eligible now types r"
proof -
  from assms obtain rs where "sort_key claim_order (filter (eligible now types) T) = r # rs"
    by (auto simp: claim_candidate_def split: list.splits)
  then have "r \<in> set (sort_key claim_order (filter (eligible now types) T))" by simp
  then show "r \<in> set T" "eligible now types r" by auto
qed

text \<open>
  The interface of a row predicate to the operations that are transactions: the insertion, the
  reaping of leases and the claim.
\<close>

locale run_invariant =
  fixes ok :: "workflow_run \<Rightarrow> bool"
  assumes keeps_reap: "ok r \<Longrightarrow> ok (reap_row now r)"
    and keeps_take: "ok r \<Longrightarrow> eligible now types r \<Longrightarrow> ok (take_lease now worker n r)"
    and has_new: "valid_enqueue q \<Longrightarrow> ok (new_run now new_id uid q)"
begin

lemma reap_rows:
  assumes "rows_ok ok T" shows "rows_ok ok (reap_terminal_leases now T)"
  using assms by (auto simp: rows_ok_def reap_is_map unique_by_def list_all_iff comp_def
      enqueue_key_def [abs_def] keeps_reap)

lemma claim_rows:
  assumes "rows_ok ok T" "claim now T worker types n = Inr (T', res)"
  shows "rows_ok ok T'"
proof (cases "claim_candidate now types (reap_terminal_leases now T)")
  case None
  with assms show ?thesis by (auto simp: claim_def Let_def reap_rows split: if_splits)
next
  case (Some r)
  note c = claim_candidate_facts [OF Some] and ok = reap_rows [OF assms(1), of now]
  have "x = r" if "x \<in> set (reap_terminal_leases now T)" "wf_id x = wf_id r" for x
    using ok that c(1) unique_byD [of wf_id _ x r] by (auto simp: rows_ok_def)
  then have "rows_ok ok (put_run (wf_id r) (take_lease now worker n) (reap_terminal_leases now T))"
    by (intro rows_put_run [OF ok]) (simp add: same_identity_def take_lease_def, use c(2) keeps_take in blast)
  with assms Some show ?thesis by (auto simp: claim_def Let_def split: if_splits)
qed

lemma enqueue_rows:
  assumes "rows_ok ok T" "valid_enqueue q" "enqueue digest now new_id Tr T uid q = Inr (T', rid)"
  shows "rows_ok ok T'"
proof (cases "select_first (same_key uid q) Tr")
  case (Some r)
  with assms show ?thesis by (auto simp: enqueue_def split: if_splits)
next
  case None
  with assms(3) have free: "select_first (\<lambda>r. run_is new_id r \<or> same_key uid q r) T = None"
    and T': "T' = T @ [new_run now new_id uid q]" by (auto simp: enqueue_def split: if_splits)
  then have "enqueue_key (new_run now new_id uid q) \<notin> enqueue_key ` set T"
    "wf_id (new_run now new_id uid q) \<notin> wf_id ` set T"
    by (auto simp: select_first_None same_key_def enqueue_key_def new_run_def run_is_def)
  with assms(1) T' has_new [OF assms(2)] show ?thesis by (simp add: rows_ok_def unique_by_append1)
qed

end

interpretation sound_rows: run_invariant run_sound
proof unfold_locales
  show "run_sound (take_lease now worker n r)" if "run_sound r" "eligible now types r" for r now types worker n
    using that by (auto simp: run_sound_def eligible_def take_lease_def)
qed (auto simp: reap_row_def run_sound_def valid_enqueue_def new_run_def)

interpretation serial_rows: run_invariant run_ok
proof unfold_locales
  show "run_ok (take_lease now worker n r)" if "run_ok r" "eligible now types r" for r now types worker n
    using that by (auto simp: run_ok_def eligible_def take_lease_def terminal_status_def)
qed (auto simp: reap_row_def run_ok_def terminal_status_def valid_enqueue_def new_run_def)

lemma leased_facts:
  assumes "leased now Tr rid worker = Inr r"
  shows "select_first (run_is rid) Tr = Some r" "wf_status r = Running" "wf_owner r = Some worker"
    "wf_cancel r = None" "\<not> lease_over now r" "wf_lease r \<noteq> None"
  using assms by (auto simp: leased_def split: option.splits if_splits)

lemma owned_run_facts:
  assumes "owned_run Tr uid rid = Inr r"
  shows "r \<in> set Tr" "wf_id r = rid" "wf_user r = uid"
  using assms select_first_Some [of _ Tr r] by (auto simp: owned_run_def run_is_def split: option.splits)

subsection \<open>Updates of a run that was read\<close>

lemma write_changes_identity [simp]: "same_identity x (write_changes r s x)"
  by (simp add: write_changes_def same_identity_def)

text \<open>Committed to the row that was read, the changes are the row that was meant.\<close>

lemma write_changes_self: "same_identity r s \<Longrightarrow> write_changes r s r = s"
  by (cases r; cases s) (simp add: write_changes_def changed_def same_identity_def)

fun named_run :: "workflow_event \<Rightarrow> string option" where
  "named_run (Enqueue now new_id uid q) = None"
| "named_run (Claim now worker types n) = None"
| "named_run (Checkpoint now later rid worker state progress n) = Some rid"
| "named_run (Complete now later rid worker res) = Some rid"
| "named_run (FailRun now later rid worker code retryable) = Some rid"
| "named_run (RequestCancel now uid rid) = Some rid"
| "named_run (AcknowledgeCancellation now rid worker) = Some rid"
| "named_run (Retry uid rid) = Some rid"

fun acting_as :: "workflow_event \<Rightarrow> string option" where
  "acting_as (Checkpoint now later rid worker state progress n) = Some worker"
| "acting_as (Complete now later rid worker res) = Some worker"
| "acting_as (FailRun now later rid worker code retryable) = Some worker"
| "acting_as (AcknowledgeCancellation now rid worker) = Some worker"
| "acting_as _ = None"

fun retries :: "string \<Rightarrow> workflow_event \<Rightarrow> bool" where
  "retries rid (Retry uid rid') \<longleftrightarrow> rid' = rid"
| "retries rid _ \<longleftrightarrow> False"

text \<open>
  Apart from the insertion and the claim, an operation that succeeds changes the row it
  names: on behalf of the owner that it read, after reading that the row does not run, or
  only to mark a cancellation.
\<close>

definition rewriting :: "workflow_event \<Rightarrow> workflow_run \<Rightarrow> (workflow_run \<Rightarrow> workflow_run) \<Rightarrow> bool" where
  "rewriting e r f \<longleftrightarrow> (\<forall>x. same_identity x (f x)) \<and> (\<forall>x. run_sound x \<longrightarrow> run_sound (f x)) \<and> (run_ok r \<longrightarrow> run_ok (f r))
     \<and> (\<not> retries (wf_id r) e \<longrightarrow> (\<forall>x. wf_attempts (f x) = wf_attempts x))
     \<and> ((\<forall>x. \<exists>c. f x = x\<lparr>wf_cancel := c\<rparr>) \<or> wf_status r \<noteq> Running
        \<or> (\<exists>w. acting_as e = Some w \<and> wf_owner r = Some w))"

definition rewrites_row :: "workflow_event \<Rightarrow> string \<Rightarrow> runs \<Rightarrow> runs \<Rightarrow> runs \<Rightarrow> bool" where
  "rewrites_row e rid Tr T T' \<longleftrightarrow>
     (\<exists>r f. select_first (run_is rid) Tr = Some r \<and> T' = put_run rid f T \<and> rewriting e r f)"

text \<open>The four conditions for a row \<open>s\<close> that replaces the row \<open>r\<close> that was read.\<close>

lemma rewriting_changes:
  assumes "same_identity r s" and "run_ok r \<Longrightarrow> run_ok s"
    and "\<And>x. run_sound x \<Longrightarrow> run_sound (write_changes r s x)"
    and "retries (wf_id r) e \<or> wf_attempts s = wf_attempts r"
    and "(\<exists>c. s = r\<lparr>wf_cancel := c\<rparr>) \<or> wf_status r \<noteq> Running \<or> (\<exists>w. acting_as e = Some w \<and> wf_owner r = Some w)"
  shows "rewriting e r (write_changes r s)"
proof -
  have "write_changes r (r\<lparr>wf_cancel := c\<rparr>) x = x\<lparr>wf_cancel := changed (wf_cancel r) c (wf_cancel x)\<rparr>" for c x
    by (simp add: write_changes_def changed_def)
  moreover have "\<not> retries (wf_id r) e \<Longrightarrow> wf_attempts (write_changes r s x) = wf_attempts x" for x
    using assms(4) by (simp add: write_changes_def changed_def)
  ultimately show ?thesis
    using assms(1-3,5) write_changes_self [OF assms(1)] by (auto simp: rewriting_def)
qed

lemmas change_simps = write_changes_def changed_def run_sound_def same_identity_def run_ok_def terminal_status_def

lemma flush_rewrites:
  assumes "select_first (run_is rid) Tr = Some r" "rewriting e r (write_changes r s)"
  shows "rewrites_row e rid Tr T (flush_run r s T)"
  using assms select_first_Some [OF assms(1)] by (auto simp: rewrites_row_def flush_run_def run_is_def)

lemma checkpoint_rewrites:
  assumes r: "leased now Tr rid worker = Inr r" and e: "acting_as e = Some worker" and p: "0 \<le> p" "p \<le> 1"
  shows "rewrites_row e rid Tr T (flush_run r (r\<lparr>wf_checkpoint := state, wf_progress := p, wf_lease := Some t\<rparr>) T)"
  by (rule flush_rewrites [OF leased_facts(1) [OF r] rewriting_changes])
    (use leased_facts [OF r] e p in \<open>auto simp: change_simps\<close>)

lemma complete_rewrites:
  assumes r: "leased now Tr rid worker = Inr r" and e: "acting_as e = Some worker"
  shows "rewrites_row e rid Tr T (flush_run r (r\<lparr>wf_status := Succeeded, wf_progress := 1, wf_result := res,
      wf_owner := None, wf_lease := None, wf_finished := Some t, wf_error := None\<rparr>) T)"
  by (rule flush_rewrites [OF leased_facts(1) [OF r] rewriting_changes])
    (use leased_facts [OF r] e in \<open>auto simp: change_simps\<close>)

lemma fail_rewrites:
  assumes r: "leased now Tr rid worker = Inr r" and e: "acting_as e = Some worker"
  shows "rewrites_row e rid Tr T (flush_run r (r\<lparr>wf_status := (if again then Queued else RunFailed),
      wf_error := Some (error_code code), wf_owner := None, wf_lease := None,
      wf_finished := (if again then None else Some t)\<rparr>) T)"
  by (rule flush_rewrites [OF leased_facts(1) [OF r] rewriting_changes])
    (use leased_facts [OF r] e error_code_bounds in \<open>auto simp: change_simps\<close>)

lemma acknowledge_rewrites:
  assumes r: "select_first (run_is rid) Tr = Some r" "wf_status r = Running" "wf_owner r = Some worker" "wf_cancel r \<noteq> None"
    and e: "acting_as e = Some worker"
  shows "rewrites_row e rid Tr T (flush_run r (r\<lparr>wf_status := RunCancelled, wf_owner := None, wf_lease := None,
      wf_finished := Some t\<rparr>) T)"
  by (rule flush_rewrites [OF r(1) rewriting_changes]) (use r e in \<open>auto simp: change_simps\<close>)

lemma cancel_rewrites:
  assumes r: "select_first (run_is rid) Tr = Some r" "wf_status r = Queued \<or> wf_status r = Running"
  shows "rewrites_row e rid Tr T (flush_run r (if wf_status r = Queued
      then r\<lparr>wf_cancel := Some t, wf_status := RunCancelled, wf_finished := Some t\<rparr>
      else r\<lparr>wf_cancel := Some t\<rparr>) T)"
  by (rule flush_rewrites [OF r(1) rewriting_changes]) (use r(2) in \<open>auto simp: change_simps\<close>)

lemma retry_rewrites:
  assumes r: "select_first (run_is rid) Tr = Some r" "wf_status r \<in> {RunFailed, RunCancelled}" and e: "retries rid e"
  shows "rewrites_row e rid Tr T (flush_run r (r\<lparr>wf_status := Queued, wf_attempts := 0, wf_error := None,
      wf_cancel := None, wf_finished := None, wf_owner := None, wf_lease := None\<rparr>) T)"
  by (rule flush_rewrites [OF r(1) rewriting_changes])
    (use r(2) e select_first_Some [OF r(1)] in \<open>auto simp: change_simps run_is_def\<close>)

lemma owned_selected:
  assumes "queue_ok Tr" "owned_run Tr uid rid = Inr r"
  shows "select_first (run_is rid) Tr = Some r"
  using select_member [OF assms(1) owned_run_facts(1) [OF assms(2)]] owned_run_facts(2) [OF assms(2)] by simp

lemma named_run_rewritten:
  assumes ok: "queue_ok Tr" and res: "workflow_result digest e Tr T = Inr T'" and e: "named_run e = Some rid"
  shows "T' = T \<or> rewrites_row e rid Tr T T'"
proof (cases e)
  case (Checkpoint now later rid' worker state progress n)
  with res e show ?thesis by (auto simp: checkpoint_def and_then_Inr intro: checkpoint_rewrites)
next
  case (Complete now later rid' worker result)
  with res e show ?thesis by (auto simp: complete_def and_then_Inr intro: complete_rewrites)
next
  case (FailRun now later rid' worker code retryable)
  with res e obtain r where r: "leased now Tr rid worker = Inr r" and T': "T' = flush_run r
      (r\<lparr>wf_status := (if retryable \<and> wf_attempts r < wf_max r then Queued else RunFailed),
      wf_error := Some (error_code code), wf_owner := None, wf_lease := None,
      wf_finished := (if retryable \<and> wf_attempts r < wf_max r then None else Some later)\<rparr>) T"
    by (auto simp: fail_run_def and_then_Inr Let_def)
  show ?thesis unfolding T' by (rule disjI2, rule fail_rewrites [OF r]) (simp add: FailRun)
next
  case (RequestCancel now uid rid')
  with res e obtain r where r: "owned_run Tr uid rid = Inr r"
    and T': "T' = T \<or> wf_status r \<notin> set terminal_status
      \<and> T' = flush_run r (if wf_status r = Queued
           then r\<lparr>wf_cancel := Some now, wf_status := RunCancelled, wf_finished := Some now\<rparr>
           else r\<lparr>wf_cancel := Some now\<rparr>) T"
    by (auto simp: request_cancel_def and_then_Inr split: if_splits)
  have "wf_status r \<notin> set terminal_status \<Longrightarrow> wf_status r = Queued \<or> wf_status r = Running"
    by (cases "wf_status r") (auto simp: terminal_status_def)
  with T' cancel_rewrites [OF owned_selected [OF ok r]] show ?thesis by blast
next
  case (AcknowledgeCancellation now rid' worker)
  with res e show ?thesis
    by (auto simp: acknowledge_cancellation_def intro!: acknowledge_rewrites split: option.splits if_splits)
next
  case (Retry uid rid')
  with res e show ?thesis
    by (auto simp: retry_def and_then_Inr dest: owned_selected [OF ok] intro!: retry_rewrites)
qed (use e in auto)

lemma workflow_result_sound:
  assumes "queue_ok Tr" and ok: "queue_ok T" and res: "workflow_result digest e Tr T = Inr T'"
  shows "queue_ok T'"
proof (cases "named_run e")
  case None
  with res sound_rows.enqueue_rows [OF ok] sound_rows.claim_rows [OF ok] show ?thesis
    by (cases e) (auto simp: and_then_Inr)
next
  case (Some rid)
  with named_run_rewritten [OF assms(1) res] ok rows_put_run [OF ok] show ?thesis
    by (auto simp: rewrites_row_def rewriting_def)
qed

text \<open>The stronger predicate, for an operation that commits to the table that it read.\<close>

lemma workflow_ok_sound: "workflow_ok T \<Longrightarrow> queue_ok T"
  by (auto simp: rows_ok_def list_all_iff run_ok_def run_sound_def terminal_status_def)

lemma workflow_result_serial:
  assumes ok: "workflow_ok T" and res: "workflow_result digest e T T = Inr T'"
  shows "workflow_ok T'"
proof (cases "named_run e")
  case None
  with res serial_rows.enqueue_rows [OF ok] serial_rows.claim_rows [OF ok] show ?thesis
    by (cases e) (auto simp: and_then_Inr)
next
  case (Some rid)
  have "workflow_ok (put_run rid f T)" if r: "select_first (run_is rid) T = Some r" and rw: "rewriting e r f" for r f
  proof (rule rows_put_run [OF ok])
    show "run_ok (f x)" if "x \<in> set T" "wf_id x = rid" "run_ok x" for x
    proof -
      have "x = r" using select_member [OF ok that(1)] that(2) r by simp
      with that(3) rw show ?thesis by (simp add: rewriting_def)
    qed
  qed (use rw in \<open>simp add: rewriting_def\<close>)
  with named_run_rewritten [OF workflow_ok_sound [OF ok] res Some] ok show ?thesis by (auto simp: rewrites_row_def)
qed

subsection \<open>What every operation leaves alone\<close>

definition grown :: "runs \<Rightarrow> runs \<Rightarrow> bool" where
  "grown T T' \<longleftrightarrow> (\<exists>g new. T' = map g T @ new \<and> (\<forall>x. same_identity x (g x)))"

lemma grown_refl [simp]: "grown T T"
  unfolding grown_def by (rule exI [of _ id], rule exI [of _ "[]"]) simp

lemma grown_map: "(\<And>x. same_identity x (g x)) \<Longrightarrow> grown T (map g T)"
  unfolding grown_def by (rule exI [of _ g], rule exI [of _ "[]"]) simp

lemma grown_put_run: "(\<And>x. same_identity x (f x)) \<Longrightarrow> grown T (put_run rid f T)"
  unfolding put_run_def update_rows_def by (rule grown_map) simp

lemma grown_reap: "grown T (reap_terminal_leases now T)"
  unfolding reap_is_map by (rule grown_map) (simp add: same_identity_def)

lemma grown_reap_put_run:
  assumes "\<And>x. same_identity x (f x)"
  shows "grown T (put_run rid f (reap_terminal_leases now T))"
proof -
  have "put_run rid f (reap_terminal_leases now T)
      = map ((\<lambda>x. if run_is rid x then f x else x) \<circ> reap_row now) T"
    by (simp add: put_run_def update_rows_def reap_is_map)
  moreover have "same_identity x (((\<lambda>x. if run_is rid x then f x else x) \<circ> reap_row now) x)" for x
    using assms [of "reap_row now x"] by (auto simp: same_identity_def)
  ultimately show ?thesis by (simp only: grown_map)
qed

lemma grown_trans:
  assumes "grown S T" "grown T U"
  shows "grown S U"
proof -
  obtain g new where g: "T = map g S @ new" "\<And>x. same_identity x (g x)"
    using assms(1) by (auto simp: grown_def)
  obtain h more where h: "U = map h T @ more" "\<And>x. same_identity x (h x)"
    using assms(2) by (auto simp: grown_def)
  have "U = map (h \<circ> g) S @ (map h new @ more)" using g(1) h(1) by simp
  moreover have "same_identity x ((h \<circ> g) x)" for x
    using same_identity_trans [OF g(2) h(2)] by simp
  ultimately show ?thesis unfolding grown_def by blast
qed

lemma grown_flush: "grown T (flush_run r s T)"
  unfolding flush_run_def by (rule grown_put_run) simp

lemma workflow_result_grown:
  assumes "workflow_result digest e Tr T = Inr T'"
  shows "grown T T'"
  using assms
  apply (cases e)
  subgoal for now new_id uid q
    by (auto simp: and_then_Inr enqueue_def grown_def split: option.splits if_splits
        intro: exI [of _ id] exI [of _ "[]"])
  subgoal
    by (auto simp: and_then_Inr claim_def Let_def same_identity_def take_lease_def
        split: option.splits if_splits intro: grown_reap grown_reap_put_run)
  by (auto simp: and_then_Inr checkpoint_def complete_def fail_run_def request_cancel_def
      acknowledge_cancellation_def retry_def Let_def
      split: option.splits if_splits intro!: grown_flush)

lemma select_first_grown:
  assumes "grown T T'" "\<And>x y. same_identity x y \<Longrightarrow> p y \<longleftrightarrow> p x" "select_first p T = Some r"
  shows "\<exists>r'. select_first p T' = Some r' \<and> same_identity r r'"
proof -
  obtain g new where g: "T' = map g T @ new" "\<And>x. same_identity x (g x)"
    using assms(1) by (auto simp: grown_def)
  have "\<exists>r'. select_first p (map g T @ new) = Some r' \<and> same_identity r r'"
    using assms(3) by (induction T) (auto simp: assms(2) [OF g(2)] g(2) split: if_splits)
  with g(1) show ?thesis by simp
qed

lemma grown_run: "grown T T' \<Longrightarrow> select_first (run_is rid) T = Some r \<Longrightarrow>
  \<exists>r'. select_first (run_is rid) T' = Some r' \<and> same_identity r r'"
  by (rule select_first_grown) (auto simp: run_is_def same_identity_def)

subsection \<open>Histories\<close>

definition history_ok :: "runs list \<Rightarrow> bool" where
  "history_ok H \<longleftrightarrow> H \<noteq> [] \<and> (\<forall>T \<in> set H. queue_ok T \<and> grown T (hd H))"

lemma history_single: "queue_ok T \<Longrightarrow> history_ok [T]"
  by (simp add: history_ok_def)

lemma read_of_in: "H \<noteq> [] \<Longrightarrow> read_of age H \<in> set H"
  unfolding read_of_def by (rule nth_mem) (cases H, simp_all)

lemma read_of_latest: "H \<noteq> [] \<Longrightarrow> read_of 0 H = hd H"
  by (cases H) (simp_all add: read_of_def)

lemma history_parts:
  fixes age :: nat
  assumes "history_ok H"
  shows "H \<noteq> []" "queue_ok (hd H)" "queue_ok (read_of age H)" "grown (read_of age H) (hd H)"
  using assms read_of_in [of H age] by (auto simp: history_ok_def)

lemma workflow_step_ok:
  assumes H: "history_ok H" shows "history_ok (workflow_step digest w H)"
proof (cases "workflow_result digest (snd w) (read_of (fst w) H) (hd H)")
  case (Inr T)
  note parts = history_parts(1,2) [OF H] history_parts(3,4) [OF H, of "fst w"]
  have "queue_ok T" by (rule workflow_result_sound [OF parts(3,2) Inr])
  moreover have "grown (hd H) T" by (rule workflow_result_grown [OF Inr])
  ultimately have "history_ok (T # H)" using H grown_trans by (auto simp: history_ok_def)
  with Inr show ?thesis by (simp add: workflow_step_def split_beta)
qed (use H in \<open>simp add: workflow_step_def split_beta\<close>)

lemma workflow_history_ok: "history_ok H \<Longrightarrow> history_ok (fold (workflow_step digest) es H)"
  by (induction es arbitrary: H) (auto intro: workflow_step_ok)

lemma workflow_step_serial:
  assumes "H \<noteq> []" "workflow_ok (hd H)" "fst w = 0"
  shows "workflow_ok (hd (workflow_step digest w H))" "workflow_step digest w H \<noteq> []"
  using assms workflow_result_serial [OF assms(2)]
  by (auto simp: workflow_step_def split_beta read_of_latest split: sum.split)

lemma workflow_history_serial:
  "H \<noteq> [] \<Longrightarrow> workflow_ok (hd H) \<Longrightarrow> list_all (\<lambda>w. fst w = 0) es \<Longrightarrow>
   workflow_ok (hd (fold (workflow_step digest) es H))"
  by (induction es arbitrary: H) (auto simp: workflow_step_serial)

lemma empty_queue_ok: "rows_ok ok []"
  by (simp add: rows_ok_def unique_by_def)

definition enqueued :: "int \<times> enqueue_request \<times> string \<times> string \<Rightarrow> runs \<Rightarrow> bool" where
  "enqueued = (\<lambda>(uid, q, rid, payload) T.
     case select_first (same_key uid q) T of None \<Rightarrow> False | Some r \<Rightarrow> wf_id r = rid \<and> wf_payload r = payload)"

lemma grown_enqueued: "grown T T' \<Longrightarrow> enqueued c T \<Longrightarrow> enqueued c T'"
proof (induction c)
  case (fields uid q rid payload)
  then obtain r where "select_first (same_key uid q) T = Some r" "wf_id r = rid" "wf_payload r = payload"
    by (auto simp: enqueued_def split: option.splits)
  with select_first_grown [OF fields(1), of "same_key uid q" r] show ?case
    by (fastforce simp: enqueued_def same_key_def same_identity_def)
qed

interpretation enqueue_lasts: lasting_fact history_ok "\<lambda>c H. enqueued c (hd H)" "workflow_step digest" "\<lambda>_ _. True"
  for digest
proof unfold_locales
  show "enqueued c (hd (workflow_step digest w H))" if "history_ok H" "enqueued c (hd H)" for c w H
    using that workflow_result_grown [of digest "snd w" "read_of (fst w) H" "hd H"]
    by (auto simp: workflow_step_def split_beta intro: grown_enqueued split: sum.split)
qed (rule workflow_step_ok)

subsection \<open>A live lease\<close>

definition held :: "workflow_run \<Rightarrow> runs \<Rightarrow> bool" where
  "held r0 T \<longleftrightarrow> wf_status r0 = Running
     \<and> (case select_first (run_is (wf_id r0)) T of None \<Rightarrow> False | Some r \<Rightarrow> r\<lparr>wf_cancel := wf_cancel r0\<rparr> = r0)"

fun foreign_event :: "workflow_run \<Rightarrow> workflow_event \<Rightarrow> bool" where
  "foreign_event r0 (Claim now worker types n) \<longleftrightarrow> (case wf_lease r0 of None \<Rightarrow> False | Some t \<Rightarrow> now \<le> t)"
| "foreign_event r0 e \<longleftrightarrow> named_run e \<noteq> Some (wf_id r0) \<or> acting_as e \<noteq> wf_owner r0"

lemma select_put_run:
  assumes "\<And>x. same_identity x (f x)"
  shows "select_first (run_is rid) (put_run rid' f T)
    = map_option (\<lambda>r. if rid = rid' then f r else r) (select_first (run_is rid) T)"
proof -
  have "select_first (run_is rid) (put_run rid' f T)
    = map_option (\<lambda>r. if run_is rid' r then f r else r) (select_first (run_is rid) T)"
    using assms unfolding put_run_def
    by (intro select_first_update) (auto simp: run_is_def same_identity_def)
  also have "\<dots> = map_option (\<lambda>r. if rid = rid' then f r else r) (select_first (run_is rid) T)"
    by (rule option.map_cong0) (use select_first_Some in \<open>fastforce simp: run_is_def\<close>)
  finally show ?thesis .
qed


lemma heldE:
  assumes "held r0 T"
  obtains r where "select_first (run_is (wf_id r0)) T = Some r" "r \<in> set T" "wf_id r = wf_id r0"
    "r\<lparr>wf_cancel := wf_cancel r0\<rparr> = r0" "wf_status r = Running" "wf_owner r = wf_owner r0" "wf_lease r = wf_lease r0"
proof -
  from assms obtain r where r: "select_first (run_is (wf_id r0)) T = Some r" "r\<lparr>wf_cancel := wf_cancel r0\<rparr> = r0"
    and run: "wf_status r0 = Running"
    by (auto simp: held_def split: option.splits)
  from r(2) have "wf_status r = wf_status r0 \<and> wf_owner r = wf_owner r0 \<and> wf_lease r = wf_lease r0"
    by (cases r; cases r0) simp
  with r run select_first_Some [OF r(1)] that show thesis by (auto simp: run_is_def)
qed

lemma held_put_run:
  assumes "held r0 T" "\<And>x. same_identity x (f x)"
    and "rid = wf_id r0 \<Longrightarrow> (\<And>x. \<exists>c. f x = x\<lparr>wf_cancel := c\<rparr>)"
  shows "held r0 (put_run rid f T)"
proof -
  from assms(1) obtain r where r: "select_first (run_is (wf_id r0)) T = Some r"
    "r\<lparr>wf_cancel := wf_cancel r0\<rparr> = r0" "wf_status r0 = Running"
    by (auto simp: held_def split: option.splits)
  have "(f r)\<lparr>wf_cancel := wf_cancel r0\<rparr> = r0" if "rid = wf_id r0"
    using assms(3) [OF that, of r] r(2) by auto
  with r show ?thesis
    by (auto simp: held_def select_put_run [OF assms(2)])
qed

lemma held_reap:
  assumes h: "held r0 T" and t: "wf_lease r0 = Some t" "now \<le> t"
  shows "held r0 (reap_terminal_leases now T)"
proof -
  from heldE [OF h] obtain r where r: "select_first (run_is (wf_id r0)) T = Some r"
    "r\<lparr>wf_cancel := wf_cancel r0\<rparr> = r0" "wf_lease r = wf_lease r0" .
  have "\<not> lease_over now r" using r(3) t by (simp add: lease_over_def)
  then have "reap_row now r = r" by (simp add: reap_row_def)
  moreover have "select_first p (map (reap_row now) T) = map_option (reap_row now) (select_first p T)"
    if "p = run_is (wf_id r0)" for p
    using that by (induction T) (auto simp: run_is_def)
  ultimately show ?thesis using h r(1,2) by (simp add: held_def reap_is_map)
qed

lemma held_claim:
  assumes ok: "queue_ok T" and h: "held r0 T" and t: "wf_lease r0 = Some t" "now \<le> t"
    and res: "claim now T worker types n = Inr (T', out)"
  shows "held r0 T'" "out \<noteq> Some (wf_id r0)"
proof -
  let ?T = "reap_terminal_leases now T"
  note h' = held_reap [OF h t]
  from heldE [OF h'] obtain r where r: "r \<in> set ?T" "wf_id r = wf_id r0" "wf_status r = Running" "wf_lease r = wf_lease r0" .
  have ne: "wf_id c \<noteq> wf_id r0" if c: "claim_candidate now types ?T = Some c" for c
  proof
    assume "wf_id c = wf_id r0"
    with unique_byD [of wf_id ?T c r] sound_rows.reap_rows [OF ok] claim_candidate_facts(1) [OF c] r have "c = r"
      by (auto simp: rows_ok_def)
    with claim_candidate_facts(2) [OF c] r t show False by (auto simp: eligible_def lease_over_def)
  qed
  have held': "held r0 (put_run (wf_id c) (take_lease now worker n) ?T)"
    if "claim_candidate now types ?T = Some c" for c
    by (rule held_put_run [OF h']) (use ne [OF that] in \<open>auto simp: same_identity_def take_lease_def\<close>)
  show "held r0 T'" "out \<noteq> Some (wf_id r0)"
    using res h' held' ne by (auto simp: claim_def Let_def split: if_splits option.splits)
qed

lemma held_owner_row:
  assumes ok: "queue_ok T" and h: "held r0 T" and r: "select_first (run_is (wf_id r0)) T = Some r"
  shows "wf_status r = Running" "wf_owner r = wf_owner r0"
  using heldE [OF h] r by (metis option.inject)+

lemma held_result:
  assumes okr: "queue_ok Tr" and hr: "held r0 Tr" and ok: "queue_ok T" and h: "held r0 T" and f: "foreign_event r0 e"
    and res: "workflow_result digest e Tr T = Inr T'"
  shows "held r0 T'"
proof (cases "named_run e")
  case None
  then consider (enq) now new_id uid q where "e = Enqueue now new_id uid q"
    | (claim) now worker types n where "e = Claim now worker types n" by (cases e) auto
  then show ?thesis
  proof cases
    case enq
    moreover have "select_first p (T @ xs) = Some r" if "select_first p T = Some r" for p xs r
      using that by (induction T) (auto split: if_splits)
    ultimately show ?thesis
      using h res by (auto simp: held_def and_then_Inr enqueue_def split: option.splits if_splits)
  next
    case claim
    with f obtain t where "wf_lease r0 = Some t" "now \<le> t" by (auto split: option.splits)
    with held_claim [OF ok h] res claim show ?thesis by (auto simp: and_then_Inr)
  qed
next
  case (Some rid)
  have "held r0 (put_run rid f T)"
    if r: "select_first (run_is rid) Tr = Some r" and rw: "rewriting e r f" for r f
  proof (rule held_put_run [OF h])
    show "\<exists>c. f x = x\<lparr>wf_cancel := c\<rparr>" if "rid = wf_id r0" for x
    proof -
      have "wf_status r = Running" "wf_owner r = wf_owner r0"
        using held_owner_row [OF okr hr] r that by auto
      with rw f Some that show ?thesis by (cases e) (auto simp: rewriting_def)
    qed
  qed (use rw in \<open>simp add: rewriting_def\<close>)
  with named_run_rewritten [OF okr res Some] h show ?thesis by (auto simp: rewrites_row_def)
qed

definition held_since :: "workflow_run \<Rightarrow> runs list \<Rightarrow> bool" where
  "held_since r0 H \<longleftrightarrow> (\<forall>T \<in> set H. held r0 T)"

interpretation lease_lasts: lasting_fact history_ok held_since "workflow_step digest" "\<lambda>r0 w. foreign_event r0 (snd w)"
  for digest
proof unfold_locales
  fix r0 and w :: "nat \<times> workflow_event" and H
  assume H: "history_ok H" "held_since r0 H" "foreign_event r0 (snd w)"
  note parts = history_parts(1,2) [OF H(1)] history_parts(3,4) [OF H(1), of "fst w"]
  have h: "held r0 (read_of (fst w) H)" "held r0 (hd H)"
    using H(2) parts(1) read_of_in [OF parts(1)] by (auto simp: held_since_def)
  show "held_since r0 (workflow_step digest w H)"
    using held_result [OF parts(3) h(1) parts(2) h(2) H(3)] H(2)
    by (auto simp: held_since_def workflow_step_def split_beta split: sum.split)
qed (rule workflow_step_ok)

subsection \<open>The attempts of a run\<close>

text \<open>How often a history hands a run out.\<close>

definition hands_out :: "string \<Rightarrow> workflow_event \<Rightarrow> runs \<Rightarrow> bool" where
  "hands_out rid e T \<longleftrightarrow> (case e of
     Claim now worker types n \<Rightarrow> (case claim now T worker types n of Inr (T', out) \<Rightarrow> out = Some rid | Inl _ \<Rightarrow> False)
   | _ \<Rightarrow> False)"

fun times_claimed :: "(string \<Rightarrow> string) \<Rightarrow> string \<Rightarrow> runs list \<Rightarrow> (nat \<times> workflow_event) list \<Rightarrow> nat" where
  "times_claimed digest rid H [] = 0"
| "times_claimed digest rid H (w # ws) =
     (if hands_out rid (snd w) (hd H) then 1 else 0) + times_claimed digest rid (workflow_step digest w H) ws"

definition attempts_of :: "string \<Rightarrow> runs \<Rightarrow> int" where
  "attempts_of rid T = (case select_first (run_is rid) T of None \<Rightarrow> 0 | Some r \<Rightarrow> wf_attempts r)"

lemma attempts_put_run:
  assumes "\<And>x. same_identity x (f x)"
  shows "attempts_of rid (put_run rid' f T) =
    (case select_first (run_is rid) T of None \<Rightarrow> 0 | Some r \<Rightarrow> wf_attempts (if rid = rid' then f r else r))"
  by (simp add: attempts_of_def select_put_run [OF assms] split: option.split)

lemma attempts_reap: "attempts_of rid (reap_terminal_leases now T) = attempts_of rid T"
proof -
  have "select_first (run_is rid) (map (reap_row now) T) = map_option (reap_row now) (select_first (run_is rid) T)"
    by (induction T) (auto simp: run_is_def)
  then show ?thesis by (simp add: attempts_of_def reap_is_map split: option.split)
qed

lemma attempts_claim:
  assumes ok: "queue_ok T" and res: "claim now T worker types n = Inr (T', out)"
  shows "attempts_of rid T' = attempts_of rid T + (if out = Some rid then 1 else 0)"
proof (cases "claim_candidate now types (reap_terminal_leases now T)")
  case None
  with res show ?thesis by (auto simp: claim_def Let_def attempts_reap split: if_splits)
next
  case (Some r)
  let ?T = "reap_terminal_leases now T"
  note sel = select_member [OF sound_rows.reap_rows [OF ok] claim_candidate_facts(1) [OF Some]]
  have "attempts_of rid (put_run (wf_id r) (take_lease now worker n) ?T)
      = attempts_of rid ?T + (if wf_id r = rid then 1 else 0)"
    using sel attempts_put_run [of "take_lease now worker n" rid "wf_id r" ?T]
    by (auto simp: attempts_of_def take_lease_def same_identity_def split: option.splits)
  with res Some show ?thesis by (auto simp: claim_def Let_def attempts_reap split: if_splits)
qed

lemma attempts_result:
  assumes okr: "queue_ok Tr" and ok: "queue_ok T" and res: "workflow_result digest e Tr T = Inr T'" and e: "\<not> retries rid e"
  shows "attempts_of rid T' = attempts_of rid T + (if hands_out rid e T then 1 else 0)"
proof (cases "named_run e")
  case None
  then consider (enq) now new_id uid q where "e = Enqueue now new_id uid q"
    | (claim) now worker types n where "e = Claim now worker types n" by (cases e) auto
  then show ?thesis
  proof cases
    case enq
    moreover have "attempts_of rid (T @ [new_run now new_id uid q]) = attempts_of rid T"
      by (induction T) (auto simp: attempts_of_def new_run_def)
    ultimately show ?thesis
      using res by (auto simp: hands_out_def and_then_Inr enqueue_def split: option.splits if_splits)
  next
    case claim
    with res attempts_claim [OF ok] show ?thesis by (fastforce simp: hands_out_def and_then_Inr)
  qed
next
  case (Some rid')
  have "attempts_of rid (put_run rid' f T) = attempts_of rid T"
    if r: "select_first (run_is rid') Tr = Some r" and rw: "rewriting e r f" for r f
    using r rw e select_first_Some [OF r] attempts_put_run [of f rid rid' T]
    by (auto simp: rewriting_def attempts_of_def run_is_def split: option.splits)
  moreover have "\<not> hands_out rid e T" using Some by (cases e) (auto simp: hands_out_def)
  ultimately show ?thesis
    using named_run_rewritten [OF okr res Some] by (auto simp: rewrites_row_def)
qed

lemma attempts_step:
  assumes H: "history_ok H" and w: "\<not> retries rid (snd w)"
  shows "attempts_of rid (hd (workflow_step digest w H)) = attempts_of rid (hd H) + (if hands_out rid (snd w) (hd H) then 1 else 0)"
proof (cases "workflow_result digest (snd w) (read_of (fst w) H) (hd H)")
  case (Inl err)
  then have "\<not> hands_out rid (snd w) (hd H)" by (cases "snd w") (auto simp: hands_out_def split: sum.splits)
  with Inl show ?thesis by (simp add: workflow_step_def split_beta)
next
  case (Inr T')
  with attempts_result [OF history_parts(3) [OF H] history_parts(2) [OF H] Inr w] show ?thesis by (simp add: workflow_step_def split_beta)
qed

lemma times_claimed_counts:
  "history_ok H \<Longrightarrow> \<forall>w \<in> set ws. \<not> retries rid (snd w) \<Longrightarrow>
   attempts_of rid (hd (fold (workflow_step digest) ws H)) = attempts_of rid (hd H) + int (times_claimed digest rid H ws)"
  by (induction ws arbitrary: H) (auto simp: attempts_step workflow_step_ok)

lemma grown_history:
  assumes "history_ok H" "select_first (run_is rid) (hd H) = Some r"
  shows "\<exists>r'. select_first (run_is rid) (hd (fold (workflow_step digest) ws H)) = Some r' \<and> same_identity r r'"
  using assms
proof (induction ws arbitrary: H r)
  case (Cons w ws)
  have "grown (hd H) (hd (workflow_step digest w H))"
    using workflow_result_grown by (auto simp: workflow_step_def split_beta split: sum.split)
  from grown_run [OF this Cons.prems(2)] obtain r1 where
    "select_first (run_is rid) (hd (workflow_step digest w H)) = Some r1" "same_identity r r1" by blast
  with Cons.IH [OF workflow_step_ok [OF Cons.prems(1)]] same_identity_trans show ?case by fastforce
qed simp

subsection \<open>The queue is handed out in order\<close>

definition queue_of :: "instant \<Rightarrow> string list \<Rightarrow> runs \<Rightarrow> string list" where
  "queue_of now types T = map wf_id (sort_key claim_order (filter (eligible now types) T))"

text \<open>Workers with their clocks claim one after the other.\<close>

fun claims_in_turn :: "string list \<Rightarrow> int \<Rightarrow> (instant \<times> string) list \<Rightarrow> runs \<Rightarrow> string option list" where
  "claims_in_turn types n [] T = []"
| "claims_in_turn types n ((now, worker) # ws) T =
     (case claim now T worker types n of
        Inl _ \<Rightarrow> None # claims_in_turn types n ws T
      | Inr (T', out) \<Rightarrow> out # claims_in_turn types n ws T')"

text \<open>No lease of a running row ends in the window of the clocks.\<close>

definition leases_steady :: "instant \<Rightarrow> instant \<Rightarrow> runs \<Rightarrow> bool" where
  "leases_steady t0 t1 T \<longleftrightarrow> list_all (\<lambda>r. wf_status r = Running \<longrightarrow> lease_over t0 r \<or> \<not> lease_over t1 r) T"

lemma steady_eligible:
  assumes "leases_steady t0 t1 T" "r \<in> set T" "t0 \<le> now" "now \<le> t1"
  shows "eligible now types r \<longleftrightarrow> eligible t0 types r"
  using assms by (auto simp: leases_steady_def list_all_iff eligible_def lease_over_def split: option.splits)

lemma filter_update_rows:
  "\<forall>x \<in> set T. p x \<longrightarrow> \<not> P (f x) \<Longrightarrow> filter P (update_rows p f T) = filter (\<lambda>x. P x \<and> \<not> p x) T"
  by (induction T) auto

lemma eligible_reap: "filter (eligible now types) (reap_terminal_leases now T) = filter (eligible now types) T"
proof (induction T)
  case (Cons r T)
  then show ?case by (auto simp: reap_is_map reap_row_def eligible_def)
qed (simp add: reap_is_map)

lemma queue_reap: "queue_of now types (reap_terminal_leases now T) = queue_of now types T"
  by (simp add: queue_of_def eligible_reap)


lemma queue_steady:
  assumes "leases_steady t0 t1 T" "t0 \<le> now" "now \<le> t1"
  shows "queue_of now types T = queue_of t0 types T"
proof -
  have "filter (eligible now types) T = filter (eligible t0 types) T"
    by (rule filter_cong) (use steady_eligible [OF assms(1) _ assms(2,3)] in auto)
  then show ?thesis by (simp add: queue_of_def)
qed

lemma steady_reap: "leases_steady t0 t1 T \<Longrightarrow> leases_steady t0 t1 (reap_terminal_leases now T)"
  by (auto simp: leases_steady_def reap_is_map list_all_iff reap_row_def lease_over_def)

lemma steady_take:
  assumes "leases_steady t0 t1 T" "t1 \<le> now + seconds n"
  shows "leases_steady t0 t1 (put_run rid (take_lease now worker n) T)"
  using assms by (auto simp: leases_steady_def put_run_def list_all_iff set_update_rows take_lease_def lease_over_def)

lemma queue_taken:
  assumes ok: "queue_ok T" and r: "claim_candidate now types T = Some r" and t: "1 \<le> n"
  shows "queue_of now types T = wf_id r # queue_of now types (put_run (wf_id r) (take_lease now worker n) T)"
proof -
  let ?T = "put_run (wf_id r) (take_lease now worker n) T"
  obtain rs where rs: "sort_key claim_order (filter (eligible now types) T) = r # rs"
    using r by (auto simp: claim_candidate_def split: list.splits)
  have "distinct (map wf_id (sort_key claim_order (filter (eligible now types) T)))"
    using ok by (simp add: rows_ok_def unique_by_def distinct_map inj_on_def)
  with rs have others: "\<forall>x \<in> set rs. wf_id x \<noteq> wf_id r" by (auto simp: image_iff)
  have "filter (eligible now types) ?T = filter (\<lambda>x. eligible now types x \<and> \<not> run_is (wf_id r) x) T"
    unfolding put_run_def
    by (rule filter_update_rows) (use t in \<open>auto simp: eligible_def take_lease_def lease_over_def seconds_def\<close>)
  also have "\<dots> = filter (\<lambda>x. \<not> run_is (wf_id r) x) (filter (eligible now types) T)"
    by (induction T) auto
  finally have "sort_key claim_order (filter (eligible now types) ?T)
      = filter (\<lambda>x. \<not> run_is (wf_id r) x) (r # rs)"
    by (simp add: filter_sort rs [symmetric])
  also have "\<dots> = rs" using others by (simp add: run_is_def filter_id_conv)
  finally show ?thesis using rs by (simp add: queue_of_def)
qed

lemma claim_takes_first:
  assumes ok: "queue_ok T" and steady: "leases_steady t0 t1 T" and now: "t0 \<le> now" "now \<le> t1"
    and n: "1 \<le> n" "t1 \<le> t0 + seconds n" and w: "py_strip worker \<noteq> []"
  obtains T' where "queue_ok T'" "leases_steady t0 t1 T'"
    "claim now T worker types n = Inr (T', case queue_of t0 types T of [] \<Rightarrow> None | i # is \<Rightarrow> Some i)"
    "queue_of t0 types T' = tl (queue_of t0 types T)"
proof -
  let ?T = "reap_terminal_leases now T"
  note ok1 = sound_rows.reap_rows [OF ok, of now] and st1 = steady_reap [OF steady, of now]
  have q: "queue_of now types ?T = queue_of t0 types T"
    using queue_reap queue_steady [OF steady now] by simp
  show thesis
  proof (cases "claim_candidate now types ?T")
    case None
    then have "queue_of now types ?T = []"
      by (auto simp: claim_candidate_def queue_of_def split: list.splits)
    with q queue_steady [OF st1 now] None ok1 st1 n w that [of ?T] show ?thesis
      by (simp add: claim_def Let_def)
  next
    case (Some r)
    let ?T' = "put_run (wf_id r) (take_lease now worker n) ?T"
    have c: "claim now T worker types n = Inr (?T', Some (wf_id r))"
      using Some n w by (simp add: claim_def Let_def)
    note st2 = steady_take [OF st1, of now n "wf_id r" worker]
    have q': "queue_of t0 types T = wf_id r # queue_of now types ?T'"
      unfolding q [symmetric] by (rule queue_taken [OF ok1 Some n(1)])
    have st3: "leases_steady t0 t1 ?T'" using st2 n(2) now(1) by simp
    show ?thesis
    proof (rule that [OF sound_rows.claim_rows [OF ok c] st3])
      show "claim now T worker types n
          = Inr (?T', case queue_of t0 types T of [] \<Rightarrow> None | i # is \<Rightarrow> Some i)"
        by (simp only: c q' list.case)
      show "queue_of t0 types ?T' = tl (queue_of t0 types T)"
        by (simp only: q' list.sel queue_steady [OF st3 now, symmetric])
    qed
  qed
qed

subsection \<open>A queue with three runs\<close>

definition demo_run :: "string \<Rightarrow> instant \<Rightarrow> workflow_run" where
  "demo_run i t = new_run t i 7 \<lparr>eq_type = ''sync'', eq_key = i, eq_payload = ''{}'', eq_max = 3\<rparr>"

definition demo_running :: "workflow_run" where
  "demo_running = take_lease 100 ''w1'' 30 (demo_run ''a'' 10)"

definition demo_queue :: runs where
  "demo_queue = [demo_running, demo_run ''c'' 30, demo_run ''b'' 20]"

lemma demo_queue_ok: "workflow_ok demo_queue" "queue_ok demo_queue"
  by code_simp+

subsection \<open>Properties\<close>

text \<open>C10: Whatever the workers, the clocks and the users do, and however old the rows are that an operation has
  read when it commits, the queue holds one row per identifier and one per user, type and idempotency key,
  no run is lost, none changes its owner, key, payload or budget, attempts stay within the budget and
  progress within 0 and 1, and a running run has an owner, a lease and no finish time. When every operation
  acts on the latest table, an owner and a lease are present exactly while a run runs, a finish
  time exactly when it is over, a success is complete and was not cancelled, a failure carries its code, and
  a queued run carries no cancellation.\<close>

theorem queue_history_ok:
  fixes es :: "(nat \<times> workflow_event) list" and digest :: "string \<Rightarrow> string"
  defines "H \<equiv> fold (workflow_step digest) es [[]]"
  shows "queue_ok (hd H) \<and> (\<forall>T \<in> set H. grown T (hd H))
    \<and> (list_all (\<lambda>w. fst w = 0) es \<longrightarrow> workflow_ok (hd H))"
  unfolding H_def
  using workflow_history_ok [OF history_single [OF empty_queue_ok], of digest es]
    workflow_history_serial [of "[[]]" es digest] empty_queue_ok [of run_ok]
  by (simp add: history_ok_def)

definition demo_work :: "(nat \<times> workflow_event) list" where
  "demo_work = [(0, Enqueue 10 ''a'' 7 \<lparr>eq_type = ''sync'', eq_key = ''k'', eq_payload = ''{}'', eq_max = 3\<rparr>),
     (0, Claim 100 ''w1'' [] 30), (0, Checkpoint 110 111 ''a'' ''w1'' ''{1}'' (1 / 2) 30),
     (0, FailRun 120 121 ''a'' ''w1'' ''Net error!'' True), (0, RequestCancel 130 7 ''a''), (0, Retry 7 ''a'')]"

theorem queue_history_ok_witness:
  "length (fold (workflow_step id) demo_work [[]]) = 7 \<and> workflow_ok (hd (fold (workflow_step id) demo_work [[]]))"
proof
  show "length (fold (workflow_step id) demo_work [[]]) = 7" by code_simp
  show "workflow_ok (hd (fold (workflow_step id) demo_work [[]]))"
    using queue_history_ok [of id demo_work] by (simp add: demo_work_def del: fold_simps)
qed

text \<open>C11: A live lease is exclusive against everyone who acts on what was read since it was taken: whatever other
  workers claim, checkpoint, complete, fail or acknowledge and whatever users enqueue, cancel or retry, in any
  interleaving of their reads and writes, the row keeps its owner, attempt, checkpoint and lease; a user can
  only leave the cancellation mark. The owner's next call is admitted, or told of the
  cancellation.\<close>

theorem live_lease_is_exclusive:
  assumes "queue_ok T" and "select_first (run_is rid) T = Some r"
    and "wf_status r = Running" and "wf_owner r = Some worker" and "wf_lease r = Some t"
    and "list_all (\<lambda>w. foreign_event r (snd w)) es" and "now \<le> t"
  shows "\<exists>mark. select_first (run_is rid) (hd (fold (workflow_step digest) es [T])) = Some (r\<lparr>wf_cancel := mark\<rparr>)
    \<and> leased now (hd (fold (workflow_step digest) es [T])) rid worker
        = (if mark = None then Inr (r\<lparr>wf_cancel := mark\<rparr>) else Inl CancelledError)"
proof -
  let ?H = "fold (workflow_step digest) es [T]"
  have id: "wf_id r = rid" using select_first_Some [OF assms(2)] by (simp add: run_is_def)
  then have "held_since r [T]" using assms(2,3) by (simp add: held_def held_since_def)
  with lease_lasts.lasts [OF history_single [OF assms(1)]] assms(6) have "held_since r ?H" by (simp add: list_all_iff)
  moreover have "?H \<noteq> []" using workflow_history_ok [OF history_single [OF assms(1)]] by (simp add: history_ok_def)
  ultimately have "held r (hd ?H)" by (simp add: held_since_def)
  then obtain x where x: "select_first (run_is rid) (hd ?H) = Some x" "x\<lparr>wf_cancel := wf_cancel r\<rparr> = r"
    by (auto simp: held_def id split: option.splits)
  have "r\<lparr>wf_cancel := wf_cancel x\<rparr> = x" by (subst x(2) [symmetric]) simp
  with x(1) obtain mark where "select_first (run_is rid) (hd ?H) = Some (r\<lparr>wf_cancel := mark\<rparr>)" by metis
  with assms(3-5,7) show ?thesis
    by (intro exI [of _ mark]) (simp add: leased_def lease_over_def)
qed

definition demo_rivals :: "(nat \<times> workflow_event) list" where
  "demo_rivals = [(0, Claim 150 ''w2'' [] 30), (1, Complete 160 161 ''a'' ''w2'' ''{}''), (1, RequestCancel 170 7 ''a'')]"

theorem live_lease_is_exclusive_witness:
  "\<exists>mark. select_first (run_is ''a'') (hd (fold (workflow_step id) demo_rivals [demo_queue]))
      = Some (demo_running\<lparr>wf_cancel := mark\<rparr>)
    \<and> leased 180 (hd (fold (workflow_step id) demo_rivals [demo_queue])) ''a'' ''w1''
        = (if mark = None then Inr (demo_running\<lparr>wf_cancel := mark\<rparr>) else Inl CancelledError)"
proof (rule live_lease_is_exclusive [OF demo_queue_ok(2)])
  show "select_first (run_is ''a'') demo_queue = Some demo_running" by code_simp
  show "wf_status demo_running = Running" "wf_owner demo_running = Some ''w1''"
    "wf_lease demo_running = Some 30000100" by code_simp+
  show "list_all (\<lambda>w. foreign_event demo_running (snd w)) demo_rivals" by code_simp
qed simp

text \<open>C12: A run is handed out to workers at most as often as its remaining attempts allow, over any
  history in which no user retries it, whatever the operations have read before they commit: a run that
  keeps crashing its workers does not come back for ever.\<close>

theorem attempt_budget:
  assumes "history_ok H" and "select_first (run_is rid) (hd H) = Some r" and "\<forall>w \<in> set es. \<not> retries rid (snd w)"
  shows "int (times_claimed digest rid H es) \<le> wf_max r - wf_attempts r"
proof -
  let ?T = "hd (fold (workflow_step digest) es H)"
  from grown_history [OF assms(1,2)] obtain r' where
    r': "select_first (run_is rid) ?T = Some r'" "same_identity r r'" by blast
  have "wf_attempts r' \<le> wf_max r'"
    using selected_row(1) [OF history_parts(2) [OF workflow_history_ok [OF assms(1)]] r'(1)] by (simp add: run_sound_def)
  moreover have "wf_attempts r' = wf_attempts r + int (times_claimed digest rid H es)"
    using times_claimed_counts [OF assms(1,3), of digest] r'(1) assms(2) by (simp add: attempts_of_def)
  ultimately show ?thesis using r'(2) by (simp add: same_identity_def)
qed

theorem attempt_budget_witness:
  "int (times_claimed id ''b'' [demo_queue] [(0, Claim 150 ''w2'' [] 1), (0, FailRun 160 161 ''b'' ''w2'' ''crash'' True)])
    \<le> wf_max (demo_run ''b'' 20) - wf_attempts (demo_run ''b'' 20)"
  by (rule attempt_budget [OF history_single [OF demo_queue_ok(2)]]) (code_simp, simp)

text \<open>C13: Workers that claim in turn receive the eligible runs each once, the oldest first, and then
  nothing, provided the clocks stay within one lease and no running lease ends meanwhile: no
  eligible run is starved or handed out twice.\<close>

theorem claims_hand_out_queue:
  assumes "queue_ok T" and "leases_steady t0 t1 T" and "1 \<le> n" and "t1 \<le> t0 + seconds n"
    and "\<forall>(now, worker) \<in> set ws. t0 \<le> now \<and> now \<le> t1 \<and> py_strip worker \<noteq> []"
  shows "claims_in_turn types n ws T = map Some (take (length ws) (queue_of t0 types T))
    @ replicate (length ws - length (queue_of t0 types T)) None"
  using assms(1,2,5)
proof (induction ws arbitrary: T)
  case (Cons w ws)
  obtain now worker where w: "w = (now, worker)" by (cases w)
  with Cons.prems have now: "t0 \<le> now" "now \<le> t1" "py_strip worker \<noteq> []" by auto
  obtain T' where T': "queue_ok T'" "leases_steady t0 t1 T'"
    "claim now T worker types n = Inr (T', case queue_of t0 types T of [] \<Rightarrow> None | i # is \<Rightarrow> Some i)"
    "queue_of t0 types T' = tl (queue_of t0 types T)"
    by (rule claim_takes_first [OF Cons.prems(1,2) now(1,2) assms(3,4) now(3)])
  have "claims_in_turn types n ws T' = map Some (take (length ws) (queue_of t0 types T'))
    @ replicate (length ws - length (queue_of t0 types T')) None"
    using Cons.IH [OF T'(1,2)] Cons.prems(3) by auto
  with w T'(3,4) show ?case by (cases "queue_of t0 types T") auto
qed simp

theorem claims_hand_out_queue_witness:
  "claims_in_turn [] 1 [(150, ''w2''), (151, ''w3''), (152, ''w2'')] demo_queue
    = map Some (take 3 (queue_of 150 [] demo_queue)) @ replicate (3 - length (queue_of 150 [] demo_queue)) None
   \<and> queue_of 150 [] demo_queue = [''b'', ''c'']"
proof
  have q: "leases_steady 150 152 demo_queue" by code_simp
  show "claims_in_turn [] 1 [(150, ''w2''), (151, ''w3''), (152, ''w2'')] demo_queue
    = map Some (take 3 (queue_of 150 [] demo_queue)) @ replicate (3 - length (queue_of 150 [] demo_queue)) None"
    using claims_hand_out_queue [OF demo_queue_ok(2) q, of 1 "[(150, ''w2''), (151, ''w3''), (152, ''w2'')]" "[]"]
    by (simp add: seconds_def py_strip_def py_isspace_def numeral_3_eq_3 del: claims_in_turn.simps)
  show "queue_of 150 [] demo_queue = [''b'', ''c'']" by code_simp
qed

text \<open>An idempotency key stays bound to the run it created: after any history a repeated request
  returns that run and leaves the queue as it is, and a request with another payload is refused.\<close>

lemma enqueue_once:
  fixes es :: "(nat \<times> workflow_event) list"
  assumes H: "history_ok H" and q: "valid_enqueue q" and e: "enqueue digest now new_id (read_of age H) (hd H) uid q = Inr (T1, rid)"
    and same: "eq_type q' = eq_type q" "eq_key q' = eq_key q"
    and T: "T = hd (fold (workflow_step digest) es (T1 # H))"
  shows "enqueue digest now' new_id' T T uid q' =
    (if digest (eq_payload q') = digest (eq_payload q) then Inr (T, rid) else Inl RunConflict)"
proof -
  note parts = history_parts(1,2) [OF H] history_parts(3,4) [OF H, of age]
  have "\<exists>r. select_first (same_key uid q) T1 = Some r \<and> wf_id r = rid \<and> digest (wf_payload r) = digest (eq_payload q)"
  proof (cases "select_first (same_key uid q) (read_of age H)")
    case (Some r)
    with e have r: "T1 = hd H" "wf_id r = rid" "digest (wf_payload r) = digest (eq_payload q)"
      by (auto simp: enqueue_def split: if_splits)
    from select_first_grown [OF parts(4) _ Some] obtain r' where
      "select_first (same_key uid q) (hd H) = Some r'" "same_identity r r'"
      by (auto simp: same_key_def same_identity_def)
    with r show ?thesis by (auto simp: same_identity_def)
  next
    case None
    with e have free: "select_first (\<lambda>r. run_is new_id r \<or> same_key uid q r) (hd H) = None"
      and T1: "T1 = hd H @ [new_run now new_id uid q]" "rid = new_id" by (auto simp: enqueue_def split: if_splits)
    then have "select_first (same_key uid q) T1 = Some (new_run now new_id uid q)"
      unfolding T1(1) by (intro select_first_appended) (auto simp: select_first_None same_key_def new_run_def)
    with T1(2) show ?thesis by (simp add: new_run_def)
  qed
  then obtain r where "select_first (same_key uid q) T1 = Some r" "wf_id r = rid"
    and d: "digest (wf_payload r) = digest (eq_payload q)" by blast
  then have r: "enqueued (uid, q, rid, wf_payload r) (hd (T1 # H))" by (simp add: enqueued_def)
  have "workflow_result digest (Enqueue now new_id uid q) (read_of age H) (hd H) = Inr T1"
    using q e by (simp add: ensure_def)
  then have "history_ok (T1 # H)"
    using workflow_step_ok [OF H, of digest "(age, Enqueue now new_id uid q)"] by (simp add: workflow_step_def)
  from enqueue_lasts.lasts [OF this r] have "enqueued (uid, q, rid, wf_payload r) T" by (simp add: T)
  moreover have "same_key uid q' = same_key uid q" using same by (simp add: same_key_def [abs_def])
  ultimately show ?thesis using d by (auto simp: enqueue_def enqueued_def split: option.splits)
qed

subsection \<open>What stale reads destroy\<close>

lemma claim_Some:
  assumes "claim now T worker types n = Inr (T', Some rid)" and "queue_ok T"
  obtains r where "select_first (run_is rid) (reap_terminal_leases now T) = Some r"
    "T' = put_run rid (take_lease now worker n) (reap_terminal_leases now T)"
    "select_first (run_is rid) T' = Some (take_lease now worker n r)" "eligible now types r"
proof -
  from assms(1) obtain r where r: "claim_candidate now types (reap_terminal_leases now T) = Some r" "wf_id r = rid"
    and T': "T' = put_run rid (take_lease now worker n) (reap_terminal_leases now T)"
    by (auto simp: claim_def Let_def split: if_splits option.splits)
  have sel: "select_first (run_is rid) (reap_terminal_leases now T) = Some r"
    using select_member [OF sound_rows.reap_rows [OF assms(2)] claim_candidate_facts(1) [OF r(1)]] r(2) by simp
  moreover have "select_first (run_is rid) T' = Some (take_lease now worker n r)"
    unfolding T' by (subst select_put_run) (simp_all add: sel take_lease_def same_identity_def)
  ultimately show thesis using that T' claim_candidate_facts(2) [OF r(1)] by blast
qed

lemma select_flush:
  assumes "wf_id r = rid" and "select_first (run_is rid) T = Some x"
  shows "select_first (run_is rid) (flush_run r s T) = Some (write_changes r s x)"
  unfolding flush_run_def by (subst select_put_run) (simp_all add: assms)

text \<open>A worker checks its lease, the lease ends and another worker claims the run; the first worker then commits its
  completion. The run is over, the second worker has lost its lease, and its result is refused.\<close>

theorem stale_completion_ends_foreign_run:
  assumes "queue_ok T0" and "leased now0 T0 rid w1 = Inr r" and "claim now1 T0 w2 types n = Inr (T1, Some rid)"
  shows "\<exists>T2 x. complete now0 later T0 T1 rid w1 res = Inr T2 \<and> select_first (run_is rid) T2 = Some x
    \<and> wf_status x = Succeeded \<and> wf_owner x = None \<and> leased now2 T2 rid w2 = Inl LeaseError"
proof -
  note r = leased_facts [OF assms(2)]
  have id: "wf_id r = rid" using select_first_Some [OF r(1)] by (simp add: run_is_def)
  obtain c where c: "select_first (run_is rid) T1 = Some (take_lease now1 w2 n c)"
    by (rule claim_Some [OF assms(3,1)])
  show ?thesis
    using assms(2) r(2,3,6) by (simp add: complete_def leased_def [of now2] select_flush [OF id c]
        write_changes_def changed_def)
qed

text \<open>A user cancels a run that is still queued in what was read, and a worker claims it in between. The run is
  cancelled and finished, yet it carries an owner and a lease; the worker's calls are refused, the
  acknowledgement of the cancellation included.\<close>

theorem stale_cancel_splits_run:
  assumes "queue_ok T0" and "owned_run T0 uid rid = Inr r" and "wf_status r = Queued"
    and "claim now1 T0 w types n = Inr (T1, Some rid)"
  shows "\<exists>T2 x. request_cancel now T0 T1 uid rid = Inr T2 \<and> select_first (run_is rid) T2 = Some x
    \<and> wf_status x = RunCancelled \<and> wf_owner x = Some w \<and> wf_lease x \<noteq> None
    \<and> leased now2 T2 rid w = Inl LeaseError \<and> acknowledge_cancellation now2 T2 T2 rid w = Inl LeaseError"
proof -
  have id: "wf_id r = rid" by (rule owned_run_facts(2) [OF assms(2)])
  obtain c where c: "select_first (run_is rid) T1 = Some (take_lease now1 w n c)"
    by (rule claim_Some [OF assms(4,1)])
  show ?thesis
    using assms(2,3) by (simp add: request_cancel_def leased_def acknowledge_cancellation_def select_flush [OF id c]
        terminal_status_def write_changes_def changed_def take_lease_def)
qed

text \<open>A worker reports a failure that may be retried, and a cancellation commits between its check and its update.
  The run goes back to the queue with the cancellation mark: no claim takes it and no reaping ends it.\<close>

lemma select_owned:
  assumes "queue_ok T" "select_first (run_is rid) T = Some r" "wf_user r = uid"
  shows "owned_run T uid rid = Inr r"
proof -
  have "select_first (\<lambda>x. run_is rid x \<and> wf_user x = uid) T = Some r"
    using assms(2,3) selected_row(2,3) [OF assms(1,2)] unique_byD [of wf_id T] assms(1)
    by (induction T) (auto simp: run_is_def rows_ok_def unique_by_def image_iff split: if_splits)
  then show ?thesis by (simp add: owned_run_def)
qed

theorem stale_failure_strands_run:
  assumes "queue_ok T0" and "leased now0 T0 rid w = Inr r" and "wf_user r = uid" and "wf_attempts r < wf_max r"
    and "request_cancel now1 T0 T0 uid rid = Inr T1"
  shows "\<exists>T2 x. fail_run now0 later T0 T1 rid w code True = Inr T2 \<and> select_first (run_is rid) T2 = Some x
    \<and> wf_status x = Queued \<and> \<not> eligible now2 types x \<and> reap_row now2 x = x"
proof -
  note r = leased_facts [OF assms(2)]
  have id: "wf_id r = rid" using select_first_Some [OF r(1)] by (simp add: run_is_def)
  have "owned_run T0 uid rid = Inr r"
    by (rule select_owned [OF assms(1) r(1) assms(3)])
  with assms(5) r(2) have T1: "T1 = flush_run r (r\<lparr>wf_cancel := Some now1\<rparr>) T0"
    by (auto simp: request_cancel_def and_then_Inr terminal_status_def)
  have sel: "select_first (run_is rid) T1 = Some (r\<lparr>wf_cancel := Some now1\<rparr>)"
    unfolding T1 by (subst select_flush [OF id r(1)]) (simp add: write_changes_self same_identity_def)
  show ?thesis
    using assms(2,4) r(2,3,4) by (simp add: fail_run_def Let_def select_flush [OF id sel]
        write_changes_def changed_def eligible_def reap_row_def)
qed

end
