(* ===== verification/PacketStore.thy ===== *)
theory PacketStore
  imports Dossiers CrashIO
begin

text \<open>
  The bytes of a published packet and their recovery journal, \<open>applications/packet_storage.py\<close>
  and the durable part of \<open>dossier_publication.py\<close>: the journal is written first, the bytes
  next, one commit records the packet, and the journal is removed last. The publisher and every
  later writer first reconcile what a crash has left. Every durable step meets a fate
  (\<open>CrashIO\<close>); the database part of a publication is \<open>prepare_packet\<close> and \<open>commit_packet\<close>.
\<close>

subsection \<open>State\<close>

record packet_journal =
  pj_application :: string
  pj_dossier :: string
  pj_path :: string
  pj_sha256 :: string
  pj_size :: int

text \<open>
  The journal directory lists file names without their suffix; the content is \<open>None\<close>
  where it is no object with exactly the fields of a journal.
\<close>

record packet_disk =
  pd_db :: dossier_db
  pd_files :: "string \<Rightarrow> string option"
  pd_journals :: "(string \<times> packet_journal option) list"

datatype packet_error =
    StorageFailure string | PacketInvalid | PacketMissing | DatabaseFailure | Refused app_error

type_synonym 'a pio = "(packet_disk, packet_error, 'a) io"

text \<open>
  What recovery depends on: the digest, the documents of assets and resumes that
  own a path, and the configured limit of pending bytes.
\<close>

record recovery_env =
  rv_sha256 :: "string \<Rightarrow> string"
  rv_foreign :: "string \<Rightarrow> bool"
  rv_limit :: int

subsection \<open>Identities and journals\<close>

definition packet_artifact_path :: "string \<Rightarrow> string \<Rightarrow> string \<Rightarrow> packet_error + string" where
  "packet_artifact_path aid did sha =
     and_then (ensure (sha256_shape sha) PacketInvalid) (\<lambda>_.
     and_then (ensure (canonical_uuid aid) PacketInvalid) (\<lambda>_.
     and_then (ensure (canonical_uuid did) PacketInvalid) (\<lambda>_. Inr (packet_path aid did sha))))"

definition packet_bytes_bound :: "int \<Rightarrow> bool" where
  "packet_bytes_bound n \<longleftrightarrow> 0 < n \<and> n \<le> int max_dossier_bundle_bytes"

definition journal_of :: "string \<times> packet_journal option \<Rightarrow> packet_error + packet_journal" where
  "journal_of = (\<lambda>(name, content). case content of
      None \<Rightarrow> Inl (StorageFailure ''Packet recovery metadata is invalid'')
    | Some j \<Rightarrow>
        (case packet_artifact_path (pj_application j) (pj_dossier j) (pj_sha256 j) of
           Inl _ \<Rightarrow> Inl (StorageFailure ''Packet recovery metadata is invalid'')
         | Inr expected \<Rightarrow>
             and_then (ensure (pj_path j = expected \<and> name = pj_dossier j \<and> packet_bytes_bound (pj_size j))
               (StorageFailure ''Packet recovery metadata is invalid'')) (\<lambda>_. Inr j)))"

definition max_packet_journals :: nat where
  "max_packet_journals = 1000"

definition all_packet_journals :: "packet_disk \<Rightarrow> packet_error + packet_journal list" where
  "all_packet_journals d =
     and_then (map_outcome journal_of (take max_packet_journals (pd_journals d))) (\<lambda>js.
     and_then (ensure (length (pd_journals d) \<le> max_packet_journals)
       (StorageFailure ''Too many pending packet recovery records'')) (\<lambda>_. Inr js))"

definition read_verified_packet_artifact ::
  "(string \<Rightarrow> string) \<Rightarrow> packet_disk \<Rightarrow> string \<Rightarrow> string \<Rightarrow> int \<Rightarrow> packet_error + string" where
  "read_verified_packet_artifact sha256 d path expected_sha expected_size =
     and_then (ensure (packet_bytes_bound expected_size) PacketInvalid) (\<lambda>_.
     case pd_files d path of
       None \<Rightarrow> Inl PacketMissing
     | Some bytes \<Rightarrow>
         and_then (ensure (int (length bytes) = expected_size) PacketInvalid) (\<lambda>_.
         and_then (ensure (sha256 bytes = expected_sha) PacketInvalid) (\<lambda>_. Inr bytes)))"

subsection \<open>Recovery\<close>

definition rows_at :: "packet_disk \<Rightarrow> string \<Rightarrow> packet_row list" where
  "rows_at d path = filter (\<lambda>r. pk_path r = path) (dd_packets (pd_db d))"

definition row_owns :: "packet_journal \<Rightarrow> packet_row \<Rightarrow> bool" where
  "row_owns j r \<longleftrightarrow> pk_application r = pj_application j \<and> pk_dossier r = pj_dossier j
     \<and> pk_sha256 r = pj_sha256 j \<and> pk_size r = pj_size j"

text \<open>A validated journal with whether a row has committed its path and whether its bytes exist.\<close>

definition validate_journal ::
  "recovery_env \<Rightarrow> packet_disk \<Rightarrow> packet_journal \<Rightarrow> packet_error + (packet_journal \<times> bool \<times> bool)" where
  "validate_journal R d j =
     and_then (ensure (\<not> rv_foreign R (pj_path j))
       (StorageFailure ''Packet recovery conflicts with another stored document'')) (\<lambda>_.
     and_then (ensure (list_all (row_owns j) (rows_at d (pj_path j)))
       (StorageFailure ''Packet recovery conflicts with committed ownership'')) (\<lambda>_.
     let committed = (rows_at d (pj_path j) \<noteq> []) in
     case read_verified_packet_artifact (rv_sha256 R) d (pj_path j) (pj_sha256 j) (pj_size j) of
       Inr _ \<Rightarrow> Inr (j, committed, True)
     | Inl PacketMissing \<Rightarrow>
         (if committed then Inl (StorageFailure ''Committed packet bytes are missing'') else Inr (j, committed, False))
     | Inl e \<Rightarrow> Inl e))"

definition recovery_plan :: "recovery_env \<Rightarrow> packet_disk \<Rightarrow> packet_error + (packet_journal \<times> bool \<times> bool) list" where
  "recovery_plan R d =
     and_then (all_packet_journals d) (\<lambda>js.
     and_then (ensure (sum_list (map pj_size js) \<le> rv_limit R)
       (StorageFailure ''Packet recovery bytes exceed the configured safety limit'')) (\<lambda>_.
       map_outcome (validate_journal R d) js))"

definition unlink_packet :: "string \<Rightarrow> packet_disk \<Rightarrow> packet_disk" where
  "unlink_packet path d = d\<lparr>pd_files := (pd_files d)(path := None)\<rparr>"

definition unlink_journal :: "string \<Rightarrow> packet_disk \<Rightarrow> packet_disk" where
  "unlink_journal did d = d\<lparr>pd_journals := filter (\<lambda>e. fst e \<noteq> did) (pd_journals d)\<rparr>"

definition remove_packet_journal :: "string \<Rightarrow> unit pio" where
  "remove_packet_journal did = durable (StorageFailure ''unlink'') (unlink_journal did)"

definition clean_journal :: "packet_journal \<times> bool \<times> bool \<Rightarrow> unit pio" where
  "clean_journal = (\<lambda>(j, committed, exists).
     io_then (if \<not> committed \<and> exists then durable (StorageFailure ''unlink'') (unlink_packet (pj_path j)) else io_return ())
       (remove_packet_journal (pj_dossier j)))"

definition reconcile_packet_journals :: "recovery_env \<Rightarrow> unit pio" where
  "reconcile_packet_journals R =
     io_bind (io_read (recovery_plan R)) (\<lambda>plan. case plan of
       Inl e \<Rightarrow> io_fail e
     | Inr validated \<Rightarrow> io_each clean_journal validated)"

subsection \<open>Storing a packet\<close>

text \<open>
  A file is published under its name by a link, which never replaces: an equal
  file is accepted and another one refused.
\<close>

definition atomic_write_packet :: "string \<Rightarrow> string \<Rightarrow> unit pio" where
  "atomic_write_packet path data =
     io_bind (io_read (\<lambda>d. pd_files d path)) (\<lambda>existing. case existing of
       Some x \<Rightarrow> if x = data then io_return () else io_fail PacketInvalid
     | None \<Rightarrow> durable (StorageFailure ''write'') (\<lambda>d. d\<lparr>pd_files := (pd_files d)(path \<mapsto> data)\<rparr>))"

definition write_packet_journal :: "packet_journal \<Rightarrow> unit pio" where
  "write_packet_journal j =
     (if packet_artifact_path (pj_application j) (pj_dossier j) (pj_sha256 j) \<noteq> Inr (pj_path j)
         \<or> \<not> packet_bytes_bound (pj_size j) then io_fail PacketInvalid
      else io_bind (io_read (\<lambda>d. map_of (pd_journals d) (pj_dossier j))) (\<lambda>existing. case existing of
          Some x \<Rightarrow> if x = Some j then io_return () else io_fail PacketInvalid
        | None \<Rightarrow> durable (StorageFailure ''write'')
            (\<lambda>d. d\<lparr>pd_journals := pd_journals d @ [(pj_dossier j, Some j)]\<rparr>)))"

definition store_packet_artifact :: "recovery_env \<Rightarrow> string \<Rightarrow> string \<Rightarrow> string \<Rightarrow> unit pio" where
  "store_packet_artifact R aid did bytes =
     (if \<not> packet_size_ok bytes then io_fail PacketInvalid
      else case packet_artifact_path aid did (rv_sha256 R bytes) of
          Inl e \<Rightarrow> io_fail e
        | Inr path \<Rightarrow>
            io_then (write_packet_journal \<lparr>pj_application = aid, pj_dossier = did, pj_path = path,
                pj_sha256 = rv_sha256 R bytes, pj_size = int (length bytes)\<rparr>)
              (atomic_write_packet path bytes))"

subsection \<open>Publication\<close>

definition commit_db :: "dossier_db \<Rightarrow> packet_disk \<Rightarrow> packet_disk" where
  "commit_db D' d = d\<lparr>pd_db := D'\<rparr>"

definition packet_committed :: "string \<Rightarrow> string \<Rightarrow> packet_disk \<Rightarrow> packet_row option" where
  "packet_committed aid did d =
     select_first (\<lambda>r. pk_application r = aid \<and> pk_dossier r = did) (dd_packets (pd_db d))"

text \<open>The timeline event of the publication, which the same transaction inserts.\<close>

definition event_committed :: "event_row \<Rightarrow> packet_disk \<Rightarrow> bool" where
  "event_committed ev d \<longleftrightarrow> list_ex (\<lambda>e. e = ev) (db_events (dd_app (pd_db d)))"

text \<open>
  A commit whose outcome is unknown is looked up in a new transaction: a recorded
  packet whose bytes verify is a publication.
\<close>

definition verify_commit :: "recovery_env \<Rightarrow> string \<Rightarrow> string \<Rightarrow> event_row \<Rightarrow> packet_error \<Rightarrow> unit pio" where
  "verify_commit R aid did ev e =
     io_then (durable DatabaseFailure (\<lambda>d. d))
     (io_bind (io_read (\<lambda>d. (packet_committed aid did d, event_committed ev d, d))) (\<lambda>(row, published, d). case row of
         None \<Rightarrow> io_fail e
       | Some r \<Rightarrow>
           if \<not> published then io_fail e
           else case read_verified_packet_artifact (rv_sha256 R) d (pk_path r) (pk_sha256 r) (pk_size r) of
               Inl err \<Rightarrow> io_fail err | Inr _ \<Rightarrow> io_return ()))"

definition publish_locked ::
  "recovery_env \<Rightarrow> packet_env \<Rightarrow> instant \<Rightarrow> string \<Rightarrow> int \<Rightarrow> string \<Rightarrow> dossier_create \<Rightarrow> unit pio" where
  "publish_locked R E now did uid aid q =
     io_bind (io_read pd_db) (\<lambda>D. case prepare_packet E D uid aid q of
       Inl e \<Rightarrow> io_fail (Refused e)
     | Inr (v, bundle, payload) \<Rightarrow>
         io_then (store_packet_artifact R aid did bundle)
         (case commit_packet now D uid aid q v payload (packet_of (rv_sha256 R) now aid did bundle) of
            Inl e \<Rightarrow> io_fail (Refused e)
          | Inr D' \<Rightarrow>
              io_then (io_catch (durable DatabaseFailure (commit_db D'))
                  (verify_commit R aid did (dossier_event aid now payload)))
                (io_catch (remove_packet_journal did) (\<lambda>_. io_return ()))))"

definition publish_packet ::
  "recovery_env \<Rightarrow> packet_env \<Rightarrow> instant \<Rightarrow> string \<Rightarrow> int \<Rightarrow> string \<Rightarrow> dossier_create \<Rightarrow> unit pio" where
  "publish_packet R E now did uid aid q =
     io_catch (io_then (reconcile_packet_journals R) (publish_locked R E now did uid aid q))
       (\<lambda>e. io_then (durable DatabaseFailure (\<lambda>d. d)) (io_then (reconcile_packet_journals R) (io_fail e)))"

end
