(* ===== verification/PacketClaims.thy ===== *)
theory PacketClaims
  imports PacketStore DossierClaims
begin

text \<open>
  Crash safety of a publication and of its recovery: at every moment, also in the middle of a step
  that dies, each committed packet has its verified bytes and every other stored packet has the
  journal that lets recovery remove it. A publication either happened or did not, and recovery on
  healthy storage leaves the bytes of the committed packets and nothing else.
\<close>

subsection \<open>The invariant\<close>

definition row_stored :: "recovery_env \<Rightarrow> packet_disk \<Rightarrow> packet_row \<Rightarrow> bool" where
  "row_stored R d r \<longleftrightarrow> packet_artifact_path (pk_application r) (pk_dossier r) (pk_sha256 r) = Inr (pk_path r)
     \<and> packet_bytes_bound (pk_size r)
     \<and> (case pd_files d (pk_path r) of None \<Rightarrow> False
        | Some b \<Rightarrow> int (length b) = pk_size r \<and> rv_sha256 R b = pk_sha256 r)"

definition journal_sound :: "recovery_env \<Rightarrow> packet_disk \<Rightarrow> packet_journal \<Rightarrow> bool" where
  "journal_sound R d j \<longleftrightarrow> packet_artifact_path (pj_application j) (pj_dossier j) (pj_sha256 j) = Inr (pj_path j)
     \<and> packet_bytes_bound (pj_size j) \<and> \<not> rv_foreign R (pj_path j)
     \<and> list_all (row_owns j) (rows_at d (pj_path j))
     \<and> (case pd_files d (pj_path j) of None \<Rightarrow> True
        | Some b \<Rightarrow> int (length b) = pj_size j \<and> rv_sha256 R b = pj_sha256 j)"

text \<open>The configured limit of pending bytes admits one packet.\<close>

definition limit_ok :: "recovery_env \<Rightarrow> bool" where
  "limit_ok R \<longleftrightarrow> int max_dossier_bundle_bytes \<le> rv_limit R"

definition journal_paths :: "packet_disk \<Rightarrow> string set" where
  "journal_paths d = pj_path ` set (List.map_filter snd (pd_journals d))"

lemma journal_paths_simps [simp]:
  "pd_journals d = [] \<Longrightarrow> journal_paths d = {}"
  "pd_journals d = [(n, Some j)] \<Longrightarrow> journal_paths d = {pj_path j}"
  by (simp_all add: journal_paths_def List.map_filter_simps)

text \<open>At most one publication is unfinished: the next one reconciles first.\<close>

definition packets_ok :: "recovery_env \<Rightarrow> packet_disk \<Rightarrow> bool" where
  "packets_ok R d \<longleftrightarrow> list_all (row_stored R d) (dd_packets (pd_db d))
     \<and> (pd_journals d = [] \<or> (\<exists>j. pd_journals d = [(pj_dossier j, Some j)] \<and> journal_sound R d j))
     \<and> dom (pd_files d) \<subseteq> pk_path ` set (dd_packets (pd_db d)) \<union> journal_paths d"

lemma packets_ok_cases:
  assumes "packets_ok R d"
  obtains (clean) "pd_journals d = []"
    | (pending) j where "pd_journals d = [(pj_dossier j, Some j)]" "journal_sound R d j"
  using assms unfolding packets_ok_def by blast

lemma read_stored:
  assumes "row_stored R d r"
  shows "\<exists>b. pd_files d (pk_path r) = Some b
    \<and> read_verified_packet_artifact (rv_sha256 R) d (pk_path r) (pk_sha256 r) (pk_size r) = Inr b"
  using assms by (auto simp: row_stored_def read_verified_packet_artifact_def ensure_def split: option.splits)

lemma rows_at_member: "rows_at d p \<noteq> [] \<longleftrightarrow> p \<in> pk_path ` set (dd_packets (pd_db d))"
  by (auto simp: rows_at_def filter_empty_conv)

lemma journal_ofI: "journal_sound R d j \<Longrightarrow> journal_of (pj_dossier j, Some j) = Inr j"
  by (simp add: journal_of_def journal_sound_def ensure_def)

lemma validate_sound:
  assumes s: "journal_sound R d j" and ok: "packets_ok R d"
  shows "validate_journal R d j = Inr (j, rows_at d (pj_path j) \<noteq> [], pd_files d (pj_path j) \<noteq> None)"
proof (cases "pd_files d (pj_path j)")
  case None
  have "rows_at d (pj_path j) = []"
  proof (rule ccontr)
    assume "rows_at d (pj_path j) \<noteq> []"
    then obtain r where "r \<in> set (dd_packets (pd_db d))" "pk_path r = pj_path j" by (auto simp: rows_at_member)
    with ok None show False by (auto simp: packets_ok_def list_all_iff row_stored_def split: option.splits)
  qed
  with s None show ?thesis
    by (simp add: validate_journal_def journal_sound_def read_verified_packet_artifact_def ensure_def Let_def)
next
  case (Some b)
  with s show ?thesis
    by (simp add: validate_journal_def journal_sound_def read_verified_packet_artifact_def ensure_def Let_def)
qed

lemma recovery_plan_ok:
  assumes lim: "limit_ok R" and ok: "packets_ok R d"
  shows "recovery_plan R d = Inr (case pd_journals d of
    [(_, Some j)] \<Rightarrow> [(j, rows_at d (pj_path j) \<noteq> [], pd_files d (pj_path j) \<noteq> None)] | _ \<Rightarrow> [])"
  using ok
proof (cases rule: packets_ok_cases)
  case clean
  with lim show ?thesis
    by (simp add: recovery_plan_def all_packet_journals_def max_packet_journals_def ensure_def limit_ok_def
        max_dossier_bundle_bytes_def)
next
  case (pending j)
  from pending(2) lim have "pj_size j \<le> rv_limit R"
    by (simp add: journal_sound_def packet_bytes_bound_def limit_ok_def)
  with pending journal_ofI [OF pending(2)] validate_sound [OF pending(2) ok] show ?thesis
    by (simp add: recovery_plan_def all_packet_journals_def max_packet_journals_def ensure_def)
qed

subsection \<open>Recovery\<close>

text \<open>What recovery keeps: the database, and the bytes of every committed packet.\<close>

definition recovering :: "recovery_env \<Rightarrow> dossier_db \<Rightarrow> (string \<Rightarrow> string option) \<Rightarrow> packet_disk \<Rightarrow> bool" where
  "recovering R D F d \<longleftrightarrow> packets_ok R d \<and> pd_db d = D \<and> (\<forall>r \<in> set (dd_packets D). pd_files d (pk_path r) = F (pk_path r))"

lemma unlink_orphan:
  assumes "recovering R D F d" "pd_journals d = [(pj_dossier j, Some j)]" "rows_at d (pj_path j) = []"
  shows "recovering R D F (unlink_packet (pj_path j) d)"
proof -
  have other: "pk_path r \<noteq> pj_path j" if "r \<in> set (dd_packets D)" for r
    using assms(1,3) that by (auto simp: recovering_def rows_at_def filter_empty_conv)
  with assms show ?thesis
    by (auto simp: recovering_def packets_ok_def unlink_packet_def row_stored_def journal_sound_def list_all_iff
        rows_at_def)
qed

lemma unlink_spent_journal:
  assumes "recovering R D F d" "pd_journals d = [(pj_dossier j, Some j)]"
    and "rows_at d (pj_path j) \<noteq> [] \<or> pd_files d (pj_path j) = None"
  shows "recovering R D F (unlink_journal (pj_dossier j) d)" "pd_journals (unlink_journal (pj_dossier j) d) = []"
proof -
  show "pd_journals (unlink_journal (pj_dossier j) d) = []"
    using assms(2) by (simp add: unlink_journal_def)
  then show "recovering R D F (unlink_journal (pj_dossier j) d)"
    using assms
    by (auto simp: recovering_def packets_ok_def unlink_journal_def row_stored_def list_all_iff rows_at_member)
qed

lemma clean_journal_safe:
  "safe h (\<lambda>d. recovering R D F d \<and> pd_journals d = [(pj_dossier j, Some j)]
       \<and> was_committed = (rows_at d (pj_path j) \<noteq> []) \<and> present = (pd_files d (pj_path j) \<noteq> None))
     (clean_journal (j, was_committed, present)) (\<lambda>_ d. recovering R D F d \<and> pd_journals d = []) (recovering R D F)"
proof -
  let ?M = "\<lambda>d. recovering R D F d \<and> pd_journals d = [(pj_dossier j, Some j)]
      \<and> (rows_at d (pj_path j) \<noteq> [] \<or> pd_files d (pj_path j) = None)"
  let ?P = "\<lambda>d. recovering R D F d \<and> pd_journals d = [(pj_dossier j, Some j)]
       \<and> was_committed = (rows_at d (pj_path j) \<noteq> []) \<and> present = (pd_files d (pj_path j) \<noteq> None)"
  have unlink: "safe h ?P (durable (StorageFailure ''unlink'') (unlink_packet (pj_path j))) (\<lambda>_. ?M) (recovering R D F)"
    if "\<not> was_committed" "present"
    by (rule safe_step) (use that unlink_orphan in \<open>auto simp: unlink_packet_def\<close>)
  have "safe h ?P (if \<not> was_committed \<and> present then durable (StorageFailure ''unlink'') (unlink_packet (pj_path j)) else io_return ())
      (\<lambda>_. ?M) (recovering R D F)"
    using unlink by (auto intro: safe_return)
  moreover have "safe h ?M (remove_packet_journal (pj_dossier j))
      (\<lambda>_ d. recovering R D F d \<and> pd_journals d = []) (recovering R D F)"
    unfolding remove_packet_journal_def
    by (rule safe_step) (use unlink_spent_journal in auto)
  ultimately show ?thesis by (simp add: clean_journal_def safe_then)
qed

lemma reconcile_safe:
  assumes lim: "limit_ok R"
  shows "safe h (recovering R D F) (reconcile_packet_journals R) (\<lambda>_ d. recovering R D F d \<and> pd_journals d = []) (recovering R D F)"
  unfolding reconcile_packet_journals_def
proof (rule safe_read_bind)
  fix plan
  let ?P = "\<lambda>d. recovering R D F d \<and> recovery_plan R d = plan"
  show "safe h ?P (case plan of Inl e \<Rightarrow> io_fail e | Inr validated \<Rightarrow> io_each clean_journal validated)
    (\<lambda>_ d. recovering R D F d \<and> pd_journals d = []) (recovering R D F)"
  proof (cases plan)
    case (Inl e)
    have "\<not> ?P d" for d using Inl recovery_plan_ok [OF lim] by (auto simp: recovering_def)
    then show ?thesis by (rule safe_empty)
  next
    case (Inr validated)
    show ?thesis
    proof (cases validated)
      case Nil
      have "pd_journals d = []" if "?P d" for d
        using that Inr Nil recovery_plan_ok [OF lim, of d]
        by (auto simp: recovering_def elim!: packets_ok_cases)
      with Inr Nil show ?thesis by (auto intro: safe_return)
    next
      case (Cons v vs)
      obtain j c x where v: "v = (j, c, x)" by (cases v)
      have facts: "vs = [] \<and> recovering R D F d \<and> pd_journals d = [(pj_dossier j, Some j)]
          \<and> c = (rows_at d (pj_path j) \<noteq> []) \<and> x = (pd_files d (pj_path j) \<noteq> None)" if "?P d" for d
        using that Inr Cons v recovery_plan_ok [OF lim, of d]
        by (auto simp: recovering_def elim!: packets_ok_cases)
      show ?thesis
      proof (cases "vs = []")
        case True
        have "safe h ?P (io_then (clean_journal (j, c, x)) (io_return ()))
          (\<lambda>_ d. recovering R D F d \<and> pd_journals d = []) (recovering R D F)"
          by (rule safe_then [OF safe_pre [OF clean_journal_safe [of h R D F j c x]]]) (use facts in \<open>auto intro: safe_return\<close>)
        with Inr Cons v True show ?thesis by simp
      next
        case False
        with facts have "\<not> ?P d" for d by blast
        then show ?thesis by (rule safe_empty)
      qed
    qed
  qed
qed


text \<open>After recovery only the bytes of committed packets are left.\<close>

lemma recovered_files:
  assumes "recovering R D (pd_files d0) d" "pd_journals d = []"
  shows "pd_files d = (\<lambda>p. if p \<in> pk_path ` set (dd_packets D) then pd_files d0 p else None)"
proof
  fix p
  show "pd_files d p = (if p \<in> pk_path ` set (dd_packets D) then pd_files d0 p else None)"
  proof (cases "p \<in> pk_path ` set (dd_packets D)")
    case True
    with assms(1) show ?thesis by (auto simp: recovering_def)
  next
    case False
    with assms have "pd_files d p = None" by (auto simp: recovering_def packets_ok_def)
    with False show ?thesis by simp
  qed
qed

lemma recovering_self: "packets_ok R d \<Longrightarrow> recovering R (pd_db d) (pd_files d) d"
  by (simp add: recovering_def)

subsection \<open>Storing the packet\<close>

lemma packet_path_Inr: "packet_artifact_path aid did sha = Inr p \<longleftrightarrow>
    p = packet_path aid did sha \<and> sha256_shape sha \<and> canonical_uuid aid \<and> canonical_uuid did"
  by (auto simp: packet_artifact_path_def and_then_Inr)

lemma packet_path_dossier:
  assumes "packet_artifact_path aid did sha = Inr p" "packet_artifact_path aid' did' sha' = Inr p"
  shows "did' = did"
proof -
  from assms have "packet_path aid did sha = packet_path aid' did' sha'"
    "length aid = length aid'" "length did = length did'"
    by (auto simp: packet_path_Inr canonical_uuid_def)
  then show ?thesis by (simp add: packet_path_def)
qed

definition fresh_packet :: "recovery_env \<Rightarrow> string \<Rightarrow> string \<Rightarrow> dossier_db \<Rightarrow> bool" where
  "fresh_packet R aid did D \<longleftrightarrow> list_all (\<lambda>r. pk_dossier r \<noteq> did) (dd_packets D)
     \<and> (\<forall>sha. \<not> rv_foreign R (packet_path aid did sha))"

definition stored :: "recovery_env \<Rightarrow> dossier_db \<Rightarrow> packet_journal \<Rightarrow> string \<Rightarrow> packet_disk \<Rightarrow> bool" where
  "stored R D j bytes d \<longleftrightarrow> packets_ok R d \<and> pd_db d = D \<and> pd_journals d = [(pj_dossier j, Some j)]
     \<and> pd_files d (pj_path j) = Some bytes"

definition journal_for :: "(string \<Rightarrow> string) \<Rightarrow> string \<Rightarrow> string \<Rightarrow> string \<Rightarrow> packet_journal" where
  "journal_for sha256 aid did bytes = \<lparr>pj_application = aid, pj_dossier = did,
     pj_path = packet_path aid did (sha256 bytes), pj_sha256 = sha256 bytes, pj_size = int (length bytes)\<rparr>"

lemma fresh_path:
  assumes ok: "packets_ok R d" and fresh: "fresh_packet R aid did (pd_db d)"
    and p: "packet_artifact_path aid did sha = Inr p"
  shows "p \<notin> pk_path ` set (dd_packets (pd_db d))"
proof
  assume "p \<in> pk_path ` set (dd_packets (pd_db d))"
  then obtain r where r: "r \<in> set (dd_packets (pd_db d))" "pk_path r = p" by auto
  with ok have "packet_artifact_path (pk_application r) (pk_dossier r) (pk_sha256 r) = Inr p"
    by (auto simp: packets_ok_def list_all_iff row_stored_def)
  from packet_path_dossier [OF p this] fresh r show False by (auto simp: fresh_packet_def list_all_iff)
qed

lemma safe_absent:
  assumes "\<And>d. P d \<Longrightarrow> g d = None" and "safe h P m Q I"
  shows "safe h P (io_bind (io_read g) (\<lambda>x. case x of Some y \<Rightarrow> k y | None \<Rightarrow> m)) Q I"
proof (rule safe_read_bind)
  fix x
  show "safe h (\<lambda>d. P d \<and> g d = x) (case x of Some y \<Rightarrow> k y | None \<Rightarrow> m) Q I"
    by (cases x) (use assms in \<open>auto intro: safe_empty safe_pre\<close>)
qed

lemma store_safe:
  assumes fresh: "fresh_packet R aid did D"
  shows "safe False (\<lambda>d. packets_ok R d \<and> pd_db d = D \<and> pd_journals d = [])
    (store_packet_artifact R aid did bytes)
    (\<lambda>_. \<lambda>d. packet_size_ok bytes \<and> packet_artifact_path aid did (rv_sha256 R bytes)
        = Inr (packet_path aid did (rv_sha256 R bytes)) \<and> stored R D (journal_for (rv_sha256 R) aid did bytes) bytes d)
    (\<lambda>d. packets_ok R d \<and> pd_db d = D)"
proof (cases "packet_size_ok bytes \<and> (\<exists>p. packet_artifact_path aid did (rv_sha256 R bytes) = Inr p)")
  case False
  then show ?thesis
    by (auto simp: store_packet_artifact_def split: sum.split intro: safe_fail)
next
  case True
  let ?j = "journal_for (rv_sha256 R) aid did bytes"
  from True obtain p where p: "packet_artifact_path aid did (rv_sha256 R bytes) = Inr p"
    and path: "p = packet_path aid did (rv_sha256 R bytes)" by (auto simp: packet_path_Inr)
  have jp: "pj_path ?j = p" "pj_dossier ?j = did" "pj_application ?j = aid" "pj_sha256 ?j = rv_sha256 R bytes"
    "pj_size ?j = int (length bytes)" by (simp_all add: journal_for_def path)
  have size: "packet_bytes_bound (int (length bytes))"
    using True by (simp add: packet_size_ok_def packet_bytes_bound_def)
  let ?I = "\<lambda>d. packets_ok R d \<and> pd_db d = D"
  let ?J = "\<lambda>d. packets_ok R d \<and> pd_db d = D \<and> pd_journals d = [(did, Some ?j)] \<and> pd_files d p = None"
  have absent: "p \<notin> pk_path ` set (dd_packets D)" if "?I d" for d
    using fresh_path [of R d aid did "rv_sha256 R bytes" p] that fresh p by auto
  have clear: "pd_files d p = None" if "?I d" "pd_journals d = []" for d
    using that absent [OF that(1)] by (auto simp: packets_ok_def)
  have none: "rows_at d p = []" if "?I d" for d
    using absent [OF that] rows_at_member [of d p] that by auto
  have "safe False (\<lambda>d. ?I d \<and> pd_journals d = []) (write_packet_journal ?j) (\<lambda>_. ?J) ?I"
  proof -
    have new: "?J (d\<lparr>pd_journals := [(did, Some ?j)]\<rparr>)"
      if d: "?I d" "pd_journals d = []" for d
      using d clear [OF d] none [OF d(1)] fresh p path size jp
      by (auto simp: packets_ok_def journal_sound_def fresh_packet_def row_stored_def list_all_iff rows_at_def)
    have "safe False (\<lambda>d. ?I d \<and> pd_journals d = [])
        (durable (StorageFailure ''write'') (\<lambda>d. d\<lparr>pd_journals := pd_journals d @ [(did, Some ?j)]\<rparr>)) (\<lambda>_. ?J) ?I"
    proof (rule safe_step)
      fix d
      assume d: "?I d \<and> pd_journals d = []"
      then show "?I d" by blast
      from d have eq: "pd_journals d @ [(did, Some ?j)] = [(did, Some ?j)]" by simp
      from d show "?J (d\<lparr>pd_journals := pd_journals d @ [(did, Some ?j)]\<rparr>)"
        unfolding eq by (intro new) auto
      from d show "?I (d\<lparr>pd_journals := pd_journals d @ [(did, Some ?j)]\<rparr>)"
        unfolding eq using new [of d] by blast
    qed
    then show ?thesis
      unfolding write_packet_journal_def jp
      using p size by (auto intro!: safe_absent)
  qed
  moreover have "safe False ?J (atomic_write_packet p bytes) (\<lambda>_. stored R D ?j bytes) ?I"
  proof -
    have new: "stored R D ?j bytes (d\<lparr>pd_files := (pd_files d)(p \<mapsto> bytes)\<rparr>)" if d: "?J d" for d
    proof -
      from d have I: "?I d" by simp
      show ?thesis
        using d absent [OF I] jp
        by (auto simp: stored_def packets_ok_def journal_sound_def row_stored_def list_all_iff rows_at_def)
    qed
    show ?thesis
      unfolding atomic_write_packet_def
      by (rule safe_absent, simp, rule safe_step) (use new in \<open>auto simp: stored_def\<close>)
  qed
  ultimately have "safe False (\<lambda>d. ?I d \<and> pd_journals d = [])
      (io_then (write_packet_journal ?j) (atomic_write_packet p bytes)) (\<lambda>_. stored R D ?j bytes) ?I"
    by (rule safe_then)
  then show ?thesis
    using True p path by (simp add: store_packet_artifact_def journal_for_def)
qed


subsection \<open>Publication\<close>

text \<open>The database after an attempt: the one before it, or the one that a publication makes of it.\<close>

definition settled :: "recovery_env \<Rightarrow> packet_env \<Rightarrow> instant \<Rightarrow> string \<Rightarrow> int \<Rightarrow> string \<Rightarrow> dossier_create \<Rightarrow> dossier_db
    \<Rightarrow> packet_disk \<Rightarrow> bool" where
  "settled R E now did uid aid q D d \<longleftrightarrow> packets_ok R d
     \<and> (pd_db d = D \<or> publish_dossier E now did D uid aid q = Inr (pd_db d))"

definition recorded :: "recovery_env \<Rightarrow> dossier_db \<Rightarrow> packet_disk \<Rightarrow> bool" where
  "recorded R D' d \<longleftrightarrow> packets_ok R d \<and> pd_db d = D'"

lemma commit_packet_facts:
  assumes "commit_packet now D uid aid q v payload packet = Inr D'"
  shows "dd_packets D' = dd_packets D @ [packet]"
  using assms by (auto simp: commit_packet_def and_then_Inr)

lemma commit_stored:
  assumes s: "stored R D (journal_for (rv_sha256 R) aid did bytes) bytes d"
    and D': "commit_packet now D uid aid q v payload (packet_of (rv_sha256 R) now aid did bytes) = Inr D'"
  shows "recorded R D' (commit_db D' d)"
    "pd_journals (commit_db D' d) = pd_journals d"
proof -
  let ?j = "journal_for (rv_sha256 R) aid did bytes"
  have j: "journal_sound R d ?j" using s by (auto simp: stored_def packets_ok_def)
  have new: "row_stored R d (packet_of (rv_sha256 R) now aid did bytes)" "row_owns ?j (packet_of (rv_sha256 R) now aid did bytes)"
    using s j by (auto simp: stored_def row_stored_def journal_sound_def packet_of_def journal_for_def row_owns_def)
  have "row_stored R (commit_db D' d) r = row_stored R d r" for r by (simp add: row_stored_def commit_db_def)
  with s j new commit_packet_facts [OF D'] show "recorded R D' (commit_db D' d)"
    by (auto simp: recorded_def packets_ok_def stored_def commit_db_def journal_sound_def rows_at_def list_all_iff)
qed (simp add: commit_db_def)

lemma drop_recorded_journal:
  assumes ok: "recorded R D' d" and r: "r \<in> set (dd_packets D')"
    and j: "pd_journals d = [(pj_dossier j, Some j)]" "pk_path r = pj_path j"
  shows "recorded R D' (unlink_journal (pj_dossier j) d)"
proof -
  have "pj_path j \<in> pk_path ` set (dd_packets D')" using r j(2) by (metis image_eqI)
  with ok j show ?thesis
    by (auto simp: recorded_def packets_ok_def unlink_journal_def row_stored_def list_all_iff insert_absorb)
qed

lemma publish_locked_safe:
  assumes sha: "rv_sha256 R = se_sha256 (pe_storage E)" and fresh: "fresh_packet R aid did D"
  shows "safe False (\<lambda>d. packets_ok R d \<and> pd_db d = D \<and> pd_journals d = []) (publish_locked R E now did uid aid q)
    (\<lambda>_ d. packets_ok R d \<and> publish_dossier E now did D uid aid q = Inr (pd_db d)) (settled R E now did uid aid q D)"
  unfolding publish_locked_def
proof (rule safe_read_bind)
  fix x
  let ?Q = "\<lambda>_ d. packets_ok R d \<and> publish_dossier E now did D uid aid q = Inr (pd_db d)"
  let ?I = "settled R E now did uid aid q D"
  let ?P = "\<lambda>d. (packets_ok R d \<and> pd_db d = D \<and> pd_journals d = []) \<and> pd_db d = x"
  have keep: "?I d" if "packets_ok R d" "pd_db d = D" for d using that by (simp add: settled_def)
  show "safe False ?P (case prepare_packet E x uid aid q of Inl e \<Rightarrow> io_fail (Refused e)
     | Inr (v, bundle, payload) \<Rightarrow>
         io_then (store_packet_artifact R aid did bundle)
         (case commit_packet now x uid aid q v payload (packet_of (rv_sha256 R) now aid did bundle) of
            Inl e \<Rightarrow> io_fail (Refused e)
          | Inr D' \<Rightarrow>
              io_then (io_catch (durable DatabaseFailure (commit_db D'))
                  (verify_commit R aid did (dossier_event aid now payload)))
                (io_catch (remove_packet_journal did) (\<lambda>_. io_return ())))) ?Q ?I"
  proof (cases "x = D")
    case False
    then have "\<not> ?P d" for d by auto
    then show ?thesis by (rule safe_empty)
  next
    case x: True
    show ?thesis
    proof (cases "prepare_packet E D uid aid q")
      case (Inl e)
      with x show ?thesis by (auto intro!: safe_fail simp: settled_def)
    next
      case (Inr m)
      obtain v bytes payload where m: "m = (v, bytes, payload)" by (cases m)
      let ?j = "journal_for (rv_sha256 R) aid did bytes" and ?row = "packet_of (rv_sha256 R) now aid did bytes"
      let ?S = "\<lambda>d. packet_size_ok bytes \<and> packet_artifact_path aid did (rv_sha256 R bytes)
        = Inr (packet_path aid did (rv_sha256 R bytes)) \<and> stored R D ?j bytes d"
      have store: "safe False ?P (store_packet_artifact R aid did bytes) (\<lambda>_. ?S) ?I"
        by (rule safe_weaken [OF store_safe [OF fresh]]) (auto simp: settled_def)
      have rest: "safe False ?S (case commit_packet now D uid aid q v payload ?row of Inl e \<Rightarrow> io_fail (Refused e)
          | Inr D' \<Rightarrow> io_then (io_catch (durable DatabaseFailure (commit_db D'))
                  (verify_commit R aid did (dossier_event aid now payload)))
                (io_catch (remove_packet_journal did) (\<lambda>_. io_return ()))) ?Q ?I"
      proof (cases "commit_packet now D uid aid q v payload ?row")
        case (Inl e)
        then show ?thesis by (auto intro!: safe_fail simp: stored_def settled_def)
      next
        case D': (Inr D')
        let ?C = "\<lambda>d. recorded R D' d \<and> pd_journals d = [(pj_dossier ?j, Some ?j)] \<and> packet_size_ok bytes"
        let ?M = "\<lambda>d. ?S d \<or> ?C d"
        have row: "?row \<in> set (dd_packets D')" "pk_path ?row = pj_path ?j" "pj_dossier ?j = did"
          using commit_packet_facts [OF D'] by (simp_all add: packet_of_def journal_for_def)
        have pub: "publish_dossier E now did D uid aid q = Inr D'" if "packet_size_ok bytes"
          using that Inr m D' by (simp add: publish_dossier_def sha ensure_def)
        have M_I: "?I d" if "?M d" for d
          using that pub by (auto simp: settled_def stored_def recorded_def)
        have C: "?C (commit_db D' d)" if "?S d" for d
          using that commit_stored [OF _ D'] by (auto simp: stored_def)
        have unrecorded: "packet_committed aid did d = None" if "stored R D ?j bytes d" for d
          using that fresh by (auto simp: stored_def packet_committed_def select_first_None fresh_packet_def list_all_iff)
        have verify: "safe False ?M (verify_commit R aid did ev e) (\<lambda>_. ?C) ?I" for ev e
          unfolding verify_commit_def
        proof (rule safe_then [OF safe_step [where Q = ?M]])
          show "safe False ?M (io_bind (io_read (\<lambda>d. (packet_committed aid did d, event_committed ev d, d)))
            (\<lambda>(row, published, d). case row of None \<Rightarrow> io_fail e
              | Some r \<Rightarrow> if \<not> published then io_fail e
                  else (case read_verified_packet_artifact (rv_sha256 R) d (pk_path r) (pk_sha256 r) (pk_size r) of
                    Inl err \<Rightarrow> io_fail err | Inr _ \<Rightarrow> io_return ()))) (\<lambda>_. ?C) ?I"
          proof (rule safe_read_bind)
            fix y
            show "safe False (\<lambda>d. ?M d \<and> (packet_committed aid did d, event_committed ev d, d) = y)
              (case y of (row, published, d) \<Rightarrow> (case row of None \<Rightarrow> io_fail e
              | Some r \<Rightarrow> if \<not> published then io_fail e
                  else (case read_verified_packet_artifact (rv_sha256 R) d (pk_path r) (pk_sha256 r) (pk_size r) of
                    Inl err \<Rightarrow> io_fail err | Inr _ \<Rightarrow> io_return ()))) (\<lambda>_. ?C) ?I"
              by (cases y) (auto split: option.split sum.split intro!: safe_fail safe_return M_I dest: unrecorded)
          qed
        qed (auto intro: M_I)
        have commit: "safe False ?S (io_catch (durable DatabaseFailure (commit_db D')) (verify_commit R aid did ev)) (\<lambda>_. ?C) ?I" for ev
          by (rule safe_catch [where M = ?M], rule safe_step) (use C verify M_I in auto)
        let ?Done = "\<lambda>d. recorded R D' d \<and> packet_size_ok bytes"
        have drop: "recorded R D' (unlink_journal did d)" if "?C d" for d
          using that row drop_recorded_journal [of R D' d ?row ?j] by simp
        have "safe False ?C (io_catch (remove_packet_journal did) (\<lambda>_. io_return ())) (\<lambda>_. ?Done) ?Done"
          unfolding remove_packet_journal_def
          by (rule safe_catch [where M = ?Done], rule safe_step)
            (use drop in \<open>auto intro!: safe_return\<close>)
        then have last: "safe False ?C (io_catch (remove_packet_journal did) (\<lambda>_. io_return ())) ?Q ?I"
          by (rule safe_weaken) (use pub in \<open>auto simp: recorded_def settled_def\<close>)
        show ?thesis using safe_then [OF commit last] D' by simp
      qed
      show ?thesis using safe_then [OF store rest] Inr m x by simp
    qed
  qed
qed

lemma reconcile_keeps:
  assumes lim: "limit_ok R"
  shows "safe False (\<lambda>d. packets_ok R d \<and> K (pd_db d)) (reconcile_packet_journals R)
    (\<lambda>_ d. (packets_ok R d \<and> K (pd_db d)) \<and> pd_journals d = []) (\<lambda>d. packets_ok R d \<and> K (pd_db d))"
  unfolding safe_def
proof (rule tripleI)
  fix s :: "packet_disk world"
  let ?I = "\<lambda>d. packets_ok R d \<and> K (pd_db d)"
  assume s: "?I (fst s) \<and> (False \<longrightarrow> snd s = [])"
  note facts = reconcile_safe [OF lim, of False "pd_db (fst s)" "pd_files (fst s)", unfolded safe_def, THEN tripleD, of s]
  show "case reconcile_packet_journals R s of
      (Done x, t) \<Rightarrow> (?I (fst t) \<and> pd_journals (fst t) = []) \<and> (False \<longrightarrow> snd t = [])
    | (Failed e, t) \<Rightarrow> \<not> False \<and> ?I (fst t) | (Died, t) \<Rightarrow> \<not> False \<and> ?I (fst t)"
    using s facts recovering_self [of R "fst s"]
    by (auto simp: recovering_def split: prod.splits io_result.splits)
qed

lemma publish_packet_safe:
  assumes sha: "rv_sha256 R = se_sha256 (pe_storage E)" and fresh: "fresh_packet R aid did D" and lim: "limit_ok R"
  shows "safe False (\<lambda>d. packets_ok R d \<and> pd_db d = D) (publish_packet R E now did uid aid q)
    (\<lambda>_ d. packets_ok R d \<and> publish_dossier E now did D uid aid q = Inr (pd_db d)) (settled R E now did uid aid q D)"
  unfolding publish_packet_def
proof (rule safe_catch [where M = "settled R E now did uid aid q D"])
  let ?I = "settled R E now did uid aid q D"
  show "safe False (\<lambda>d. packets_ok R d \<and> pd_db d = D)
    (io_then (reconcile_packet_journals R) (publish_locked R E now did uid aid q))
    (\<lambda>_ d. packets_ok R d \<and> publish_dossier E now did D uid aid q = Inr (pd_db d)) ?I"
  proof (rule safe_then [OF _ publish_locked_safe [OF sha fresh]])
    show "safe False (\<lambda>d. packets_ok R d \<and> pd_db d = D) (reconcile_packet_journals R)
      (\<lambda>_ d. packets_ok R d \<and> pd_db d = D \<and> pd_journals d = []) ?I"
      by (rule safe_weaken [OF reconcile_keeps [OF lim, of "\<lambda>x. x = D"]]) (auto simp: settled_def)
  qed
  let ?K = "\<lambda>x. x = D \<or> publish_dossier E now did D uid aid q = Inr x"
  have I: "?I = (\<lambda>d. packets_ok R d \<and> ?K (pd_db d))" by (simp add: settled_def fun_eq_iff)
  have rest: "safe False ?I (io_then (reconcile_packet_journals R) (io_fail e))
      (\<lambda>_ d. packets_ok R d \<and> publish_dossier E now did D uid aid q = Inr (pd_db d)) ?I" for e
    unfolding I by (rule safe_then [OF reconcile_keeps [OF lim, of ?K] safe_fail]) simp
  show "safe False ?I (io_then (durable DatabaseFailure (\<lambda>d. d)) (io_then (reconcile_packet_journals R) (io_fail e)))
      (\<lambda>_ d. packets_ok R d \<and> publish_dossier E now did D uid aid q = Inr (pd_db d)) ?I" for e
    by (rule safe_then [OF _ rest], rule safe_step) simp_all
qed simp


subsection \<open>A store with one publication under way\<close>

definition demo_recovery :: recovery_env where
  "demo_recovery = \<lparr>rv_sha256 = (\<lambda>_. replicate 64 CHR ''a''), rv_foreign = (\<lambda>p. p = ''resumes/cv.pdf''),
     rv_limit = 256 * 1024 * 1024\<rparr>"

definition demo_dossier :: string where
  "demo_dossier = ''00000000-0000-4000-8000-000000000002''"

text \<open>A publisher died after it had stored the bytes of a packet and before the commit.\<close>

definition demo_orphan :: packet_journal where
  "demo_orphan = journal_for (rv_sha256 demo_recovery) sample_id ''00000000-0000-4000-8000-000000000001'' ''OLD''"

definition demo_disk :: packet_disk where
  "demo_disk = \<lparr>pd_db = demo_saved, pd_files = [pj_path demo_orphan \<mapsto> ''OLD''],
     pd_journals = [(pj_dossier demo_orphan, Some demo_orphan)]\<rparr>"

lemma demo_limit: "limit_ok demo_recovery"
  by (simp add: limit_ok_def demo_recovery_def max_dossier_bundle_bytes_def)

lemma demo_no_packets: "dd_packets demo_saved = []"
  by (simp add: demo_saved_def demo_tables_def)

lemma demo_disk_ok: "packets_ok demo_recovery demo_disk"
proof -
  have "canonical_uuid sample_id" "canonical_uuid ''00000000-0000-4000-8000-000000000001''"
    by code_simp+
  moreover have "\<not> rv_foreign demo_recovery (pj_path demo_orphan)"
    by (simp add: demo_recovery_def demo_orphan_def journal_for_def packet_path_def)
  ultimately have "journal_sound demo_recovery demo_disk demo_orphan"
    by (simp add: journal_sound_def packet_path_Inr demo_orphan_def journal_for_def demo_recovery_def sha256_shape_def
        list_all_iff is_hex_lower_def packet_bytes_bound_def max_dossier_bundle_bytes_def rows_at_def demo_disk_def
        demo_no_packets)
  then show ?thesis
    by (simp add: packets_ok_def journal_paths_def List.map_filter_simps demo_no_packets)
      (simp add: demo_disk_def demo_no_packets List.map_filter_simps)
qed

lemma demo_fresh: "fresh_packet demo_recovery sample_id demo_dossier (pd_db demo_disk)"
  by (simp add: fresh_packet_def demo_disk_def demo_no_packets demo_recovery_def packet_path_def)

subsection \<open>Properties\<close>

text \<open>C8: A publication is crash safe: whatever fails, is lost or dies between its durable steps, every
  committed packet keeps its verified bytes and every other stored packet keeps the journal that
  reclaims it; the publication returns only after its commit, and otherwise the database is the
  one before it or the one after it, never in between.\<close>

theorem publication_crash_safe:
  assumes "packets_ok R d" and "fresh_packet R aid did (pd_db d)" and "limit_ok R"
    and "rv_sha256 R = se_sha256 (pe_storage E)"
    and "publish_packet R E now did uid aid q (d, fs) = (r, d', fs')"
  shows "packets_ok R d' \<and> (case r of
      Done _ \<Rightarrow> publish_dossier E now did (pd_db d) uid aid q = Inr (pd_db d')
    | _ \<Rightarrow> pd_db d' = pd_db d \<or> publish_dossier E now did (pd_db d) uid aid q = Inr (pd_db d'))"
  using safe_run [OF publish_packet_safe [OF assms(4,2,3)] _ assms(5)] assms(1)
  by (cases r) (auto simp: settled_def)

theorem publication_crash_safe_witness:
  "\<exists>r d' fs'. publish_packet demo_recovery demo_packets 30 demo_dossier 7 sample_id demo_request
      (demo_disk, [Works, Works, Works, Works, Lost, Works, Dies]) = (r, d', fs') \<and> packets_ok demo_recovery d'
    \<and> (case r of
      Done _ \<Rightarrow> publish_dossier demo_packets 30 demo_dossier (pd_db demo_disk) 7 sample_id demo_request = Inr (pd_db d')
    | _ \<Rightarrow> pd_db d' = pd_db demo_disk
        \<or> publish_dossier demo_packets 30 demo_dossier (pd_db demo_disk) 7 sample_id demo_request = Inr (pd_db d'))"
proof -
  obtain r d' fs' where run: "publish_packet demo_recovery demo_packets 30 demo_dossier 7 sample_id demo_request
      (demo_disk, [Works, Works, Works, Works, Lost, Works, Dies]) = (r, d', fs')" by (rule prod_cases3)
  have "rv_sha256 demo_recovery = se_sha256 (pe_storage demo_packets)"
    by (simp add: demo_recovery_def demo_packets_def demo_files_def)
  from publication_crash_safe [OF demo_disk_ok demo_fresh demo_limit this run] run show ?thesis by blast
qed

text \<open>C9: On healthy storage recovery returns: no journal is left, the database is as it was, and the
  stored bytes are exactly those of the committed packets, unchanged.\<close>

theorem packet_recovery_completes:
  assumes "packets_ok R d" and "limit_ok R"
  shows "\<exists>d'. reconcile_packet_journals R (d, []) = (Done (), d', []) \<and> pd_db d' = pd_db d \<and> pd_journals d' = []
    \<and> pd_files d' = (\<lambda>p. if p \<in> pk_path ` set (dd_packets (pd_db d)) then pd_files d p else None)"
proof -
  obtain x d' where run: "reconcile_packet_journals R (d, []) = (Done x, d', [])"
    and d': "recovering R (pd_db d) (pd_files d) d'" "pd_journals d' = []"
    using safe_healthy [OF reconcile_safe [OF assms(2), of True] recovering_self [OF assms(1)]] by blast
  from recovered_files [OF d'] d' run show ?thesis
    by (intro exI [of _ d']) (simp add: recovering_def)
qed

theorem packet_recovery_completes_witness:
  "\<exists>d'. reconcile_packet_journals demo_recovery (demo_disk, []) = (Done (), d', []) \<and> pd_db d' = demo_saved
    \<and> pd_journals d' = [] \<and> pd_files d' = (\<lambda>p. None)"
  using packet_recovery_completes [OF demo_disk_ok demo_limit] by (simp add: demo_disk_def demo_no_packets)

end
