(* ===== verification/Reauth.thy ===== *)
theory Reauth
  imports Grants Complex_Main
begin

text \<open>
  The check of the current password that guards grants, \<open>automation/reauth.py\<close> with
  \<open>_verify_current_password\<close> and \<open>_revoke_with_account_control\<close> of \<open>api/routes/automation.py\<close>:
  failures are counted per account in a window, too many of them lock the issue of grants, and a
  locked account can still revoke one. A check runs under the lock of its account and every guard
  operation under the lock of the guard, so a history is a list of checks with the two clock
  readings each takes. Clock readings are exact rationals (the code adds and subtracts floats).
\<close>

subsection \<open>The guard\<close>

record failure_state =
  fs_failures :: int
  fs_first :: rat
  fs_locked :: "rat option"

record guard_limits =
  gl_max :: int
  gl_window :: int
  gl_lockout :: int

type_synonym guard = "int \<Rightarrow> failure_state option"

definition new_guard :: "int \<Rightarrow> int \<Rightarrow> int \<Rightarrow> (guard_limits \<times> guard) option" where
  "new_guard max_failures window lockout =
     (if max_failures < 1 \<or> window < 1 \<or> lockout < 1 then None
      else Some (\<lparr>gl_max = max_failures, gl_window = window, gl_lockout = lockout\<rparr>, (\<lambda>_. None)))"

definition active_state :: "guard_limits \<Rightarrow> int \<Rightarrow> rat \<Rightarrow> guard \<Rightarrow> failure_state option \<times> guard" where
  "active_state L uid now g = (case g uid of
      None \<Rightarrow> (None, g)
    | Some s \<Rightarrow>
        (case fs_locked s of
           Some until \<Rightarrow> if now < until then (Some s, g) else (None, g(uid := None))
         | None \<Rightarrow> if now - fs_first s < of_int (gl_window L) then (Some s, g) else (None, g(uid := None))))"

definition retry_after :: "guard_limits \<Rightarrow> int \<Rightarrow> rat \<Rightarrow> guard \<Rightarrow> int option \<times> guard" where
  "retry_after L uid now g = (let (state, g') = active_state L uid now g in
     (case state of None \<Rightarrow> None | Some s \<Rightarrow> map_option (\<lambda>until. max 1 \<lceil>until - now\<rceil>) (fs_locked s), g'))"

definition register_failure :: "guard_limits \<Rightarrow> int \<Rightarrow> rat \<Rightarrow> guard \<Rightarrow> int option \<times> guard" where
  "register_failure L uid now g = (let (state, g') = active_state L uid now g;
       s = or_else state \<lparr>fs_failures = 0, fs_first = now, fs_locked = None\<rparr>;
       s' = s\<lparr>fs_failures := fs_failures s + 1\<rparr> in
     if fs_failures s' \<ge> gl_max L
     then (Some (gl_lockout L), g'(uid \<mapsto> s'\<lparr>fs_locked := Some (now + of_int (gl_lockout L))\<rparr>))
     else (None, g'(uid \<mapsto> s')))"

definition register_success :: "int \<Rightarrow> guard \<Rightarrow> guard" where
  "register_success uid g = g(uid := None)"

definition reset_guard :: "guard \<Rightarrow> guard" where
  "reset_guard g = (\<lambda>_. None)"

subsection \<open>The password check\<close>

text \<open>
  One check: the account, the clock at the look-up of the lockout and at the
  registration of a failure, and whether the account exists with this password.
\<close>

record password_check =
  pc_user :: int
  pc_asked :: rat
  pc_judged :: rat
  pc_correct :: bool

datatype reauth_result = Verified | ReductionOnly | Locked int | AuthenticationFailed

definition verify_current_password ::
  "guard_limits \<Rightarrow> bool \<Rightarrow> password_check \<Rightarrow> guard \<Rightarrow> reauth_result \<times> guard" where
  "verify_current_password L allow_reduction c g =
     (case retry_after L (pc_user c) (pc_asked c) g of
        (Some n, g') \<Rightarrow> (if allow_reduction then ReductionOnly else Locked n, g')
      | (None, g') \<Rightarrow>
          if pc_correct c then (Verified, register_success (pc_user c) g')
          else (case register_failure L (pc_user c) (pc_judged c) g' of
              (Some n, g'') \<Rightarrow> (Locked n, g'')
            | (None, g'') \<Rightarrow> (AuthenticationFailed, g'')))"

definition revoke_with_account_control ::
  "guard_limits \<Rightarrow> instant \<Rightarrow> password_check \<Rightarrow> string \<Rightarrow> guard \<Rightarrow> grant_db
     \<Rightarrow> (reauth_result + grant_view grant_result) \<times> guard \<times> grant_db" where
  "revoke_with_account_control L now c gid g db =
     (case verify_current_password L True c g of
        (Locked n, g') \<Rightarrow> (Inl (Locked n), g', db)
      | (AuthenticationFailed, g') \<Rightarrow> (Inl AuthenticationFailed, g', db)
      | (_, g') \<Rightarrow> (let (res, db') = revoke_grant now (pc_user c) gid db in (Inr res, g', db')))"

text \<open>A history of checks; each entry says whether the check was made for a revocation.\<close>

type_synonym checks = "(bool \<times> password_check) list"

definition password_inspected :: "guard_limits \<Rightarrow> password_check \<Rightarrow> guard \<Rightarrow> bool" where
  "password_inspected L c g \<longleftrightarrow> fst (retry_after L (pc_user c) (pc_asked c) g) = None"

definition run_checks :: "guard_limits \<Rightarrow> checks \<Rightarrow> guard \<Rightarrow> guard" where
  "run_checks L cs g = fold (\<lambda>(allow, c) g. snd (verify_current_password L allow c g)) cs g"

text \<open>How many wrong passwords of an account a history inspects.\<close>

fun wrong_guesses :: "guard_limits \<Rightarrow> int \<Rightarrow> checks \<Rightarrow> guard \<Rightarrow> nat" where
  "wrong_guesses L uid [] g = 0"
| "wrong_guesses L uid ((allow, c) # cs) g =
     (if pc_user c = uid \<and> password_inspected L c g \<and> \<not> pc_correct c then 1 else 0)
     + wrong_guesses L uid cs (snd (verify_current_password L allow c g))"

text \<open>The clock readings of a history do not go back and stay below a bound.\<close>

fun clocks_within :: "rat \<Rightarrow> rat \<Rightarrow> checks \<Rightarrow> bool" where
  "clocks_within t0 t1 [] \<longleftrightarrow> t0 \<le> t1"
| "clocks_within t0 t1 ((allow, c) # cs) \<longleftrightarrow>
     t0 \<le> pc_asked c \<and> pc_asked c \<le> pc_judged c \<and> clocks_within (pc_judged c) t1 cs"

subsection \<open>The guard of one account\<close>

definition limits_ok :: "guard_limits \<Rightarrow> bool" where
  "limits_ok L \<longleftrightarrow> 1 \<le> gl_max L \<and> 1 \<le> gl_window L \<and> 1 \<le> gl_lockout L"

text \<open>The shortest time between the first failures of two counts.\<close>

definition episode :: "guard_limits \<Rightarrow> rat" where
  "episode L = of_int (min (gl_window L) (gl_lockout L))"

definition state_ok :: "guard_limits \<Rightarrow> failure_state \<Rightarrow> bool" where
  "state_ok L s \<longleftrightarrow> 1 \<le> fs_failures s \<and> fs_failures s \<le> gl_max L
     \<and> (case fs_locked s of None \<Rightarrow> fs_failures s < gl_max L
        | Some until \<Rightarrow> fs_failures s = gl_max L \<and> fs_first s + of_int (gl_lockout L) \<le> until)"

definition account_ok :: "guard_limits \<Rightarrow> int \<Rightarrow> rat \<Rightarrow> guard \<Rightarrow> bool" where
  "account_ok L uid now g \<longleftrightarrow> (case g uid of None \<Rightarrow> True | Some s \<Rightarrow> state_ok L s \<and> fs_first s \<le> now)"

text \<open>What is counted so far, and since when.\<close>

definition counted :: "int \<Rightarrow> guard \<Rightarrow> int" where
  "counted uid g = (case g uid of None \<Rightarrow> 0 | Some s \<Rightarrow> fs_failures s)"

definition counting_since :: "int \<Rightarrow> rat \<Rightarrow> guard \<Rightarrow> rat" where
  "counting_since uid now g = (case g uid of None \<Rightarrow> now | Some s \<Rightarrow> fs_first s)"

definition allowance :: "guard_limits \<Rightarrow> rat \<Rightarrow> int" where
  "allowance L t = gl_max L * (\<lfloor>t / episode L\<rfloor> + 1)"

lemma episode_pos: "limits_ok L \<Longrightarrow> 0 < episode L"
  by (simp add: episode_def limits_ok_def)

lemma allowance_mono: "limits_ok L \<Longrightarrow> t \<le> t' \<Longrightarrow> allowance L t \<le> allowance L t'"
  using episode_pos [of L] unfolding allowance_def limits_ok_def
  by (auto intro!: mult_left_mono floor_mono divide_right_mono)

lemma allowance_step: "limits_ok L \<Longrightarrow> allowance L (t + episode L) = allowance L t + gl_max L"
  using episode_pos [of L] by (simp add: allowance_def add_divide_distrib distrib_left)

lemma allowance_ge: "limits_ok L \<Longrightarrow> 0 \<le> t \<Longrightarrow> gl_max L \<le> allowance L t"
  using episode_pos [of L] unfolding allowance_def limits_ok_def
  by (simp add: mult_le_cancel_left1)

text \<open>
  Looking a state up either keeps it or starts a new count, an episode later at
  the earliest.
\<close>

lemma active_state_cases:
  assumes "limits_ok L" "account_ok L uid now g" "now \<le> c"
  obtains (none) "active_state L uid c g = (None, g)" "g uid = None"
    | (kept) s where "active_state L uid c g = (Some s, g)" "g uid = Some s"
    | (expired) s where "active_state L uid c g = (None, g(uid := None))" "g uid = Some s"
        "fs_first s + episode L \<le> c"
proof (cases "g uid")
  case (Some s)
  with assms(2) have s: "state_ok L s" by (simp add: account_ok_def)
  have ep: "episode L \<le> of_int (gl_window L)" "episode L \<le> of_int (gl_lockout L)"
    unfolding episode_def of_int_le_iff by simp_all
  show thesis
  proof (cases "fst (active_state L uid c g) = None")
    case True
    with Some s ep have "active_state L uid c g = (None, g(uid := None)) \<and> fs_first s + episode L \<le> c"
      by (auto simp: active_state_def state_ok_def split: option.splits if_splits)
    with Some expired show thesis by blast
  next
    case False
    with Some have "active_state L uid c g = (Some s, g)"
      by (auto simp: active_state_def split: option.splits if_splits)
    with Some kept show thesis by blast
  qed
qed (simp add: none active_state_def)


lemma register_new:
  assumes "limits_ok L" "g uid = None"
  obtains s n where "register_failure L uid j g = (n, g(uid \<mapsto> s))" "fs_failures s = 1" "fs_first s = j" "state_ok L s"
proof (rule that)
  let ?s = "\<lparr>fs_failures = 1, fs_first = j,
    fs_locked = (if gl_max L \<le> 1 then Some (j + of_int (gl_lockout L)) else None)\<rparr>"
  show "register_failure L uid j g = (if gl_max L \<le> 1 then Some (gl_lockout L) else None, g(uid \<mapsto> ?s))"
    using assms by (simp add: register_failure_def active_state_def)
qed (use assms in \<open>auto simp: state_ok_def limits_ok_def\<close>)

lemma register_counted:
  assumes "limits_ok L" "g uid = Some s" "state_ok L s" "fs_locked s = None" "fs_first s \<le> j"
    "active_state L uid j g = (Some s, g)"
  obtains s' n where "register_failure L uid j g = (n, g(uid \<mapsto> s'))" "fs_failures s' = fs_failures s + 1"
    "fs_first s' = fs_first s" "state_ok L s'"
proof (rule that)
  let ?s = "s\<lparr>fs_failures := fs_failures s + 1,
    fs_locked := (if gl_max L \<le> fs_failures s + 1 then Some (j + of_int (gl_lockout L)) else None)\<rparr>"
  show "register_failure L uid j g = (if gl_max L \<le> fs_failures s + 1 then Some (gl_lockout L) else None, g(uid \<mapsto> ?s))"
    using assms by (cases s) (simp add: register_failure_def)
qed (use assms in \<open>auto simp: state_ok_def limits_ok_def\<close>)

text \<open>A check with a wrong password is refused without a look at it, adds to the count or starts a new one.\<close>

lemma wrong_check_cases:
  assumes L: "limits_ok L" and ok: "account_ok L (pc_user c) now g" and wrong: "\<not> pc_correct c"
    and t: "now \<le> pc_asked c" "pc_asked c \<le> pc_judged c"
  obtains (locked) s where "\<not> password_inspected L c g" "snd (verify_current_password L allow c g) = g" "g (pc_user c) = Some s"
    | (counted) s s' where "password_inspected L c g" "g (pc_user c) = Some s"
        "snd (verify_current_password L allow c g) = g(pc_user c \<mapsto> s')" "fs_failures s' = fs_failures s + 1"
        "fs_first s' = fs_first s" "state_ok L s'"
    | (new) s' where "password_inspected L c g" "snd (verify_current_password L allow c g) = g(pc_user c \<mapsto> s')"
        "fs_failures s' = 1" "fs_first s' = pc_judged c" "state_ok L s'"
        "case g (pc_user c) of None \<Rightarrow> True | Some s \<Rightarrow> fs_first s + episode L \<le> pc_judged c"
proof -
  let ?u = "pc_user c"
  have fresh: thesis if look: "retry_after L ?u (pc_asked c) g = (None, g(?u := None))"
    and old: "case g ?u of None \<Rightarrow> True | Some s \<Rightarrow> fs_first s + episode L \<le> pc_judged c"
  proof -
    obtain s' n where "register_failure L ?u (pc_judged c) (g(?u := None)) = (n, (g(?u := None))(?u \<mapsto> s'))"
      "fs_failures s' = 1" "fs_first s' = pc_judged c" "state_ok L s'"
      by (rule register_new [OF L, of "g(?u := None)" ?u "pc_judged c"]) auto
    with look wrong old show thesis
      by (intro new [of s']) (auto simp: password_inspected_def verify_current_password_def split: option.splits)
  qed
  from L ok t(1) show thesis
  proof (cases rule: active_state_cases)
    case none
    then have "g(?u := None) = g" by auto
    with none show thesis by (intro fresh) (auto simp: retry_after_def)
  next
    case (expired s)
    with t(2) show thesis by (intro fresh) (auto simp: retry_after_def)
  next
    case (kept s)
    with ok have s: "state_ok L s" "fs_first s \<le> now" by (auto simp: account_ok_def)
    show thesis
    proof (cases "fs_locked s")
      case (Some until)
      with kept show thesis
        by (intro locked) (auto simp: retry_after_def password_inspected_def verify_current_password_def)
    next
      case None
      have look: "retry_after L ?u (pc_asked c) g = (None, g)" using kept None by (simp add: retry_after_def)
      have ok': "account_ok L ?u (pc_asked c) g" using kept s t by (simp add: account_ok_def)
      from L ok' t(2) show thesis
      proof (cases rule: active_state_cases)
        case none
        with kept show thesis by simp
      next
        case again: (kept s2)
        with kept have same: "active_state L ?u (pc_judged c) g = (Some s, g)" by simp
        obtain s' n where "register_failure L ?u (pc_judged c) g = (n, g(?u \<mapsto> s'))" "fs_failures s' = fs_failures s + 1"
          "fs_first s' = fs_first s" "state_ok L s'"
          by (rule register_counted [OF L kept(2) s(1) None _ same]) (use s t in auto)
        with look wrong kept show thesis
          by (intro counted [of s s']) (auto simp: password_inspected_def verify_current_password_def split: option.splits)
      next
        case (expired s2)
        with kept None have "register_failure L ?u (pc_judged c) g = register_failure L ?u (pc_judged c) (g(?u := None))"
          by (simp add: register_failure_def active_state_def)
        moreover obtain s' n where "register_failure L ?u (pc_judged c) (g(?u := None)) = (n, (g(?u := None))(?u \<mapsto> s'))"
          "fs_failures s' = 1" "fs_first s' = pc_judged c" "state_ok L s'"
          by (rule register_new [OF L, of "g(?u := None)" ?u "pc_judged c"]) auto
        ultimately show thesis using look wrong expired
          by (intro new [of s']) (auto simp: password_inspected_def verify_current_password_def split: option.splits)
      qed
    qed
  qed
qed

lemma other_account:
  assumes "pc_user c \<noteq> uid"
  shows "snd (verify_current_password L allow c g) uid = g uid"
  using assms
  by (auto simp: verify_current_password_def retry_after_def register_failure_def register_success_def active_state_def
      Let_def split: option.splits prod.splits if_splits)

lemma wrong_guesses_bound:
  assumes L: "limits_ok L"
  shows "clocks_within now t1 cs \<Longrightarrow> account_ok L uid now g \<Longrightarrow>
    \<forall>(allow, c) \<in> set cs. pc_user c = uid \<longrightarrow> \<not> pc_correct c \<Longrightarrow>
    counted uid g + int (wrong_guesses L uid cs g) \<le> allowance L (t1 - counting_since uid now g)"
proof (induction cs arbitrary: now g)
  case Nil
  then have "counted uid g \<le> gl_max L" "0 \<le> t1 - counting_since uid now g"
    using L by (auto simp: counted_def counting_since_def account_ok_def state_ok_def limits_ok_def split: option.splits)
  with allowance_ge [OF L] show ?case by fastforce
next
  case (Cons e cs)
  obtain allow c where e: "e = (allow, c)" by (cases e)
  let ?g = "snd (verify_current_password L allow c g)"
  have t: "now \<le> pc_asked c" "pc_asked c \<le> pc_judged c" "clocks_within (pc_judged c) t1 cs"
    using Cons.prems(1) e by auto
  have rest: "counted uid ?g + int (wrong_guesses L uid cs ?g) \<le> allowance L (t1 - counting_since uid (pc_judged c) ?g)"
    if "account_ok L uid (pc_judged c) ?g"
    by (rule Cons.IH [OF t(3) that]) (use Cons.prems(3) e in auto)
  show ?case
  proof (cases "pc_user c = uid")
    case False
    then have g: "?g uid = g uid" by (rule other_account)
    with Cons.prems(2) t have ok: "account_ok L uid (pc_judged c) ?g" by (auto simp: account_ok_def split: option.splits)
    have "t1 - counting_since uid (pc_judged c) ?g \<le> t1 - counting_since uid now g"
      using g t by (simp add: counting_since_def split: option.split)
    from order_trans [OF rest [OF ok] allowance_mono [OF L this]] g False e show ?thesis
      by (simp add: counted_def)
  next
    case True
    with Cons.prems(3) e have wrong: "\<not> pc_correct c" by auto
    have ok: "account_ok L (pc_user c) now g" using Cons.prems(2) True by simp
    from L ok wrong t(1,2) show ?thesis
    proof (cases rule: wrong_check_cases [where allow = allow])
      case (locked s)
      with Cons.prems(2) t have "account_ok L uid (pc_judged c) ?g" by (auto simp: account_ok_def split: option.splits)
      from rest [OF this] locked True e show ?thesis by (simp add: counting_since_def)
    next
      case (counted s s')
      with Cons.prems(2) t True have "account_ok L uid (pc_judged c) ?g" by (auto simp: account_ok_def)
      from rest [OF this] counted True e wrong show ?thesis by (simp add: counting_since_def counted_def)
    next
      case (new s')
      with True have "account_ok L uid (pc_judged c) ?g" by (auto simp: account_ok_def)
      from rest [OF this] new True have r: "1 + int (wrong_guesses L uid cs ?g) \<le> allowance L (t1 - pc_judged c)"
        by (simp add: counting_since_def counted_def)
      have "counted uid g + allowance L (t1 - pc_judged c) \<le> allowance L (t1 - counting_since uid now g)"
      proof (cases "g uid")
        case None
        with t allowance_mono [OF L, of "t1 - pc_judged c" "t1 - now"] show ?thesis
          by (simp add: counted_def counting_since_def)
      next
        case (Some s)
        with new(6) True Cons.prems(2) have s: "fs_first s + episode L \<le> pc_judged c" "fs_failures s \<le> gl_max L"
          by (auto simp: account_ok_def state_ok_def)
        have "allowance L (t1 - pc_judged c + episode L) \<le> allowance L (t1 - fs_first s)"
          by (rule allowance_mono [OF L]) (use s in simp)
        with s allowance_step [OF L, of "t1 - pc_judged c"] Some show ?thesis
          by (simp add: counted_def counting_since_def)
      qed
      with r new True e wrong show ?thesis by simp
    qed
  qed
qed


subsection \<open>Properties\<close>

text \<open>C33: Password guessing is bounded: while an account only sees wrong passwords, a history of any length
  by any accounts inspects at most the configured number of guesses of it for every started
  period (the shorter of window and lockout).\<close>

theorem reauth_guesses_bounded:
  assumes "new_guard max_failures window lockout = Some (L, g)" and "clocks_within t0 t1 cs"
    and "\<forall>(allow, c) \<in> set cs. pc_user c = uid \<longrightarrow> \<not> pc_correct c"
  shows "int (wrong_guesses L uid cs g) \<le> max_failures * (\<lfloor>(t1 - t0) / of_int (min window lockout)\<rfloor> + 1)"
proof -
  from assms(1) have L: "limits_ok L" "g uid = None" "gl_max L = max_failures" "episode L = of_int (min window lockout)"
    by (auto simp: new_guard_def limits_ok_def episode_def split: if_splits)
  have "account_ok L uid t0 g" using L(2) by (simp add: account_ok_def)
  from wrong_guesses_bound [OF L(1) assms(2) this assms(3)] L show ?thesis
    by (simp add: counted_def counting_since_def allowance_def)
qed

theorem reauth_guesses_bounded_witness:
  "let wrong = (\<lambda>t. (False, \<lparr>pc_user = 7, pc_asked = t, pc_judged = t, pc_correct = False\<rparr>)); L = \<lparr>gl_max = 5, gl_window = 900, gl_lockout = 900\<rparr> in
   int (wrong_guesses L 7 (map wrong [0, 1, 2, 3, 4, 5, 6, 904]) (\<lambda>_. None)) \<le> 5 * (\<lfloor>(904 - 0 :: rat) / of_int (min 900 900)\<rfloor> + 1)"
  unfolding Let_def
  by (rule reauth_guesses_bounded [where max_failures = 5]) (auto simp: new_guard_def)

text \<open>During a lockout no password of the account is looked at, so nothing can be issued, the remaining
  time is reported as at least one second, the guard stays as it is, and a revocation still goes
  through exactly as \<open>revoke_grant\<close> does it.\<close>

lemma lockout_only_reduces:
  assumes "register_failure L (pc_user c) t g = (Some n, g')" and "pc_asked c < t + of_int n"
  shows "\<exists>k \<ge> 1. verify_current_password L False c g' = (Locked k, g')
    \<and> revoke_with_account_control L now c gid g' db
      = (Inr (fst (revoke_grant now (pc_user c) gid db)), g', snd (revoke_grant now (pc_user c) gid db))"
proof -
  from assms(1) obtain s where s: "g' (pc_user c) = Some s" "fs_locked s = Some (t + of_int n)"
    by (auto simp: register_failure_def Let_def split: prod.splits if_splits)
  then have look: "retry_after L (pc_user c) (pc_asked c) g' = (Some (max 1 \<lceil>t + of_int n - pc_asked c\<rceil>), g')"
    using assms(2) by (simp add: retry_after_def active_state_def)
  show ?thesis
    by (rule exI [of _ "max 1 \<lceil>t + of_int n - pc_asked c\<rceil>"])
      (simp add: verify_current_password_def revoke_with_account_control_def look split: prod.split)
qed

end
