(* ===== verification/Patterns.thy ===== *)
theory Patterns
  imports AppModel
begin

text \<open>
  The text primitives that the services take from Python: substring tests,
  \<open>str.strip\<close> with a set of characters, the character classes of \<open>re\<close>, and the
  regular expressions themselves as an executable relation from a position to
  the positions where a match may end, so that a pattern of the code is one
  term and \<open>search\<close> asks whether some position matches.
\<close>

subsection \<open>Strings\<close>

definition text_in :: "string \<Rightarrow> string \<Rightarrow> bool" where
  "text_in needle hay \<longleftrightarrow>
     list_ex (\<lambda>i. take (length needle) (drop i hay) = needle) [0..<length hay + 1]"

definition strip_chars :: "string \<Rightarrow> string \<Rightarrow> string" where
  "strip_chars cs s = rev (dropWhile (\<lambda>c. c \<in> set cs) (rev (dropWhile (\<lambda>c. c \<in> set cs) s)))"

text \<open>\<open>re.sub(r"\s+", " ", s)\<close>.\<close>

fun squeeze_spaces :: "bool \<Rightarrow> string \<Rightarrow> string" where
  "squeeze_spaces open_run [] = []"
| "squeeze_spaces open_run (c # s) =
     (if py_isspace c then (if open_run then squeeze_spaces True s else CHR '' '' # squeeze_spaces True s)
      else c # squeeze_spaces False s)"

text \<open>\<open>\w\<close> and \<open>\d\<close> for code points below 256.\<close>

definition digit_char :: "char \<Rightarrow> bool" where
  "digit_char c \<longleftrightarrow> CHR ''0'' \<le> c \<and> c \<le> CHR ''9''"

definition word_char :: "char \<Rightarrow> bool" where
  "word_char c \<longleftrightarrow> (let n = of_char c :: nat in
     digit_char c \<or> (CHR ''a'' \<le> c \<and> c \<le> CHR ''z'') \<or> (CHR ''A'' \<le> c \<and> c \<le> CHR ''Z'') \<or> c = CHR ''_''
     \<or> n \<in> {170, 178, 179, 181, 185, 186, 188, 189, 190} \<or> (192 \<le> n \<and> n \<noteq> 215 \<and> n \<noteq> 247))"

subsection \<open>Regular expressions\<close>

text \<open>
  \<open>Run p lo hi\<close> repeats a character class between \<open>lo\<close> and \<open>hi\<close> times (no upper bound for
  \<open>None\<close>); \<open>Edge\<close> is a word boundary.
\<close>

datatype pattern =
    Nothing | Sym "char \<Rightarrow> bool" | Run "char \<Rightarrow> bool" nat "nat option" | Edge
  | Then pattern pattern | Either pattern pattern

definition word_at :: "string \<Rightarrow> nat \<Rightarrow> bool" where
  "word_at s i \<longleftrightarrow> i < length s \<and> word_char (s ! i)"

fun match_ends :: "pattern \<Rightarrow> string \<Rightarrow> nat \<Rightarrow> nat list" where
  "match_ends Nothing s i = [i]"
| "match_ends (Sym p) s i = (if i < length s \<and> p (s ! i) then [i + 1] else [])"
| "match_ends (Run p lo hi) s i =
     (let n = length (takeWhile p (drop i s)); m = (case hi of None \<Rightarrow> n | Some h \<Rightarrow> min n h)
      in map (\<lambda>k. i + k) [lo..<m + 1])"
| "match_ends Edge s i = (if (i \<noteq> 0 \<and> word_at s (i - 1)) \<noteq> word_at s i then [i] else [])"
| "match_ends (Then p q) s i = concat (map (match_ends q s) (match_ends p s i))"
| "match_ends (Either p q) s i = match_ends p s i @ match_ends q s i"

definition search :: "pattern \<Rightarrow> string \<Rightarrow> bool" where
  "search p s \<longleftrightarrow> list_ex (\<lambda>i. match_ends p s i \<noteq> []) [0..<length s + 1]"

definition fullmatch :: "pattern \<Rightarrow> string \<Rightarrow> bool" where
  "fullmatch p s \<longleftrightarrow> length s \<in> set (match_ends p s 0)"

text \<open>A literal under \<open>re.IGNORECASE\<close>, sequences and alternatives.\<close>

definition lit :: "string \<Rightarrow> pattern" where
  "lit w = foldr (\<lambda>c p. Then (Sym (\<lambda>x. ascii_lower [x] = [c])) p) w Nothing"

definition in_order :: "pattern list \<Rightarrow> pattern" where
  "in_order ps = foldr Then ps Nothing"

fun one_of :: "pattern list \<Rightarrow> pattern" where
  "one_of [] = Sym (\<lambda>_. False)"
| "one_of [p] = p"
| "one_of (p # ps) = Either p (one_of ps)"

definition spaces :: pattern where
  "spaces = Run py_isspace 1 None"

definition maybe :: "pattern \<Rightarrow> pattern" where
  "maybe p = Either p Nothing"

subsection \<open>Tokens\<close>

text \<open>\<open>re.findall(r"[\w+#.-]+", s)\<close>: the maximal runs of token characters.\<close>

definition token_char :: "char \<Rightarrow> bool" where
  "token_char c \<longleftrightarrow> word_char c \<or> c \<in> set ''+#.-''"

function token_runs :: "string \<Rightarrow> string list" where
  "token_runs s = (case dropWhile (\<lambda>c. \<not> token_char c) s of
     [] \<Rightarrow> []
   | c # t \<Rightarrow> (c # takeWhile token_char t) # token_runs (dropWhile token_char t))"
  by auto
termination
proof (relation "measure length")
  fix s c t
  assume "dropWhile (\<lambda>c. \<not> token_char c) s = c # t"
  then have "length (c # t) \<le> length s" by (metis length_dropWhile_le)
  moreover have "length (dropWhile token_char t) \<le> length t" by (rule length_dropWhile_le)
  ultimately show "(dropWhile token_char t, s) \<in> measure length" by simp
qed simp

declare token_runs.simps [simp del]

definition tokenize :: "(string \<Rightarrow> string) \<Rightarrow> string \<Rightarrow> string list" where
  "tokenize fold_case s = filter (\<lambda>t. 1 < length t) (token_runs (fold_case s))"

end
