(* ===== verification/Proposals.thy ===== *)
theory Proposals
  imports AgentWork Patterns
begin

text \<open>
  The checks of an external proposal against its frozen context, \<open>agent_work/validation.py\<close>
  with the payloads of \<open>schemas.py\<close> and the part of \<open>ai/grounding.py\<close> that they call: gates with
  quotations from the advert, scores, claims grounded in one cited fact, and the materials.
  Unicode normalisation, the canonical JSON of a fact and the size of a payload are parameters.
\<close>

subsection \<open>The frozen context\<close>

text \<open>A preference is a list of texts, a flag, a text or absent.\<close>

datatype preference = PreferenceList "string list" | PreferenceFlag bool | PreferenceText string | NoPreference

record context_fact =
  xf_id :: string
  xf_kind :: string
  xf_title :: string
  xf_description :: string
  xf_attributes :: string  \<comment> \<open>\<open>str\<close> of the attributes\<close>

record job_source =
  js_title :: string
  js_description :: string
  js_location :: string
  js_workload :: string

record work_context =
  cx_facts :: "context_fact list"
  cx_preferences :: "string \<Rightarrow> preference"
  cx_target :: "job_source option"
  cx_preset :: "(string \<times> int \<times> string) option"

record text_env =
  tx_fold :: "string \<Rightarrow> string"      \<comment> \<open>NFKC, then \<open>casefold\<close>\<close>
  tx_casefold :: "string \<Rightarrow> string"
  tx_json :: "context_fact \<Rightarrow> string"

subsection \<open>Payloads\<close>

datatype dimension = Role | Requirements | Language | Location | Contract | Freshness | General

datatype gate_status = Eligible | Hold | Reject

datatype recommendation = StrongFit | Consider | WeakFit | InsufficientEvidence

record work_gate =
  wg_dimension :: dimension
  wg_status :: gate_status
  wg_facts :: "string list"
  wg_quotes :: "string list"
  wg_unknowns :: "string list"

record work_scores =
  ws_score :: "dimension \<Rightarrow> int"
  ws_overall :: int

record discovery_vacancy =
  dv_title :: string
  dv_source_text :: string
  dv_location :: string
  dv_gates :: "work_gate list"
  dv_scores :: work_scores

record analysis_claim =
  cl_text :: string
  cl_facts :: "string list"
  cl_quote :: "string option"

record analysis_payload =
  ax_gates :: "work_gate list"
  ax_scores :: work_scores
  ax_claims :: "analysis_claim list"
  ax_recommendation :: recommendation

record cited_text =
  ct_id :: string
  ct_text :: string
  ct_facts :: "string list"

record material_requirement =
  mr_requirement :: string
  mr_quote :: string
  mr_facts :: "string list"

record materials_payload =
  mx_preset :: "string \<times> int \<times> string"  \<comment> \<open>id, version, locale\<close>
  mx_selected :: "string list"
  mx_overrides :: "cited_text list"
  mx_cover_letter :: "cited_text list"
  mx_email :: "cited_text list"
  mx_answers :: "cited_text list"
  mx_requirements :: "material_requirement list"

datatype external_payload =
    DiscoveryPayload "discovery_vacancy list"
  | AnalysisPayload analysis_payload
  | MaterialsPayload materials_payload

fun payload_kind :: "external_payload \<Rightarrow> work_kind" where
  "payload_kind (DiscoveryPayload _) = Discover"
| "payload_kind (AnalysisPayload _) = Analyze"
| "payload_kind (MaterialsPayload _) = Materials"

definition invalid_result :: work_error where "invalid_result = WorkError ''invalid_result''"
definition evidence_invalid :: work_error where "evidence_invalid = WorkError ''evidence_invalid''"

subsection \<open>Scores and eligibility\<close>

definition dimensions :: "dimension list" where
  "dimensions = [Role, Requirements, Language, Location, Contract, Freshness]"

definition weights :: "int list" where
  "weights = [25, 30, 15, 15, 10, 5]"

definition weighted_score :: "work_scores \<Rightarrow> int" where
  "weighted_score s = sum_list (map (\<lambda>(d, w). ws_score s d * w) (zip dimensions weights))"

text \<open>
  \<open>Decimal(weighted) / 100\<close>, quantised with \<open>ROUND_HALF_UP\<close>: away from zero on a tie.
\<close>

definition quantize_half_up :: "int \<Rightarrow> int" where
  "quantize_half_up n = sgn n * ((2 * \<bar>n\<bar> + 100) div 200)"

definition fit_score :: "work_scores \<Rightarrow> int" where
  "fit_score s = quantize_half_up (weighted_score s)"

definition eligibility :: "work_gate list \<Rightarrow> gate_status" where
  "eligibility gs =
     (if list_ex (\<lambda>g. wg_status g = Reject) gs then Reject
      else if list_ex (\<lambda>g. wg_status g = Hold \<or> wg_unknowns g \<noteq> []) gs then Hold
      else Eligible)"

subsection \<open>Terms and patterns\<close>

definition role_terms :: "string list" where
  "role_terms = [''architect'', ''consultant'', ''developer'', ''engineer'', ''lead'', ''manager'', ''specialist'',
     ''analyst'', ''director'', ''designer'', ''administrator'']"

definition language_terms :: "string list" where
  "language_terms = [''english'', ''german'', ''deutsch'', ''french'', ''fran'' @ CHR 0xE7 # ''ais'', ''francais'',
     ''italian'', ''italiano'', ''spanish'', ''espa'' @ CHR 0xF1 # ''ol'', ''bilingual'', ''fluent'', ''language'', ''languages'']"

definition location_terms :: "string list" where
  "location_terms = [''remote'', ''hybrid'', ''onsite'', ''on-site'', ''relocation'', ''switzerland'', ''schweiz'',
     ''suisse'', ''svizzera'']"

definition contract_terms :: "string list" where
  "contract_terms = [''permanent'', ''temporary'', ''contract'', ''freelance'', ''internship'', ''apprenticeship'',
     ''full-time'', ''part-time'', ''fulltime'', ''parttime'', ''workload'']"

definition freshness_terms :: "string list" where
  "freshness_terms = [''posted'', ''published'', ''today'', ''yesterday'', ''recent'', ''recently'', ''new'', ''ago'']"

definition requirement_noise :: "string list" where
  "requirement_noise = [''required'', ''requirement'', ''requirements'', ''needed'', ''mandatory'', ''preferred'',
     ''experience'', ''knowledge'', ''skill'', ''skills'']"

definition explicit_negation :: pattern where
  "explicit_negation = one_of
     [in_order [Edge, lit ''not'', spaces, maybe (in_order [lit ''strictly'', spaces]), lit ''required'', Edge],
      in_order [Edge, lit ''no'', Edge, Run (\<lambda>c. c \<noteq> CHR 0x0A) 0 (Some 40), Edge,
        one_of [lit ''required'', lit ''needed'', lit ''mandatory''], Edge],
      in_order [Edge, lit ''without'', Edge],
      in_order [Edge, lit ''nicht'', spaces, lit ''erforderlich'', Edge],
      in_order [Edge, lit ''non'', spaces, lit ''requis'', maybe (lit ''e''), Edge],
      in_order [Edge, lit ''non'', spaces, lit ''richiest'', one_of [lit ''o'', lit ''a''], Edge],
      in_order [Edge, lit ''senza'', Edge]]"

definition cefr_level :: pattern where
  "cefr_level = Then (Sym (\<lambda>c. c \<in> set ''abc'')) (Sym (\<lambda>c. c \<in> set ''12''))"

definition date_pattern :: pattern where
  "date_pattern = in_order [Edge, Run digit_char 1 (Some 2), Sym (\<lambda>c. c \<in> set ''./-''), Run digit_char 1 (Some 2),
     maybe (Then (Sym (\<lambda>c. c \<in> set ''./-'')) (Run digit_char 2 (Some 4))), Edge]"

definition percent_pattern :: pattern where
  "percent_pattern = in_order [Edge, Run digit_char 1 (Some 3), Run py_isspace 0 None, lit ''%'']"

definition years_pattern :: pattern where
  "years_pattern = in_order [Edge, Run digit_char 1 None, maybe (lit ''+''), spaces,
     one_of [Then (lit ''year'') (maybe (lit ''s'')), Then (lit ''an'') (maybe (lit ''s'')),
       Then (lit ''jahre'') (maybe (lit ''n'')), lit ''anni''], Edge]"

definition tokens :: "text_env \<Rightarrow> string \<Rightarrow> string list" where
  "tokens X s = map (\<lambda>t. tx_casefold X (strip_chars ''.-'' t)) (tokenize (tx_fold X) s)"

definition meets :: "string list \<Rightarrow> string list \<Rightarrow> bool" where
  "meets xs ys \<longleftrightarrow> list_ex (\<lambda>x. x \<in> set ys) xs"

definition covered_by :: "string list \<Rightarrow> string list \<Rightarrow> bool" where
  "covered_by xs ys \<longleftrightarrow> list_all (\<lambda>x. x \<in> set ys) xs"

definition preference_words :: "string \<Rightarrow> preference \<Rightarrow> string list" where
  "preference_words field p = (case p of
      PreferenceList xs \<Rightarrow> xs
    | PreferenceFlag b \<Rightarrow> (if b then (if field = ''remote_only'' then [''remote''] else [''True'']) else [])
    | PreferenceText t \<Rightarrow> (if t = [] then [] else [t])
    | NoPreference \<Rightarrow> [])"

fun space_joined :: "string list \<Rightarrow> string" where
  "space_joined [] = []"
| "space_joined [w] = w"
| "space_joined (w # ws) = w @ '' '' @ space_joined ws"

definition preference_tokens :: "text_env \<Rightarrow> work_context \<Rightarrow> string list \<Rightarrow> string list" where
  "preference_tokens X C fields_read =
     tokens X (space_joined (concat (map (\<lambda>f. preference_words f (cx_preferences C f)) fields_read)))"

definition cited_fact_tokens :: "text_env \<Rightarrow> work_context \<Rightarrow> string list \<Rightarrow> string \<Rightarrow> string list" where
  "cited_fact_tokens X C ids kind = tokens X (space_joined (concat (map
     (\<lambda>f. if xf_id f \<in> set ids \<and> xf_kind f = kind then [xf_title f, xf_description f, xf_attributes f] else [])
     (cx_facts C))))"

definition location_fields :: "string list" where
  "location_fields = [''preferred_locations'', ''preferred_work_modes'', ''remote_only'']"

definition quote_supports_dimension ::
  "text_env \<Rightarrow> dimension \<Rightarrow> string \<Rightarrow> job_source \<Rightarrow> work_context \<Rightarrow> string list \<Rightarrow> bool" where
  "quote_supports_dimension X d quote src C ids =
     (let quoted = tokens X quote in
      if quoted = [] \<or> search explicit_negation quote then False
      else let title = tokens X (js_title src);
          places = tokens X (js_location src) @ preference_tokens X C location_fields;
          contracts = preference_tokens X C [''contract_types''] @ contract_terms;
          languages = language_terms @ cited_fact_tokens X C ids ''language'' @ filter (fullmatch cefr_level) quoted
        in case d of
          Role \<Rightarrow> meets quoted role_terms \<or> (title \<noteq> [] \<and> covered_by quoted title)
        | Language \<Rightarrow> meets quoted languages
        | Location \<Rightarrow> meets quoted (location_terms @ places)
        | Contract \<Rightarrow> meets quoted contracts \<or> search percent_pattern quote
        | Freshness \<Rightarrow> meets quoted freshness_terms \<or> search date_pattern quote
        | Requirements \<Rightarrow> search years_pattern quote
            \<or> (let substantive = filter (\<lambda>t. t \<notin> set requirement_noise) quoted in
                substantive \<noteq> [] \<and> \<not> covered_by substantive
                  (languages @ location_terms @ places @ contracts @ freshness_terms @ role_terms))
        | General \<Rightarrow> False)"

subsection \<open>Grounding\<close>

definition placeholder_tokens :: "string list" where
  "placeholder_tokens = [''candidate'', ''company'', ''description'', ''evidence'', ''experience'', ''field'', ''fact_type'',
     ''location'', ''none'', ''profile'', ''payload'', ''required'', ''role'', ''specified'', ''title'', ''unknown'', ''verified'']"

definition answer_connective_tokens :: "string list" where
  "answer_connective_tokens = [''also'', ''because'', ''emphasize'', ''highlight'', ''lead'', ''with'', ''your'', ''verified'']"

definition claim_advice_tokens :: "string list" where
  "claim_advice_tokens = answer_connective_tokens @ [''consider'', ''describe'', ''evidenzia'', ''emphasized'', ''emphasize'',
     ''focus'', ''mention'', ''metti'', ''supported'']"

definition claim_function_tokens :: "string list" where
  "claim_function_tokens = [''an'', ''are'', ''as'', ''at'', ''been'', ''by'', ''for'', ''from'', ''had'', ''has'', ''have'', ''he'',
     ''in'', ''into'', ''is'', ''it'', ''of'', ''on'', ''she'', ''that'', ''the'', ''they'', ''this'', ''to'', ''was'', ''we'', ''were'', ''you'']"

definition lexical_tokens :: "text_env \<Rightarrow> string \<Rightarrow> string list" where
  "lexical_tokens X s = filter (\<lambda>t. t \<noteq> []) (map (strip_chars ''.-'') (tokenize (tx_fold X) s))"

text \<open>\<open>str.isdigit\<close> for code points below 256: the digits and the superscripts.\<close>

definition py_isdigit :: "string \<Rightarrow> bool" where
  "py_isdigit s \<longleftrightarrow> s \<noteq> [] \<and> list_all (\<lambda>c. digit_char c \<or> of_char c \<in> {178, 179, 185 :: nat}) s"

definition meaningful_tokens :: "text_env \<Rightarrow> string \<Rightarrow> string list" where
  "meaningful_tokens X s = filter (\<lambda>t. (2 \<le> length t \<or> py_isdigit t) \<and> t \<notin> set placeholder_tokens
     \<and> t \<notin> set claim_advice_tokens \<and> t \<notin> set claim_function_tokens) (lexical_tokens X s)"

text \<open>The documents by identifier; of two with one identifier the later counts.\<close>

definition document_of :: "work_context \<Rightarrow> string \<Rightarrow> context_fact option" where
  "document_of C i = select_first (\<lambda>f. xf_id f = i) (rev (cx_facts C))"

definition grounded :: "text_env \<Rightarrow> work_context \<Rightarrow> string \<Rightarrow> string list \<Rightarrow> bool" where
  "grounded X C text ids \<longleftrightarrow> list_all (\<lambda>i. document_of C i \<noteq> None) ids \<and> ids \<noteq> []
     \<and> (let meaningful = meaningful_tokens X text in meaningful \<noteq> []
        \<and> list_ex (\<lambda>i. case document_of C i of None \<Rightarrow> False
             | Some f \<Rightarrow> covered_by meaningful (lexical_tokens X (tx_json X f))) ids)"

definition ground :: "text_env \<Rightarrow> work_context \<Rightarrow> string \<Rightarrow> string list \<Rightarrow> unit work_result" where
  "ground X C text ids = ensure (ids \<noteq> [] \<and> grounded X C text ids) evidence_invalid"


subsection \<open>Gates\<close>

definition truthy_preference :: "preference \<Rightarrow> bool" where
  "truthy_preference p = (case p of
      PreferenceList xs \<Rightarrow> xs \<noteq> [] | PreferenceFlag b \<Rightarrow> b | PreferenceText t \<Rightarrow> t \<noteq> [] | NoPreference \<Rightarrow> False)"

fun joined_lines :: "string list \<Rightarrow> string" where
  "joined_lines [] = []"
| "joined_lines [l] = l"
| "joined_lines (l # ls) = l @ CHR 0x0A # joined_lines ls"

definition source_text :: "job_source \<Rightarrow> string" where
  "source_text src = joined_lines (filter (\<lambda>t. t \<noteq> []) [js_title src, js_description src, js_location src, js_workload src])"

definition fact_ids :: "work_context \<Rightarrow> string list" where
  "fact_ids C = map xf_id (cx_facts C)"

definition career_dimension :: "dimension \<Rightarrow> bool" where
  "career_dimension d \<longleftrightarrow> d = Role \<or> d = Requirements \<or> d = Language"

text \<open>The citations of a gate, and what an eligible gate needs beside them.\<close>

definition gate_citations :: "work_context \<Rightarrow> job_source \<Rightarrow> work_gate \<Rightarrow> bool" where
  "gate_citations C src g \<longleftrightarrow> covered_by (wg_facts g) (fact_ids C)
     \<and> list_all (\<lambda>q. py_strip q \<noteq> [] \<and> text_in q (source_text src)) (wg_quotes g)"

definition eligible_prerequisites :: "work_context \<Rightarrow> work_gate \<Rightarrow> bool" where
  "eligible_prerequisites C g \<longleftrightarrow>
     (wg_dimension g = Language \<longrightarrow> list_ex (\<lambda>f. xf_id f \<in> set (wg_facts g) \<and> xf_kind f = ''language'') (cx_facts C))
     \<and> (wg_dimension g = Location \<longrightarrow> list_ex (\<lambda>k. truthy_preference (cx_preferences C k)) location_fields)
     \<and> (wg_dimension g = Contract \<longrightarrow> truthy_preference (cx_preferences C ''contract_types''))"

definition gate_evidence :: "text_env \<Rightarrow> work_context \<Rightarrow> job_source \<Rightarrow> int \<Rightarrow> work_gate \<Rightarrow> unit work_result" where
  "gate_evidence X C src score g =
     (if wg_unknowns g \<noteq> [] then ensure (wg_status g \<noteq> Eligible \<and> score = 0) invalid_result
      else if wg_status g = Hold then Inl invalid_result
      else ensure (wg_quotes g \<noteq> []
        \<and> list_all (\<lambda>q. quote_supports_dimension X (wg_dimension g) q src C (wg_facts g)) (wg_quotes g)) evidence_invalid)"

definition matches_preferences :: "text_env \<Rightarrow> work_context \<Rightarrow> work_gate \<Rightarrow> bool" where
  "matches_preferences X C g \<longleftrightarrow>
     (let expected = preference_tokens X C (if wg_dimension g = Location then location_fields else [''contract_types''])
      in expected \<noteq> [] \<and> list_ex (\<lambda>q. meets (tokens X q) expected) (wg_quotes g))"

fun ground_all :: "text_env \<Rightarrow> work_context \<Rightarrow> string list \<Rightarrow> string list \<Rightarrow> unit work_result" where
  "ground_all X C ids [] = Inr ()"
| "ground_all X C ids (q # qs) = and_then (ground X C q ids) (\<lambda>_. ground_all X C ids qs)"

definition check_gate :: "text_env \<Rightarrow> work_context \<Rightarrow> job_source \<Rightarrow> work_scores \<Rightarrow> work_gate \<Rightarrow> unit work_result" where
  "check_gate X C src s g =
     and_then (ensure (gate_citations C src g) evidence_invalid) (\<lambda>_.
     and_then (ensure (wg_status g = Eligible \<longrightarrow> eligible_prerequisites C g) evidence_invalid) (\<lambda>_.
     and_then (gate_evidence X C src (ws_score s (wg_dimension g)) g) (\<lambda>_.
     and_then (ensure (wg_status g = Eligible \<and> (wg_dimension g = Location \<or> wg_dimension g = Contract)
         \<longrightarrow> matches_preferences X C g) evidence_invalid) (\<lambda>_.
     if wg_status g = Eligible \<and> career_dimension (wg_dimension g)
     then and_then (ensure (wg_facts g \<noteq> []) evidence_invalid) (\<lambda>_. ground_all X C (wg_facts g) (wg_quotes g))
     else Inr ()))))"

fun check_each :: "('a \<Rightarrow> unit work_result) \<Rightarrow> 'a list \<Rightarrow> unit work_result" where
  "check_each f [] = Inr ()"
| "check_each f (x # xs) = and_then (f x) (\<lambda>_. check_each f xs)"

definition one_gate_per_dimension :: "work_gate list \<Rightarrow> bool" where
  "one_gate_per_dimension gs \<longleftrightarrow> length gs = 6 \<and> set (map wg_dimension gs) = set dimensions"

text \<open>The overall score is derived; the one of the payload is ignored.\<close>

definition check_gates ::
  "text_env \<Rightarrow> work_context \<Rightarrow> work_gate list \<Rightarrow> work_scores \<Rightarrow> job_source \<Rightarrow> work_scores work_result" where
  "check_gates X C gs s src =
     and_then (ensure (one_gate_per_dimension gs) invalid_result) (\<lambda>_.
     and_then (check_each (check_gate X C src s) gs) (\<lambda>_. Inr (s\<lparr>ws_overall := fit_score s\<rparr>)))"

subsection \<open>Discovery and analysis\<close>

definition vacancy_source :: "discovery_vacancy \<Rightarrow> job_source" where
  "vacancy_source v = \<lparr>js_title = dv_title v, js_description = dv_source_text v, js_location = dv_location v, js_workload = []\<rparr>"

fun validate_discovery :: "text_env \<Rightarrow> work_context \<Rightarrow> discovery_vacancy list \<Rightarrow> discovery_vacancy list work_result" where
  "validate_discovery X C [] = Inr []"
| "validate_discovery X C (v # vs) =
     and_then (check_gates X C (dv_gates v) (dv_scores v) (vacancy_source v)) (\<lambda>s.
     and_then (validate_discovery X C vs) (\<lambda>vs'. Inr (v\<lparr>dv_scores := s\<rparr> # vs')))"

definition no_source :: job_source where
  "no_source = \<lparr>js_title = [], js_description = [], js_location = [], js_workload = []\<rparr>"

definition target_of :: "work_context \<Rightarrow> job_source" where
  "target_of C = or_else (cx_target C) no_source"

definition check_claim :: "text_env \<Rightarrow> work_context \<Rightarrow> analysis_claim \<Rightarrow> unit work_result" where
  "check_claim X C c =
     and_then (ground X C (cl_text c) (cl_facts c)) (\<lambda>_.
       ensure (case cl_quote c of None \<Rightarrow> True | Some q \<Rightarrow> q = [] \<or> text_in q (js_description (target_of C))) evidence_invalid)"

definition recommends_applying :: "recommendation \<Rightarrow> bool" where
  "recommends_applying r \<longleftrightarrow> r = StrongFit \<or> r = Consider"

definition validate_analysis :: "text_env \<Rightarrow> work_context \<Rightarrow> analysis_payload \<Rightarrow> analysis_payload work_result" where
  "validate_analysis X C p =
     and_then (check_gates X C (ax_gates p) (ax_scores p) (target_of C)) (\<lambda>s.
     and_then (ensure (eligibility (ax_gates p) = Eligible \<or> \<not> recommends_applying (ax_recommendation p)) invalid_result) (\<lambda>_.
     and_then (check_each (check_claim X C) (ax_claims p)) (\<lambda>_. Inr (p\<lparr>ax_scores := s\<rparr>))))"

subsection \<open>Materials\<close>

definition requirement_text :: "text_env \<Rightarrow> string \<Rightarrow> string" where
  "requirement_text X s = strip_chars '' .,:;'' (squeeze_spaces False (tx_casefold X s))"

definition requirement_supported_by_quote :: "text_env \<Rightarrow> string \<Rightarrow> string \<Rightarrow> bool" where
  "requirement_supported_by_quote X requirement quote \<longleftrightarrow> requirement_text X requirement \<noteq> []
     \<and> text_in (requirement_text X requirement) (requirement_text X quote) \<and> \<not> search explicit_negation quote"

fun distinct_targets :: "string list list \<Rightarrow> cited_text list \<Rightarrow> bool" where
  "distinct_targets seen [] \<longleftrightarrow> True"
| "distinct_targets seen (t # ts) \<longleftrightarrow>
     (let target = sort (remdups (ct_facts t)) in target \<notin> set seen \<and> distinct_targets (target # seen) ts)"

definition material_items :: "materials_payload \<Rightarrow> cited_text list" where
  "material_items p = mx_overrides p @ mx_cover_letter p @ mx_email p @ mx_answers p"

definition check_material :: "text_env \<Rightarrow> work_context \<Rightarrow> string list \<Rightarrow> cited_text \<Rightarrow> unit work_result" where
  "check_material X C selected t =
     and_then (ensure (distinct (ct_facts t) \<and> covered_by (ct_facts t) selected) evidence_invalid) (\<lambda>_.
       ground X C (ct_text t) (ct_facts t))"

definition check_requirement :: "text_env \<Rightarrow> work_context \<Rightarrow> string list \<Rightarrow> material_requirement \<Rightarrow> unit work_result" where
  "check_requirement X C selected r =
     and_then (ensure (text_in (mr_quote r) (js_description (target_of C)) \<and> distinct (mr_facts r)
         \<and> covered_by (mr_facts r) selected \<and> requirement_supported_by_quote X (mr_requirement r) (mr_quote r))
       evidence_invalid) (\<lambda>_. ground X C (mr_requirement r) (mr_facts r))"

definition validate_materials :: "text_env \<Rightarrow> work_context \<Rightarrow> materials_payload \<Rightarrow> materials_payload work_result" where
  "validate_materials X C p =
     and_then (ensure (distinct (mx_selected p) \<and> covered_by (mx_selected p) (fact_ids C)) evidence_invalid) (\<lambda>_.
     and_then (ensure (cx_preset C = Some (mx_preset p)) invalid_result) (\<lambda>_.
     and_then (ensure (distinct (map ct_id (material_items p))) invalid_result) (\<lambda>_.
     and_then (ensure (distinct_targets [] (mx_overrides p)) invalid_result) (\<lambda>_.
     and_then (check_each (check_material X C (mx_selected p)) (material_items p)) (\<lambda>_.
     and_then (check_each (check_requirement X C (mx_selected p)) (mx_requirements p)) (\<lambda>_. Inr p))))))"

subsection \<open>Proposals\<close>

definition max_result_bytes :: int where
  "max_result_bytes = 262144"

definition validate_proposal_payload ::
  "text_env \<Rightarrow> (external_payload \<Rightarrow> int) \<Rightarrow> work_kind \<Rightarrow> work_context \<Rightarrow> external_payload \<Rightarrow> external_payload work_result" where
  "validate_proposal_payload X size_of kind C p =
     and_then (ensure (size_of p \<le> max_result_bytes) invalid_result) (\<lambda>_.
     and_then (ensure (payload_kind p = kind) invalid_result) (\<lambda>_.
     case p of
       DiscoveryPayload vs \<Rightarrow> and_then (validate_discovery X C vs) (\<lambda>vs'. Inr (DiscoveryPayload vs'))
     | AnalysisPayload a \<Rightarrow> and_then (validate_analysis X C a) (\<lambda>a'. Inr (AnalysisPayload a'))
     | MaterialsPayload m \<Rightarrow> and_then (validate_materials X C m) (\<lambda>m'. Inr (MaterialsPayload m'))))"

end
