(* ===== verification/Attestation.thy ===== *)
theory Attestation
  imports Proposals
begin

text \<open>
  The acceptance of an external analysis, \<open>agent_work/analysis_acceptance.py\<close>, and the check that a
  stored analysis is still the accepted one, \<open>is_external_agent_match_attested\<close> of
  \<open>ai/attestation.py\<close>. \<open>external_env\<close> puts the checks of \<open>Proposals\<close> and this writer into the
  services of \<open>AgentWork\<close>; the context of a request is built from the vault without the analysis
  columns of its jobs, which \<open>build_context_snapshot\<close> does not read.
\<close>

subsection \<open>The analysis columns of a job\<close>

text \<open>The JSON of an external analysis, or any other. Explanations and reasons are left out.\<close>

record external_analysis =
  xa_recommendation :: recommendation
  xa_gates :: "work_gate list"
  xa_claims :: "analysis_claim list"
  xa_scores :: "int list \<times> int"  \<comment> \<open>the six dimensions, overall\<close>
  xa_request :: string
  xa_proposal :: string
  xa_grant :: string
  xa_input_digest :: string
  xa_payload_digest :: string

datatype structured = ExternalAnalysis external_analysis | OtherAnalysis string

record analyzed_job = job_row +
  aj_skill :: "rat option"
  aj_experience :: "rat option"
  aj_intent :: "rat option"
  aj_language :: "rat option"
  aj_location :: "rat option"
  aj_transferability :: "rat option"
  aj_qualification_gap :: "rat option"
  aj_structured :: "structured option"
  aj_provenance :: "string option"
  aj_model_id :: "string option"
  aj_contract_version :: "string option"
  aj_validated_at :: "instant option"
  aj_output_fingerprint :: "string option"
  aj_row_index :: "int option"
  aj_input_fingerprint :: "string option"
  aj_legacy_snapshot :: "string option"
  aj_red_flags :: "string list option"

definition clear_analysis :: "analyzed_job \<Rightarrow> analyzed_job" where
  "clear_analysis j = j\<lparr>jb_affinity_score := None, jb_affinity_analysis := None, jb_worth_applying := None,
     aj_skill := None, aj_experience := None, aj_intent := None, aj_language := None, aj_location := None,
     aj_transferability := None, aj_qualification_gap := None, aj_structured := None, aj_provenance := None,
     aj_model_id := None, aj_contract_version := None, aj_validated_at := None, jb_execution_id := None,
     aj_output_fingerprint := None, jb_row_fingerprint := None, aj_row_index := None,
     aj_input_fingerprint := None, aj_legacy_snapshot := None, aj_red_flags := None\<rparr>"

subsection \<open>Acceptance\<close>

fun decimal :: "nat \<Rightarrow> string" where
  "decimal n = (if n < 10 then [char_of (48 + n)] else decimal (n div 10) @ [char_of (48 + n mod 10)])"

declare decimal.simps [simp del]

definition show_int :: "int \<Rightarrow> string" where
  "show_int n = (if n < 0 then CHR ''-'' # decimal (nat (- n)) else decimal (nat n))"

fun recommendation_text :: "recommendation \<Rightarrow> string" where
  "recommendation_text StrongFit = ''strong_fit''"
| "recommendation_text Consider = ''consider''"
| "recommendation_text WeakFit = ''weak_fit''"
| "recommendation_text InsufficientEvidence = ''insufficient_evidence''"

definition worth_applying :: "analysis_payload \<Rightarrow> bool" where
  "worth_applying a \<longleftrightarrow> eligibility (ax_gates a) = Eligible \<and> recommends_applying (ax_recommendation a)"

definition score_values :: "work_scores \<Rightarrow> int list \<times> int" where
  "score_values s = (map (ws_score s) dimensions, ws_overall s)"

definition structured_of ::
  "(work_context, 'r, 'o) work_request \<Rightarrow> external_payload proposal \<Rightarrow> analysis_payload \<Rightarrow> external_analysis" where
  "structured_of q p a = \<lparr>xa_recommendation = ax_recommendation a, xa_gates = ax_gates a, xa_claims = ax_claims a,
     xa_scores = score_values (ax_scores a), xa_request = wr_id q, xa_proposal = pp_id p, xa_grant = pp_grant p,
     xa_input_digest = wr_digest q, xa_payload_digest = pp_digest p\<rparr>"

definition analyzed ::
  "(work_context, 'r, 'o) work_request \<Rightarrow> external_payload proposal \<Rightarrow> string option \<times> string \<Rightarrow> analysis_payload
     \<Rightarrow> instant \<Rightarrow> analyzed_job \<Rightarrow> analyzed_job" where
  "analyzed q p labels a now j = (clear_analysis j)
     \<lparr>jb_affinity_score := Some (rat_of_int (ws_overall (ax_scores a))),
      jb_worth_applying := Some (worth_applying a),
      aj_provenance := Some ''external_agent_proposal'',
      aj_model_id := Some (text_or (fst labels) (text_or (Some (snd labels)) ''external-agent'')),
      aj_contract_version := Some ''1.0'',
      aj_validated_at := Some now,
      aj_structured := Some (ExternalAnalysis (structured_of q p a)),
      aj_skill := Some (rat_of_int (ws_score (ax_scores a) Role)),
      aj_experience := Some (rat_of_int (ws_score (ax_scores a) Requirements)),
      aj_language := Some (rat_of_int (ws_score (ax_scores a) Language)),
      aj_location := Some (rat_of_int (ws_score (ax_scores a) Location)),
      jb_affinity_analysis := Some (''External Agent Analysis: '' @ recommendation_text (ax_recommendation a)
        @ '' (Score: '' @ show_int (ws_overall (ax_scores a)) @ '')'')\<rparr>"

definition owned_job :: "int \<Rightarrow> int \<Rightarrow> analyzed_job table \<Rightarrow> analyzed_job option" where
  "owned_job uid jid jobs = select_first (\<lambda>j. jb_id j = jid \<and> jb_user j = uid) jobs"

definition accept_analysis ::
  "instant \<Rightarrow> (work_context, 'r, 'o) work_request \<Rightarrow> external_payload proposal \<Rightarrow> string option \<times> string
     \<Rightarrow> analysis_payload \<Rightarrow> analyzed_job table \<Rightarrow> analyzed_job table work_result" where
  "accept_analysis now q p labels a jobs =
     (case wt_job (wr_targets q) of
        None \<Rightarrow> Inl (WorkError ''work_not_found'')
      | Some jid \<Rightarrow> (case owned_job (wr_user q) jid jobs of
          None \<Rightarrow> Inl (WorkError ''work_not_found'')
        | Some _ \<Rightarrow> Inr (update_rows (\<lambda>j. jb_id j = jid \<and> jb_user j = wr_user q) (analyzed q p labels a now) jobs)))"

subsection \<open>The services with these checks\<close>

record 'v agent_vault =
  av_rest :: 'v
  av_jobs :: "analyzed_job table"

definition job_identity :: "analyzed_job \<Rightarrow> int \<times> int \<times> int" where
  "job_identity j = (jb_id j, jb_user j, jb_scraped_job_id j)"

definition context_inputs :: "'v agent_vault \<Rightarrow> 'v \<times> (int \<times> int \<times> int) list" where
  "context_inputs v = (av_rest v, map job_identity (av_jobs v))"

record ('v, 'r, 'o) external_lib =
  xl_text :: text_env
  xl_size :: "external_payload \<Rightarrow> int"
  xl_labels :: "string \<Rightarrow> string option \<times> string"  \<comment> \<open>model and client label of a proposal\<close>
  xl_nothing :: 'o  \<comment> \<open>the outcome of a writer that creates no rows\<close>
  xl_other :: "'v agent_vault \<Rightarrow> (work_context, 'r, 'o) work_request \<Rightarrow> external_payload proposal
     \<Rightarrow> external_payload \<Rightarrow> instant \<Rightarrow> ('v agent_vault \<times> 'o) work_result"

definition write_payload ::
  "('v, 'r, 'o) external_lib \<Rightarrow> 'v agent_vault \<Rightarrow> (work_context, 'r, 'o) work_request \<Rightarrow> external_payload proposal
     \<Rightarrow> external_payload \<Rightarrow> instant \<Rightarrow> ('v agent_vault \<times> 'o) work_result" where
  "write_payload L v q p payload now = (case payload of
      AnalysisPayload a \<Rightarrow> and_then (accept_analysis now q p (xl_labels L (pp_id p)) a (av_jobs v))
        (\<lambda>jobs. Inr (v\<lparr>av_jobs := jobs\<rparr>, xl_nothing L))
    | _ \<Rightarrow> xl_other L v q p payload now)"

definition external_env ::
  "('v, 'r, 'o) external_lib
     \<Rightarrow> ('v \<times> (int \<times> int \<times> int) list, work_context, external_payload, 'r, 'o) work_env
     \<Rightarrow> ('v agent_vault, work_context, external_payload, 'r, 'o) work_env" where
  "external_env L W = \<lparr>
     we_build = (\<lambda>v. we_build W (context_inputs v)),
     we_owns_job = (\<lambda>v uid jid. owned_job uid jid (av_jobs v) \<noteq> None),
     we_owns_application = (\<lambda>v. we_owns_application W (context_inputs v)),
     we_owns_resume = (\<lambda>v. we_owns_resume W (context_inputs v)),
     we_resume_preset = (\<lambda>v. we_resume_preset W (context_inputs v)),
     we_validate = (\<lambda>t C p. validate_proposal_payload (xl_text L) (xl_size L) (wt_kind t) C p),
     we_parse = we_parse W,
     we_payload_digest = we_payload_digest W,
     we_write = write_payload L\<rparr>"

subsection \<open>Attestation\<close>

definition accepted_analysis_request ::
  "int \<Rightarrow> string \<Rightarrow> int \<Rightarrow> (work_context, 'r, 'o) work_request table \<Rightarrow> (work_context, 'r, 'o) work_request option" where
  "accepted_analysis_request uid rid jid reqs = select_first (\<lambda>q. wr_id q = rid \<and> wr_user q = uid
     \<and> wr_state q = work_state.Accepted \<and> wt_kind (wr_targets q) = Analyze \<and> wt_job (wr_targets q) = Some jid) reqs"

definition receipt_names :: "(work_context, 'r, 'o) work_request \<Rightarrow> external_payload proposal \<Rightarrow> bool" where
  "receipt_names q p \<longleftrightarrow> (case wr_receipt q of None \<Rightarrow> False | Some rc \<Rightarrow> rt_proposal rc = pp_id p)"

definition shows_analysis ::
  "(work_context, 'r, 'o) work_request \<Rightarrow> external_payload proposal \<Rightarrow> analysis_payload \<Rightarrow> external_analysis
     \<Rightarrow> analyzed_job \<Rightarrow> bool" where
  "shows_analysis q p a x j \<longleftrightarrow> x = structured_of q p a
     \<and> jb_affinity_score j = Some (rat_of_int (fit_score (ax_scores a)))
     \<and> jb_worth_applying j = Some (worth_applying a) \<and> jb_execution_id j = None"

text \<open>The stored payload, parsed and checked again against the frozen context.\<close>

definition checked_analysis ::
  "('v agent_vault, work_context, external_payload, 'r, 'o) work_env \<Rightarrow> (work_context, 'r, 'o) work_request
     \<Rightarrow> external_payload proposal \<Rightarrow> analysis_payload option" where
  "checked_analysis E q p = (case we_parse E (pp_payload p) of
      Some (AnalysisPayload raw) \<Rightarrow>
        (case we_validate E (wr_targets q) (wr_context q) (AnalysisPayload raw) of
           Inr (AnalysisPayload a) \<Rightarrow> Some a
         | _ \<Rightarrow> None)
    | _ \<Rightarrow> None)"

definition analysis_proposal ::
  "int \<Rightarrow> string \<Rightarrow> string \<Rightarrow> external_payload proposal table \<Rightarrow> external_payload proposal option" where
  "analysis_proposal uid pid rid props = select_first (\<lambda>p. pp_id p = pid \<and> pp_request p = rid \<and> pp_user p = uid) props"

definition external_match_attested ::
  "('v agent_vault, work_context, external_payload, 'r, 'o) work_env
     \<Rightarrow> ('v agent_vault, work_context, external_payload, 'r, 'o) work_db \<Rightarrow> int \<Rightarrow> analyzed_job \<Rightarrow> bool" where
  "external_match_attested E db uid j \<longleftrightarrow> aj_provenance j = Some ''external_agent_proposal''
     \<and> (case aj_structured j of
          Some (ExternalAnalysis x) \<Rightarrow>
            (case accepted_analysis_request uid (xa_request x) (jb_id j) (wd_requests db) of
               None \<Rightarrow> False
             | Some q \<Rightarrow> (case analysis_proposal uid (xa_proposal x) (wr_id q) (wd_proposals db) of
                 None \<Rightarrow> False
               | Some p \<Rightarrow> receipt_names q p
                   \<and> (case checked_analysis E q p of
                        None \<Rightarrow> False
                      | Some a \<Rightarrow> inputs_current E (wd_vault db) q
                          \<and> we_payload_digest E (AnalysisPayload a) = pp_digest p \<and> shows_analysis q p a x j)))
        | _ \<Rightarrow> False)"

end
