(* ===== verification/ProposalClaims.thy ===== *)
theory ProposalClaims
  imports Proposals "HOL-Library.Multiset"
begin

text \<open>
  What an external proposal can achieve: its overall score is derived, rounds half up and loses the
  weight of everything unknown; a recommendation to apply rests on six resolved gates; every
  assertion rests on the text of one cited fact of the frozen context; and a validated proposal
  validates again unless the derived score has made it too long.
\<close>

subsection \<open>Scores\<close>

definition scores_valid :: "work_scores \<Rightarrow> bool" where
  "scores_valid s \<longleftrightarrow> list_all (\<lambda>d. 0 \<le> ws_score s d \<and> ws_score s d \<le> 100) dimensions"

fun weight_of :: "dimension \<Rightarrow> int" where
  "weight_of Role = 25"
| "weight_of Requirements = 30"
| "weight_of Language = 15"
| "weight_of Location = 15"
| "weight_of Contract = 10"
| "weight_of Freshness = 5"
| "weight_of General = 0"

definition unknown_weight :: "work_gate list \<Rightarrow> int" where
  "unknown_weight gs = sum_list (map (\<lambda>g. if wg_unknowns g \<noteq> [] then weight_of (wg_dimension g) else 0) gs)"

lemma weighted_score_weights: "weighted_score s = sum_list (map (\<lambda>d. ws_score s d * weight_of d) dimensions)"
  by (simp add: weighted_score_def dimensions_def weights_def)

lemma weight_nonneg: "0 \<le> weight_of d"
  by (cases d) auto

lemma gate_dimensions:
  assumes "one_gate_per_dimension gs"
  shows "mset (map wg_dimension gs) = mset dimensions"
proof -
  have "card (set (map wg_dimension gs)) = length (map wg_dimension gs)"
    using assms by (simp add: one_gate_per_dimension_def dimensions_def)
  then have "distinct (map wg_dimension gs)" by (rule card_distinct)
  moreover have "distinct dimensions" by (simp add: dimensions_def)
  ultimately show ?thesis
    using assms set_eq_iff_mset_eq_distinct by (metis one_gate_per_dimension_def)
qed

lemma sum_over_gates:
  assumes "one_gate_per_dimension gs"
  shows "sum_list (map (\<lambda>g. f (wg_dimension g)) gs) = (sum_list (map f dimensions) :: int)"
proof -
  have "mset (map f (map wg_dimension gs)) = mset (map f dimensions)"
    using gate_dimensions [OF assms] by (metis mset_map)
  then have "sum_list (map f (map wg_dimension gs)) = sum_list (map f dimensions)"
    by (metis sum_mset_sum_list)
  then show ?thesis by (simp add: comp_def)
qed

lemma check_each_Inr: "check_each f xs = Inr u \<longleftrightarrow> (\<forall>x \<in> set xs. f x = Inr ())"
  by (induction xs) (auto simp: and_then_Inr)

lemma ground_all_Inr: "ground_all X C ids qs = Inr u \<longleftrightarrow> (\<forall>q \<in> set qs. ground X C q ids = Inr ())"
  by (induction qs) (auto simp: and_then_Inr)

lemma check_gate_Inr:
  assumes "check_gate X C src s g = Inr u"
  shows "gate_citations C src g" "wg_status g = Eligible \<Longrightarrow> eligible_prerequisites C g"
    "wg_unknowns g \<noteq> [] \<Longrightarrow> wg_status g \<noteq> Eligible \<and> ws_score s (wg_dimension g) = 0"
    "wg_unknowns g = [] \<Longrightarrow> wg_status g \<noteq> Hold \<and> wg_quotes g \<noteq> []
      \<and> (\<forall>q \<in> set (wg_quotes g). quote_supports_dimension X (wg_dimension g) q src C (wg_facts g))"
    "wg_status g = Eligible \<Longrightarrow> wg_dimension g = Location \<or> wg_dimension g = Contract \<Longrightarrow> matches_preferences X C g"
    "wg_status g = Eligible \<Longrightarrow> career_dimension (wg_dimension g) \<Longrightarrow>
      wg_facts g \<noteq> [] \<and> (\<forall>q \<in> set (wg_quotes g). ground X C q (wg_facts g) = Inr ())"
  using assms
  by (auto simp: check_gate_def and_then_Inr gate_evidence_def ground_all_Inr list_all_iff split: if_splits)

lemma check_gates_Inr:
  assumes "check_gates X C gs s src = Inr s'"
  shows "one_gate_per_dimension gs" "\<forall>g \<in> set gs. check_gate X C src s g = Inr ()" "s' = s\<lparr>ws_overall := fit_score s\<rparr>"
  using assms by (auto simp: check_gates_def and_then_Inr check_each_Inr)

lemma known_score:
  assumes "check_gates X C gs s src = Inr s'" "scores_valid s"
  shows "0 \<le> weighted_score s" "weighted_score s \<le> 100 * (100 - unknown_weight gs)"
proof -
  note g = check_gates_Inr [OF assms(1)]
  have dims: "wg_dimension x \<in> set dimensions" if "x \<in> set gs" for x
    using g(1) that by (auto simp: one_gate_per_dimension_def)
  show "0 \<le> weighted_score s"
    using assms(2) by (simp add: weighted_score_weights scores_valid_def dimensions_def)
  have "ws_score s (wg_dimension x) * weight_of (wg_dimension x)
      \<le> 100 * weight_of (wg_dimension x) - 100 * (if wg_unknowns x \<noteq> [] then weight_of (wg_dimension x) else 0)"
    if "x \<in> set gs" for x
  proof (cases "wg_unknowns x = []")
    case True
    with dims [OF that] assms(2) weight_nonneg [of "wg_dimension x"] show ?thesis
      by (auto simp: scores_valid_def list_all_iff intro: mult_right_mono)
  next
    case False
    with check_gate_Inr(3) g(2) that show ?thesis by fastforce
  qed
  then have "sum_list (map (\<lambda>x. ws_score s (wg_dimension x) * weight_of (wg_dimension x)) gs)
      \<le> sum_list (map (\<lambda>x. 100 * weight_of (wg_dimension x)
          - 100 * (if wg_unknowns x \<noteq> [] then weight_of (wg_dimension x) else 0)) gs)"
    by (intro sum_list_mono) auto
  also have "\<dots> = 100 * sum_list (map (\<lambda>x. weight_of (wg_dimension x)) gs) - 100 * unknown_weight gs"
    by (simp add: unknown_weight_def sum_list_subtractf sum_list_const_mult)
  also have "sum_list (map (\<lambda>x. weight_of (wg_dimension x)) gs) = 100"
    using sum_over_gates [OF g(1), of weight_of] by (simp add: dimensions_def)
  finally show "weighted_score s \<le> 100 * (100 - unknown_weight gs)"
    using sum_over_gates [OF g(1), of "\<lambda>d. ws_score s d * weight_of d"] by (simp add: weighted_score_weights)
qed

lemma fit_score_rounds:
  assumes "0 \<le> weighted_score s"
  shows "200 * fit_score s \<le> 2 * weighted_score s + 100" "2 * weighted_score s + 100 < 200 * fit_score s + 200"
proof -
  have "fit_score s = (2 * weighted_score s + 100) div 200"
    using assms by (cases "weighted_score s = 0") (simp_all add: fit_score_def quantize_half_up_def)
  then show "200 * fit_score s \<le> 2 * weighted_score s + 100" "2 * weighted_score s + 100 < 200 * fit_score s + 200"
    by linarith+
qed

subsection \<open>Assertions\<close>

text \<open>The texts of a payload that assert something about the candidate, with the facts they cite.\<close>

definition gate_assertions :: "work_gate list \<Rightarrow> (string \<times> string list) list" where
  "gate_assertions gs = concat (map (\<lambda>g. if wg_status g = Eligible \<and> career_dimension (wg_dimension g)
     then map (\<lambda>q. (q, wg_facts g)) (wg_quotes g) else []) gs)"

fun assertions :: "external_payload \<Rightarrow> (string \<times> string list) list" where
  "assertions (DiscoveryPayload vs) = concat (map (\<lambda>v. gate_assertions (dv_gates v)) vs)"
| "assertions (AnalysisPayload a) = gate_assertions (ax_gates a) @ map (\<lambda>c. (cl_text c, cl_facts c)) (ax_claims a)"
| "assertions (MaterialsPayload m) = map (\<lambda>t. (ct_text t, ct_facts t)) (material_items m)
     @ map (\<lambda>r. (mr_requirement r, mr_facts r)) (mx_requirements m)"

definition evidenced :: "text_env \<Rightarrow> work_context \<Rightarrow> string \<times> string list \<Rightarrow> bool" where
  "evidenced X C = (\<lambda>(text, ids). covered_by ids (fact_ids C) \<and> meaningful_tokens X text \<noteq> []
     \<and> list_ex (\<lambda>f. xf_id f \<in> set ids \<and> covered_by (meaningful_tokens X text) (lexical_tokens X (tx_json X f))) (cx_facts C))"

lemma document_of_Some: "document_of C i = Some f \<Longrightarrow> f \<in> set (cx_facts C) \<and> xf_id f = i"
  using select_first_Some [of "\<lambda>f. xf_id f = i" "rev (cx_facts C)" f] by (simp add: document_of_def)

lemma ground_evidenced: "ground X C text ids = Inr u \<Longrightarrow> evidenced X C (text, ids)"
  by (fastforce simp: ground_def grounded_def evidenced_def covered_by_def list_all_iff list_ex_iff fact_ids_def Let_def
      split: option.splits dest: document_of_Some)

lemma gate_assertions_evidenced:
  assumes "check_gates X C gs s src = Inr s'"
  shows "list_all (evidenced X C) (gate_assertions gs)"
  using check_gates_Inr(2) [OF assms]
  by (auto simp: gate_assertions_def list_all_iff dest!: check_gate_Inr(6) intro: ground_evidenced)

lemma validate_discovery_evidenced:
  "validate_discovery X C vs = Inr vs' \<Longrightarrow> list_all (evidenced X C) (assertions (DiscoveryPayload vs))"
  by (induction vs arbitrary: vs') (auto simp: and_then_Inr dest: gate_assertions_evidenced)

lemma validate_analysis_evidenced:
  "validate_analysis X C a = Inr a' \<Longrightarrow> list_all (evidenced X C) (assertions (AnalysisPayload a))"
  by (auto simp: validate_analysis_def and_then_Inr check_each_Inr check_claim_def list_all_iff
      dest!: gate_assertions_evidenced intro: ground_evidenced)

lemma validate_materials_evidenced:
  "validate_materials X C m = Inr m' \<Longrightarrow> list_all (evidenced X C) (assertions (MaterialsPayload m))"
  by (auto simp: validate_materials_def and_then_Inr check_each_Inr check_material_def check_requirement_def list_all_iff
      intro: ground_evidenced)

subsection \<open>Revalidation\<close>

lemma check_gates_again:
  assumes "check_gates X C gs s src = Inr s'"
  shows "check_gates X C gs s' src = Inr s'"
proof -
  have kept: "ws_score (s\<lparr>ws_overall := n\<rparr>) = ws_score s" for n by simp
  have "check_gate X C src (s\<lparr>ws_overall := n\<rparr>) = check_gate X C src s" for n
    by (rule ext) (simp only: check_gate_def kept)
  moreover have "fit_score (s\<lparr>ws_overall := n\<rparr>) = fit_score s" for n
    by (simp add: fit_score_def weighted_score_def)
  ultimately show ?thesis using assms by (auto simp: check_gates_def and_then_Inr)
qed

lemma validate_discovery_again: "validate_discovery X C vs = Inr vs' \<Longrightarrow> validate_discovery X C vs' = Inr vs'"
proof (induction vs arbitrary: vs')
  case (Cons v vs)
  then obtain s ws where s: "check_gates X C (dv_gates v) (dv_scores v) (vacancy_source v) = Inr s"
    "validate_discovery X C vs = Inr ws" "vs' = v\<lparr>dv_scores := s\<rparr> # ws" by (auto simp: and_then_Inr)
  have "vacancy_source (v\<lparr>dv_scores := s\<rparr>) = vacancy_source v" by (simp add: vacancy_source_def)
  with s Cons.IH check_gates_again [OF s(1)] show ?case by simp
qed simp

lemma validate_analysis_again: "validate_analysis X C a = Inr a' \<Longrightarrow> validate_analysis X C a' = Inr a'"
  by (auto simp: validate_analysis_def and_then_Inr dest: check_gates_again)

lemma validate_materials_same: "validate_materials X C m = Inr m' \<Longrightarrow> m' = m"
  by (auto simp: validate_materials_def and_then_Inr)

lemma validate_materials_again: "validate_materials X C m = Inr m' \<Longrightarrow> validate_materials X C m' = Inr m'"
  using validate_materials_same by blast

subsection \<open>An analysis\<close>

definition demo_text :: text_env where
  "demo_text = \<lparr>tx_fold = ascii_lower, tx_casefold = ascii_lower, tx_json = xf_description\<rparr>"

definition demo_context :: work_context where
  "demo_context = \<lparr>cx_facts = [\<lparr>xf_id = ''f1'', xf_kind = ''language'', xf_title = ''English'',
       xf_description = ''english engineer 5 years'', xf_attributes = []\<rparr>],
     cx_preferences = (\<lambda>k. if k = ''remote_only'' then PreferenceFlag True
       else if k = ''contract_types'' then PreferenceList [''permanent''] else NoPreference),
     cx_target = Some \<lparr>js_title = ''Engineer'', js_description = ''English 5 years Remote Permanent Posted'',
       js_location = ''Zug'', js_workload = []\<rparr>,
     cx_preset = None\<rparr>"

definition demo_gate :: "dimension \<Rightarrow> string \<Rightarrow> work_gate" where
  "demo_gate d q = \<lparr>wg_dimension = d, wg_status = Eligible, wg_facts = [''f1''], wg_quotes = [q], wg_unknowns = []\<rparr>"

definition demo_scores :: work_scores where
  "demo_scores = \<lparr>ws_score = (\<lambda>d. if d = Role then 90 else 81), ws_overall = 0\<rparr>"

definition demo_analysis :: analysis_payload where
  "demo_analysis = \<lparr>ax_gates = [demo_gate Role ''Engineer'', demo_gate Requirements ''5 years'', demo_gate Language ''English'',
       demo_gate Location ''Remote'', demo_gate Contract ''Permanent'', demo_gate Freshness ''Posted''],
     ax_scores = demo_scores, ax_claims = [\<lparr>cl_text = ''English engineer'', cl_facts = [''f1''], cl_quote = None\<rparr>],
     ax_recommendation = StrongFit\<rparr>"

lemma demo_overall: "fit_score demo_scores = 83"
  by code_simp

lemma demo_role:
  "check_gate demo_text demo_context (target_of demo_context) demo_scores (demo_gate Role ''Engineer'') = Inr ()"
  by code_simp

lemma demo_requirements:
  "check_gate demo_text demo_context (target_of demo_context) demo_scores (demo_gate Requirements ''5 years'') = Inr ()"
  by code_simp

lemma demo_language:
  "check_gate demo_text demo_context (target_of demo_context) demo_scores (demo_gate Language ''English'') = Inr ()"
  by code_simp

lemma demo_location:
  "check_gate demo_text demo_context (target_of demo_context) demo_scores (demo_gate Location ''Remote'') = Inr ()"
  by code_simp

lemma demo_contract:
  "check_gate demo_text demo_context (target_of demo_context) demo_scores (demo_gate Contract ''Permanent'') = Inr ()"
  by code_simp

lemma demo_freshness:
  "check_gate demo_text demo_context (target_of demo_context) demo_scores (demo_gate Freshness ''Posted'') = Inr ()"
  by code_simp

lemma demo_gates: "check_gates demo_text demo_context (ax_gates demo_analysis) demo_scores (target_of demo_context)
    = Inr (demo_scores\<lparr>ws_overall := 83\<rparr>)"
proof -
  have "one_gate_per_dimension (ax_gates demo_analysis)" by code_simp
  then show ?thesis
    using demo_role demo_requirements demo_language demo_location demo_contract demo_freshness
    by (simp add: check_gates_def demo_overall ensure_def) (simp add: demo_analysis_def)
qed

lemma demo_claim: "check_claim demo_text demo_context \<lparr>cl_text = ''English engineer'', cl_facts = [''f1''], cl_quote = None\<rparr> = Inr ()"
  by code_simp

lemma demo_validated: "validate_proposal_payload demo_text (\<lambda>_. 100) Analyze demo_context (AnalysisPayload demo_analysis)
    = Inr (AnalysisPayload (demo_analysis\<lparr>ax_scores := demo_scores\<lparr>ws_overall := 83\<rparr>\<rparr>))"
proof -
  have "eligibility (ax_gates demo_analysis) = Eligible" by code_simp
  moreover have "ax_scores demo_analysis = demo_scores" "ax_claims demo_analysis
      = [\<lparr>cl_text = ''English engineer'', cl_facts = [''f1''], cl_quote = None\<rparr>]" by (simp_all add: demo_analysis_def)
  ultimately show ?thesis
    using demo_gates demo_claim
    by (simp add: validate_proposal_payload_def validate_analysis_def max_result_bytes_def ensure_def)
qed

subsection \<open>Properties\<close>

text \<open>C20: The overall score of checked gates is derived from the six dimension scores: it is their weighted
  mean rounded half up, it ignores the overall score that the payload brings, it lies between 0 and
  100, and it cannot exceed 100 minus the weight of the dimensions with unknown information.\<close>

theorem overall_score_is_derived:
  assumes "check_gates X C gs s src = Inr s'" and "scores_valid s"
  shows "ws_score s' = ws_score s \<and> 200 * ws_overall s' \<le> 2 * weighted_score s + 100
    \<and> 2 * weighted_score s + 100 < 200 * ws_overall s' + 200
    \<and> 0 \<le> ws_overall s' \<and> ws_overall s' \<le> 100 - unknown_weight gs"
proof -
  note rounds = fit_score_rounds [OF known_score(1) [OF assms]]
  have "200 * (fit_score s + unknown_weight gs) < 200 * 101" using rounds(1) known_score(2) [OF assms] by simp
  then have "fit_score s \<le> 100 - unknown_weight gs" by simp
  moreover have "200 * (- 1) < 200 * fit_score s" using rounds(2) known_score(1) [OF assms] by linarith
  then have "0 \<le> fit_score s" by simp
  ultimately show ?thesis using rounds check_gates_Inr(3) [OF assms(1)] by simp
qed

theorem overall_score_is_derived_witness:
  "ws_score (demo_scores\<lparr>ws_overall := 83\<rparr>) = ws_score demo_scores
    \<and> 200 * ws_overall (demo_scores\<lparr>ws_overall := 83\<rparr>) \<le> 2 * weighted_score demo_scores + 100
    \<and> 2 * weighted_score demo_scores + 100 < 200 * ws_overall (demo_scores\<lparr>ws_overall := 83\<rparr>) + 200
    \<and> 0 \<le> ws_overall (demo_scores\<lparr>ws_overall := 83\<rparr>)
    \<and> ws_overall (demo_scores\<lparr>ws_overall := 83\<rparr>) \<le> 100 - unknown_weight (ax_gates demo_analysis)"
proof -
  have "scores_valid demo_scores" by code_simp
  from overall_score_is_derived [OF demo_gates this] show ?thesis .
qed

text \<open>An eligible gate of an analysis with everything behind it: quotations of the advert that support
  its dimension, facts of the context, and a confirmed language or a matching preference.\<close>

definition gate_earned :: "text_env \<Rightarrow> work_context \<Rightarrow> work_gate \<Rightarrow> bool" where
  "gate_earned X C g \<longleftrightarrow> wg_status g = Eligible \<and> wg_unknowns g = [] \<and> wg_quotes g \<noteq> []
     \<and> covered_by (wg_facts g) (fact_ids C)
     \<and> list_all (\<lambda>q. text_in q (source_text (target_of C))
         \<and> quote_supports_dimension X (wg_dimension g) q (target_of C) C (wg_facts g)) (wg_quotes g)
     \<and> (case wg_dimension g of
          Language \<Rightarrow> list_ex (\<lambda>f. xf_id f \<in> set (wg_facts g) \<and> xf_kind f = ''language'') (cx_facts C)
        | Location \<Rightarrow> matches_preferences X C g
        | Contract \<Rightarrow> matches_preferences X C g
        | _ \<Rightarrow> True)"

lemma recommendation_is_earned:
  assumes "validate_proposal_payload X size_of kind C (AnalysisPayload a) = Inr p'" and "recommends_applying (ax_recommendation a)"
  shows "one_gate_per_dimension (ax_gates a) \<and> list_all (gate_earned X C) (ax_gates a)"
proof -
  from assms obtain s' where g: "check_gates X C (ax_gates a) (ax_scores a) (target_of C) = Inr s'"
    and e: "eligibility (ax_gates a) = Eligible"
    by (auto simp: validate_proposal_payload_def validate_analysis_def and_then_Inr)
  from e have st: "wg_status x = Eligible" "wg_unknowns x = []" if "x \<in> set (ax_gates a)" for x
    using that by (cases "wg_status x"; auto simp: eligibility_def list_ex_iff split: if_splits)+
  have "gate_earned X C x" if x: "x \<in> set (ax_gates a)" for x
  proof -
    from x check_gates_Inr(2) [OF g] have "check_gate X C (target_of C) (ax_scores a) x = Inr ()" by blast
    note facts = check_gate_Inr [OF this]
    from facts(1,2,4,5) st [OF x] show ?thesis
      by (auto simp: gate_earned_def gate_citations_def eligible_prerequisites_def list_all_iff split: dimension.splits)
  qed
  with check_gates_Inr(1) [OF g] show ?thesis by (simp add: list_all_iff)
qed

text \<open>A validated payload of any kind asserts nothing that the frozen context does not say: every claim,
  every material text, every requirement and every quotation of an eligible career gate cites facts
  of the context only, and all its meaningful words occur in the text of one single cited fact.\<close>

lemma assertions_are_evidenced:
  assumes "validate_proposal_payload X size_of kind C p = Inr p'"
  shows "list_all (evidenced X C) (assertions p) \<and> assertions p' = assertions p"
proof (cases p)
  case (DiscoveryPayload vs)
  have "map dv_gates ws = map dv_gates us" if "validate_discovery X C us = Inr ws" for us ws
    using that by (induction us arbitrary: ws) (auto simp: and_then_Inr)
  from this [of vs] assms DiscoveryPayload show ?thesis
    using validate_discovery_evidenced [of X C vs]
    by (auto simp: validate_proposal_payload_def and_then_Inr comp_def dest!: arg_cong [of _ _ "map gate_assertions"])
next
  case (AnalysisPayload a)
  with assms show ?thesis
    using validate_analysis_evidenced [of X C a]
    by (auto simp: validate_proposal_payload_def validate_analysis_def and_then_Inr)
next
  case (MaterialsPayload m)
  with assms show ?thesis
    using validate_materials_evidenced [of X C m] validate_materials_same [of X C m]
    by (auto simp: validate_proposal_payload_def and_then_Inr)
qed

text \<open>C40: Validation runs again when a proposal is accepted, on the payload with the derived scores. It gives
  that payload back, except where the derived score has made it longer than the limit: such a
  proposal was received and can never be accepted.\<close>

theorem revalidation_may_outgrow_limit:
  assumes "validate_proposal_payload X size_of kind C p = Inr p'"
  shows "validate_proposal_payload X size_of kind C p'
    = (if size_of p' \<le> max_result_bytes then Inr p' else Inl invalid_result)"
proof (cases p)
  case (DiscoveryPayload vs)
  with assms show ?thesis
    by (auto simp: validate_proposal_payload_def and_then_Inr ensure_def dest: validate_discovery_again)
next
  case (AnalysisPayload a)
  with assms show ?thesis
    by (auto simp: validate_proposal_payload_def and_then_Inr ensure_def dest: validate_analysis_again)
next
  case (MaterialsPayload m)
  with assms show ?thesis
    by (auto simp: validate_proposal_payload_def and_then_Inr ensure_def dest: validate_materials_again)
qed

theorem revalidation_may_outgrow_limit_witness:
  "validate_proposal_payload demo_text (\<lambda>_. 100) Analyze demo_context
      (AnalysisPayload (demo_analysis\<lparr>ax_scores := demo_scores\<lparr>ws_overall := 83\<rparr>\<rparr>))
    = (if (100 :: int) \<le> max_result_bytes
       then Inr (AnalysisPayload (demo_analysis\<lparr>ax_scores := demo_scores\<lparr>ws_overall := 83\<rparr>\<rparr>)) else Inl invalid_result)"
  by (rule revalidation_may_outgrow_limit [OF demo_validated])

end
