(* ===== verification/AttestationClaims.thy ===== *)
theory AttestationClaims
  imports Attestation ProposalClaims AgentClaims
begin

text \<open>
  What reaches the vault from an external agent: an accepted payload only asserts what the frozen
  context says, an accepted analysis is attested as long as its inputs are current, and an attested
  analysis shows what an accepted and checked proposal earned.
\<close>

named_theorems external_env_simps \<open>the operations of \<open>external_env\<close>\<close>

lemma external_env_fields [external_env_simps]:
  "we_validate (external_env L W) t C p = validate_proposal_payload (xl_text L) (xl_size L) (wt_kind t) C p"
  "we_parse (external_env L W) = we_parse W" "we_payload_digest (external_env L W) = we_payload_digest W"
  "we_write (external_env L W) = write_payload L"
  by (simp_all add: external_env_def)

lemma validated_kind: "validate_proposal_payload X size_of kind C p = Inr p' \<Longrightarrow> payload_kind p = kind \<and> payload_kind p' = kind"
  by (cases p) (auto simp: validate_proposal_payload_def and_then_Inr)

lemma validated_analysis:
  assumes "validate_proposal_payload X size_of kind C (AnalysisPayload raw) = Inr p'"
  obtains a where "p' = AnalysisPayload a" "validate_analysis X C raw = Inr a" "ax_gates a = ax_gates raw"
    "ax_claims a = ax_claims raw" "ax_recommendation a = ax_recommendation raw"
    "ws_overall (ax_scores a) = fit_score (ax_scores a)"
proof -
  from assms obtain a where a: "p' = AnalysisPayload a" "validate_analysis X C raw = Inr a"
    by (auto simp: validate_proposal_payload_def and_then_Inr)
  from a(2) obtain s where s: "check_gates X C (ax_gates raw) (ax_scores raw) (target_of C) = Inr s" "a = raw\<lparr>ax_scores := s\<rparr>"
    by (auto simp: validate_analysis_def and_then_Inr)
  from check_gates_Inr(3) [OF s(1)] have "ws_overall s = fit_score s" by (simp add: fit_score_def weighted_score_def)
  with that [OF a] s(2) show thesis by simp
qed

subsection \<open>Writing an analysis\<close>

lemma clear_analysis_identity [simp]:
  "jb_id (clear_analysis j) = jb_id j" "jb_user (clear_analysis j) = jb_user j"
  "jb_scraped_job_id (clear_analysis j) = jb_scraped_job_id j" "jb_execution_id (clear_analysis j) = None"
  by (simp_all add: clear_analysis_def)

lemma analyzed_identity [simp]:
  "jb_id (analyzed q p l a now j) = jb_id j" "jb_user (analyzed q p l a now j) = jb_user j"
  "jb_scraped_job_id (analyzed q p l a now j) = jb_scraped_job_id j"
  by (simp_all add: analyzed_def)

lemma analyzed_shows:
  assumes "ws_overall (ax_scores a) = fit_score (ax_scores a)"
  shows "shows_analysis q p a (structured_of q p a) (analyzed q p l a now j)"
    "aj_provenance (analyzed q p l a now j) = Some ''external_agent_proposal''"
    "aj_structured (analyzed q p l a now j) = Some (ExternalAnalysis (structured_of q p a))"
  using assms by (simp_all add: shows_analysis_def analyzed_def)

lemma accept_analysis_Inr:
  assumes "accept_analysis now q p l a jobs = Inr jobs'"
  obtains j where "wt_job (wr_targets q) = Some (jb_id j)" "j \<in> set jobs" "jb_user j = wr_user q"
    "analyzed q p l a now j \<in> set jobs'" "map job_identity jobs' = map job_identity jobs"
proof -
  from assms obtain j where j: "wt_job (wr_targets q) = Some (jb_id j)" "j \<in> set jobs" "jb_user j = wr_user q"
    "jobs' = update_rows (\<lambda>x. jb_id x = jb_id j \<and> jb_user x = wr_user q) (analyzed q p l a now) jobs"
    by (auto simp: accept_analysis_def owned_job_def dest!: select_first_Some split: option.splits)
  have "map job_identity jobs' = map job_identity jobs"
    unfolding j(4) by (rule map_update_rows) (simp add: job_identity_def)
  moreover have "analyzed q p l a now j \<in> set jobs'"
    using update_rows_member [OF j(2), of "\<lambda>x. jb_id x = jb_id j \<and> jb_user x = wr_user q" "analyzed q p l a now"]
    by (simp add: j)
  ultimately show thesis using that j by blast
qed

text \<open>The context of a request does not see the analysis of its job.\<close>

lemma context_unchanged:
  assumes "context_inputs v' = context_inputs v"
  shows "inputs_current (external_env L W) v' q = inputs_current (external_env L W) v q"
  using assms by (simp add: inputs_current_def current_input_state_def external_env_def)

lemma inputs_current_same:
  "same_request q r \<Longrightarrow> wr_targets r = wr_targets q \<Longrightarrow> inputs_current W v r = inputs_current W v q"
  by (simp add: same_request_def inputs_current_def current_input_state_def)

lemma same_request_reads:
  assumes "same_request q r"
  shows "structured_of r p a = structured_of q p a" "wr_id r = wr_id q"
    "checked_analysis (external_env L W) r p = checked_analysis (external_env L W) q p"
    "wr_receipt r = wr_receipt q \<Longrightarrow> receipt_names r p = receipt_names q p"
    "shows_analysis r p a x j = shows_analysis q p a x j"
proof -
  have eqs: "wt_kind (wr_targets r) = wt_kind (wr_targets q)" "wr_context r = wr_context q" "wr_id r = wr_id q" "wr_digest r = wr_digest q"
    using assms by (simp_all add: same_request_def targets_follow_def)
  show "structured_of r p a = structured_of q p a" "wr_id r = wr_id q" by (simp_all add: structured_of_def eqs)
  then show "shows_analysis r p a x j = shows_analysis q p a x j" by (simp add: shows_analysis_def)
  show "checked_analysis (external_env L W) r p = checked_analysis (external_env L W) q p"
    unfolding checked_analysis_def external_env_fields eqs by (rule refl)
  show "wr_receipt r = wr_receipt q \<Longrightarrow> receipt_names r p = receipt_names q p" by (simp add: receipt_names_def)
qed

subsection \<open>When an analysis is attested\<close>

definition attested_by ::
  "('v agent_vault, work_context, external_payload, 'r, 'o) work_env
     \<Rightarrow> ('v agent_vault, work_context, external_payload, 'r, 'o) work_db \<Rightarrow> int \<Rightarrow> analyzed_job
     \<Rightarrow> (work_context, 'r, 'o) work_request \<Rightarrow> external_payload proposal \<Rightarrow> analysis_payload
     \<Rightarrow> external_analysis \<Rightarrow> bool" where
  "attested_by E db uid j q p a x \<longleftrightarrow> aj_provenance j = Some ''external_agent_proposal''
     \<and> aj_structured j = Some (ExternalAnalysis x)
     \<and> accepted_analysis_request uid (xa_request x) (jb_id j) (wd_requests db) = Some q
     \<and> analysis_proposal uid (xa_proposal x) (wr_id q) (wd_proposals db) = Some p
     \<and> receipt_names q p \<and> checked_analysis E q p = Some a
     \<and> inputs_current E (wd_vault db) q \<and> we_payload_digest E (AnalysisPayload a) = pp_digest p
     \<and> shows_analysis q p a x j"

lemma attested_iff: "external_match_attested E db uid j \<longleftrightarrow> (\<exists>q p a x. attested_by E db uid j q p a x)"
proof
  assume "external_match_attested E db uid j"
  then show "\<exists>q p a x. attested_by E db uid j q p a x"
    unfolding external_match_attested_def attested_by_def
    by (simp split: option.split_asm structured.split_asm) blast
next
  assume "\<exists>q p a x. attested_by E db uid j q p a x"
  then obtain q p a x where "attested_by E db uid j q p a x" by blast
  then show "external_match_attested E db uid j" by (simp add: external_match_attested_def attested_by_def)
qed

lemma checked_analysis_Some:
  "checked_analysis E q p = Some a \<longleftrightarrow> (\<exists>raw. we_parse E (pp_payload p) = Some (AnalysisPayload raw)
     \<and> we_validate E (wr_targets q) (wr_context q) (AnalysisPayload raw) = Inr (AnalysisPayload a))"
  by (cases "we_parse E (pp_payload p)")
    (auto simp: checked_analysis_def split: external_payload.split_asm sum.split_asm split: external_payload.split sum.split)

lemma select_first_only:
  assumes "unique_by key rows" and "r \<in> set rows" and "P r" and "\<And>s. s \<in> set rows \<Longrightarrow> P s \<Longrightarrow> key s = key r"
  shows "select_first P rows = Some r"
proof (cases "select_first P rows")
  case None
  with assms(2,3) show ?thesis by (auto simp: select_first_None)
next
  case (Some s)
  from select_first_Some [OF this] have s: "s \<in> set rows" "P s" by simp_all
  have "s = r" by (rule unique_byD [OF assms(1) s(1) assms(2) assms(4) [OF s]])
  with Some show ?thesis by simp
qed

lemma well_finds_request:
  assumes "work_well db" and "q \<in> set (wd_requests db)" and "wr_state q = work_state.Accepted" and "wr_user q = uid"
    and "wt_kind (wr_targets q) = Analyze" and "wt_job (wr_targets q) = Some jid"
  shows "accepted_analysis_request uid (wr_id q) jid (wd_requests db) = Some q"
  unfolding accepted_analysis_request_def
  by (rule select_first_only [of wr_id]) (use assms in \<open>auto simp: work_well_def requests_well_def\<close>)

lemma well_finds_proposal:
  assumes "work_well db" and "p \<in> set (wd_proposals db)"
  shows "analysis_proposal (pp_user p) (pp_id p) (pp_request p) (wd_proposals db) = Some p"
  unfolding analysis_proposal_def
  by (rule select_first_only [of pp_id]) (use assms in \<open>auto simp: work_well_def\<close>)

text \<open>
  An analysis that was attested by a request stays attested as long as the row of the request
  names its job and has current inputs.
\<close>

lemma stays_attested:
  assumes E: "E = external_env L W" and well: "work_well db" and a: "attested_by E db uid j q p a x" and es: "never_erased es"
    and r: "r \<in> set (wd_requests (work_run E es db))" "request_step\<^sup>*\<^sup>* q r"
    and job: "wt_job (wr_targets r) = Some (jb_id j)" and cur: "inputs_current E (wd_vault (work_run E es db)) r"
  shows "external_match_attested E (work_run E es db) uid j"
proof -
  let ?db = "work_run E es db"
  have well': "work_well ?db" by (rule work_run_well [OF well])
  have q: "q \<in> set (wd_requests db)" "wr_id q = xa_request x" "wr_user q = uid" "wr_state q = work_state.Accepted"
    "wt_kind (wr_targets q) = Analyze"
    using a by (auto simp: attested_by_def accepted_analysis_request_def dest!: select_first_Some)
  have p: "p \<in> set (wd_proposals db)" "pp_id p = xa_proposal x" "pp_request p = wr_id q" "pp_user p = uid"
    using a by (auto simp: attested_by_def analysis_proposal_def dest!: select_first_Some)
  have same: "same_request q r" by (rule request_steps_same [OF r(2)])
  have "terminal (wr_state q)" by (simp add: terminal_def q)
  from request_steps_terminal [OF r(2) this] have st: "wr_state r = work_state.Accepted" "wr_receipt r = wr_receipt q" by (simp_all add: q)
  have "accepted_analysis_request uid (wr_id r) (jb_id j) (wd_requests ?db) = Some r"
    by (rule well_finds_request [OF well' r(1)]) (use same q st job in \<open>simp_all add: same_request_def targets_follow_def\<close>)
  moreover have "proposal_stored p ?db"
    using kept_proposal.lasts [OF well _ , of p es E] es p(1) by (simp add: never_erased_def proposal_stored_def work_run_def)
  then have "analysis_proposal (pp_user p) (pp_id p) (pp_request p) (wd_proposals ?db) = Some p"
    by (intro well_finds_proposal [OF well']) (simp add: proposal_stored_def)
  ultimately have "attested_by E ?db uid j r p a x"
    using a st p q(2) cur by (simp add: attested_by_def E same_request_reads [OF same])
  then show ?thesis unfolding attested_iff by blast
qed

subsection \<open>After an acceptance\<close>

lemma first_acceptance_writes:
  assumes "accept_work_proposal (external_env L W) now uid rid a db = (Inr rc, db')" and "db' \<noteq> db"
  obtains q p payload where "q \<in> set (wd_requests db)" "wr_id q = rid" "wr_user q = uid"
    "first_acceptance (external_env L W) now uid a q rc db db'"
    "proposal_of rid (wd_proposals db) = Some p" "proposal_payload (external_env L W) q p = Inr payload"
    "write_payload L (wd_vault db) q p payload now = Inr (wd_vault db', rt_outcome rc)" "rt_proposal rc = pp_id p"
proof (rule accept_facts [OF assms(1)], elim disjE conjE)
  fix q
  assume q: "q \<in> set (wd_requests db)" "wr_id q = rid" "wr_user q = uid"
    and f: "first_acceptance (external_env L W) now uid a q rc db db'"
  from f q(2) obtain p payload where "proposal_of rid (wd_proposals db) = Some p"
    "proposal_payload (external_env L W) q p = Inr payload"
    "write_payload L (wd_vault db) q p payload now = Inr (wd_vault db', rt_outcome rc)" "rt_proposal rc = pp_id p"
    by (auto simp: first_acceptance_def external_env_fields)
  with q f show thesis by (rule that)
qed (use assms(2) in simp)

lemma proposal_payload_checked:
  assumes "proposal_payload (external_env L W) q p = Inr payload"
  obtains raw where "we_parse W (pp_payload p) = Some raw"
    "validate_proposal_payload (xl_text L) (xl_size L) (wt_kind (wr_targets q)) (wr_context q) raw = Inr payload"
    "we_payload_digest W payload = pp_digest p"
  using assms by (auto simp: proposal_payload_def external_env_fields split: option.splits sum.splits if_splits)

lemma accepted_request:
  assumes "work_well db" and "q \<in> set (wd_requests db)" and "first_acceptance E now uid a q rc db db'" and "wr_user q = uid"
  obtains r where "r \<in> set (wd_requests db')" "same_request q r" "wr_targets r = wr_targets q" "wr_state r = work_state.Accepted" "wr_receipt r = Some rc"
    "wd_proposals db' = wd_proposals db"
proof -
  let ?h = "accept_hit now uid (ac_revision a) q" and ?f = "accept_row now (ac_revision a) rc"
  have rows: "wd_requests db' = update_rows ?h ?f (wd_requests db)" "wd_proposals db' = wd_proposals db"
    using assms(3) by (auto simp: first_acceptance_def set_request_def)
  have "\<exists>r \<in> set (wd_requests db). ?h r"
    using assms(3) by (intro row_count_pos_exists [of _ _ 0]) (simp add: first_acceptance_def)
  then obtain r where r: "r \<in> set (wd_requests db)" "?h r" by blast
  then have "r = q"
    using assms(1,2) by (intro unique_byD [of wr_id "wd_requests db"]) (simp_all add: work_well_def requests_well_def accept_hit_def)
  with update_rows_member [OF r(1), of ?h ?f] r(2) have "?f q \<in> set (wd_requests db')" by (simp add: rows)
  moreover have "same_request q (?f q)" by (simp add: same_request_def accept_row_def)
  ultimately show thesis using rows(2) by (intro that [of "?f q"]) (simp_all add: accept_row_def)
qed

lemma acceptance_attests:
  assumes well: "work_well db" and acc: "accept_work_proposal (external_env L W) now uid rid ac db = (Inr rc, db')" "db' \<noteq> db"
    and kind: "owned_request uid rid (wd_requests db) = Some q" "wt_kind (wr_targets q) = Analyze"
  obtains j r p a where "j \<in> set (av_jobs (wd_vault db'))" "wt_job (wr_targets q) = Some (jb_id j)" "jb_user j = uid"
    "r \<in> set (wd_requests db')" "same_request q r" "wr_targets r = wr_targets q"
    "attested_by (external_env L W) db' uid j r p a (structured_of r p a)"
proof -
  let ?E = "external_env L W"
  have q: "q \<in> set (wd_requests db)" "wr_id q = rid" "wr_user q = uid"
    using kind(1) by (auto simp: owned_request_def dest!: select_first_Some)
  have well': "work_well db'" using work_apply_well [OF well, of ?E "Accept now uid rid ac"] acc(1) by simp
  from acc show thesis
  proof (rule first_acceptance_writes)
    fix q' p payload
    assume q': "q' \<in> set (wd_requests db)" "wr_id q' = rid" and f: "first_acceptance ?E now uid ac q' rc db db'"
      and p: "proposal_of rid (wd_proposals db) = Some p" and pl: "proposal_payload ?E q' p = Inr payload"
      and w: "write_payload L (wd_vault db) q' p payload now = Inr (wd_vault db', rt_outcome rc)" and rp: "rt_proposal rc = pp_id p"
    have "q' = q" using well q q' by (intro unique_byD [of wr_id "wd_requests db"]) (simp_all add: work_well_def requests_well_def)
    note f = f [unfolded this] and pl = pl [unfolded this] and w = w [unfolded this]
    obtain raw where raw: "we_parse W (pp_payload p) = Some raw"
      "validate_proposal_payload (xl_text L) (xl_size L) (wt_kind (wr_targets q)) (wr_context q) raw = Inr payload"
      "we_payload_digest W payload = pp_digest p" by (rule proposal_payload_checked [OF pl])
    from validated_kind [OF raw(2)] kind(2) obtain b where b: "raw = AnalysisPayload b" by (cases raw) auto
    from validated_analysis [OF raw(2) [unfolded b]] obtain a where a: "payload = AnalysisPayload a"
      "ws_overall (ax_scores a) = fit_score (ax_scores a)" by blast
    let ?l = "xl_labels L (pp_id p)"
    from w a obtain jobs where "accept_analysis now q p ?l a (av_jobs (wd_vault db)) = Inr jobs"
      "wd_vault db' = (wd_vault db)\<lparr>av_jobs := jobs\<rparr>" by (auto simp: write_payload_def and_then_Inr)
    from accept_analysis_Inr [OF this(1)] this(2) obtain j where j: "wt_job (wr_targets q) = Some (jb_id j)"
      "jb_user j = wr_user q" "analyzed q p ?l a now j \<in> set (av_jobs (wd_vault db'))"
      "context_inputs (wd_vault db') = context_inputs (wd_vault db)" by (auto simp: context_inputs_def)
    obtain r where r: "r \<in> set (wd_requests db')" "same_request q r" "wr_targets r = wr_targets q" "wr_state r = work_state.Accepted"
      "wr_receipt r = Some rc" "wd_proposals db' = wd_proposals db" by (rule accepted_request [OF well q(1) f q(3)])
    have st: "p \<in> set (wd_proposals db)" "pp_request p = rid" using p by (auto simp: proposal_of_def dest: select_first_Some)
    then obtain q0 where "q0 \<in> set (wd_requests db)" "wr_id q0 = rid" "wr_user q0 = pp_user p"
      using well by (auto simp: work_well_def linked_def)
    with well q have "pp_user p = uid" using unique_byD [of wr_id "wd_requests db" q0 q] by (simp add: work_well_def requests_well_def)
    with well_finds_proposal [OF well st(1)] st(2) r(6)
    have ap: "analysis_proposal uid (pp_id p) rid (wd_proposals db') = Some p" by simp
    have "accepted_analysis_request uid (wr_id r) (jb_id j) (wd_requests db') = Some r"
      by (rule well_finds_request [OF well' r(1,4)]) (use r(2,3) q kind(2) j in \<open>simp_all add: same_request_def\<close>)
    moreover have "inputs_current ?E (wd_vault db') r"
      unfolding inputs_current_same [OF r(2,3)] context_unchanged [OF j(4)]
      using f by (simp add: first_acceptance_def)
    moreover have "checked_analysis ?E q p = Some a"
      using raw by (simp add: checked_analysis_Some external_env_fields a b)
    moreover have names: "xa_request (structured_of q p a) = rid" "xa_proposal (structured_of q p a) = pp_id p"
      using q(2) by (simp_all add: structured_of_def)
    ultimately have "attested_by ?E db' uid (analyzed q p ?l a now j) r p a (structured_of r p a)"
      unfolding attested_by_def same_request_reads [OF r(2)]
      using analyzed_shows [OF a(2), of q p ?l now j] r(5) ap rp raw(3) q(2) a(1)
      by (simp add: receipt_names_def external_env_fields names)
    with j r(1-3) q(3) show thesis by (intro that [of "analyzed q p ?l a now j" r p a]) simp_all
  qed
qed

subsection \<open>An accepted analysis\<close>

definition demo_external_lib :: "(unit, nat, unit) external_lib" where
  "demo_external_lib = \<lparr>xl_text = demo_text, xl_size = (\<lambda>_. 100), xl_labels = (\<lambda>_. (None, ''cli'')),
     xl_nothing = (), xl_other = (\<lambda>v q p x now. Inr (v, ()))\<rparr>"

definition demo_base_env :: "(unit \<times> (int \<times> int \<times> int) list, work_context, external_payload, nat, unit) work_env" where
  "demo_base_env = \<lparr>we_build = (\<lambda>v uid rid gid t. Inr (demo_context, ''d'', 0)), we_owns_job = (\<lambda>v uid j. True),
     we_owns_application = (\<lambda>v uid a. True), we_owns_resume = (\<lambda>v uid r. True),
     we_resume_preset = (\<lambda>v r. None), we_validate = (\<lambda>t c p. Inr p), we_parse = Some,
     we_payload_digest = (\<lambda>p. ''h''), we_write = (\<lambda>v q p x now. Inr (v, ()))\<rparr>"

definition scored_analysis :: analysis_payload where
  "scored_analysis = demo_analysis\<lparr>ax_scores := demo_scores\<lparr>ws_overall := 83\<rparr>\<rparr>"

definition analysis_request :: "(work_context, nat, unit) work_request" where
  "analysis_request = \<lparr>wr_id = ''r1'', wr_user = 1, wr_grant = Some ''g1'', wr_state = Returned, wr_revision = 2,
     wr_targets = \<lparr>wt_kind = Analyze, wt_instruction = ''assess'', wt_job = Some 5, wt_application = None,
       wt_resume = None, wt_preset = None, wt_facts = None\<rparr>,
     wr_historical = ''g1'', wr_context = demo_context, wr_digest = ''d'', wr_inputs = 0, wr_expires = 1000,
     wr_receipt = None, wr_created = 0, wr_updated = 10\<rparr>"

definition analysis_row :: "external_payload proposal" where
  "analysis_row = \<lparr>pp_id = ''p1'', pp_request = ''r1'', pp_user = 1, pp_grant = ''g1'', pp_key = ''k'', pp_digest = ''h'',
     pp_payload = AnalysisPayload scored_analysis, pp_created = 10\<rparr>"

definition unanalyzed_job :: analyzed_job where
  "unanalyzed_job = \<lparr>jb_id = 5, jb_user = 1, jb_scraped_job_id = 9, jb_applied = None, jb_affinity_score = Some 12,
     jb_affinity_analysis = None, jb_worth_applying = None, jb_execution_id = Some ''old'', jb_row_fingerprint = None,
     aj_skill = None, aj_experience = None, aj_intent = Some 7, aj_language = None, aj_location = None,
     aj_transferability = None, aj_qualification_gap = None, aj_structured = None, aj_provenance = None,
     aj_model_id = None, aj_contract_version = None, aj_validated_at = None, aj_output_fingerprint = None,
     aj_row_index = None, aj_input_fingerprint = None, aj_legacy_snapshot = None, aj_red_flags = None\<rparr>"

definition analysis_db :: "(unit agent_vault, work_context, external_payload, nat, unit) work_db" where
  "analysis_db = \<lparr>wd_users = [\<lparr>us_id = 1, us_username = ''ada'', us_vault = Ready, us_fingerprint = None\<rparr>],
     wd_grants = [demo_grant], wd_requests = [analysis_request], wd_proposals = [analysis_row],
     wd_vault = \<lparr>av_rest = (), av_jobs = [unanalyzed_job]\<rparr>\<rparr>"

definition accepted_db :: "(unit agent_vault, work_context, external_payload, nat, unit) work_db" where
  "accepted_db = snd (accept_work_proposal (external_env demo_external_lib demo_base_env) 20 1 ''r1''
     \<lparr>ac_revision = 2, ac_targets = 0\<rparr> analysis_db)"

lemma analysis_db_well: "work_well analysis_db"
  by (simp add: analysis_db_def work_well_def requests_well_def unique_by_def linked_def request_well_def
      analysis_request_def analysis_row_def)

lemma demo_checked: "validate_proposal_payload demo_text (\<lambda>_. 100) Analyze demo_context (AnalysisPayload scored_analysis)
    = Inr (AnalysisPayload scored_analysis)"
proof -
  from demo_validated have "validate_analysis demo_text demo_context demo_analysis = Inr scored_analysis"
    by (auto simp: validate_proposal_payload_def and_then_Inr scored_analysis_def)
  from validate_analysis_again [OF this] show ?thesis
    by (simp add: validate_proposal_payload_def max_result_bytes_def ensure_def)
qed

lemma demo_accepted_analysis:
  "\<exists>rc. accept_work_proposal (external_env demo_external_lib demo_base_env) 20 1 ''r1''
     \<lparr>ac_revision = 2, ac_targets = 0\<rparr> analysis_db = (Inr rc, accepted_db)"
  "accepted_db \<noteq> analysis_db"
proof -
  let ?E = "external_env demo_external_lib demo_base_env" and ?a = "\<lparr>ac_revision = 2, ac_targets = 0\<rparr> :: nat acceptance"
  let ?q = analysis_request and ?p = analysis_row
  have checked: "proposal_payload ?E ?q ?p = Inr (AnalysisPayload scored_analysis)"
    by (simp add: proposal_payload_def external_env_fields demo_base_env_def demo_external_lib_def analysis_request_def
        analysis_row_def demo_checked)
  have build: "current_input_state ?E v q = Some (''d'', 0)" for v q
    by (simp add: current_input_state_def external_env_def demo_base_env_def)
  have rows: "owned_request 1 ''r1'' [?q] = Some ?q" "proposal_of ''r1'' [?p] = Some ?p" "\<not> was_accepted ?q"
    "work_live_error 20 ?q = None" "accept_hit 20 1 2 ?q ?q" "inputs_current ?E v ?q" "wr_inputs ?q = 0" for v
    by (simp_all add: owned_request_def proposal_of_def was_accepted_def work_live_error_def accept_hit_def
        inputs_current_def build analysis_request_def analysis_row_def)
  have granted: "\<exists>g. require_grant 20 (wd_users analysis_db) [demo_grant] (wr_grant ?q) (Some ''proposals:write'') (Some 1) = Inr g"
    by (simp add: require_grant_def demo_grant_def analysis_request_def analysis_db_def scope_set_def vault_ready_def)
  have written: "write_payload demo_external_lib \<lparr>av_rest = (), av_jobs = [unanalyzed_job]\<rparr> ?q ?p (AnalysisPayload scored_analysis) 20
    = Inr (\<lparr>av_rest = (), av_jobs = [analyzed ?q ?p (None, ''cli'') scored_analysis 20 unanalyzed_job]\<rparr>, ())"
    by (simp add: write_payload_def accept_analysis_def owned_job_def demo_external_lib_def unanalyzed_job_def
        analysis_request_def)
  have "aj_provenance (analyzed ?q ?p l scored_analysis 20 unanalyzed_job) \<noteq> aj_provenance unanalyzed_job" for l
    by (simp add: analyzed_def unanalyzed_job_def)
  then have changed: "analyzed ?q ?p l scored_analysis 20 unanalyzed_job \<noteq> unanalyzed_job" for l by metis
  have "\<exists>rc db. accept_work_proposal ?E 20 1 ''r1'' ?a analysis_db = (Inr rc, db) \<and> wd_vault db \<noteq> wd_vault analysis_db"
    using granted checked written changed
    by (auto simp: accept_work_proposal_def accept_first_def rows build external_env_fields analysis_db_def
        vault_ready_def row_count_def Let_def)
  then show "\<exists>rc. accept_work_proposal ?E 20 1 ''r1'' ?a analysis_db = (Inr rc, accepted_db)" "accepted_db \<noteq> analysis_db"
    by (auto simp: accepted_db_def)
qed

subsection \<open>Properties\<close>

text \<open>C19: Nothing reaches the vault that the frozen context does not say. An acceptance that changes
  anything writes one payload, of the kind of its request, in which every claim, material text,
  requirement and career quotation cites facts of the context of that request only and has all its
  meaningful words in the text of one single cited fact.\<close>

theorem accepted_assertions_are_evidenced:
  assumes "accept_work_proposal (external_env L W) now uid rid a db = (Inr rc, db')" and "db' \<noteq> db"
  shows "\<exists>q p payload. q \<in> set (wd_requests db) \<and> wr_id q = rid \<and> wr_user q = uid
    \<and> payload_kind payload = wt_kind (wr_targets q)
    \<and> list_all (evidenced (xl_text L) (wr_context q)) (assertions payload)
    \<and> write_payload L (wd_vault db) q p payload now = Inr (wd_vault db', rt_outcome rc)"
proof (rule first_acceptance_writes [OF assms])
  fix q p payload
  assume q: "q \<in> set (wd_requests db)" "wr_id q = rid" "wr_user q = uid"
    and pl: "proposal_payload (external_env L W) q p = Inr payload"
    and w: "write_payload L (wd_vault db) q p payload now = Inr (wd_vault db', rt_outcome rc)"
  obtain raw where "validate_proposal_payload (xl_text L) (xl_size L) (wt_kind (wr_targets q)) (wr_context q) raw = Inr payload"
    by (rule proposal_payload_checked [OF pl])
  from assertions_are_evidenced [OF this] validated_kind [OF this] q w show ?thesis
    by (intro exI [of _ q] exI [of _ p] exI [of _ payload]) simp
qed

theorem accepted_assertions_are_evidenced_witness:
  "\<exists>q p payload. q \<in> set (wd_requests analysis_db) \<and> wr_id q = ''r1'' \<and> wr_user q = 1
    \<and> payload_kind payload = wt_kind (wr_targets q)
    \<and> list_all (evidenced (xl_text demo_external_lib) (wr_context q)) (assertions payload)
    \<and> (\<exists>out. write_payload demo_external_lib (wd_vault analysis_db) q p payload 20 = Inr (wd_vault accepted_db, out))"
proof -
  obtain rc where "accept_work_proposal (external_env demo_external_lib demo_base_env) 20 1 ''r1''
     \<lparr>ac_revision = 2, ac_targets = 0\<rparr> analysis_db = (Inr rc, accepted_db)" using demo_accepted_analysis(1) by blast
  from accepted_assertions_are_evidenced [OF this demo_accepted_analysis(2)] show ?thesis by blast
qed

text \<open>C18: An accepted analysis is attested, and it stays so. The acceptance of an analysis writes the target
  job of its owner such that the row is attested, and the row remains attested after any later history of
  requests, vault edits and revoked or removed grants without an erasure, as long as the request still names
  the job and its inputs are current; the request keeps all its targets until one of them is deleted.\<close>

theorem accepted_analysis_stays_attested:
  assumes "work_well db"
    and "accept_work_proposal (external_env L W) now uid rid ac db = (Inr rc, db')" and "db' \<noteq> db"
    and "owned_request uid rid (wd_requests db) = Some q" and "wt_kind (wr_targets q) = Analyze"
  shows "\<exists>j \<in> set (av_jobs (wd_vault db')). wt_job (wr_targets q) = Some (jb_id j) \<and> jb_user j = uid
    \<and> external_match_attested (external_env L W) db' uid j
    \<and> (\<forall>es. never_erased es \<longrightarrow> (\<exists>r \<in> set (wd_requests (work_run (external_env L W) es db')). same_request q r
        \<and> ((\<forall>e \<in> set es. \<not> forgets (wr_targets q) e) \<longrightarrow> wr_targets r = wr_targets q)
        \<and> (wt_job (wr_targets r) = Some (jb_id j)
            \<longrightarrow> inputs_current (external_env L W) (wd_vault (work_run (external_env L W) es db')) r
            \<longrightarrow> external_match_attested (external_env L W) (work_run (external_env L W) es db') uid j)))"
proof (rule acceptance_attests [OF assms])
  fix j r p a
  let ?E = "external_env L W"
  assume j: "j \<in> set (av_jobs (wd_vault db'))" "wt_job (wr_targets q) = Some (jb_id j)" "jb_user j = uid"
    and r: "r \<in> set (wd_requests db')" "same_request q r" "wr_targets r = wr_targets q"
    and att: "attested_by ?E db' uid j r p a (structured_of r p a)"
  have well': "work_well db'"
    using work_apply_well [OF assms(1), of ?E "Accept now uid rid ac"] assms(2) by simp
  have "\<exists>s \<in> set (wd_requests (work_run ?E es db')). same_request q s
      \<and> ((\<forall>e \<in> set es. \<not> forgets (wr_targets q) e) \<longrightarrow> wr_targets s = wr_targets q)
      \<and> (wt_job (wr_targets s) = Some (jb_id j) \<longrightarrow> inputs_current ?E (wd_vault (work_run ?E es db')) s
          \<longrightarrow> external_match_attested ?E (work_run ?E es db') uid j)" if es: "never_erased es" for es
  proof -
    have quiet: "\<forall>e \<in> set es. \<not> erases (wr_user r) e" using es by (simp add: never_erased_def)
    obtain s where s: "s \<in> set (wd_requests (work_run ?E es db'))" "request_step\<^sup>*\<^sup>* r s"
      by (rule work_run_request [OF well' r(1) quiet])
    note same = request_steps_same [OF s(2)]
    have "wr_targets s = wr_targets q" if "\<forall>e \<in> set es. \<not> forgets (wr_targets q) e"
      using work_run_targets [OF well' r(1) _ s(1)] quiet that same r(3) by (simp add: same_request_def)
    moreover have "same_request q s"
      using r(2,3) same by (simp add: same_request_def)
    ultimately show ?thesis using stays_attested [OF refl well' att es s] s(1) by blast
  qed
  moreover have "external_match_attested ?E db' uid j" unfolding attested_iff using att by blast
  ultimately show ?thesis using j by blast
qed

theorem accepted_analysis_stays_attested_witness:
  "\<exists>j \<in> set (av_jobs (wd_vault accepted_db)). jb_id j = 5
    \<and> external_match_attested (external_env demo_external_lib demo_base_env)
        (work_run (external_env demo_external_lib demo_base_env) [AuthorityChange [] []] accepted_db) 1 j"
proof -
  let ?E = "external_env demo_external_lib demo_base_env"
  obtain rc where rc: "accept_work_proposal ?E 20 1 ''r1'' \<lparr>ac_revision = 2, ac_targets = 0\<rparr> analysis_db = (Inr rc, accepted_db)"
    using demo_accepted_analysis(1) by blast
  have q: "owned_request 1 ''r1'' (wd_requests analysis_db) = Some analysis_request" "wt_kind (wr_targets analysis_request) = Analyze"
    "wt_job (wr_targets analysis_request) = Some 5"
    by (simp_all add: owned_request_def analysis_db_def analysis_request_def)
  have es: "never_erased [AuthorityChange [] [] :: (unit agent_vault, external_payload, nat) work_event]"
    by (simp add: never_erased_def)
  have current: "inputs_current ?E v analysis_request" for v
    by (simp add: inputs_current_def current_input_state_def external_env_def demo_base_env_def analysis_request_def)
  have forgets: "\<not> forgets t (AuthorityChange [] [] :: (unit agent_vault, external_payload, nat) work_event)" for t
    by (simp add: forgets_def)
  obtain j where j: "j \<in> set (av_jobs (wd_vault accepted_db))" "jb_id j = 5"
    and later: "\<exists>r \<in> set (wd_requests (work_run ?E [AuthorityChange [] []] accepted_db)). same_request analysis_request r
      \<and> wr_targets r = wr_targets analysis_request
      \<and> (wt_job (wr_targets r) = Some (jb_id j)
          \<longrightarrow> inputs_current ?E (wd_vault (work_run ?E [AuthorityChange [] []] accepted_db)) r
          \<longrightarrow> external_match_attested ?E (work_run ?E [AuthorityChange [] []] accepted_db) 1 j)"
    using accepted_analysis_stays_attested [OF analysis_db_well rc demo_accepted_analysis(2) q(1,2)] es q(3) forgets
    by fastforce
  then obtain r where "same_request analysis_request r" "wr_targets r = wr_targets analysis_request"
    "inputs_current ?E (wd_vault (work_run ?E [AuthorityChange [] []] accepted_db)) r
       \<longrightarrow> external_match_attested ?E (work_run ?E [AuthorityChange [] []] accepted_db) 1 j"
    using q(3) j(2) by auto
  with current inputs_current_same [of analysis_request r ?E] j show ?thesis by blast
qed

text \<open>C17: An attested analysis shows what a checked proposal earned. Its job is the target of an accepted
  request of the owner; its gates and claims only assert what the frozen context of that request says; its
  score is the weighted score of the dimensions that it shows; and if it is worth applying, each of the
  six dimensions has an eligible gate with everything behind it.\<close>

theorem attested_analysis_is_earned:
  assumes "external_match_attested (external_env L W) db uid j"
  shows "\<exists>x. aj_structured j = Some (ExternalAnalysis x)
    \<and> jb_affinity_score j = Some (rat_of_int (snd (xa_scores x)))
    \<and> snd (xa_scores x) = quantize_half_up (sum_list (map2 (*) (fst (xa_scores x)) weights))
    \<and> (\<exists>q \<in> set (wd_requests db). wr_id q = xa_request x \<and> wr_user q = uid \<and> wr_state q = work_state.Accepted
        \<and> wt_job (wr_targets q) = Some (jb_id j)
        \<and> list_all (evidenced (xl_text L) (wr_context q))
            (gate_assertions (xa_gates x) @ map (\<lambda>c. (cl_text c, cl_facts c)) (xa_claims x))
        \<and> (jb_worth_applying j = Some True \<longrightarrow>
            one_gate_per_dimension (xa_gates x) \<and> list_all (gate_earned (xl_text L) (wr_context q)) (xa_gates x)))"
proof -
  from assms obtain q p a x where att: "attested_by (external_env L W) db uid j q p a x" unfolding attested_iff by blast
  then have q: "q \<in> set (wd_requests db)" "wr_id q = xa_request x" "wr_user q = uid" "wr_state q = work_state.Accepted"
    "wt_job (wr_targets q) = Some (jb_id j)"
    by (auto simp: attested_by_def accepted_analysis_request_def dest!: select_first_Some)
  from att obtain raw where raw: "validate_proposal_payload (xl_text L) (xl_size L) (wt_kind (wr_targets q)) (wr_context q)
      (AnalysisPayload raw) = Inr (AnalysisPayload a)"
    by (auto simp: attested_by_def checked_analysis_Some external_env_fields)
  obtain b where "AnalysisPayload a = AnalysisPayload b" "ax_gates b = ax_gates raw" "ax_claims b = ax_claims raw"
    "ax_recommendation b = ax_recommendation raw" "ws_overall (ax_scores b) = fit_score (ax_scores b)"
    by (rule validated_analysis [OF raw])
  then have a: "ax_gates a = ax_gates raw" "ax_claims a = ax_claims raw" "ax_recommendation a = ax_recommendation raw"
    "ws_overall (ax_scores a) = fit_score (ax_scores a)" by simp_all
  from att have x: "x = structured_of q p a" "jb_affinity_score j = Some (rat_of_int (fit_score (ax_scores a)))"
    "jb_worth_applying j = Some (worth_applying a)" "aj_structured j = Some (ExternalAnalysis x)"
    by (simp_all add: attested_by_def shows_analysis_def)
  have shown: "xa_gates x = ax_gates raw" "xa_claims x = ax_claims raw" "snd (xa_scores x) = fit_score (ax_scores a)"
    "quantize_half_up (sum_list (map2 (*) (fst (xa_scores x)) weights)) = fit_score (ax_scores a)"
    by (simp_all add: x(1) structured_of_def a score_values_def fit_score_def weighted_score_def dimensions_def weights_def)
  have "list_all (evidenced (xl_text L) (wr_context q)) (assertions (AnalysisPayload raw))"
    using assertions_are_evidenced [OF raw] by blast
  moreover have "one_gate_per_dimension (ax_gates raw) \<and> list_all (gate_earned (xl_text L) (wr_context q)) (ax_gates raw)"
    if "jb_worth_applying j = Some True"
    using recommendation_is_earned [OF raw] that x(3) a(3) by (simp add: worth_applying_def)
  ultimately show ?thesis using q x(2,4) shown by (intro exI [of _ x]) auto
qed

theorem attested_analysis_is_earned_witness:
  "\<exists>j x. j \<in> set (av_jobs (wd_vault accepted_db)) \<and> aj_structured j = Some (ExternalAnalysis x)
    \<and> jb_affinity_score j = Some (rat_of_int (snd (xa_scores x)))"
proof -
  let ?E = "external_env demo_external_lib demo_base_env"
  obtain rc where rc: "accept_work_proposal ?E 20 1 ''r1'' \<lparr>ac_revision = 2, ac_targets = 0\<rparr> analysis_db = (Inr rc, accepted_db)"
    using demo_accepted_analysis(1) by blast
  have q: "owned_request 1 ''r1'' (wd_requests analysis_db) = Some analysis_request" "wt_kind (wr_targets analysis_request) = Analyze"
    by (simp_all add: owned_request_def analysis_db_def analysis_request_def)
  from acceptance_attests [OF analysis_db_well rc demo_accepted_analysis(2) q] obtain j r p a where
    j: "j \<in> set (av_jobs (wd_vault accepted_db))" "attested_by ?E accepted_db 1 j r p a (structured_of r p a)" by metis
  then have "external_match_attested ?E accepted_db 1 j" unfolding attested_iff by blast
  from attested_analysis_is_earned [OF this] j(1) show ?thesis by blast
qed

end
