(* ===== verification/Spec2Isabelle.thy ===== *)
theory Spec2Isabelle
  imports CircuitBreaker ActivityGate ApplicationClaims Agenda SearchTasks AuthWitnesses GrantClaims AgentClaims RestoreClaims ErasureClaims DossierClaims WorkflowClaims PacketClaims Reauth AttestationClaims
begin

text \<open>
  The Python backend of CareerOS Local: the components that decide what is stored, who may change
  it and what survives a crash. CareerOS keeps one vault per account in a local SQLite database
  and a directory of managed files; a browser, agents with grants and background workers operate
  on it. Paths below are relative to \<open>src/backend\<close>.

  \<^bold>\<open>How the parts interact.\<close> Every request passes a bearer check (sessions or grants), which asks
  the lifecycle of the vault; a maintenance of the vault (restore, reset, erasure) replaces all
  authority by one restricted family until its durable work is finished. Inside, the application
  service appends events to timelines, and the tasks, the daily agenda and the preflight report are
  functions of those rows. A dossier is saved as a draft, passes the preflight and is published as
  a packet of bytes with a row and a timeline event. External agents read a frozen context of the
  vault under a grant and submit a proposal, which is checked against that context and reaches the
  vault when the owner accepts it. Searches hold a lock in the profile row beside an in-memory
  registry; other background work goes through a queue with leases.

  \<^bold>\<open>How programs are modelled.\<close> A table is a list of records, a transaction a function on the
  tables and an error a value that leaves them as they were. An operation is one step where the code makes
  it one: it reserves the only writer of SQLite before it reads (issuing a session, maintenance, restore, deletion and
  publication begin with \<open>BEGIN IMMEDIATE\<close>), it rests on one conditional update (rotation, the claim of a
  run, the search lock, the state and revision of a work request), or a process lock serialises it (grants,
  the activity gate, the search registry). Elsewhere the reading and the writing are apart: the commands on
  applications and drafts decide on any earlier state and are checked against the revision when they commit;
  the operations of the work queue other than the claim decide on any earlier table and write the columns
  that they changed without a check (\<open>Workflows\<close>). Histories are lists of such steps, in any interleaving. Instants
  are integers of microseconds. Random identifiers and readings of the clock are arguments.
  Programs that write files are programs over \<open>fate\<close>s (\<open>CrashIO\<close>): each durable step works, fails,
  takes effect and reports a failure, or dies, so there is no fuel, and a list of fates that has
  run out means that the remaining steps work. Recursion is structural or has a
  measure; loops with a bound in the code (the attempts to draw an identifier, the journals of a
  directory) carry that bound.

  \<^bold>\<open>Theories.\<close>
  \<^item> \<open>Prelude\<close>: rows, conditional updates, reachable states, and the locales of transition
    invariants (\<open>invariant_of\<close>), of facts that last (\<open>lasting_fact\<close>) and of optimistic concurrency
    (\<open>revision_cas\<close>). \<open>CrashIO\<close>: durable programs and their triples. \<open>Float64\<close>: rounding to
    binary64. \<open>Patterns\<close>: substrings, \<open>str.strip\<close> and regular expressions.
  \<^item> \<open>AppModel\<close>, \<open>AppTasks\<close>, \<open>Applications\<close>: \<open>applications/models.py\<close>, \<open>schemas.py\<close>,
    \<open>snapshots.py\<close> and \<open>service.py\<close>. \<open>task_snapshots\<close> is \<open>_task_snapshots\<close> with its checks; \<open>log_ok\<close>
    and \<open>current_tasks\<close> are its specification. The commands have the names of the methods.
    \<open>AppTimeline\<close> and \<open>AppHistory\<close> hold the invariant \<open>app_ok\<close> and the histories \<open>timeline\<close>, in which
    a command may have read any earlier state under any clock; what needs clock readings that never go back
    says so (\<open>clock_monotone\<close>). \<open>ApplicationClaims\<close> has the properties.
  \<^item> \<open>Agenda\<close>: \<open>applications/agenda.py\<close>, its query as a sort of the open rows.
  \<^item> \<open>Readiness\<close>: \<open>career/completeness.py\<close>, \<open>applications/readiness.py\<close> and
    \<open>resumes/artifact_policy.py\<close>. \<open>Dossiers\<close>: \<open>applications/dossier_*.py\<close>, with
    \<open>DossierClaims\<close>. \<open>PacketStore\<close>: \<open>applications/packet_storage.py\<close> and the durable steps of
    \<open>dossier_publication.py\<close>, with \<open>PacketClaims\<close>.
  \<^item> \<open>AuthTokens\<close>, \<open>AuthSessions\<close>, \<open>Maintenance\<close>: \<open>services/auth.py\<close>, \<open>services/auth_sessions.py\<close>,
    the maintenance guard of \<open>career/deletion.py\<close>, \<open>api/deps.py\<close> and \<open>api/routes/auth.py\<close>.
    \<open>AuthHistory\<close> abstracts what an operation may do to the sessions (\<open>evolves\<close>);
    \<open>AuthClaims\<close>, \<open>AuthLifecycle\<close> and \<open>AuthMaintenance\<close> derive the properties from it, and
    \<open>AuthWitnesses\<close> runs them on concrete tables and tokens.
  \<^item> \<open>Grants\<close> with \<open>GrantClaims\<close>: \<open>automation/grants.py\<close>. \<open>Reauth\<close>: \<open>automation/reauth.py\<close> with
    the routes that use it.
  \<^item> \<open>AgentWork\<close> with \<open>AgentClaims\<close>: \<open>agent_work/guards.py\<close>, \<open>service.py\<close>, \<open>proposal_service.py\<close>
    and \<open>acceptance.py\<close>, and the state machine \<open>work_edge\<close> that they refine. \<open>Proposals\<close> with
    \<open>ProposalClaims\<close>: \<open>agent_work/validation.py\<close> and the part of \<open>ai/grounding.py\<close> that it calls.
    \<open>Attestation\<close> with \<open>AttestationClaims\<close>: \<open>agent_work/analysis_acceptance.py\<close> and
    \<open>is_external_agent_match_attested\<close> of \<open>ai/attestation.py\<close>, over both.
  \<^item> \<open>RestoreJournal\<close>, \<open>RestoreRecovery\<close>, \<open>RestoreClaims\<close>: \<open>portability/journal.py\<close> and the
    transaction of \<open>portability/restore.py\<close>. \<open>VaultErasure\<close>, \<open>ErasureClaims\<close>: \<open>career/deletion.py\<close>,
    whose paths are read again at every attempt from the rows and from the publication journals on disk.
  \<^item> \<open>SearchReceipt\<close>, \<open>SearchLock\<close>, \<open>SearchTasks\<close>: \<open>search/receipt.py\<close>, the lock and status columns
    of \<open>repositories/profile_repository.py\<close>, and \<open>services/search_status.py\<close>.
  \<^item> \<open>Workflows\<close> with \<open>WorkflowClaims\<close>: \<open>workflows/service.py\<close>, its rows and schemas.
  \<^item> \<open>CircuitBreaker\<close>: \<open>providers/circuit_breaker.py\<close>. \<open>ActivityGate\<close>: \<open>career/activity.py\<close>.

  \<^bold>\<open>What the theorems show.\<close> The application service keeps its event log consistent on every
  interleaving, and reads never fail while the clock does not go back; one commit happens
  per revision; the replay computes the abstract log; and the agenda can always be built and accounts
  for every open application. A restore and a publication are all or nothing under
  any fates, and their recovery completes on healthy storage; a deletion destroys files only after its
  commit, and its retry removes every path that the rows and the remaining journals name. A rotated token, a family that
  logged out and a revoked grant have no authority in any later history; a pending erasure leaves
  authority to its own retry only; guesses of a password are bounded per period. A work request
  follows its state machine and keeps its targets until they are deleted, a proposal is accepted at most once and as it was submitted, its
  assertions rest on the frozen context and its score is derived. A live lease excludes
  everyone who acts on what was read since it was taken, attempts stay within their budget and claims hand out the queue in its order. A
  published packet passed the preflight and is the saved draft; draft revisions are saved once.
  Some theorems state where the code does less than it says: a verification that passes over missing
  files, a draft that is overwritten after its revision restarted, a proposal that can be received but
  not accepted, an update under a late clock that makes an application unreadable, a deletion whose retry
  has forgotten the files of a journal that an interrupted attempt had moved, and workers or cancellations that
  act on rows read before a claim and end or strand a run (\<open>stale_completion_ends_foreign_run\<close>,
  \<open>stale_cancel_splits_run\<close>, \<open>stale_failure_strands_run\<close>).

  \<^bold>\<open>Parameters.\<close> PyJWT, SHA-256, password hashes, Unicode normalisation, the ISO form of dates, JSON
  serialisation and the rendering of documents are arguments (\<open>token_identifier\<close>, \<open>grant_env\<close>, \<open>text_env\<close>,
  \<open>restore_env\<close>, \<open>recovery_env\<close>, \<open>packet_env\<close>, \<open>work_env\<close>). What is assumed of them is named:
  \<open>jwt_verifies\<close>, \<open>jwt_faithful\<close>, \<open>jwt_expires\<close>, \<open>sha_injective\<close>, \<open>stamp_round_trip\<close>; each is
  satisfied by a concrete instance in a witness. Characters are code points below 256.

  \<^bold>\<open>Not modelled.\<close> The front end and the desktop process; transports (FastAPI, the command line and
  MCP); network clients, model servers and their prompts; the parsers of spreadsheets, documents and
  archives; the rendering of documents; the vocabularies of match analysis and of listing normalisation,
  whose content is data; migrations; and the editing of the career profile and of resume drafts, which enter as
  tables that may change at any time. The rows of a restore or a deletion are one transactional
  flag, and a file becomes visible in one step.
\<close>

subsection \<open>The queue over the histories of the service\<close>

lemma row_ok_agenda:
  assumes row: "row_ok clock E a"
  shows "agenda_state_of now te he a \<noteq> InvalidAction"
    and "\<exists>i. agenda_item_of now te he a = Inr i"
proof -
  from row obtain ts where ts: "task_snapshots E = Inr ts"
    and act: "project_next_action (next_action ts) a = a"
    and wf: "\<forall>t \<in> tasks_in E. task_wf t" and rev: "1 \<le> ap_revision a" and texts: "row_texts a"
    by (auto simp: row_ok_def)
  note cols = act [unfolded project_next_action_fix]
  have uuid: "text_within 36 s" if "canonical_uuid s" for s
    using that by (simp add: canonical_uuid_def text_within_def)
  have item: "text_within 36 (ap_id a)" "text_within 240 (ap_job_title a)"
    "text_within 240 (ap_job_company a)"
    using texts uuid by (auto simp: row_texts_def text_within_def Suc_le_eq)
  have "agenda_state_of now te he a \<noteq> InvalidAction \<and> (\<exists>i. agenda_item_of now te he a = Inr i)"
  proof (cases "next_action ts")
    case None
    with cols rev item show ?thesis
      by (simp add: agenda_state_of_def agenda_item_of_def agenda_next_action_def ensure_def
          action_matches_state_def identity_absent_def Let_def)
  next
    case (Some t)
    then have "t \<in> set ts" by (auto simp: next_action_def find_Some_iff)
    with task_snapshots_facts(3) [OF ts] have t: "t \<in> tasks_in E" by blast
    have "text_within 36 (t_id t)" using tasks_in_valid [OF t] uuid by (simp add: valid_task_def)
    moreover have "text_within 500 (t_title t)"
      using wf t by (simp add: task_wf_def text_within_def Suc_le_eq)
    ultimately have view: "text_within 36 (t_id t)" "text_within 500 (t_title t)"
      "t_id t \<noteq> []" "t_title t \<noteq> []" by (auto simp: text_within_def)
    with cols Some rev item show ?thesis
      by (simp add: agenda_state_of_def agenda_item_of_def agenda_next_action_def ensure_def
          action_matches_state_def identity_absent_def identity_incomplete_def Let_def
          split: option.split)
  qed
  then show "agenda_state_of now te he a \<noteq> InvalidAction"
    "\<exists>i. agenda_item_of now te he a = Inr i" by blast+
qed

text \<open>C35: On every history of the application service whose clock readings never go back the daily queue can be
  built, for every user, day boundary, horizon and limit that the request may carry: the stored next-action columns are
  never incomplete or out of bounds.\<close>

theorem history_agenda_total:
  assumes h: "timeline h" and mono: "clock_monotone h" and days: "1 \<le> horizon_days" "horizon_days \<le> 30"
    and limit: "1 \<le> limit" "limit \<le> 200"
    and day: "now < day_end" "day_end \<le> now + 26 * us_hour"
  shows "\<exists>r. build_agenda (db_applications (latest h)) uid day_end horizon_days limit now = Inr r"
proof -
  let ?apps = "db_applications (latest h)" and ?he = "now + horizon_days * us_day"
  let ?ranked = "ranked_rows visible_state now day_end ?he uid ?apps"
  have rows: "\<exists>clock E. row_ok clock E a" if "a \<in> set ?apps" for a
    using timeline_row [OF h mono that] by blast
  have win: "agenda_window now day_end horizon_days = Inr (day_end, ?he)"
    using day by (simp add: agenda_window_def)
  have inv: "row_count (\<lambda>a. open_for uid a \<and> agenda_state_of now day_end ?he a = InvalidAction) ?apps = 0"
    unfolding row_count_0 using rows row_ok_agenda(1) by blast
  have item: "\<exists>i. agenda_item_of now day_end ?he a = Inr i" if "a \<in> set ?apps" for a
    using rows [OF that] row_ok_agenda(2) by blast
  have "set (take (nat limit) ?ranked) \<subseteq> set ?apps"
    by (auto simp: ranked_rows_def dest!: in_set_takeD)
  with item have "\<forall>a \<in> set (take (nat limit) ?ranked). \<exists>i. agenda_item_of now day_end ?he a = Inr i"
    by blast
  then obtain items where items:
    "map_outcome (agenda_item_of now day_end ?he) (take (nat limit) ?ranked) = Inr items"
    using map_outcome_total by blast
  have len: "length items = min (nat limit) (length ?ranked)"
    using list_all2_lengthD [OF map_outcome_list_all2 [OF items]] by simp
  have ge: "now \<le> ?he" using days by (simp add: us_day_def us_hour_def)
  note vis = visible_rows [OF inv]
  have "length ?ranked = length (filter (\<lambda>a. open_for uid a
      \<and> visible_state (agenda_state_of now day_end ?he a)) ?apps)"
    by (simp add: ranked_rows_def)
  with len have "length items \<le> row_count (open_for uid) ?apps
      - row_count (\<lambda>a. open_for uid a \<and> agenda_state_of now day_end ?he a = Later) ?apps"
    using vis by simp
  with items win inv len days limit ge day vis show ?thesis
    by (simp add: build_agenda_def counts_are_coherent_def Let_def ensure_def)
qed

theorem history_agenda_total_witness:
  "\<exists>r. build_agenda (db_applications (latest sample_history)) 7 200 7 50 100 = Inr r"
  by (rule history_agenda_total [OF sample_timeline sample_monotone]) (simp_all add: us_hour_def)

end
